(* ===== verification/JsValues.thy ===== *)
theory JsValues
  imports Prelude
begin

text \<open>
  The JavaScript values the sources compute with: numbers, JSON values, objects, and the
  conversions \<open>Boolean(v)\<close>, \<open>String(v)\<close>, \<open>Number(v)\<close>, \<open>Number.isInteger(v)\<close>.  A node's
  \<open>config\<close> is a JSON object; \<open>undefined\<close> is the absence of a value, so an optional
  property access has type \<open>json option\<close>.
\<close>

section \<open>Numbers\<close>

text \<open>
  A finite number is written in decimal, \<open>Dec m e\<close> for \<open>m * 10 ^ e\<close>: the digits JavaScript
  prints for it.  Numbers of more than 15 significant digits, where a double is not
  the decimal it was read from, are outside the model; overflow to infinity is inside.
\<close>

datatype number = Dec int int | NaN | PosInf | NegInf

function norm_dec :: "int \<Rightarrow> int \<Rightarrow> number" where
  "norm_dec m e = (if m = 0 then Dec 0 0 else if m mod 10 = 0 then norm_dec (m div 10) (e + 1) else Dec m e)"
  by pat_completeness auto
termination
  by (relation "measure (\<lambda>(m, e). nat \<bar>m\<bar>)") auto

declare norm_dec.simps [simp del]

fun num_norm :: "number \<Rightarrow> number" where
  "num_norm (Dec m e) = norm_dec m e"
| "num_norm n = n"

definition double_limit :: int where
  "double_limit = 2 ^ 1024 - 2 ^ 970"

definition mk_num :: "int \<Rightarrow> int \<Rightarrow> number" where
  "mk_num m e =
     (if (if 0 \<le> e then double_limit \<le> \<bar>m\<bar> * 10 ^ nat e else double_limit * 10 ^ nat (- e) \<le> \<bar>m\<bar>)
      then (if 0 < m then PosInf else NegInf) else norm_dec m e)"

definition num_of_int :: "int \<Rightarrow> number" where
  "num_of_int i = norm_dec i 0"

text \<open>\<open>Number.isInteger\<close>, with the integer it is.\<close>

fun num_int :: "number \<Rightarrow> int option" where
  "num_int (Dec m e) =
     (if 0 \<le> e then Some (m * 10 ^ nat e)
      else if m mod 10 ^ nat (- e) = 0 then Some (m div 10 ^ nat (- e)) else None)"
| "num_int _ = None"

fun num_pos :: "number \<Rightarrow> bool" where
  "num_pos (Dec m e) = (0 < m)"
| "num_pos PosInf = True"
| "num_pos _ = False"

fun num_finite :: "number \<Rightarrow> bool" where
  "num_finite (Dec m e) = True"
| "num_finite _ = False"

fun num_truthy :: "number \<Rightarrow> bool" where
  "num_truthy (Dec m e) = (m \<noteq> 0)"
| "num_truthy NaN = False"
| "num_truthy _ = True"

definition dec_digits :: "string \<Rightarrow> int \<Rightarrow> string" where
  "dec_digits s e =
     (let k = int (length s); n = k + e in
      if k \<le> n \<and> n \<le> 21 then s @ replicate (nat (n - k)) (CHR ''0'')
      else if 0 < n \<and> n \<le> 21 then take (nat n) s @ ''.'' @ drop (nat n) s
      else if -6 < n \<and> n \<le> 0 then ''0.'' @ replicate (nat (- n)) (CHR ''0'') @ s
      else let x = n - 1; es = (if x < 0 then ''-'' else ''+'') @ show_nat (nat \<bar>x\<bar>) in
        (if length s = 1 then s else take 1 s @ ''.'' @ drop 1 s) @ ''e'' @ es)"

fun num_to_string :: "number \<Rightarrow> string" where
  "num_to_string NaN = ''NaN''"
| "num_to_string PosInf = ''Infinity''"
| "num_to_string NegInf = ''-Infinity''"
| "num_to_string (Dec m e) =
     (case norm_dec m e of
        Dec m' e' \<Rightarrow> if m' = 0 then ''0''
          else (if m' < 0 then ''-'' else []) @ dec_digits (show_nat (nat \<bar>m'\<bar>)) e'
      | _ \<Rightarrow> [])"

subsection \<open>Number(string)\<close>

definition hex_val :: "char \<Rightarrow> nat option" where
  "hex_val c =
     (let n = of_char c :: nat in
      if 48 \<le> n \<and> n \<le> 57 then Some (n - 48)
      else if 97 \<le> n \<and> n \<le> 102 then Some (n - 87)
      else if 65 \<le> n \<and> n \<le> 70 then Some (n - 55) else None)"

definition read_radix :: "nat \<Rightarrow> string \<Rightarrow> number" where
  "read_radix b s =
     (if s \<noteq> [] \<and> list_all (\<lambda>c. case hex_val c of None \<Rightarrow> False | Some d \<Rightarrow> d < b) s
      then mk_num (int (foldl (\<lambda>n c. b * n + (case hex_val c of None \<Rightarrow> 0 | Some d \<Rightarrow> d)) 0 s)) 0
      else NaN)"

definition parse_exponent :: "string \<Rightarrow> int option" where
  "parse_exponent t =
     (let (neg, ds) = (case t of [] \<Rightarrow> (False, t)
        | c # u \<Rightarrow> if c = CHR ''-'' then (True, u) else if c = CHR ''+'' then (False, u) else (False, t))
      in if ds \<noteq> [] \<and> list_all is_digit ds
         then Some (if neg then - int (read_nat ds) else int (read_nat ds)) else None)"

definition parse_decimal :: "string \<Rightarrow> (int \<times> int) option" where
  "parse_decimal s =
     (let ip = takeWhile is_digit s; r = dropWhile is_digit s;
          (fp, r2) = (case r of [] \<Rightarrow> ([], r)
             | c # t \<Rightarrow> if c = CHR ''.'' then (takeWhile is_digit t, dropWhile is_digit t) else ([], r))
      in if ip = [] \<and> fp = [] then None
         else let m = int (read_nat (ip @ fp)); k = int (length fp) in
           (case r2 of [] \<Rightarrow> Some (m, - k)
            | c # t \<Rightarrow> if c = CHR ''e'' \<or> c = CHR ''E''
                then map_option (\<lambda>x. (m, x - k)) (parse_exponent t) else None))"

definition string_to_number :: "string \<Rightarrow> number" where
  "string_to_number str =
     (let s = trim str in
      if s = [] then Dec 0 0
      else if s = ''Infinity'' \<or> s = ''+Infinity'' then PosInf
      else if s = ''-Infinity'' then NegInf
      else if take 2 s = ''0x'' \<or> take 2 s = ''0X'' then read_radix 16 (drop 2 s)
      else if take 2 s = ''0o'' \<or> take 2 s = ''0O'' then read_radix 8 (drop 2 s)
      else if take 2 s = ''0b'' \<or> take 2 s = ''0B'' then read_radix 2 (drop 2 s)
      else let (neg, u) = (if hd s = CHR ''-'' then (True, tl s)
                           else if hd s = CHR ''+'' then (False, tl s) else (False, s)) in
        (case parse_decimal u of None \<Rightarrow> NaN
         | Some (m, e) \<Rightarrow> mk_num (if neg then - m else m) e))"

section \<open>JSON values\<close>

datatype json =
    JNull
  | JBool bool
  | JNum number
  | JStr string
  | JArr "json list"
  | JObj "(string \<times> json) list"

type_synonym config = "(string \<times> json) list"

fun intercalate :: "string \<Rightarrow> string list \<Rightarrow> string" where
  "intercalate sep [] = []"
| "intercalate sep [x] = x"
| "intercalate sep (x # xs) = x @ sep @ intercalate sep xs"

text \<open>\<open>Boolean(v)\<close>, where \<open>None\<close> is \<open>undefined\<close>.\<close>

fun truthy :: "json option \<Rightarrow> bool" where
  "truthy None = False"
| "truthy (Some JNull) = False"
| "truthy (Some (JBool b)) = b"
| "truthy (Some (JNum n)) = num_truthy n"
| "truthy (Some (JStr s)) = (s \<noteq> [])"
| "truthy (Some (JArr xs)) = True"
| "truthy (Some (JObj kvs)) = True"

text \<open>\<open>String(v)\<close>; an array is its elements joined by commas, \<open>null\<close> elements empty.\<close>

fun jstr :: "json \<Rightarrow> string" where
  "jstr JNull = ''null''"
| "jstr (JBool b) = (if b then ''true'' else ''false'')"
| "jstr (JNum n) = num_to_string n"
| "jstr (JStr s) = s"
| "jstr (JArr xs) = intercalate '','' (map (\<lambda>x. if x = JNull then [] else jstr x) xs)"
| "jstr (JObj kvs) = ''[object Object]''"

definition js_string :: "json option \<Rightarrow> string" where
  "js_string v = (case v of None \<Rightarrow> ''undefined'' | Some j \<Rightarrow> jstr j)"

text \<open>\<open>Number(v)\<close>.\<close>

fun js_number :: "json option \<Rightarrow> number" where
  "js_number None = NaN"
| "js_number (Some JNull) = Dec 0 0"
| "js_number (Some (JBool b)) = (if b then Dec 1 0 else Dec 0 0)"
| "js_number (Some (JNum n)) = n"
| "js_number (Some (JStr s)) = string_to_number s"
| "js_number (Some (JArr xs)) = string_to_number (jstr (JArr xs))"
| "js_number (Some (JObj kvs)) = NaN"

text \<open>The recurring forms \<open>String(v || '')\<close>, its trimmed variant, \<open>v || 0\<close> and \<open>a ?? b\<close>.\<close>

definition str_or_empty :: "json option \<Rightarrow> string" where
  "str_or_empty v = (if truthy v then js_string v else [])"

definition str_trim :: "json option \<Rightarrow> string" where
  "str_trim v = trim (str_or_empty v)"

definition num_or_zero :: "json option \<Rightarrow> number" where
  "num_or_zero v = (if truthy v then js_number v else Dec 0 0)"

definition nullish :: "json option \<Rightarrow> bool" where
  "nullish v \<longleftrightarrow> v = None \<or> v = Some JNull"

definition js_coalesce :: "json option \<Rightarrow> json option \<Rightarrow> json option" where
  "js_coalesce a b = (if nullish a then b else a)"

text \<open>\<open>v === undefined || v === null || v === ''\<close>.\<close>

definition is_blank :: "json option \<Rightarrow> bool" where
  "is_blank v \<longleftrightarrow> nullish v \<or> v = Some (JStr [])"

section \<open>Objects\<close>

text \<open>
  Objects are association lists in property order; assigning a new property appends it.
\<close>

definition obj_get :: "config \<Rightarrow> string \<Rightarrow> json option" where
  "obj_get kvs k = map_of kvs k"

fun obj_set :: "string \<Rightarrow> json \<Rightarrow> config \<Rightarrow> config" where
  "obj_set k v [] = [(k, v)]"
| "obj_set k v ((k', v') # kvs) = (if k' = k then (k, v) # kvs else (k', v') # obj_set k v kvs)"

definition obj_del :: "string \<Rightarrow> config \<Rightarrow> config" where
  "obj_del k kvs = filter (\<lambda>(k', _). k' \<noteq> k) kvs"

text \<open>\<open>Object.fromEntries\<close>: a later entry replaces an earlier one with the same key.\<close>

definition from_entries :: "(string \<times> json) list \<Rightarrow> config" where
  "from_entries es = foldl (\<lambda>kvs (k, v). obj_set k v kvs) [] es"

text \<open>
  The contract of every keyed store the sources use: JavaScript objects, \<open>Map\<close>s of live
  sessions and waiters, and Redis string keys.
\<close>

locale keyed_store =
  fixes get :: "'s \<Rightarrow> 'k \<Rightarrow> 'v option"
    and set_key :: "'k \<Rightarrow> 'v \<Rightarrow> 's \<Rightarrow> 's"
    and del_key :: "'k \<Rightarrow> 's \<Rightarrow> 's"
  assumes get_set: "get (set_key k v s) = (get s)(k \<mapsto> v)"
    and get_del: "get (del_key k s) = (get s)(k := None)"
begin

lemma get_set_same [simp]: "get (set_key k v s) k = Some v"
  by (simp add: get_set)

lemma get_set_other [simp]: "k' \<noteq> k \<Longrightarrow> get (set_key k v s) k' = get s k'"
  by (simp add: get_set)

lemma get_del_same [simp]: "get (del_key k s) k = None"
  by (simp add: get_del)

lemma get_del_other [simp]: "k' \<noteq> k \<Longrightarrow> get (del_key k s) k' = get s k'"
  by (simp add: get_del)

lemma set_set_same: "get (set_key k v (set_key k w s)) = get (set_key k v s)"
  by (simp add: get_set)

lemma del_set: "get (del_key k (set_key k v s)) = get (del_key k s)"
  by (simp add: get_set get_del)

lemma set_comm: "k \<noteq> l \<Longrightarrow> get (set_key k v (set_key l w s)) = get (set_key l w (set_key k v s))"
  by (auto simp: get_set)

lemma dom_set: "dom (get (set_key k v s)) = insert k (dom (get s))"
  by (simp add: get_set)

lemma dom_del: "dom (get (del_key k s)) = dom (get s) - {k}"
  by (simp add: get_del)

end

lemma obj_get_set: "obj_get (obj_set k v kvs) = (obj_get kvs)(k \<mapsto> v)"
proof
  fix x
  show "obj_get (obj_set k v kvs) x = ((obj_get kvs)(k \<mapsto> v)) x"
    by (induction kvs) (auto simp: obj_get_def)
qed

lemma obj_get_del: "obj_get (obj_del k kvs) = (obj_get kvs)(k := None)"
proof
  fix x
  show "obj_get (obj_del k kvs) x = ((obj_get kvs)(k := None)) x"
    by (induction kvs) (auto simp: obj_get_def obj_del_def)
qed

interpretation obj: keyed_store obj_get obj_set obj_del
  by unfold_locales (rule obj_get_set, rule obj_get_del)

lemma obj_set_keys: "set (map fst (obj_set k v kvs)) = insert k (set (map fst kvs))"
  by (induction k v kvs rule: obj_set.induct) (simp_all add: insert_commute)

lemma distinct_obj_set: "distinct (map fst kvs) \<Longrightarrow> distinct (map fst (obj_set k v kvs))"
proof (induction kvs)
  case Nil
  then show ?case by simp
next
  case (Cons kv kvs)
  obtain k' v' where kv: "kv = (k', v')" by (cases kv)
  show ?case
  proof (cases "k' = k")
    case True
    with Cons.prems kv show ?thesis by simp
  next
    case False
    with Cons kv have "k' \<notin> set (map fst (obj_set k v kvs))"
      by (simp add: obj_set_keys del: set_map)
    with False Cons kv show ?thesis by simp
  qed
qed

lemma distinct_obj_del: "distinct (map fst kvs) \<Longrightarrow> distinct (map fst (obj_del k kvs))"
  by (simp add: obj_del_def distinct_map_filter case_prod_beta)

lemma distinct_from_entries: "distinct (map fst (from_entries es))"
proof -
  have "distinct (map fst kvs) \<Longrightarrow>
      distinct (map fst (foldl (\<lambda>kvs (k, v). obj_set k v kvs) kvs es))" for kvs
    by (induction es arbitrary: kvs) (auto simp: distinct_obj_set)
  then show ?thesis by (simp add: from_entries_def)
qed

section \<open>Facts about the conversions\<close>

lemma str_trim_None [simp]: "str_trim None = []"
  by (simp add: str_trim_def str_or_empty_def)

lemma str_trim_JStr [simp]: "str_trim (Some (JStr s)) = trim s"
  by (simp add: str_trim_def str_or_empty_def js_string_def)

lemma is_blank_simps [simp]:
  "is_blank None" "is_blank (Some JNull)" "is_blank (Some (JStr []))"
  "\<not> is_blank (Some (JNum n))"
  by (simp_all add: is_blank_def nullish_def)

lemma nullish_simps [simp]:
  "nullish None" "nullish (Some JNull)" "\<not> nullish (Some (JNum n))" "\<not> nullish (Some (JStr s))"
  by (simp_all add: nullish_def)

text \<open>Normalisation keeps the value, so an integer printed and read back is the same integer.\<close>

lemma num_int_Dec_step:
  assumes "m mod 10 = 0"
  shows "num_int (Dec (m div 10) (e + 1)) = num_int (Dec m e)"
proof (cases "0 \<le> e")
  case True
  have "m div 10 * 10 ^ nat (e + 1) = m * 10 ^ nat e"
    using assms True by (simp add: nat_add_distrib) (metis dvd_div_mult_self dvd_eq_mod_eq_0 mult.assoc mult.commute)
  with True show ?thesis by simp
next
  case False
  obtain n where m: "m = 10 * n" using assms by (auto elim: dvdE simp: mod_eq_0_iff_dvd)
  obtain k where k: "nat (- e) = Suc k" using False by (cases "nat (- e)") auto
  then have k': "nat (- (e + 1)) = k" by simp
  have "(0 \<le> e + 1) = (k = 0)" using k False by auto
  then show ?thesis using False m k k' by simp
qed

lemma num_int_norm_dec [simp]: "num_int (norm_dec m e) = num_int (Dec m e)"
proof (induction m e rule: norm_dec.induct)
  case (1 m e)
  show ?case
  proof (cases "m = 0 \<or> m mod 10 \<noteq> 0")
    case True
    then show ?thesis by (auto simp: norm_dec.simps [of m e])
  next
    case False
    with 1 have "num_int (norm_dec (m div 10) (e + 1)) = num_int (Dec (m div 10) (e + 1))"
      by simp
    with False show ?thesis
      by (simp add: norm_dec.simps [of m e] num_int_Dec_step del: num_int.simps)
  qed
qed

lemma num_int_num_of_int [simp]: "num_int (num_of_int i) = Some i"
  by (simp add: num_of_int_def)

lemma num_pos_norm_dec [simp]: "num_pos (norm_dec m e) = (0 < m)"
proof (induction m e rule: norm_dec.induct)
  case (1 m e)
  show ?case
  proof (cases "m = 0 \<or> m mod 10 \<noteq> 0")
    case True
    then show ?thesis by (auto simp: norm_dec.simps [of m e])
  next
    case False
    with 1 show ?thesis
      by (auto simp: norm_dec.simps [of m e])
  qed
qed

lemma num_pos_int: "num_int n = Some i \<Longrightarrow> num_pos n \<longleftrightarrow> 0 < i"
proof (cases n)
  case (Dec m e)
  assume "num_int n = Some i"
  then show ?thesis using Dec
    by (auto simp: zero_less_mult_iff pos_imp_zdiv_pos_iff mod_eq_0_iff_dvd split: if_splits)
qed simp_all

end
