(* ===== verification/FlowModel.thy ===== *)
theory FlowModel
  imports JsValues
begin

text \<open>
  The data of the flow editor: the TypeORM entities of \<open>flows/entities\<close>, the request DTOs of
  \<open>flows/dto\<close>, the version snapshots, and the five tables both processes share.  A table is
  the list of its rows in the order of their ids; a query with equality conditions is a filter
  of that list.  A write checks the constraints the SQL migrations declare and is refused
  with \<open>DbConstraint\<close> when it breaks one.
\<close>

section \<open>Entities and request bodies\<close>

text \<open>A nullable column or an optional property is an \<open>option\<close>.  Timestamps are natural numbers.\<close>

record call_flow =
  cf_id :: int
  cf_name :: string
  cf_slug :: string
  cf_description :: "string option"
  cf_status :: string
  cf_entryType :: string
  cf_entryValue :: "string option"
  cf_currentVersionId :: "int option"
  cf_parentFlowId :: "int option"
  cf_parentNodeKey :: "string option"
  cf_parentBranchKey :: "string option"
  cf_isTemplate :: bool
  cf_templateDescription :: "string option"
  cf_templateCategory :: "string option"
  cf_createdAt :: nat
  cf_updatedAt :: nat

record flow_node =
  fn_id :: int
  fn_flowVersionId :: "int option"
  fn_nodeKey :: string
  fn_type :: string
  fn_label :: "string option"
  fn_positionX :: number
  fn_positionY :: number
  fn_configJson :: config
  fn_groupId :: "string option"
  fn_subflowId :: "int option"

record flow_edge =
  fe_id :: int
  fe_flowVersionId :: "int option"
  fe_sourceNodeKey :: string
  fe_targetNodeKey :: string
  fe_branchKey :: string
  fe_condition :: "string option"
  fe_sourceHandle :: "string option"
  fe_targetHandle :: "string option"

record node_dto =
  nd_nodeKey :: string
  nd_type :: string
  nd_label :: "string option"
  nd_positionX :: "number option"
  nd_positionY :: "number option"
  nd_config :: "config option"
  nd_groupId :: "string option"
  nd_subflowId :: "int option"

record edge_dto =
  ed_sourceNodeKey :: string
  ed_targetNodeKey :: string
  ed_branchKey :: "string option"
  ed_condition :: "string option"
  ed_sourceHandle :: "string option"
  ed_targetHandle :: "string option"

record create_flow_dto =
  d_name :: string
  d_description :: "string option"
  d_slug :: "string option"
  d_versionMessage :: "string option"
  d_parentFlowId :: "int option"
  d_parentNodeKey :: "string option"
  d_parentBranchKey :: "string option"
  d_nodes :: "node_dto list"
  d_edges :: "edge_dto list"

record update_flow_dto = create_flow_dto +
  d_autoSave :: "bool option"

record snap_node =
  sn_nodeKey :: string
  sn_type :: string
  sn_label :: "string option"
  sn_positionX :: number
  sn_positionY :: number
  sn_config :: config
  sn_groupId :: "string option"
  sn_subflowId :: "int option"

record snap_edge =
  se_sourceNodeKey :: string
  se_targetNodeKey :: string
  se_branchKey :: string
  se_condition :: "string option"
  se_sourceHandle :: "string option"
  se_targetHandle :: "string option"

text \<open>
  \<open>FlowVersionSnapshot\<close> and \<open>FlowVersionSubflowSnapshot\<close>: the second is the first with the flow id
  and the name always present.
\<close>

datatype snapshot =
  Snapshot (ss_flowId: "int option") (ss_name: "string option")
    (ss_nodes: "snap_node list") (ss_edges: "snap_edge list") (ss_subflows: "snapshot list option")

record flow_version =
  fv_id :: int
  fv_flowId :: "int option"
  fv_versionNumber :: int
  fv_isPublished :: bool
  fv_publishedAt :: "nat option"
  fv_message :: "string option"
  fv_snapshot :: "snapshot option"
  fv_nodeCount :: "int option"
  fv_createdAt :: nat

text \<open>A row of \<open>call_node_logs\<close>; \<open>nl_open\<close> is \<open>exited_at IS NULL\<close>.\<close>

record node_log =
  nl_callUuid :: string
  nl_flowId :: int
  nl_nodeKey :: string
  nl_nodeType :: string
  nl_open :: bool
  nl_exitBranch :: "string option"
  nl_errorMessage :: "string option"

record flow_db =
  call_flows :: "call_flow list"
  flow_versions :: "flow_version list"
  flow_nodes :: "flow_node list"
  flow_edges :: "flow_edge list"
  call_node_logs :: "node_log list"
  next_flow_id :: int
  next_version_id :: int
  next_node_id :: int
  next_edge_id :: int

section \<open>Queries\<close>

definition find_flow :: "flow_db \<Rightarrow> int \<Rightarrow> call_flow option" where
  "find_flow db i = List.find (\<lambda>f. cf_id f = i) (call_flows db)"

definition find_version :: "flow_db \<Rightarrow> int \<Rightarrow> flow_version option" where
  "find_version db i = List.find (\<lambda>v. fv_id v = i) (flow_versions db)"

definition versions_of :: "flow_db \<Rightarrow> int \<Rightarrow> flow_version list" where
  "versions_of db fid = filter (\<lambda>v. fv_flowId v = Some fid) (flow_versions db)"

text \<open>\<open>getLatestVersion\<close>: \<open>order: \{ versionNumber: 'DESC' \}\<close>, one row.\<close>

definition getLatestVersion :: "flow_db \<Rightarrow> int \<Rightarrow> flow_version option" where
  "getLatestVersion db fid = max_by fv_versionNumber (versions_of db fid)"

definition getDirectSubflows :: "flow_db \<Rightarrow> int \<Rightarrow> call_flow list" where
  "getDirectSubflows db p = filter (\<lambda>f. cf_parentFlowId f = Some p) (call_flows db)"

definition version_nodes :: "flow_db \<Rightarrow> int \<Rightarrow> flow_node list" where
  "version_nodes db v = filter (\<lambda>n. fn_flowVersionId n = Some v) (flow_nodes db)"

definition version_edges :: "flow_db \<Rightarrow> int \<Rightarrow> flow_edge list" where
  "version_edges db v = filter (\<lambda>e. fe_flowVersionId e = Some v) (flow_edges db)"

section \<open>Writes\<close>

text \<open>Replacing the row with the same key.\<close>

definition replace_row :: "('a \<Rightarrow> int) \<Rightarrow> 'a \<Rightarrow> 'a list \<Rightarrow> 'a list" where
  "replace_row key x xs = map (\<lambda>y. if key y = key x then x else y) xs"

text \<open>
  The constraints on a row of \<open>call_flows\<close>: the slug is unique, the parent exists (a row may
  reference itself), and one child per parent node and branch.
\<close>

definition same_branch :: "call_flow \<Rightarrow> call_flow \<Rightarrow> bool" where
  "same_branch f g \<longleftrightarrow> cf_parentFlowId f \<noteq> None \<and> cf_parentNodeKey f \<noteq> None \<and> cf_parentBranchKey f \<noteq> None
     \<and> cf_parentFlowId g = cf_parentFlowId f \<and> cf_parentNodeKey g = cf_parentNodeKey f
     \<and> cf_parentBranchKey g = cf_parentBranchKey f"

definition flow_row_ok :: "flow_db \<Rightarrow> call_flow \<Rightarrow> bool" where
  "flow_row_ok db f \<longleftrightarrow>
     list_all (\<lambda>g. cf_id g = cf_id f \<or> cf_slug g \<noteq> cf_slug f \<and> \<not> same_branch f g) (call_flows db)
     \<and> (case cf_parentFlowId f of None \<Rightarrow> True
        | Some p \<Rightarrow> p = cf_id f \<or> list_ex (\<lambda>g. cf_id g = p) (call_flows db))"

definition insert_flow :: "call_flow \<Rightarrow> flow_db \<Rightarrow> (call_flow \<times> flow_db) result" where
  "insert_flow f db =
     (let f' = f\<lparr>cf_id := next_flow_id db\<rparr> in
      if flow_row_ok db f'
      then ok (f', db\<lparr>call_flows := call_flows db @ [f'], next_flow_id := next_flow_id db + 1\<rparr>)
      else throw (DbConstraint ''call_flows''))"

definition save_flow :: "call_flow \<Rightarrow> flow_db \<Rightarrow> flow_db result" where
  "save_flow f db =
     (if flow_row_ok db f then ok (db\<lparr>call_flows := replace_row cf_id f (call_flows db)\<rparr>)
      else throw (DbConstraint ''call_flows''))"

text \<open>A version number is unique within its flow.\<close>

definition insert_version :: "flow_version \<Rightarrow> flow_db \<Rightarrow> (flow_version \<times> flow_db) result" where
  "insert_version v db =
     (let v' = v\<lparr>fv_id := next_version_id db\<rparr> in
      if list_ex (\<lambda>w. fv_flowId w = fv_flowId v \<and> fv_versionNumber w = fv_versionNumber v) (flow_versions db)
      then throw (DbConstraint ''flow_versions'')
      else ok (v', db\<lparr>flow_versions := flow_versions db @ [v'], next_version_id := next_version_id db + 1\<rparr>))"

definition save_version :: "flow_version \<Rightarrow> flow_db \<Rightarrow> flow_db" where
  "save_version v db = db\<lparr>flow_versions := replace_row fv_id v (flow_versions db)\<rparr>"

text \<open>Rows get consecutive ids in the order of the inserted entities.\<close>

fun number_nodes :: "int \<Rightarrow> flow_node list \<Rightarrow> flow_node list" where
  "number_nodes i [] = []"
| "number_nodes i (n # ns) = n\<lparr>fn_id := i\<rparr> # number_nodes (i + 1) ns"

fun number_edges :: "int \<Rightarrow> flow_edge list \<Rightarrow> flow_edge list" where
  "number_edges i [] = []"
| "number_edges i (e # es) = e\<lparr>fe_id := i\<rparr> # number_edges (i + 1) es"

text \<open>\<open>flow_nodes.subflow_id\<close> references \<open>call_flows\<close>.\<close>

definition node_row_ok :: "flow_db \<Rightarrow> flow_node \<Rightarrow> bool" where
  "node_row_ok db n = (case fn_subflowId n of None \<Rightarrow> True
     | Some s \<Rightarrow> list_ex (\<lambda>f. cf_id f = s) (call_flows db))"

definition insert_nodes :: "flow_node list \<Rightarrow> flow_db \<Rightarrow> flow_db result" where
  "insert_nodes ns db =
     (if list_all (node_row_ok db) ns
      then ok (db\<lparr>flow_nodes := flow_nodes db @ number_nodes (next_node_id db) ns,
                  next_node_id := next_node_id db + int (length ns)\<rparr>)
      else throw (DbConstraint ''flow_nodes''))"

definition insert_edges :: "flow_edge list \<Rightarrow> flow_db \<Rightarrow> flow_db" where
  "insert_edges es db = db\<lparr>flow_edges := flow_edges db @ number_edges (next_edge_id db) es,
     next_edge_id := next_edge_id db + int (length es)\<rparr>"

definition delete_version_rows :: "int \<Rightarrow> flow_db \<Rightarrow> flow_db" where
  "delete_version_rows v db =
     db\<lparr>flow_edges := filter (\<lambda>e. fe_flowVersionId e \<noteq> Some v) (flow_edges db),
        flow_nodes := filter (\<lambda>n. fn_flowVersionId n \<noteq> Some v) (flow_nodes db)\<rparr>"

section \<open>Invariant\<close>

text \<open>
  Ids are positive, increasing and below the sequence; slugs and version numbers are unique; a
  flow's current version is a version of that flow; every version has its flow, every
  node and edge its version; parents exist.
\<close>

definition ids_ok :: "int \<Rightarrow> int list \<Rightarrow> bool" where
  "ids_ok next ids \<longleftrightarrow> sorted_wrt (<) ids \<and> (\<forall>i \<in> set ids. 0 < i \<and> i < next) \<and> 0 < next"

definition flows_ok :: "flow_db \<Rightarrow> bool" where
  "flows_ok db \<longleftrightarrow> ids_ok (next_flow_id db) (map cf_id (call_flows db))
     \<and> distinct (map cf_slug (call_flows db))
     \<and> (\<forall>f \<in> set (call_flows db). \<forall>p. cf_parentFlowId f = Some p \<longrightarrow> p \<in> cf_id ` set (call_flows db))"

definition versions_ok :: "flow_db \<Rightarrow> bool" where
  "versions_ok db \<longleftrightarrow> ids_ok (next_version_id db) (map fv_id (flow_versions db))
     \<and> distinct (map (\<lambda>v. (fv_flowId v, fv_versionNumber v)) (flow_versions db))
     \<and> (\<forall>v \<in> set (flow_versions db). fv_flowId v \<in> Some ` cf_id ` set (call_flows db))"

definition current_ok :: "flow_db \<Rightarrow> bool" where
  "current_ok db \<longleftrightarrow> (\<forall>f \<in> set (call_flows db). \<forall>i. cf_currentVersionId f = Some i \<longrightarrow>
     (\<exists>v \<in> set (flow_versions db). fv_id v = i \<and> fv_flowId v = Some (cf_id f)))"

definition rows_ok :: "flow_db \<Rightarrow> bool" where
  "rows_ok db \<longleftrightarrow>
     (\<forall>n \<in> set (flow_nodes db). fn_flowVersionId n \<in> Some ` fv_id ` set (flow_versions db))
     \<and> (\<forall>e \<in> set (flow_edges db). fe_flowVersionId e \<in> Some ` fv_id ` set (flow_versions db))"

definition db_inv :: "flow_db \<Rightarrow> bool" where
  "db_inv db \<longleftrightarrow> flows_ok db \<and> versions_ok db \<and> current_ok db \<and> rows_ok db"

definition empty_db :: flow_db where
  "empty_db = \<lparr>call_flows = [], flow_versions = [], flow_nodes = [], flow_edges = [],
     call_node_logs = [], next_flow_id = 1, next_version_id = 1, next_node_id = 1, next_edge_id = 1\<rparr>"

end
