(* ===== verification/FlowStore.thy ===== *)
theory FlowStore
  imports FlowModel
begin

text \<open>
  What the tables hold after each write, and that every write keeps \<open>db_inv\<close>.  The service
  operations are compositions of these writes, so their proofs rest on this theory.
\<close>

section \<open>Rows and keys\<close>

lemma replace_row_keys [simp]: "map key (replace_row key x xs) = map key xs"
  by (induction xs) (auto simp: replace_row_def)

lemma replace_row_key_set: "key ` set (replace_row key x xs) = key ` set xs"
  by (induction xs) (auto simp: replace_row_def)

lemma replace_row_Cons [simp]:
  "replace_row key x (y # ys) = (if key y = key x then x else y) # replace_row key x ys"
  "replace_row key x [] = []"
  by (simp_all add: replace_row_def)

lemma replace_row_set:
  "set (replace_row key x xs) \<subseteq> insert x {y \<in> set xs. key y \<noteq> key x}"
  by (auto simp: replace_row_def)

lemma replace_row_mem: "key x \<in> key ` set xs \<Longrightarrow> x \<in> set (replace_row key x xs)"
  by (force simp: replace_row_def)

lemma replace_row_keep: "y \<in> set xs \<Longrightarrow> key y \<noteq> key x \<Longrightarrow> y \<in> set (replace_row key x xs)"
  by (force simp: replace_row_def)

lemma replace_row_id: "(\<And>y. y \<in> set xs \<Longrightarrow> key y = key x \<Longrightarrow> y = x) \<Longrightarrow> replace_row key x xs = xs"
  by (induction xs) (auto simp: replace_row_def)

lemma filter_replace_row_other:
  "\<not> P x \<Longrightarrow> (\<And>y. y \<in> set xs \<Longrightarrow> key y = key x \<Longrightarrow> \<not> P y) \<Longrightarrow>
     filter P (replace_row key x xs) = filter P xs"
  by (induction xs) (auto simp: replace_row_def)

lemma find_replace_row_same:
  "key x \<in> set (map key xs) \<Longrightarrow> List.find (\<lambda>y. key y = key x) (replace_row key x xs) = Some x"
  by (induction xs) auto

lemma find_replace_row_other:
  "i \<noteq> key x \<Longrightarrow> List.find (\<lambda>y. key y = i) (replace_row key x xs) = List.find (\<lambda>y. key y = i) xs"
  by (induction xs) auto

lemma ids_ok_distinct: "ids_ok n ids \<Longrightarrow> distinct ids"
  by (simp add: ids_ok_def strict_sorted_iff)

lemma ids_ok_append: "ids_ok n ids \<Longrightarrow> ids_ok (n + 1) (ids @ [n])"
  by (auto simp: ids_ok_def sorted_wrt_append)

lemma ids_ok_filter: "ids_ok n (map f xs) \<Longrightarrow> ids_ok n (map f (filter P xs))"
  by (auto simp: ids_ok_def sorted_wrt_map intro: sorted_wrt_filter)

lemma find_flow_Some: "find_flow db i = Some f \<Longrightarrow> f \<in> set (call_flows db) \<and> cf_id f = i"
  by (auto simp: find_flow_def dest: find_Some_iff')

lemma find_flow_None: "find_flow db i = None \<longleftrightarrow> i \<notin> cf_id ` set (call_flows db)"
  by (auto simp: find_flow_def find_None_iff')

lemma find_version_Some: "find_version db i = Some v \<Longrightarrow> v \<in> set (flow_versions db) \<and> fv_id v = i"
  by (auto simp: find_version_def dest: find_Some_iff')

lemma flow_ids_distinct: "flows_ok db \<Longrightarrow> distinct (map cf_id (call_flows db))"
  by (auto simp: flows_ok_def dest: ids_ok_distinct)

lemma version_ids_distinct: "versions_ok db \<Longrightarrow> distinct (map fv_id (flow_versions db))"
  by (auto simp: versions_ok_def dest: ids_ok_distinct)

lemma find_flow_mem:
  "flows_ok db \<Longrightarrow> f \<in> set (call_flows db) \<Longrightarrow> find_flow db (cf_id f) = Some f"
  unfolding find_flow_def by (rule find_unique) (rule flow_ids_distinct)

lemma find_version_mem:
  "versions_ok db \<Longrightarrow> v \<in> set (flow_versions db) \<Longrightarrow> find_version db (fv_id v) = Some v"
  unfolding find_version_def by (rule find_unique) (rule version_ids_distinct)

lemma flow_eq_if_same_id:
  "flows_ok db \<Longrightarrow> f \<in> set (call_flows db) \<Longrightarrow> g \<in> set (call_flows db) \<Longrightarrow> cf_id f = cf_id g \<Longrightarrow> f = g"
  using flow_ids_distinct by (auto simp: distinct_map inj_on_def)

lemma version_eq_if_same_id:
  "versions_ok db \<Longrightarrow> v \<in> set (flow_versions db) \<Longrightarrow> w \<in> set (flow_versions db) \<Longrightarrow> fv_id v = fv_id w \<Longrightarrow> v = w"
  using version_ids_distinct by (auto simp: distinct_map inj_on_def)

lemma getLatestVersion_Some:
  "getLatestVersion db fid = Some v \<Longrightarrow> v \<in> set (flow_versions db) \<and> fv_flowId v = Some fid
     \<and> (\<forall>w \<in> set (flow_versions db). fv_flowId w = Some fid \<longrightarrow> fv_versionNumber w \<le> fv_versionNumber v)"
  by (auto simp: getLatestVersion_def versions_of_def dest!: max_by_Some)

lemma getLatestVersion_None:
  "getLatestVersion db fid = None \<longleftrightarrow> (\<forall>w \<in> set (flow_versions db). fv_flowId w \<noteq> Some fid)"
  by (auto simp: getLatestVersion_def versions_of_def filter_empty_conv)

section \<open>Fields after a write\<close>

lemma number_nodes_map: "(\<And>n i. h (n\<lparr>fn_id := i\<rparr>) = h n) \<Longrightarrow> map h (number_nodes i ns) = map h ns"
  by (induction i ns rule: number_nodes.induct) auto

lemma number_edges_map: "(\<And>e i. h (e\<lparr>fe_id := i\<rparr>) = h e) \<Longrightarrow> map h (number_edges i es) = map h es"
  by (induction i es rule: number_edges.induct) auto

lemma number_nodes_filter:
  "(\<And>n i. P (n\<lparr>fn_id := i\<rparr>) = P n) \<Longrightarrow>
     filter P (number_nodes i ns) = (if \<forall>n \<in> set ns. P n then number_nodes i ns else filter P (number_nodes i ns))"
  by (induction i ns rule: number_nodes.induct) auto

lemma number_nodes_set: "n \<in> set (number_nodes i ns) \<Longrightarrow> \<exists>m \<in> set ns. \<exists>j. n = m\<lparr>fn_id := j\<rparr>"
  by (induction i ns rule: number_nodes.induct) auto

lemma number_edges_set: "e \<in> set (number_edges i es) \<Longrightarrow> \<exists>m \<in> set es. \<exists>j. e = m\<lparr>fe_id := j\<rparr>"
  by (induction i es rule: number_edges.induct) auto

lemma insert_flow_okD:
  assumes "insert_flow f db = Inr (f', db')"
  shows "f' = f\<lparr>cf_id := next_flow_id db\<rparr>" and "flow_row_ok db f'"
    and "db' = db\<lparr>call_flows := call_flows db @ [f'], next_flow_id := next_flow_id db + 1\<rparr>"
  using assms by (auto simp: insert_flow_def Let_def split: if_splits)

lemma save_flow_okD:
  assumes "save_flow f db = Inr db'"
  shows "flow_row_ok db f" and "db' = db\<lparr>call_flows := replace_row cf_id f (call_flows db)\<rparr>"
  using assms by (auto simp: save_flow_def split: if_splits)

lemma insert_version_okD:
  assumes "insert_version v db = Inr (v', db')"
  shows "v' = v\<lparr>fv_id := next_version_id db\<rparr>"
    and "db' = db\<lparr>flow_versions := flow_versions db @ [v'], next_version_id := next_version_id db + 1\<rparr>"
    and "\<forall>w \<in> set (flow_versions db). fv_flowId w = fv_flowId v \<longrightarrow> fv_versionNumber w \<noteq> fv_versionNumber v"
  using assms by (auto simp: insert_version_def Let_def list_ex_iff split: if_splits)

lemma insert_nodes_okD:
  assumes "insert_nodes ns db = Inr db'"
  shows "db' = db\<lparr>flow_nodes := flow_nodes db @ number_nodes (next_node_id db) ns,
                  next_node_id := next_node_id db + int (length ns)\<rparr>"
  using assms by (auto simp: insert_nodes_def split: if_splits)

section \<open>Every write keeps the invariant\<close>

lemma flow_row_ok_parent:
  "flow_row_ok db f \<Longrightarrow> cf_parentFlowId f = Some p \<Longrightarrow> p = cf_id f \<or> p \<in> cf_id ` set (call_flows db)"
  by (auto simp: flow_row_ok_def list_ex_iff)

lemma flow_row_ok_slug:
  "flow_row_ok db f \<Longrightarrow> g \<in> set (call_flows db) \<Longrightarrow> cf_slug g = cf_slug f \<Longrightarrow> cf_id g = cf_id f"
  by (auto simp: flow_row_ok_def list_all_iff)

lemma next_flow_id_fresh: "flows_ok db \<Longrightarrow> f \<in> set (call_flows db) \<Longrightarrow> cf_id f < next_flow_id db"
  by (auto simp: flows_ok_def ids_ok_def)

lemma next_version_id_fresh: "versions_ok db \<Longrightarrow> v \<in> set (flow_versions db) \<Longrightarrow> fv_id v < next_version_id db"
  by (auto simp: versions_ok_def ids_ok_def)

lemma insert_flow_inv:
  assumes inv: "db_inv db" and ins: "insert_flow f db = Inr (f', db')" and cur: "cf_currentVersionId f = None"
  shows "db_inv db'"
proof -
  note d = insert_flow_okD [OF ins]
  have fl: "flows_ok db" using inv by (simp add: db_inv_def)
  have slug: "cf_slug f' \<notin> cf_slug ` set (call_flows db)"
    using flow_row_ok_slug [OF d(2)] next_flow_id_fresh [OF fl] d(1) by fastforce
  have ids: "ids_ok (next_flow_id db + 1) (map cf_id (call_flows db @ [f']))"
    using fl ids_ok_append d(1) by (auto simp: flows_ok_def)
  have par: "\<forall>g \<in> set (call_flows db @ [f']). \<forall>p. cf_parentFlowId g = Some p \<longrightarrow>
      p \<in> cf_id ` set (call_flows db @ [f'])"
    using fl flow_row_ok_parent [OF d(2)] by (auto simp: flows_ok_def)
  have "flows_ok db'"
    using fl slug ids par d(3) by (simp add: flows_ok_def)
  moreover have "versions_ok db'" "current_ok db'" "rows_ok db'"
    using inv cur d by (auto simp: db_inv_def versions_ok_def current_ok_def rows_ok_def)
  ultimately show ?thesis by (simp add: db_inv_def)
qed

lemma replace_row_inj:
  assumes "distinct (map h xs)" and "\<And>y. y \<in> set xs \<Longrightarrow> h y = h x \<Longrightarrow> key y = key x"
    and "distinct (map key xs)"
  shows "distinct (map h (replace_row key x xs))"
  using assms
proof (induction xs)
  case Nil
  then show ?case by (simp add: replace_row_def)
next
  case (Cons a xs)
  have sub: "h ` set (replace_row key x xs) \<subseteq> insert (h x) (h ` set xs)"
    by (auto simp: replace_row_def)
  show ?case
  proof (cases "key a = key x")
    case True
    then have "\<forall>y \<in> set xs. key y \<noteq> key x" using Cons.prems(3) by (auto simp: image_iff)
    then have eq: "replace_row key x xs = xs" by (intro replace_row_id) auto
    have "h x \<notin> h ` set xs"
      using Cons.prems(2) True Cons.prems(3) by (force simp: image_iff)
    with Cons.prems True eq show ?thesis by simp
  next
    case False
    then have "h a \<noteq> h x" using Cons.prems(2) by auto
    with sub Cons.prems have "h a \<notin> h ` set (replace_row key x xs)" by auto
    with Cons False show ?thesis by simp
  qed
qed

lemma save_flow_inv:
  assumes inv: "db_inv db" and sv: "save_flow f db = Inr db'"
    and ex: "cf_id f \<in> cf_id ` set (call_flows db)"
    and cur: "\<And>i. cf_currentVersionId f = Some i \<Longrightarrow>
      \<exists>v \<in> set (flow_versions db). fv_id v = i \<and> fv_flowId v = Some (cf_id f)"
  shows "db_inv db'"
proof -
  note d = save_flow_okD [OF sv]
  have fl: "flows_ok db" using inv by (simp add: db_inv_def)
  let ?fs = "replace_row cf_id f (call_flows db)"
  have keys: "map cf_id ?fs = map cf_id (call_flows db)" by simp
  have ids: "cf_id ` set ?fs = cf_id ` set (call_flows db)" by (rule replace_row_key_set)
  have sub: "set ?fs \<subseteq> insert f (set (call_flows db))" using replace_row_set by fastforce
  have slug: "distinct (map cf_slug ?fs)"
    using fl flow_row_ok_slug [OF d(1)] flow_ids_distinct [OF fl]
    by (intro replace_row_inj) (auto simp: flows_ok_def)
  have "\<forall>g \<in> insert f (set (call_flows db)). \<forall>p. cf_parentFlowId g = Some p \<longrightarrow> p \<in> cf_id ` set (call_flows db)"
    using fl flow_row_ok_parent [OF d(1)] ex by (auto simp: flows_ok_def)
  then have par: "\<forall>g \<in> set ?fs. \<forall>p. cf_parentFlowId g = Some p \<longrightarrow> p \<in> cf_id ` set ?fs"
    unfolding ids using sub by blast
  have "flows_ok db'"
    using fl slug par d(2) keys by (simp add: flows_ok_def)
  moreover have "current_ok db'"
    using inv cur sub d(2) by (auto simp: db_inv_def current_ok_def)
  moreover have "versions_ok db'" "rows_ok db'"
    using inv ids d(2) by (auto simp: db_inv_def versions_ok_def rows_ok_def)
  ultimately show ?thesis by (simp add: db_inv_def)
qed

lemma insert_version_inv:
  assumes inv: "db_inv db" and ins: "insert_version v db = Inr (v', db')"
    and own: "fv_flowId v = Some fid" "fid \<in> cf_id ` set (call_flows db)"
  shows "db_inv db'"
proof -
  note d = insert_version_okD [OF ins]
  have "ids_ok (next_version_id db + 1) (map fv_id (flow_versions db @ [v']))"
    using inv d(1) ids_ok_append by (auto simp: db_inv_def versions_ok_def)
  moreover have "distinct (map (\<lambda>v. (fv_flowId v, fv_versionNumber v)) (flow_versions db @ [v']))"
    using inv d(1,3) by (auto simp: db_inv_def versions_ok_def)
  ultimately have "versions_ok db'"
    using inv d(1,2) own by (auto simp: db_inv_def versions_ok_def)
  moreover have "flows_ok db'" "current_ok db'" "rows_ok db'"
    using inv d by (auto simp: db_inv_def flows_ok_def current_ok_def rows_ok_def)
  ultimately show ?thesis by (simp add: db_inv_def)
qed

lemma replace_version_map:
  assumes "versions_ok db" and "w \<in> set (flow_versions db)" and "fv_id v = fv_id w" and "h v = h w"
  shows "map h (replace_row fv_id v (flow_versions db)) = map h (flow_versions db)"
proof -
  have "\<And>y. y \<in> set (flow_versions db) \<Longrightarrow> fv_id y = fv_id v \<Longrightarrow> h y = h v"
    using version_eq_if_same_id [OF assms(1) _ assms(2)] assms(3,4) by metis
  then show ?thesis by (auto simp: replace_row_def)
qed

lemma save_version_inv:
  assumes inv: "db_inv db" and old: "w \<in> set (flow_versions db)"
    and same: "fv_id v = fv_id w" "fv_flowId v = fv_flowId w" "fv_versionNumber v = fv_versionNumber w"
  shows "db_inv (save_version v db)"
proof -
  let ?vs = "replace_row fv_id v (flow_versions db)"
  have vs: "versions_ok db" using inv by (simp add: db_inv_def)
  note eq = replace_version_map [OF vs old same(1)]
  have pairs: "(\<lambda>v. (fv_id v, fv_flowId v)) ` set ?vs = (\<lambda>v. (fv_id v, fv_flowId v)) ` set (flow_versions db)"
  proof -
    have "map (\<lambda>v. (fv_id v, fv_flowId v)) ?vs = map (\<lambda>v. (fv_id v, fv_flowId v)) (flow_versions db)"
      by (rule eq) (simp add: same)
    from arg_cong [OF this, of set] show ?thesis by simp
  qed
  have ex: "(\<exists>u \<in> set ?vs. fv_id u = i \<and> fv_flowId u = j) \<longleftrightarrow>
      (\<exists>u \<in> set (flow_versions db). fv_id u = i \<and> fv_flowId u = j)" for i j
  proof -
    have "(i, j) \<in> (\<lambda>v. (fv_id v, fv_flowId v)) ` set ?vs \<longleftrightarrow>
        (i, j) \<in> (\<lambda>v. (fv_id v, fv_flowId v)) ` set (flow_versions db)"
      using pairs by simp
    then show ?thesis by (auto simp: image_iff)
  qed
  have own: "\<forall>u \<in> set ?vs. fv_flowId u \<in> Some ` cf_id ` set (call_flows db)"
  proof
    fix u assume "u \<in> set ?vs"
    then obtain u' where "u' \<in> set (flow_versions db)" "fv_flowId u' = fv_flowId u"
      using ex [of "fv_id u" "fv_flowId u"] by auto
    moreover have "\<forall>v \<in> set (flow_versions db). fv_flowId v \<in> Some ` cf_id ` set (call_flows db)"
      using vs by (simp add: versions_ok_def)
    ultimately show "fv_flowId u \<in> Some ` cf_id ` set (call_flows db)" by metis
  qed
  have nums: "map (\<lambda>v. (fv_flowId v, fv_versionNumber v)) ?vs =
      map (\<lambda>v. (fv_flowId v, fv_versionNumber v)) (flow_versions db)"
    by (rule eq) (simp add: same)
  have ids: "fv_id ` set ?vs = fv_id ` set (flow_versions db)"
    by (rule replace_row_key_set)
  show ?thesis
    using inv ids ex own nums
    by (simp add: db_inv_def save_version_def flows_ok_def versions_ok_def current_ok_def rows_ok_def)
qed

lemma insert_nodes_inv:
  assumes inv: "db_inv db" and ins: "insert_nodes ns db = Inr db'"
    and own: "\<And>n. n \<in> set ns \<Longrightarrow> fn_flowVersionId n = Some v" and "v \<in> fv_id ` set (flow_versions db)"
  shows "db_inv db'"
proof -
  have "\<And>n. n \<in> set (number_nodes i ns) \<Longrightarrow> fn_flowVersionId n = Some v" for i
    using own by (auto dest!: number_nodes_set)
  with assms(1,4) show ?thesis unfolding insert_nodes_okD [OF ins]
    by (auto simp: db_inv_def flows_ok_def versions_ok_def current_ok_def rows_ok_def)
qed

lemma insert_edges_inv:
  assumes "db_inv db"
    and own: "\<And>e. e \<in> set es \<Longrightarrow> fe_flowVersionId e = Some v" and "v \<in> fv_id ` set (flow_versions db)"
  shows "db_inv (insert_edges es db)"
proof -
  have "\<And>e. e \<in> set (number_edges i es) \<Longrightarrow> fe_flowVersionId e = Some v" for i
    using own by (auto dest!: number_edges_set)
  with assms(1,3) show ?thesis
    by (auto simp: insert_edges_def db_inv_def flows_ok_def versions_ok_def current_ok_def rows_ok_def)
qed

lemma delete_version_rows_inv: "db_inv db \<Longrightarrow> db_inv (delete_version_rows v db)"
  by (auto simp: delete_version_rows_def db_inv_def flows_ok_def versions_ok_def current_ok_def rows_ok_def)

lemma fresh_version_rows:
  assumes "db_inv db" and "next_version_id db \<le> v"
  shows "version_nodes db v = []" "version_edges db v = []"
proof -
  have "v \<notin> fv_id ` set (flow_versions db)"
    using assms next_version_id_fresh by (fastforce simp: db_inv_def)
  then have "Some v \<notin> Some ` fv_id ` set (flow_versions db)" by blast
  then show "version_nodes db v = []" "version_edges db v = []"
    using assms(1) unfolding db_inv_def rows_ok_def version_nodes_def version_edges_def filter_empty_conv by metis+
qed

lemma empty_db_inv: "db_inv empty_db"
  by (simp add: empty_db_def db_inv_def flows_ok_def versions_ok_def current_ok_def rows_ok_def ids_ok_def)

end
