(* ===== verification/FlowValidation.thy ===== *)
theory FlowValidation
  imports FlowModel
begin

text \<open>
  The validation half of \<open>flows.service.ts\<close>: the field checks, the sanitising of a node's
  persisted configuration, \<open>validateNodeConfig\<close>, \<open>validateNodesConfig\<close> and
  \<open>validateEdgesConfig\<close>.  An exception is the left side of the result.  The WHATWG URL
  parser is a parameter: \<open>urlProtocol url\<close> is the protocol of \<open>new URL(url)\<close>, or
  \<open>None\<close> when the constructor throws.
\<close>

section \<open>Constants\<close>

definition TIMEOUT_MIN_MS :: int where "TIMEOUT_MIN_MS = 1000"
definition TIMEOUT_MAX_MS :: int where "TIMEOUT_MAX_MS = 120000"

definition TIMEOUT_CAPABLE_NODE_TYPES :: "string list" where
  "TIMEOUT_CAPABLE_NODE_TYPES = [''get_digits'', ''menu'', ''transfer'', ''webhook'', ''queue_login'', ''callback'']"

definition TERMINAL_NODE_TYPES :: "string list" where
  "TERMINAL_NODE_TYPES = [''hangup'', ''transfer'', ''voicemail'', ''callback'', ''queue_login'']"

definition START_ALLOWED_TARGET_TYPES :: "string list" where
  "START_ALLOWED_TARGET_TYPES = [''play_audio'', ''menu'', ''business_hours'', ''transfer'', ''hunt'', ''queue'',
     ''queue_login'', ''hangup'', ''conference'', ''webhook'', ''callback'', ''voicemail'']"

definition GET_DIGITS_ALLOWED_SOURCE_TYPES :: "string list" where
  "GET_DIGITS_ALLOWED_SOURCE_TYPES = [''start'', ''play_audio'', ''menu'', ''business_hours'', ''webhook'']"

definition QUEUE_LOGIN_ALLOWED_SOURCE_TYPES :: "string list" where
  "QUEUE_LOGIN_ALLOWED_SOURCE_TYPES = [''start'', ''menu'', ''play_audio'', ''get_digits'']"

definition VOICEMAIL_BLOCKED_SOURCE_TYPES :: "string list" where
  "VOICEMAIL_BLOCKED_SOURCE_TYPES = [''queue_login'', ''hunt'', ''transfer'', ''queue'']"

definition BRANCHING_NODE_TYPES :: "string list" where
  "BRANCHING_NODE_TYPES = [''get_digits'', ''menu'']"

lemmas node_type_sets =
  TERMINAL_NODE_TYPES_def START_ALLOWED_TARGET_TYPES_def GET_DIGITS_ALLOWED_SOURCE_TYPES_def
  QUEUE_LOGIN_ALLOWED_SOURCE_TYPES_def VOICEMAIL_BLOCKED_SOURCE_TYPES_def BRANCHING_NODE_TYPES_def

section \<open>Field checks\<close>

text \<open>\<open>node.config?.key\<close>.\<close>

definition cfg :: "node_dto \<Rightarrow> string \<Rightarrow> json option" where
  "cfg n k = (case nd_config n of None \<Rightarrow> None | Some c \<Rightarrow> obj_get c k)"

definition parseTimeoutMs :: "json option \<Rightarrow> int option" where
  "parseTimeoutMs v =
     (if is_blank v then None
      else case num_int (js_number v) of
        None \<Rightarrow> None
      | Some i \<Rightarrow> if i < TIMEOUT_MIN_MS \<or> TIMEOUT_MAX_MS < i then None else Some i)"

definition getFlowDefaultTimeoutMs :: "node_dto list \<Rightarrow> int option" where
  "getFlowDefaultTimeoutMs nodes =
     (case List.find (\<lambda>n. nd_type n = ''start'') nodes of
        None \<Rightarrow> None
      | Some s \<Rightarrow> parseTimeoutMs (js_coalesce (cfg s ''flow_default_timeout_ms'')
                                              (cfg s ''queue_login_default_input_timeout_ms'')))"

definition isValidExtensionTarget :: "string \<Rightarrow> bool" where
  "isValidExtensionTarget v \<longleftrightarrow> 1 \<le> length v \<and> length v \<le> 64
     \<and> list_all (\<lambda>c. is_alnum c \<or> c = CHR ''_'' \<or> c = CHR ''-'') v"

definition isValidPstnTarget :: "string \<Rightarrow> bool" where
  "isValidPstnTarget v \<longleftrightarrow>
     (let d = (case v of c # r \<Rightarrow> if c = CHR ''+'' then r else v | [] \<Rightarrow> v) in
      4 \<le> length d \<and> length d \<le> 20 \<and> list_all is_digit d)"

definition isValidSipUriTarget :: "string \<Rightarrow> bool" where
  "isValidSipUriTarget v \<longleftrightarrow> starts_with ''sip:'' v \<and>
     (let r = drop 4 v; user = takeWhile (\<lambda>c. c \<noteq> CHR ''@'') r; rest = dropWhile (\<lambda>c. c \<noteq> CHR ''@'') r in
      user \<noteq> [] \<and> list_all (\<lambda>c. is_alnum c \<or> c \<in> set ''_.+-'') user
      \<and> 2 \<le> length rest \<and> list_all (\<lambda>c. is_alnum c \<or> c \<in> set ''.-'') (tl rest))"

definition validateTransferTargetValue :: "string \<Rightarrow> string \<Rightarrow> string \<Rightarrow> unit result" where
  "validateTransferTargetValue nodeKey targetType targetValue =
     (if targetType = ''extension'' \<and> \<not> isValidExtensionTarget targetValue
      then throw (BadRequest (''Node '' @ nodeKey @ '': extension target_value must contain only letters, numbers, underscores, or hyphens''))
      else if targetType = ''pstn'' \<and> \<not> isValidPstnTarget targetValue
      then throw (BadRequest (''Node '' @ nodeKey @ '': pstn target_value must be 4-20 digits with an optional leading +''))
      else if targetType = ''sip_uri'' \<and> \<not> isValidSipUriTarget targetValue
      then throw (BadRequest (''Node '' @ nodeKey @ '': sip_uri target_value must be a valid SIP URI''))
      else ok ())"

definition validateHuntTargetValue :: "string \<Rightarrow> string \<Rightarrow> string \<Rightarrow> unit result" where
  "validateHuntTargetValue nodeKey targetType targetValue =
     (if targetType = ''extension'' \<and> \<not> isValidExtensionTarget targetValue
      then throw (BadRequest (''Node '' @ nodeKey @ '': hunt destination extension target_value must contain only letters, numbers, underscores, or hyphens''))
      else if targetType = ''pstn'' \<and> \<not> isValidPstnTarget targetValue
      then throw (BadRequest (''Node '' @ nodeKey @ '': hunt destination pstn target_value must be 4-20 digits with an optional leading +''))
      else ok ())"

definition isPositiveId :: "json option \<Rightarrow> bool" where
  "isPositiveId v \<longleftrightarrow> (case num_int (js_number v) of None \<Rightarrow> False | Some i \<Rightarrow> 0 < i)"

definition isValidMenuBranchValue :: "string \<Rightarrow> bool" where
  "isValidMenuBranchValue v \<longleftrightarrow>
     (let s = trim v in (1 \<le> length s \<and> length s \<le> 2 \<and> list_all is_digit s) \<or> s = ''*'' \<or> s = ''#'')"

definition isValidDigitConditionValue :: "string \<Rightarrow> bool" where
  "isValidDigitConditionValue v \<longleftrightarrow>
     isValidMenuBranchValue v \<or> trim v \<in> {''timeout'', ''invalid'', ''default''}"

definition sanitizeMenuBranches :: "json option \<Rightarrow> string list" where
  "sanitizeMenuBranches v =
     (case v of
        Some (JArr xs) \<Rightarrow>
          (let branches = filter isValidMenuBranchValue (map (\<lambda>x. str_trim (Some x)) xs) in
           if branches \<noteq> [] then dedup branches else [''1'', ''2''])
      | _ \<Rightarrow> [''1'', ''2''])"

definition sanitizeMenuBranchNames :: "json option \<Rightarrow> config" where
  "sanitizeMenuBranchNames v =
     (case v of
        Some (JObj kvs) \<Rightarrow>
          from_entries (map (\<lambda>(b, l). (b, JStr l))
            (filter (\<lambda>(b, l). isValidMenuBranchValue b \<and> l \<noteq> [])
              (map (\<lambda>(b, l). (trim b, str_trim (Some l))) kvs)))
      | _ \<Rightarrow> [])"

definition sanitizePersistedNodeConfig :: "string \<Rightarrow> config option \<Rightarrow> config" where
  "sanitizePersistedNodeConfig type c =
     (let nextConfig = (case c of None \<Rightarrow> [] | Some kvs \<Rightarrow> kvs) in
      if type = ''voicemail'' then obj_del ''webhook_secret'' (obj_del ''webhook_url'' nextConfig)
      else if type \<noteq> ''menu'' then nextConfig
      else let c1 = obj_del ''submenu_branch_flows'' nextConfig in
        obj_set ''submenu_branch_names'' (JObj (sanitizeMenuBranchNames (obj_get c1 ''submenu_branch_names''))) c1)"

definition isImmediateHangupSnapshot :: "snapshot \<Rightarrow> bool" where
  "isImmediateHangupSnapshot s =
     (case ss_edges s of
        [e] \<Rightarrow> length (ss_nodes s) = 2 \<and>
          (case (List.find (\<lambda>n. sn_type n = ''start'') (ss_nodes s),
                 List.find (\<lambda>n. sn_type n = ''hangup'') (ss_nodes s)) of
             (Some st, Some hu) \<Rightarrow> se_sourceNodeKey e = sn_nodeKey st \<and> se_targetNodeKey e = sn_nodeKey hu
           | _ \<Rightarrow> False)
      | _ \<Rightarrow> False)"

section \<open>validateNodeConfig\<close>

text \<open>The message of a node check: \<open>Node <key>: <text>\<close>.\<close>

definition node_error :: "node_dto \<Rightarrow> string \<Rightarrow> http_error" where
  "node_error n msg = BadRequest (''Node '' @ nd_nodeKey n @ '': '' @ msg)"

definition check_play_audio :: "node_dto \<Rightarrow> unit result" where
  "check_play_audio n =
     throw_if (nd_type n = ''play_audio'' \<and> \<not> isPositiveId (cfg n ''audio_file_id''))
       (node_error n ''audio_file_id is required'')"

definition check_get_digits :: "node_dto \<Rightarrow> unit result" where
  "check_get_digits n =
     (if nd_type n \<noteq> ''get_digits'' then ok ()
      else if str_trim (cfg n ''variable_name'') = [] then throw (node_error n ''variable_name is required'')
      else if is_blank (cfg n ''timeout_ms'') then throw (node_error n ''timeout_ms is required'')
      else ok ())"

definition check_transfer :: "node_dto \<Rightarrow> unit result" where
  "check_transfer n =
     (if nd_type n \<noteq> ''transfer'' then ok ()
      else let targetType = str_trim (cfg n ''target_type''); targetValue = str_trim (cfg n ''target_value'') in
        if targetType \<notin> {''extension'', ''pstn'', ''sip_uri''}
        then throw (node_error n ''target_type must be extension, pstn, or sip_uri'')
        else if targetValue = [] then throw (node_error n ''target_value is required'')
        else validateTransferTargetValue (nd_nodeKey n) targetType targetValue)"

text \<open>Reading a property of \<open>null\<close> raises a \<open>TypeError\<close>; of another non-object, \<open>undefined\<close>.\<close>

definition entry_get :: "json \<Rightarrow> string \<Rightarrow> json option" where
  "entry_get j k = (case j of JObj kvs \<Rightarrow> obj_get kvs k | _ \<Rightarrow> None)"

definition check_hunt_destination :: "node_dto \<Rightarrow> json \<Rightarrow> unit result" where
  "check_hunt_destination n entry =
     (if entry = JNull then throw (InternalError ''TypeError'')
      else let targetType = str_trim (entry_get entry ''target_type'');
               targetValue = str_trim (entry_get entry ''target_value'') in
        if targetType \<notin> {''extension'', ''pstn''}
        then throw (node_error n ''hunt destination target_type must be extension or pstn'')
        else if targetValue = [] then throw (node_error n ''hunt destination target_value is required'')
        else validateHuntTargetValue (nd_nodeKey n) targetType targetValue)"

definition check_hunt :: "node_dto \<Rightarrow> unit result" where
  "check_hunt n =
     (if nd_type n \<noteq> ''hunt'' then ok ()
      else case cfg n ''destinations'' of
        Some (JArr ds) \<Rightarrow>
          if ds = [] then throw (node_error n ''destinations must have at least one entry'')
          else for_each (check_hunt_destination n) ds
      | _ \<Rightarrow> throw (node_error n ''destinations must have at least one entry''))"

definition check_menu :: "node_dto \<Rightarrow> unit result" where
  "check_menu n =
     (if nd_type n \<noteq> ''menu'' then ok ()
      else if \<not> isPositiveId (cfg n ''prompt_audio_file_id'')
      then throw (node_error n ''prompt_audio_file_id is required'')
      else case cfg n ''branches'' of
        Some (JArr bs) \<Rightarrow>
          if bs = [] then throw (node_error n ''branches must have at least one entry'')
          else for_each (\<lambda>b. throw_if (\<not> isValidMenuBranchValue (str_or_empty (Some b)))
                 (node_error n ''branch keys must be 1-2 digits, *, or #'')) bs
      | _ \<Rightarrow> throw (node_error n ''branches must have at least one entry''))"

definition check_queue_login :: "node_dto \<Rightarrow> unit result" where
  "check_queue_login n =
     (if nd_type n \<noteq> ''queue_login'' then ok ()
      else let queueIdsRaw = (case cfg n ''queue_ids'' of
                 Some (JArr xs) \<Rightarrow> map Some xs
               | _ \<Rightarrow> if isPositiveId (cfg n ''queue_id'') then [cfg n ''queue_id''] else []);
               queueIds = filter isPositiveId queueIdsRaw in
        if queueIds = [] then throw (node_error n ''at least one queue is required'')
        else throw_if (length queueIds \<noteq> length queueIdsRaw)
               (node_error n ''queue_ids must contain only positive integer IDs''))"

definition check_queue :: "node_dto \<Rightarrow> unit result" where
  "check_queue n = throw_if (nd_type n = ''queue'' \<and> \<not> truthy (cfg n ''queue_id''))
     (node_error n ''queue is required'')"

definition check_conference :: "node_dto \<Rightarrow> unit result" where
  "check_conference n =
     (if nd_type n \<noteq> ''conference'' then ok ()
      else let roomName = str_trim (cfg n ''roomName'') in
        if roomName = [] then throw (node_error n ''roomName is required'')
        else if \<not> list_all is_alnum roomName
        then throw (node_error n ''roomName must contain only letters and numbers'')
        else if \<not> truthy (cfg n ''waitForModerator'') then ok ()
        else if cfg n ''moderatorType'' \<notin> {Some (JStr ''pstn''), Some (JStr ''extension'')}
        then throw (node_error n ''moderatorType must be extension or pstn'')
        else throw_if (\<not> (case num_int (num_or_zero (cfg n ''moderatorId'')) of None \<Rightarrow> False | Some i \<Rightarrow> 0 < i))
               (node_error n ''moderatorId is required''))"

definition check_callback :: "node_dto \<Rightarrow> unit result" where
  "check_callback n =
     (if nd_type n \<noteq> ''callback'' then ok ()
      else let numberSource = str_trim (cfg n ''number_source'') in
        if numberSource \<notin> {''ani'', ''dtmf''} then throw (node_error n ''number_source must be ani or dtmf'')
        else if str_trim (cfg n ''destination_value'') = [] then throw (node_error n ''destination_value is required'')
        else if numberSource \<noteq> ''dtmf'' then ok ()
        else let maxDigits = (if is_blank (cfg n ''dtmf_max_digits'') then Dec 11 0 else js_number (cfg n ''dtmf_max_digits'')) in
          throw_if (\<not> (case num_int maxDigits of None \<Rightarrow> False | Some i \<Rightarrow> 1 \<le> i \<and> i \<le> 20))
            (node_error n ''dtmf_max_digits must be between 1 and 20''))"

definition check_webhook :: "(string \<Rightarrow> string option) \<Rightarrow> node_dto \<Rightarrow> unit result" where
  "check_webhook urlProtocol n =
     (if nd_type n \<noteq> ''webhook'' then ok ()
      else let url = str_trim (cfg n ''url'') in
        if url = [] then throw (BadRequest ''Webhook node: url is required'')
        else case urlProtocol url of
          None \<Rightarrow> throw (BadRequest ''Webhook node: url is not a valid URL'')
        | Some p \<Rightarrow> throw_if (p \<notin> {''http:'', ''https:''}) (BadRequest ''Webhook node: url must use http or https''))"

definition check_voicemail :: "node_dto \<Rightarrow> unit result" where
  "check_voicemail n = throw_if (nd_type n = ''voicemail'' \<and> \<not> isPositiveId (cfg n ''start_audio_id''))
     (node_error n ''start_audio_id is required'')"

definition check_business_hours :: "node_dto \<Rightarrow> unit result" where
  "check_business_hours n =
     (if nd_type n \<noteq> ''business_hours'' then ok ()
      else throw_if (\<not> (case cfg n ''schedule'' of
                Some (JObj kvs) \<Rightarrow> list_ex (\<lambda>(_, entry). truthy (entry_get entry ''enabled'')) kvs
              | _ \<Rightarrow> False))
             (node_error n ''at least one enabled schedule is required''))"

definition validateNodeConfig :: "(string \<Rightarrow> string option) \<Rightarrow> node_dto \<Rightarrow> unit result" where
  "validateNodeConfig urlProtocol n =
     bind_result (check_play_audio n) (\<lambda>_.
     bind_result (check_get_digits n) (\<lambda>_.
     bind_result (check_transfer n) (\<lambda>_.
     bind_result (check_hunt n) (\<lambda>_.
     bind_result (check_menu n) (\<lambda>_.
     bind_result (check_queue_login n) (\<lambda>_.
     bind_result (check_queue n) (\<lambda>_.
     bind_result (check_conference n) (\<lambda>_.
     bind_result (check_callback n) (\<lambda>_.
     bind_result (check_webhook urlProtocol n) (\<lambda>_.
     bind_result (check_voicemail n) (\<lambda>_.
     check_business_hours n)))))))))))"

section \<open>validateNodesConfig\<close>

definition timeout_range_text :: string where
  "timeout_range_text = ''must be between '' @ show_int TIMEOUT_MIN_MS @ '' and '' @ show_int TIMEOUT_MAX_MS"

definition check_node_timeout :: "node_dto \<Rightarrow> unit result" where
  "check_node_timeout n =
     (if nd_type n \<notin> set TIMEOUT_CAPABLE_NODE_TYPES then ok ()
      else if nd_type n = ''queue_login'' then
        (let useFlowDefaultTimeout = (cfg n ''use_flow_default_timeout'' \<noteq> Some (JBool False));
             nodeTimeoutMs = parseTimeoutMs (cfg n ''input_timeout_ms'');
             hasRawTimeout = (\<not> is_blank (cfg n ''input_timeout_ms'')) in
         if useFlowDefaultTimeout
         then throw_if (hasRawTimeout \<and> nodeTimeoutMs = None)
                (node_error n (''input_timeout_ms '' @ timeout_range_text))
         else throw_if (nodeTimeoutMs = None)
                (node_error n (''input_timeout_ms '' @ timeout_range_text @ '' when not using flow default timeout'')))
      else throw_if (\<not> is_blank (cfg n ''timeout_ms'') \<and> parseTimeoutMs (cfg n ''timeout_ms'') = None)
             (node_error n (''timeout_ms '' @ timeout_range_text)))"

text \<open>
  The default flow timeout is written into the start node in place: the result carries the
  node list the caller then saves.
\<close>

definition default_start_timeout :: "node_dto \<Rightarrow> node_dto" where
  "default_start_timeout s =
     (let c = (case nd_config s of None \<Rightarrow> [] | Some c \<Rightarrow> c);
          raw = js_coalesce (obj_get c ''flow_default_timeout_ms'') (obj_get c ''queue_login_default_input_timeout_ms'') in
      s\<lparr>nd_config := Some (if is_blank raw then obj_set ''flow_default_timeout_ms'' (JNum (num_of_int TIMEOUT_MAX_MS)) c else c)\<rparr>)"

definition validateNodesConfig :: "(string \<Rightarrow> string option) \<Rightarrow> node_dto list \<Rightarrow> bool \<Rightarrow> node_dto list result" where
  "validateNodesConfig urlProtocol nodes isSubflow =
     (case List.find (\<lambda>n. nd_type n = ''start'') nodes of
        None \<Rightarrow> throw (BadRequest ''Flow requires a start node'')
      | Some _ \<Rightarrow>
        (let nodes' = (if isSubflow then nodes
               else update_first (\<lambda>n. nd_type n = ''start'') default_start_timeout nodes) in
         if \<not> isSubflow \<and> getFlowDefaultTimeoutMs nodes' = None
         then throw (BadRequest (''Start node: flow_default_timeout_ms is required and '' @ timeout_range_text))
         else bind_result (for_each (\<lambda>n. bind_result (validateNodeConfig urlProtocol n) (\<lambda>_. check_node_timeout n)) nodes')
                (\<lambda>_. ok nodes')))"

section \<open>validateEdgesConfig\<close>

text \<open>\<open>new Map(nodes.map(...))\<close>: of two nodes with the same key the later one is kept.\<close>

definition nodeTypeMap :: "node_dto list \<Rightarrow> string \<rightharpoonup> string" where
  "nodeTypeMap nodes = map_of (rev (map (\<lambda>n. (nd_nodeKey n, nd_type n)) nodes))"

definition check_branching_edge :: "edge_dto \<Rightarrow> string \<Rightarrow> unit result" where
  "check_branching_edge e sourceType =
     (let where = ''Edge from '' @ ed_sourceNodeKey e @ '' to '' @ ed_targetNodeKey e;
          c = (case ed_condition e of None \<Rightarrow> [] | Some c \<Rightarrow> c) in
      if trim c = []
      then throw (BadRequest (where @ '': condition is required for '' @ sourceType @ '' source nodes''))
      else if sourceType = ''menu'' \<and> c \<noteq> ''complete'' \<and> \<not> isValidMenuBranchValue c
      then throw (BadRequest (where @ '': menu conditions must be 1-2 digits, *, or #''))
      else throw_if (sourceType = ''get_digits'' \<and> \<not> isValidDigitConditionValue c)
             (BadRequest (where @ '': get_digits conditions must be 1-2 digits, *, #, timeout, invalid, or default'')))"

definition validateEdge :: "node_dto list \<Rightarrow> edge_dto \<Rightarrow> unit result" where
  "validateEdge nodes e =
     (let src = ed_sourceNodeKey e; tgt = ed_targetNodeKey e;
          sourceType = (case nodeTypeMap nodes src of None \<Rightarrow> [] | Some t \<Rightarrow> t);
          targetType = (case nodeTypeMap nodes tgt of None \<Rightarrow> [] | Some t \<Rightarrow> t) in
      if sourceType = [] \<or> targetType = []
      then throw (BadRequest (''Edge from '' @ src @ '' to '' @ tgt @ '': nodes must exist''))
      else if targetType = ''webhook'' then ok ()
      else if sourceType \<in> set TERMINAL_NODE_TYPES
      then throw (BadRequest (''Edge from '' @ src @ '': '' @ sourceType @ '' nodes cannot have outgoing edges''))
      else if sourceType = ''start'' \<and> targetType \<notin> set START_ALLOWED_TARGET_TYPES
      then throw (BadRequest (''Edge from '' @ src @ '' to '' @ tgt @ '': start cannot connect to '' @ targetType))
      else if targetType = ''get_digits'' \<and> sourceType \<notin> set GET_DIGITS_ALLOWED_SOURCE_TYPES
      then throw (BadRequest (''Edge to '' @ tgt @ '': get_digits can only receive from start, play_audio, menu, business_hours, or webhook''))
      else if targetType = ''queue_login'' \<and> sourceType \<notin> set QUEUE_LOGIN_ALLOWED_SOURCE_TYPES
      then throw (BadRequest (''Edge to '' @ tgt @ '': queue_login can only receive from start, menu, play_audio, or get_digits''))
      else if targetType = ''voicemail'' \<and> sourceType \<in> set VOICEMAIL_BLOCKED_SOURCE_TYPES
      then throw (BadRequest (''Edge to '' @ tgt @ '': voicemail cannot receive from '' @ sourceType))
      else if sourceType \<in> set BRANCHING_NODE_TYPES then check_branching_edge e sourceType
      else ok ())"

definition validateEdgesConfig :: "edge_dto list \<Rightarrow> node_dto list \<Rightarrow> unit result" where
  "validateEdgesConfig edges nodes = for_each (validateEdge nodes) edges"

section \<open>What an accepted flow satisfies\<close>

lemma parseTimeoutMs_bounds:
  "parseTimeoutMs v = Some t \<Longrightarrow> 1000 \<le> t \<and> t \<le> 120000"
  by (auto simp: parseTimeoutMs_def TIMEOUT_MIN_MS_def TIMEOUT_MAX_MS_def split: if_splits option.splits)

lemma getFlowDefaultTimeoutMs_bounds:
  "getFlowDefaultTimeoutMs ns = Some t \<Longrightarrow> 1000 \<le> t \<and> t \<le> 120000"
  by (auto simp: getFlowDefaultTimeoutMs_def dest: parseTimeoutMs_bounds split: option.splits)

lemma default_start_timeout_fields [simp]:
  "nd_nodeKey (default_start_timeout s) = nd_nodeKey s"
  "nd_type (default_start_timeout s) = nd_type s"
  "nd_label (default_start_timeout s) = nd_label s"
  "nd_positionX (default_start_timeout s) = nd_positionX s"
  "nd_positionY (default_start_timeout s) = nd_positionY s"
  "nd_groupId (default_start_timeout s) = nd_groupId s"
  "nd_subflowId (default_start_timeout s) = nd_subflowId s"
  by (simp_all add: default_start_timeout_def Let_def)

definition with_default_timeout :: "bool \<Rightarrow> node_dto list \<Rightarrow> node_dto list" where
  "with_default_timeout isSubflow nodes = (if isSubflow then nodes
     else update_first (\<lambda>n. nd_type n = ''start'') default_start_timeout nodes)"

lemma with_default_timeout_map:
  "(\<And>s. h (default_start_timeout s) = h s) \<Longrightarrow> map h (with_default_timeout b nodes) = map h nodes"
  by (simp add: with_default_timeout_def map_update_first)

lemma validateNodesConfig_okD:
  assumes "validateNodesConfig up nodes sub = Inr nodes'"
  shows "nodes' = with_default_timeout sub nodes"
    and "\<exists>s. List.find (\<lambda>n. nd_type n = ''start'') nodes' = Some s"
    and "\<And>n. n \<in> set nodes' \<Longrightarrow> validateNodeConfig up n = Inr () \<and> check_node_timeout n = Inr ()"
    and "\<not> sub \<Longrightarrow> \<exists>t. getFlowDefaultTimeoutMs nodes' = Some t"
proof -
  have "nodes' = with_default_timeout sub nodes
    \<and> (\<exists>s. List.find (\<lambda>n. nd_type n = ''start'') nodes = Some s)
    \<and> (\<forall>n \<in> set nodes'. validateNodeConfig up n = Inr () \<and> check_node_timeout n = Inr ())
    \<and> (\<not> sub \<longrightarrow> (\<exists>t. getFlowDefaultTimeoutMs nodes' = Some t))"
    using assms
    by (auto simp: validateNodesConfig_def with_default_timeout_def Let_def split: option.splits if_splits)
  note * = this
  then show "nodes' = with_default_timeout sub nodes"
    and "\<And>n. n \<in> set nodes' \<Longrightarrow> validateNodeConfig up n = Inr () \<and> check_node_timeout n = Inr ()"
    and "\<not> sub \<Longrightarrow> \<exists>t. getFlowDefaultTimeoutMs nodes' = Some t" by auto
  show "\<exists>s. List.find (\<lambda>n. nd_type n = ''start'') nodes' = Some s"
    using * by (auto simp: with_default_timeout_def find_update_first)
qed

text \<open>
  The grammar of connections an edge must obey, stated over node types: the
  specification \<open>validateEdgesConfig\<close> decides.
\<close>

definition branch_condition_ok :: "string \<Rightarrow> string option \<Rightarrow> bool" where
  "branch_condition_ok s c \<longleftrightarrow> (\<exists>v. c = Some v \<and> trim v \<noteq> []
     \<and> (s = ''menu'' \<longrightarrow> v = ''complete'' \<or> isValidMenuBranchValue v)
     \<and> (s = ''get_digits'' \<longrightarrow> isValidDigitConditionValue v))"

definition edge_allowed :: "string \<Rightarrow> string \<Rightarrow> string option \<Rightarrow> bool" where
  "edge_allowed s t c \<longleftrightarrow> t = ''webhook'' \<or>
     (s \<notin> {''hangup'', ''transfer'', ''voicemail'', ''callback'', ''queue_login''}
      \<and> (s = ''start'' \<longrightarrow> t \<in> {''play_audio'', ''menu'', ''business_hours'', ''transfer'', ''hunt'', ''queue'',
             ''queue_login'', ''hangup'', ''conference'', ''webhook'', ''callback'', ''voicemail''})
      \<and> (t = ''get_digits'' \<longrightarrow> s \<in> {''start'', ''play_audio'', ''menu'', ''business_hours'', ''webhook''})
      \<and> (t = ''queue_login'' \<longrightarrow> s \<in> {''start'', ''menu'', ''play_audio'', ''get_digits''})
      \<and> (t = ''voicemail'' \<longrightarrow> s \<notin> {''queue_login'', ''hunt'', ''transfer'', ''queue''})
      \<and> (s \<in> {''get_digits'', ''menu''} \<longrightarrow> branch_condition_ok s c))"

lemma check_branching_edge_iff:
  "check_branching_edge e s = Inr () \<longleftrightarrow> branch_condition_ok s (ed_condition e)"
  by (cases "ed_condition e") (auto simp: check_branching_edge_def branch_condition_ok_def Let_def)

lemma edge_allowed_sets:
  "edge_allowed s t c \<longleftrightarrow> t = ''webhook'' \<or>
     (s \<notin> set TERMINAL_NODE_TYPES
      \<and> (s = ''start'' \<longrightarrow> t \<in> set START_ALLOWED_TARGET_TYPES)
      \<and> (t = ''get_digits'' \<longrightarrow> s \<in> set GET_DIGITS_ALLOWED_SOURCE_TYPES)
      \<and> (t = ''queue_login'' \<longrightarrow> s \<in> set QUEUE_LOGIN_ALLOWED_SOURCE_TYPES)
      \<and> (t = ''voicemail'' \<longrightarrow> s \<notin> set VOICEMAIL_BLOCKED_SOURCE_TYPES)
      \<and> (s \<in> set BRANCHING_NODE_TYPES \<longrightarrow> branch_condition_ok s c))"
  unfolding edge_allowed_def node_type_sets list.set ..

lemma if_throw_ok: "(if c then throw e else r) = Inr u \<longleftrightarrow> \<not> c \<and> r = Inr u"
  by simp

lemma if_ok_ok: "(if c then ok () else r) = Inr () \<longleftrightarrow> c \<or> r = Inr ()"
  by simp

lemma if_check_ok: "(if c then r else ok ()) = Inr () \<longleftrightarrow> (c \<longrightarrow> r = Inr ())"
  by simp

lemma validateEdge_ok_iff:
  "validateEdge nodes e = Inr () \<longleftrightarrow>
     (\<exists>s t. nodeTypeMap nodes (ed_sourceNodeKey e) = Some s \<and> s \<noteq> []
        \<and> nodeTypeMap nodes (ed_targetNodeKey e) = Some t \<and> t \<noteq> []
        \<and> edge_allowed s t (ed_condition e))"
proof -
  define s where "s = (case nodeTypeMap nodes (ed_sourceNodeKey e) of None \<Rightarrow> [] | Some t \<Rightarrow> t)"
  define t where "t = (case nodeTypeMap nodes (ed_targetNodeKey e) of None \<Rightarrow> [] | Some t \<Rightarrow> t)"
  have "validateEdge nodes e = Inr () \<longleftrightarrow> s \<noteq> [] \<and> t \<noteq> [] \<and> edge_allowed s t (ed_condition e)"
    unfolding validateEdge_def Let_def edge_allowed_sets s_def [symmetric] t_def [symmetric]
      if_throw_ok if_ok_ok if_check_ok check_branching_edge_iff
    by argo
  then show ?thesis by (auto simp: s_def t_def split: option.splits)
qed

lemma nodeTypeMap_Some:
  "nodeTypeMap nodes k = Some t \<Longrightarrow> \<exists>n \<in> set nodes. nd_nodeKey n = k \<and> nd_type n = t"
  by (auto simp: nodeTypeMap_def dest!: map_of_SomeD)

lemma nodeTypeMap_cong:
  "map (\<lambda>n. (nd_nodeKey n, nd_type n)) ns = map (\<lambda>n. (nd_nodeKey n, nd_type n)) ms \<Longrightarrow>
     nodeTypeMap ns = nodeTypeMap ms"
  by (simp add: nodeTypeMap_def)

section \<open>Sanitising is idempotent\<close>

lemma from_entries_distinct:
  assumes "distinct (map fst es)"
  shows "from_entries es = es"
proof -
  have set_new: "k \<notin> set (map fst kvs) \<Longrightarrow> obj_set k v kvs = kvs @ [(k, v)]" for k v kvs
    by (induction kvs) auto
  have "distinct (map fst (kvs @ es)) \<Longrightarrow> foldl (\<lambda>kvs (k, v). obj_set k v kvs) kvs es = kvs @ es" for kvs
  proof (induction es arbitrary: kvs)
    case Nil
    then show ?case by simp
  next
    case (Cons e es)
    obtain k v where e: "e = (k, v)" by (cases e)
    with Cons.prems have "obj_set k v kvs = kvs @ [(k, v)]" by (intro set_new) auto
    with Cons.IH [of "kvs @ [(k, v)]"] Cons.prems e show ?case by simp
  qed
  from this [of "[]"] assms show ?thesis by (simp add: from_entries_def)
qed

lemma set_obj_set: "set (obj_set k v kvs) \<subseteq> insert (k, v) (set kvs)"
  by (induction k v kvs rule: obj_set.induct) auto

lemma set_from_entries: "set (from_entries es) \<subseteq> set es"
proof -
  have "set (foldl (\<lambda>kvs (k, v). obj_set k v kvs) kvs es) \<subseteq> set kvs \<union> set es" for kvs
  proof (induction es arbitrary: kvs)
    case Nil
    then show ?case by simp
  next
    case (Cons e es)
    obtain k v where e: "e = (k, v)" by (cases e)
    with Cons.IH [of "obj_set k v kvs"] set_obj_set [of k v kvs] show ?case by auto
  qed
  from this [of "[]"] show ?thesis by (simp add: from_entries_def)
qed

lemma isValidMenuBranchValue_trim [simp]: "isValidMenuBranchValue (trim v) = isValidMenuBranchValue v"
  by (simp add: isValidMenuBranchValue_def)

lemma sanitizeMenuBranchNames_entries:
  "(b, j) \<in> set (sanitizeMenuBranchNames v) \<Longrightarrow>
     isValidMenuBranchValue b \<and> trim b = b \<and> (\<exists>l. j = JStr l \<and> l \<noteq> [] \<and> trim l = l)"
proof -
  assume "(b, j) \<in> set (sanitizeMenuBranchNames v)"
  then have "\<exists>kvs. v = Some (JObj kvs) \<and> (b, j) \<in> set (map (\<lambda>(b, l). (b, JStr l))
            (filter (\<lambda>(b, l). isValidMenuBranchValue b \<and> l \<noteq> [])
              (map (\<lambda>(b, l). (trim b, str_trim (Some l))) kvs)))"
    by (auto simp: sanitizeMenuBranchNames_def split: option.splits json.splits
          dest!: set_from_entries [THEN subsetD])
  then show ?thesis by (auto simp: str_trim_def)
qed

lemma sanitizeMenuBranchNames_idem:
  "sanitizeMenuBranchNames (Some (JObj (sanitizeMenuBranchNames v))) = sanitizeMenuBranchNames v"
proof -
  let ?s = "sanitizeMenuBranchNames v"
  have e: "isValidMenuBranchValue b \<and> trim b = b \<and> (\<exists>l. j = JStr l \<and> l \<noteq> [] \<and> trim l = l)"
    if "(b, j) \<in> set ?s" for b j
    using that by (rule sanitizeMenuBranchNames_entries)
  let ?g = "\<lambda>(b, l). (trim b, str_trim (Some l))"
  have "filter (\<lambda>(b, l). isValidMenuBranchValue b \<and> l \<noteq> []) (map ?g ?s) = map ?g ?s"
    using e by (intro filter_True) fastforce
  moreover have "map (\<lambda>(b, l). (b, JStr l)) (map ?g ?s) = ?s"
    using e by (intro map_idI [THEN trans [OF map_map]]) force
  moreover have "distinct (map fst ?s)"
    by (auto simp: sanitizeMenuBranchNames_def distinct_from_entries split: option.split json.split)
  ultimately show ?thesis
    by (subst sanitizeMenuBranchNames_def) (simp add: from_entries_distinct)
qed

lemma obj_del_absent: "obj_get kvs k = None \<Longrightarrow> obj_del k kvs = kvs"
  by (induction kvs) (auto simp: obj_get_def obj_del_def split: if_splits)

lemma obj_set_present: "obj_get kvs k = Some v \<Longrightarrow> obj_set k v kvs = kvs"
  by (induction kvs) (auto simp: obj_get_def split: if_splits)

lemma sanitizePersistedNodeConfig_idem [simp]:
  "sanitizePersistedNodeConfig type (Some (sanitizePersistedNodeConfig type c)) = sanitizePersistedNodeConfig type c"
proof (cases "type = ''menu''")
  case False
  then show ?thesis
    by (auto simp: sanitizePersistedNodeConfig_def Let_def obj_del_absent)
next
  case True
  let ?c1 = "obj_del ''submenu_branch_flows'' (case c of None \<Rightarrow> [] | Some kvs \<Rightarrow> kvs)"
  let ?names = "JObj (sanitizeMenuBranchNames (obj_get ?c1 ''submenu_branch_names''))"
  let ?c2 = "obj_set ''submenu_branch_names'' ?names ?c1"
  have c2: "sanitizePersistedNodeConfig type c = ?c2"
    using True by (simp add: sanitizePersistedNodeConfig_def Let_def)
  have del: "obj_del ''submenu_branch_flows'' ?c2 = ?c2"
    by (rule obj_del_absent) simp
  have "obj_set ''submenu_branch_names'' ?names ?c2 = ?c2"
    by (rule obj_set_present) simp
  with True del show ?thesis unfolding c2
    by (simp add: sanitizePersistedNodeConfig_def Let_def sanitizeMenuBranchNames_idem)
qed

end
