(* ===== verification/FlowSnapshots.thy ===== *)
theory FlowSnapshots
  imports FlowStore FlowValidation "HOL-Library.Sorting_Algorithms"
begin

text \<open>
  Version snapshots of \<open>flows.service.ts\<close>: building them from a request or from a stored
  version, comparing them, and writing a version with its nodes and edges.  The order
  \<open>localeCompare\<close> uses is the host's collation, so it is a parameter of type
  \<open>string comparator\<close>: a total preorder, as the documentation of \<open>localeCompare\<close> promises.
  \<open>Array.prototype.sort\<close> is the stable sort of \<open>Sorting_Algorithms\<close>.
\<close>

section \<open>Building snapshots\<close>

definition snap_of_dto :: "node_dto \<Rightarrow> snap_node" where
  "snap_of_dto n =
     \<lparr>sn_nodeKey = nd_nodeKey n, sn_type = nd_type n, sn_label = nd_label n,
      sn_positionX = (case nd_positionX n of None \<Rightarrow> Dec 0 0 | Some x \<Rightarrow> x),
      sn_positionY = (case nd_positionY n of None \<Rightarrow> Dec 0 0 | Some y \<Rightarrow> y),
      sn_config = sanitizePersistedNodeConfig (nd_type n) (nd_config n),
      sn_groupId = nd_groupId n, sn_subflowId = nd_subflowId n\<rparr>"

definition snap_of_edge_dto :: "edge_dto \<Rightarrow> snap_edge" where
  "snap_of_edge_dto e =
     \<lparr>se_sourceNodeKey = ed_sourceNodeKey e, se_targetNodeKey = ed_targetNodeKey e,
      se_branchKey = (case ed_branchKey e of None \<Rightarrow> ''default'' | Some b \<Rightarrow> b),
      se_condition = ed_condition e, se_sourceHandle = ed_sourceHandle e, se_targetHandle = ed_targetHandle e\<rparr>"

definition buildSnapshotFromPayload :: "node_dto list \<Rightarrow> edge_dto list \<Rightarrow> snapshot" where
  "buildSnapshotFromPayload nodes edges =
     Snapshot None None (map snap_of_dto nodes) (map snap_of_edge_dto edges) None"

definition mapSnapshotNodesToPayload :: "snap_node list \<Rightarrow> node_dto list" where
  "mapSnapshotNodesToPayload = map (\<lambda>n.
     \<lparr>nd_nodeKey = sn_nodeKey n, nd_type = sn_type n, nd_label = sn_label n,
      nd_positionX = Some (sn_positionX n), nd_positionY = Some (sn_positionY n),
      nd_config = Some (sanitizePersistedNodeConfig (sn_type n) (Some (sn_config n))),
      nd_groupId = sn_groupId n, nd_subflowId = sn_subflowId n\<rparr>)"

definition mapSnapshotEdgesToPayload :: "snap_edge list \<Rightarrow> edge_dto list" where
  "mapSnapshotEdgesToPayload = map (\<lambda>e.
     \<lparr>ed_sourceNodeKey = se_sourceNodeKey e, ed_targetNodeKey = se_targetNodeKey e,
      ed_branchKey = Some (se_branchKey e), ed_condition = se_condition e,
      ed_sourceHandle = se_sourceHandle e, ed_targetHandle = se_targetHandle e\<rparr>)"

definition snap_of_node_row :: "flow_node \<Rightarrow> snap_node" where
  "snap_of_node_row n =
     \<lparr>sn_nodeKey = fn_nodeKey n, sn_type = fn_type n, sn_label = fn_label n,
      sn_positionX = fn_positionX n, sn_positionY = fn_positionY n,
      sn_config = sanitizePersistedNodeConfig (fn_type n) (Some (fn_configJson n)),
      sn_groupId = fn_groupId n, sn_subflowId = fn_subflowId n\<rparr>"

definition snap_of_edge_row :: "flow_edge \<Rightarrow> snap_edge" where
  "snap_of_edge_row e =
     \<lparr>se_sourceNodeKey = fe_sourceNodeKey e, se_targetNodeKey = fe_targetNodeKey e,
      se_branchKey = fe_branchKey e, se_condition = fe_condition e,
      se_sourceHandle = fe_sourceHandle e, se_targetHandle = fe_targetHandle e\<rparr>"

definition buildSnapshotFromVersionId :: "flow_db \<Rightarrow> int \<Rightarrow> snapshot" where
  "buildSnapshotFromVersionId db v =
     Snapshot None None (map snap_of_node_row (version_nodes db v)) (map snap_of_edge_row (version_edges db v)) None"

section \<open>Comparing snapshots\<close>

primrec sortKeys :: "json \<Rightarrow> json" where
  "sortKeys JNull = JNull"
| "sortKeys (JBool b) = JBool b"
| "sortKeys (JNum n) = JNum (num_norm n)"
| "sortKeys (JStr s) = JStr s"
| "sortKeys (JArr xs) = JArr (map sortKeys xs)"
| "sortKeys (JObj kvs) = JObj (sort_key fst (map (map_prod id sortKeys) kvs))"

definition sortConfig :: "config \<Rightarrow> config" where
  "sortConfig c = (case sortKeys (JObj c) of JObj kvs \<Rightarrow> kvs | _ \<Rightarrow> [])"

definition normalize_node :: "bool \<Rightarrow> snap_node \<Rightarrow> snap_node" where
  "normalize_node ignoreLayoutOnly n =
     n\<lparr>sn_positionX := (if ignoreLayoutOnly then Dec 0 0 else num_norm (sn_positionX n)),
       sn_positionY := (if ignoreLayoutOnly then Dec 0 0 else num_norm (sn_positionY n)),
       sn_config := sortConfig (if ignoreLayoutOnly
         then sanitizePersistedNodeConfig (sn_type n) (Some (sn_config n)) else sn_config n),
       sn_groupId := (if ignoreLayoutOnly then None else sn_groupId n)\<rparr>"

definition normalize_nodes :: "string comparator \<Rightarrow> bool \<Rightarrow> snap_node list \<Rightarrow> snap_node list" where
  "normalize_nodes lc ignoreLayoutOnly nodes =
     Sorting_Algorithms.sort (key sn_nodeKey lc)
       (map (normalize_node ignoreLayoutOnly)
         (filter (\<lambda>n. \<not> (ignoreLayoutOnly \<and> sn_type n = ''group'')) nodes))"

text \<open>The edge order: source, target, condition, source handle, target handle; \<open>null\<close> sorts as the empty string.\<close>

definition edge_order :: "string comparator \<Rightarrow> snap_edge comparator" where
  "edge_order lc =
     key (\<lambda>e. (se_sourceNodeKey e, se_targetNodeKey e, text_or_empty (se_condition e),
               text_or_empty (se_sourceHandle e), text_or_empty (se_targetHandle e)))
       (prod_lex lc (prod_lex lc (prod_lex lc (prod_lex lc lc))))"

definition snapshot_flow_id :: "snapshot \<Rightarrow> int" where
  "snapshot_flow_id s = (case ss_flowId s of None \<Rightarrow> 0 | Some i \<Rightarrow> i)"

text \<open>
  The value whose JSON text the code compares.  Equality of the texts is equality of these
  values: every object in them is built with the same keys or has its keys sorted.
\<close>

function buildComparableSnapshotPayload :: "string comparator \<Rightarrow> bool \<Rightarrow> snapshot \<Rightarrow> snapshot" where
  "buildComparableSnapshotPayload lc ignoreLayoutOnly (Snapshot fid name nodes edges subs) =
     Snapshot (Some (case fid of None \<Rightarrow> 0 | Some i \<Rightarrow> i)) name
       (normalize_nodes lc ignoreLayoutOnly nodes)
       (Sorting_Algorithms.sort (edge_order lc) edges)
       (Some (map (buildComparableSnapshotPayload lc ignoreLayoutOnly)
         (Sorting_Algorithms.sort (key snapshot_flow_id default)
           (case subs of None \<Rightarrow> [] | Some ss \<Rightarrow> ss))))"
  by pat_completeness auto
termination
proof (relation "measure (\<lambda>(lc, b, s). size s)")
  fix lc :: "string comparator" and b fid name nodes edges subs x
  assume "x \<in> set (Sorting_Algorithms.sort (key snapshot_flow_id default) (case subs of None \<Rightarrow> [] | Some ss \<Rightarrow> ss))"
  then obtain ss where "subs = Some ss" "x \<in> set ss" by (auto split: option.splits)
  then show "((lc, b, x), (lc, b, Snapshot fid name nodes edges subs)) \<in> measure (\<lambda>(lc, b, s). size s)"
    by (auto dest: size_list_estimation' [of x ss _ size, OF _ order_refl])
qed simp

definition snapshotsAreExactlyEqual :: "string comparator \<Rightarrow> snapshot option \<Rightarrow> snapshot option \<Rightarrow> bool" where
  "snapshotsAreExactlyEqual lc a b =
     (case (a, b) of
        (None, None) \<Rightarrow> True
      | (Some x, Some y) \<Rightarrow> buildComparableSnapshotPayload lc False x = buildComparableSnapshotPayload lc False y
      | _ \<Rightarrow> False)"

definition snapshotsAreStructurallyEqual :: "string comparator \<Rightarrow> snapshot option \<Rightarrow> snapshot option \<Rightarrow> bool" where
  "snapshotsAreStructurallyEqual lc a b =
     (case (a, b) of
        (None, None) \<Rightarrow> True
      | (Some x, Some y) \<Rightarrow> buildComparableSnapshotPayload lc True x = buildComparableSnapshotPayload lc True y
      | _ \<Rightarrow> False)"

section \<open>Writing versions\<close>

definition DEFAULT_EDITOR_VERSION_MESSAGE :: string where
  "DEFAULT_EDITOR_VERSION_MESSAGE = ''Saved from editor''"

definition createStoredVersion ::
    "nat \<Rightarrow> int \<Rightarrow> int \<Rightarrow> snapshot \<Rightarrow> string option \<Rightarrow> flow_db \<Rightarrow> (flow_version \<times> flow_db) result" where
  "createStoredVersion now flowId versionNumber s message db =
     insert_version
       \<lparr>fv_id = 0, fv_flowId = Some flowId, fv_versionNumber = versionNumber, fv_isPublished = True,
        fv_publishedAt = Some now,
        fv_message = Some (if trim (text_or_empty message) = [] then DEFAULT_EDITOR_VERSION_MESSAGE
                           else trim (text_or_empty message)),
        fv_snapshot = Some s, fv_nodeCount = Some (int (length (ss_nodes s))), fv_createdAt = now\<rparr> db"

definition node_entity :: "int \<Rightarrow> node_dto \<Rightarrow> flow_node" where
  "node_entity versionId n =
     \<lparr>fn_id = 0, fn_flowVersionId = Some versionId, fn_nodeKey = nd_nodeKey n, fn_type = nd_type n,
      fn_label = nd_label n,
      fn_positionX = (case nd_positionX n of None \<Rightarrow> Dec 0 0 | Some x \<Rightarrow> x),
      fn_positionY = (case nd_positionY n of None \<Rightarrow> Dec 0 0 | Some y \<Rightarrow> y),
      fn_configJson = sanitizePersistedNodeConfig (nd_type n) (nd_config n),
      fn_groupId = nd_groupId n, fn_subflowId = nd_subflowId n\<rparr>"

definition edge_entity :: "int \<Rightarrow> edge_dto \<Rightarrow> flow_edge" where
  "edge_entity versionId e =
     \<lparr>fe_id = 0, fe_flowVersionId = Some versionId, fe_sourceNodeKey = ed_sourceNodeKey e,
      fe_targetNodeKey = ed_targetNodeKey e,
      fe_branchKey = (case ed_branchKey e of Some b \<Rightarrow> b
        | None \<Rightarrow> (case ed_condition e of Some c \<Rightarrow> c | None \<Rightarrow> ''default'')),
      fe_condition = ed_condition e, fe_sourceHandle = ed_sourceHandle e, fe_targetHandle = ed_targetHandle e\<rparr>"

definition saveNodesAndEdges :: "int \<Rightarrow> node_dto list \<Rightarrow> edge_dto list \<Rightarrow> flow_db \<Rightarrow> flow_db result" where
  "saveNodesAndEdges versionId nodes edges db =
     bind_result (insert_nodes (map (node_entity versionId) nodes) db)
       (\<lambda>db'. ok (insert_edges (map (edge_entity versionId) edges) db'))"

definition replaceNodesAndEdges :: "int \<Rightarrow> node_dto list \<Rightarrow> edge_dto list \<Rightarrow> flow_db \<Rightarrow> flow_db result" where
  "replaceNodesAndEdges versionId nodes edges db =
     saveNodesAndEdges versionId nodes edges (delete_version_rows versionId db)"

definition replaceVersionSnapshot ::
    "flow_version \<Rightarrow> snapshot \<Rightarrow> node_dto list \<Rightarrow> edge_dto list \<Rightarrow> flow_db \<Rightarrow> flow_db result" where
  "replaceVersionSnapshot version s nodes edges db =
     replaceNodesAndEdges (fv_id version) nodes edges
       (save_version (version\<lparr>fv_snapshot := Some s, fv_nodeCount := Some (int (length (ss_nodes s)))\<rparr>) db)"

definition normalizeNodesForSave :: "node_dto list \<Rightarrow> node_dto list" where
  "normalizeNodesForSave = map (\<lambda>n. n\<lparr>nd_config := Some (sanitizePersistedNodeConfig (nd_type n) (nd_config n))\<rparr>)"

record version_summary =
  vs_id :: int
  vs_flowId :: int
  vs_versionNum :: int
  vs_message :: string
  vs_nodeCount :: int
  vs_createdAt :: nat

definition mapFlowVersionSummary :: "flow_version \<Rightarrow> version_summary" where
  "mapFlowVersionSummary v =
     \<lparr>vs_id = fv_id v, vs_flowId = (case fv_flowId v of None \<Rightarrow> 0 | Some i \<Rightarrow> i),
      vs_versionNum = fv_versionNumber v, vs_message = text_or_empty (fv_message v),
      vs_nodeCount = (case fv_nodeCount v of None \<Rightarrow> 0 | Some i \<Rightarrow> i), vs_createdAt = fv_createdAt v\<rparr>"

end
