(* ===== verification/FlowTree.thy ===== *)
theory FlowTree
  imports FlowSnapshots
begin

text \<open>
  The flow tree of \<open>flows.service.ts\<close>: walking up the \<open>parent_flow_id\<close> chain
  (\<open>getRootFlowId\<close>, \<open>getBreadcrumb\<close>) and down to the subflows (\<open>buildFlowTree\<close>,
  \<open>buildFullTreeSnapshot\<close>, \<open>buildSubflowSnapshotsRecursive\<close>,
  \<open>collectFlowSubtreeForDelete\<close>).  A set of visited ids is the list of its elements.  The
  lemmas show when each walk returns and which flows it reaches.
\<close>

section \<open>Walking up\<close>

text \<open>The test \<open>if (id)\<close> on a nullable id: \<open>0\<close> counts as absent.\<close>

definition nonzero :: "int option \<Rightarrow> int option" where
  "nonzero i = (if i = Some 0 then None else i)"

lemma nonzero_simps [simp]: "nonzero None = None" "nonzero i = Some j \<longleftrightarrow> i = Some j \<and> j \<noteq> 0"
  "nonzero i = None \<longleftrightarrow> i = None \<or> i = Some 0"
  by (auto simp: nonzero_def)

definition flow_ids :: "flow_db \<Rightarrow> int set" where
  "flow_ids db = cf_id ` set (call_flows db)"

lemma finite_flow_ids [simp]: "finite (flow_ids db)"
  by (simp add: flow_ids_def)

lemma find_flow_ids: "find_flow db i = Some f \<Longrightarrow> i \<in> flow_ids db"
  by (auto simp: flow_ids_def dest: find_flow_Some)

lemma visited_decreases:
  "x \<in> flow_ids db \<Longrightarrow> x \<notin> set seen \<Longrightarrow>
     card (flow_ids db - insert x (set seen)) < card (flow_ids db - set seen)"
  by (intro psubset_card_mono) auto

function root_loop :: "flow_db \<Rightarrow> int \<Rightarrow> int \<Rightarrow> int list \<Rightarrow> int result" where
  "root_loop db flowId currentFlowId seen =
     (if currentFlowId \<in> set seen
      then throw (BadRequest (''Flow '' @ show_int flowId @ '' has a circular parent_flow_id chain''))
      else case find_flow db currentFlowId of
        None \<Rightarrow> throw (NotFound (''Flow '' @ show_int flowId @ '' not found''))
      | Some flow \<Rightarrow> (case cf_parentFlowId flow of
            None \<Rightarrow> ok (cf_id flow)
          | Some p \<Rightarrow> root_loop db flowId p (currentFlowId # seen)))"
  by pat_completeness auto
termination
  by (relation "measure (\<lambda>(db, _, _, seen). card (flow_ids db - set seen))")
    (auto intro: visited_decreases find_flow_ids)

declare root_loop.simps [simp del]

definition getRootFlowId :: "flow_db \<Rightarrow> int \<Rightarrow> int result" where
  "getRootFlowId db flowId = root_loop db flowId flowId []"

definition resolveFlowVersionId :: "flow_db \<Rightarrow> int \<Rightarrow> int option" where
  "resolveFlowVersionId db flowId =
     (case find_flow db flowId of
        None \<Rightarrow> None
      | Some flow \<Rightarrow> (case nonzero (cf_currentVersionId flow) of
            Some v \<Rightarrow> Some v
          | None \<Rightarrow> map_option fv_id (getLatestVersion db flowId)))"

text \<open>The node a \<open>findOne\<close> on a version and a node key returns.\<close>

definition find_version_node :: "flow_db \<Rightarrow> int \<Rightarrow> string \<Rightarrow> flow_node option" where
  "find_version_node db v k = List.find (\<lambda>n. fn_nodeKey n = k) (version_nodes db v)"

text \<open>\<open>a || b\<close> on optional strings: the empty string counts as absent.\<close>

definition text_or :: "string option \<Rightarrow> string \<Rightarrow> string" where
  "text_or s d = (if text_or_empty s = [] then d else text_or_empty s)"

definition resolveParentNodeLabel :: "flow_db \<Rightarrow> int \<Rightarrow> string \<Rightarrow> string option" where
  "resolveParentNodeLabel db parentFlowId parentNodeKey =
     (case nonzero (resolveFlowVersionId db parentFlowId) of
        None \<Rightarrow> None
      | Some v \<Rightarrow> (case find_version_node db v parentNodeKey of
            None \<Rightarrow> None
          | Some n \<Rightarrow> (let l = text_or (fn_label n) (fn_nodeKey n) in if l = [] then None else Some l)))"

record breadcrumb_item =
  bi_flowId :: int
  bi_flowName :: string
  bi_parentNodeKey :: "string option"
  bi_parentNodeLabel :: "string option"
  bi_parentBranchKey :: "string option"

definition breadcrumb_of :: "flow_db \<Rightarrow> call_flow \<Rightarrow> breadcrumb_item" where
  "breadcrumb_of db flow =
     \<lparr>bi_flowId = cf_id flow, bi_flowName = cf_name flow, bi_parentNodeKey = cf_parentNodeKey flow,
      bi_parentNodeLabel = (case (nonzero (cf_parentFlowId flow), cf_parentNodeKey flow) of
          (Some p, Some k) \<Rightarrow> if k = [] then None else resolveParentNodeLabel db p k
        | _ \<Rightarrow> None),
      bi_parentBranchKey = cf_parentBranchKey flow\<rparr>"

text \<open>
  The loop of \<open>getBreadcrumb\<close> keeps no set of visited flows, so it is a partial function:
  \<open>None\<close> is a request that never returns.
\<close>

partial_function (option) breadcrumb_loop ::
    "flow_db \<Rightarrow> int option \<Rightarrow> breadcrumb_item list \<Rightarrow> breadcrumb_item list option" where
  "breadcrumb_loop db currentId breadcrumb =
     (case nonzero currentId of
        None \<Rightarrow> Some breadcrumb
      | Some i \<Rightarrow> (case find_flow db i of
            None \<Rightarrow> Some breadcrumb
          | Some flow \<Rightarrow> breadcrumb_loop db (cf_parentFlowId flow) (breadcrumb @ [breadcrumb_of db flow])))"

definition getBreadcrumb :: "flow_db \<Rightarrow> int \<Rightarrow> breadcrumb_item list result option" where
  "getBreadcrumb db flowId =
     map_option (\<lambda>breadcrumb. if breadcrumb = []
         then throw (NotFound (''Flow '' @ show_int flowId @ '' not found'')) else ok (rev breadcrumb))
       (breadcrumb_loop db (Some flowId) [])"

section \<open>Menu branches and their subflows\<close>

definition resolveLegacyMenuBranchKey :: "config \<Rightarrow> string option" where
  "resolveLegacyMenuBranchKey config =
     (let branches = sanitizeMenuBranches (obj_get config ''branches'') in
      if ''1'' \<in> set branches then Some ''1'' else (case branches of [] \<Rightarrow> None | b # _ \<Rightarrow> Some b))"

definition branch_flow_step ::
    "string list \<times> (string \<times> call_flow) list \<Rightarrow> call_flow \<Rightarrow> string list \<times> (string \<times> call_flow) list" where
  "branch_flow_step = (\<lambda>(branchOrder, branchFlowMap) childFlow.
     let branchKey = trim (text_or_empty (cf_parentBranchKey childFlow)) in
     if \<not> isValidMenuBranchValue branchKey \<or> branchKey \<in> fst ` set branchFlowMap
     then (branchOrder, branchFlowMap)
     else (if branchKey \<in> set branchOrder then branchOrder else branchOrder @ [branchKey],
           branchFlowMap @ [(branchKey, childFlow)]))"

definition legacy_flow :: "flow_node \<Rightarrow> call_flow list \<Rightarrow> call_flow option" where
  "legacy_flow node nodeChildFlows =
     (case List.find (\<lambda>c. cf_id c = (case fn_subflowId node of None \<Rightarrow> 0 | Some s \<Rightarrow> s)) nodeChildFlows of
        Some c \<Rightarrow> Some c
      | None \<Rightarrow> List.find (\<lambda>c. cf_parentBranchKey c = None) nodeChildFlows)"

definition buildMenuBranchFlowEntries :: "flow_node \<Rightarrow> call_flow list \<Rightarrow> (string \<times> call_flow) list" where
  "buildMenuBranchFlowEntries node childFlows =
     (let nodeChildFlows = filter (\<lambda>c. cf_parentNodeKey c = Some (fn_nodeKey node)) childFlows;
          configuredBranches = sanitizeMenuBranches (obj_get (fn_configJson node) ''branches'');
          (branchOrder, branchFlowMap) = foldl branch_flow_step (configuredBranches, []) nodeChildFlows;
          (branchOrder', branchFlowMap') =
            (case (legacy_flow node nodeChildFlows, resolveLegacyMenuBranchKey (fn_configJson node)) of
               (Some lf, Some lk) \<Rightarrow>
                 if lk \<noteq> [] \<and> lk \<notin> fst ` set branchFlowMap
                 then (if lk \<in> set branchOrder then branchOrder else lk # branchOrder,
                       branchFlowMap @ [(lk, lf)])
                 else (branchOrder, branchFlowMap)
             | _ \<Rightarrow> (branchOrder, branchFlowMap))
      in concat (map (\<lambda>b. case map_of branchFlowMap' b of None \<Rightarrow> [] | Some c \<Rightarrow> [(b, c)]) branchOrder'))"

section \<open>Walking down\<close>

datatype tree_child =
  TreeChild (tc_nodeKey: string) (tc_nodeLabel: string) (tc_branchKey: string) (tc_subflowId: int)
    (tc_name: string) (tc_children: "tree_child list")

record flow_tree =
  ft_id :: int
  ft_name :: string
  ft_children :: "tree_child list"

function buildFlowTree :: "flow_db \<Rightarrow> call_flow \<Rightarrow> nat \<Rightarrow> int list \<Rightarrow> flow_tree" where
  "buildFlowTree db flow depth visited =
     (if 10 \<le> depth \<or> cf_id flow \<in> set visited
      then \<lparr>ft_id = cf_id flow, ft_name = cf_name flow, ft_children = []\<rparr>
      else case nonzero (resolveFlowVersionId db (cf_id flow)) of
        None \<Rightarrow> \<lparr>ft_id = cf_id flow, ft_name = cf_name flow, ft_children = []\<rparr>
      | Some v \<Rightarrow>
          \<lparr>ft_id = cf_id flow, ft_name = cf_name flow,
           ft_children = concat (map (\<lambda>node.
             map (\<lambda>(branchKey, childFlow).
                 TreeChild (fn_nodeKey node) (text_or (fn_label node) (fn_nodeKey node)) branchKey
                   (cf_id childFlow) (cf_name childFlow)
                   (ft_children (buildFlowTree db childFlow (depth + 1) (cf_id flow # visited))))
               (buildMenuBranchFlowEntries node (getDirectSubflows db (cf_id flow))))
             (filter (\<lambda>n. fn_type n = ''menu'') (version_nodes db v)))\<rparr>)"
  by pat_completeness auto
termination
  by (relation "measure (\<lambda>(_, _, depth, _). 10 - depth)") auto

declare buildFlowTree.simps [simp del]

definition getFlowTree :: "flow_db \<Rightarrow> int \<Rightarrow> flow_tree result" where
  "getFlowTree db rootFlowId =
     (case find_flow db rootFlowId of
        None \<Rightarrow> throw (NotFound (''Flow '' @ show_int rootFlowId @ '' not found''))
      | Some rootFlow \<Rightarrow> ok (buildFlowTree db rootFlow 0 []))"

text \<open>\<open>flow.currentVersionId ?? latest?.id ?? null\<close>, as four operations compute it.\<close>

definition flow_version_id :: "flow_db \<Rightarrow> call_flow \<Rightarrow> int option" where
  "flow_version_id db flow =
     (case cf_currentVersionId flow of
        Some v \<Rightarrow> Some v
      | None \<Rightarrow> map_option fv_id (getLatestVersion db (cf_id flow)))"

definition getFlowWithNodesEdges :: "flow_db \<Rightarrow> int \<Rightarrow> (call_flow \<times> snap_node list \<times> snap_edge list) result" where
  "getFlowWithNodesEdges db flowId =
     (case find_flow db flowId of
        None \<Rightarrow> throw (NotFound (''Flow '' @ show_int flowId @ '' not found''))
      | Some flow \<Rightarrow> (case nonzero (flow_version_id db flow) of
            None \<Rightarrow> ok (flow, [], [])
          | Some v \<Rightarrow> (let s = buildSnapshotFromVersionId db v in ok (flow, ss_nodes s, ss_edges s))))"

text \<open>A subtree is stored under its parent with its id and name, and without an empty subflow list.\<close>

definition as_subflow :: "snapshot \<Rightarrow> snapshot" where
  "as_subflow s =
     Snapshot (Some (snapshot_flow_id s))
       (Some (case ss_name s of Some n \<Rightarrow> n | None \<Rightarrow> ''Subflow #'' @ show_int (snapshot_flow_id s)))
       (ss_nodes s) (ss_edges s)
       (case ss_subflows s of Some (x # xs) \<Rightarrow> Some (x # xs) | _ \<Rightarrow> None)"

function buildFullTreeSnapshot :: "flow_db \<Rightarrow> int \<Rightarrow> int list \<Rightarrow> snapshot result" where
  "buildFullTreeSnapshot db rootFlowId visited =
     (if rootFlowId \<in> set visited
      then throw (BadRequest (''Flow '' @ show_int rootFlowId @ '' has a circular subflow tree''))
      else bind_result (getFlowWithNodesEdges db rootFlowId) (\<lambda>(flow, nodes, edges).
        bind_result (map_result (\<lambda>child. buildFullTreeSnapshot db (cf_id child) (rootFlowId # visited))
                       (getDirectSubflows db rootFlowId)) (\<lambda>subflows.
          ok (Snapshot (Some (cf_id flow)) (Some (cf_name flow)) nodes edges (Some (map as_subflow subflows))))))"
  by pat_completeness auto
termination
proof (relation "measure (\<lambda>(db, _, visited). card (flow_ids db - set visited))")
  fix db rootFlowId visited r flow ne nodes edges child
  assume "rootFlowId \<notin> set visited" and "getFlowWithNodesEdges db rootFlowId = Inr r"
  then have "rootFlowId \<in> flow_ids db"
    by (auto simp: getFlowWithNodesEdges_def split: option.splits intro: find_flow_ids)
  then show "((db, cf_id child, rootFlowId # visited), db, rootFlowId, visited)
      \<in> measure (\<lambda>(db, _, visited). card (flow_ids db - set visited))"
    using \<open>rootFlowId \<notin> set visited\<close> by (simp add: visited_decreases del: card_Diff_insert)
qed simp

declare buildFullTreeSnapshot.simps [simp del]

text \<open>\<open>...(subflows.length > 0 ? \{ subflows \} : \{\})\<close>.\<close>

definition some_subflows :: "snapshot list \<Rightarrow> snapshot list option" where
  "some_subflows ss = (if ss = [] then None else Some ss)"

lemma direct_subflow_id: "child \<in> set (getDirectSubflows db p) \<Longrightarrow> cf_id child \<in> flow_ids db"
  by (auto simp: getDirectSubflows_def flow_ids_def)

function buildSubflowSnapshotsRecursive :: "flow_db \<Rightarrow> int \<Rightarrow> int list \<Rightarrow> snapshot list" where
  "buildSubflowSnapshotsRecursive db parentFlowId visited =
     concat (map (\<lambda>child.
         if cf_id child \<in> set visited then []
         else case nonzero (flow_version_id db child) of
           None \<Rightarrow> []
         | Some v \<Rightarrow>
             (let base = buildSnapshotFromVersionId db v;
                  childSubflows = buildSubflowSnapshotsRecursive db (cf_id child) (cf_id child # visited)
              in [Snapshot (Some (cf_id child)) (Some (cf_name child)) (ss_nodes base) (ss_edges base)
                    (some_subflows childSubflows)]))
       (getDirectSubflows db parentFlowId))"
  by pat_completeness auto
termination
  by (relation "measure (\<lambda>(db, _, visited). card (flow_ids db - set visited))")
    (auto intro: visited_decreases direct_subflow_id)

declare buildSubflowSnapshotsRecursive.simps [simp del]

definition buildFlowSnapshot :: "flow_db \<Rightarrow> call_flow \<Rightarrow> snapshot" where
  "buildFlowSnapshot db flow =
     (case nonzero (flow_version_id db flow) of
        None \<Rightarrow> buildSnapshotFromPayload [] []
      | Some v \<Rightarrow>
          (let s = buildSnapshotFromVersionId db v in
           if cf_parentFlowId flow \<noteq> None then s
           else let subflows = buildSubflowSnapshotsRecursive db (cf_id flow) [cf_id flow] in
             if subflows = [] then s
             else Snapshot (ss_flowId s) (ss_name s) (ss_nodes s) (ss_edges s) (Some subflows)))"

definition buildSnapshotForSave :: "flow_db \<Rightarrow> call_flow \<Rightarrow> node_dto list \<Rightarrow> edge_dto list \<Rightarrow> snapshot" where
  "buildSnapshotForSave db flow nodes edges =
     (let base = buildSnapshotFromPayload nodes edges in
      if cf_parentFlowId flow \<noteq> None then base
      else Snapshot (Some (cf_id flow)) (Some (cf_name flow)) (ss_nodes base) (ss_edges base)
             (some_subflows (buildSubflowSnapshotsRecursive db (cf_id flow) [cf_id flow])))"

function collect_loop ::
    "flow_db \<Rightarrow> call_flow list \<Rightarrow> int list \<Rightarrow> call_flow list \<Rightarrow> call_flow list" where
  "collect_loop db [] visited ordered = ordered"
| "collect_loop db (current # queue) visited ordered =
     (if cf_id current \<in> set visited then collect_loop db queue visited ordered
      else collect_loop db
        (queue @ filter (\<lambda>c. cf_id c \<notin> set (cf_id current # visited)) (getDirectSubflows db (cf_id current)))
        (cf_id current # visited) (ordered @ [current]))"
  by pat_completeness auto
text \<open>
  Each round either drops a queued flow or marks one of the table's flows as visited; a queued
  flow that is not in the table can be marked once, which the extra set counts.
\<close>
termination
proof (relation "measures [\<lambda>(db, queue, visited, _). card ((flow_ids db \<union> cf_id ` set queue) - set visited),
    \<lambda>(_, queue, _, _). length queue]", goal_cases)
  case 1
  show ?case by simp
next
  case (2 db current queue visited ordered)
  then have "(flow_ids db \<union> cf_id ` set queue) - set visited =
      (flow_ids db \<union> cf_id ` set (current # queue)) - set visited" by auto
  then show ?case by simp
next
  case (3 db current queue visited ordered)
  let ?kids = "filter (\<lambda>c. cf_id c \<notin> set (cf_id current # visited)) (getDirectSubflows db (cf_id current))"
  have kids: "cf_id ` set ?kids \<subseteq> flow_ids db" by (auto intro: direct_subflow_id)
  have "(flow_ids db \<union> cf_id ` set (queue @ ?kids)) - set (cf_id current # visited)
      \<subset> (flow_ids db \<union> cf_id ` set (current # queue)) - set visited"
    using 3 kids by auto
  then have "card ((flow_ids db \<union> cf_id ` set (queue @ ?kids)) - set (cf_id current # visited))
      < card ((flow_ids db \<union> cf_id ` set (current # queue)) - set visited)"
    by (rule psubset_card_mono [rotated]) simp
  then show ?case by simp
qed

declare collect_loop.simps(2) [simp del]

definition collectFlowSubtreeForDelete :: "flow_db \<Rightarrow> call_flow \<Rightarrow> call_flow list" where
  "collectFlowSubtreeForDelete db root = rev (collect_loop db [root] [] [])"

section \<open>Where the parent chain of a flow ends\<close>

text \<open>
  \<open>chain db e n i\<close>: following \<open>parent_flow_id\<close> from flow \<open>i\<close> ends after \<open>n\<close> steps, at the
  root \<open>e = Some r\<close> or at a missing row, \<open>e = None\<close>.  A circular chain has no such end.
\<close>

inductive chain :: "flow_db \<Rightarrow> int option \<Rightarrow> nat \<Rightarrow> int \<Rightarrow> bool" for db where
  chain_missing: "find_flow db i = None \<Longrightarrow> chain db None 0 i"
| chain_root: "find_flow db i = Some f \<Longrightarrow> cf_parentFlowId f = None \<Longrightarrow> chain db (Some i) 0 i"
| chain_step: "find_flow db i = Some f \<Longrightarrow> cf_parentFlowId f = Some p \<Longrightarrow> chain db e n p \<Longrightarrow> chain db e (Suc n) i"

inductive_cases chain_cases: "chain db e n i"

lemma chain_unique: "chain db e n i \<Longrightarrow> chain db e' m i \<Longrightarrow> e = e' \<and> n = m"
proof (induction arbitrary: e' m rule: chain.induct)
  case (chain_missing i)
  then show ?case by (auto elim: chain_cases)
next
  case (chain_root i f)
  from chain_root.prems chain_root.hyps show ?case by (auto elim: chain_cases)
next
  case (chain_step i f p e n)
  from chain_step.prems chain_step.hyps obtain m' where "m = Suc m'" "chain db e' m' p"
    by (auto elim: chain_cases)
  with chain_step.IH show ?case by simp
qed

lemma root_loop_chain:
  "chain db e n c \<Longrightarrow> (\<And>x. x \<in> set seen \<Longrightarrow> \<exists>e' m. chain db e' m x \<and> n < m) \<Longrightarrow>
     root_loop db k c seen =
       (case e of Some r \<Rightarrow> Inr r | None \<Rightarrow> Inl (NotFound (''Flow '' @ show_int k @ '' not found'')))"
proof (induction arbitrary: seen rule: chain.induct)
  case (chain_missing i)
  then have "i \<notin> set seen" using chain_unique chain.chain_missing by blast
  with chain_missing show ?case by (simp add: root_loop.simps [of _ _ i])
next
  case (chain_root i f)
  then have "i \<notin> set seen" using chain_unique chain.chain_root by blast
  with chain_root show ?case by (simp add: root_loop.simps [of _ _ i] find_flow_Some)
next
  case (chain_step i f p e n)
  have here: "chain db e (Suc n) i" using chain_step.hyps by (rule chain.chain_step)
  then have "i \<notin> set seen" using chain_step.prems chain_unique by blast
  moreover have "root_loop db k p (i # seen) =
      (case e of Some r \<Rightarrow> Inr r | None \<Rightarrow> Inl (NotFound (''Flow '' @ show_int k @ '' not found'')))"
    using chain_step.prems here by (intro chain_step.IH) (auto, meson Suc_lessD)
  ultimately show ?case using chain_step.hyps by (simp add: root_loop.simps [of _ _ i])
qed

lemma root_loop_seen:
  "c \<in> set seen \<Longrightarrow> root_loop db k c seen
     = Inl (BadRequest (''Flow '' @ show_int k @ '' has a circular parent_flow_id chain''))"
  by (simp add: root_loop.simps [of _ _ c])

lemma root_loop_up:
  "c \<notin> set seen \<Longrightarrow> find_flow db c = Some f \<Longrightarrow> cf_parentFlowId f = Some p \<Longrightarrow>
     root_loop db k c seen = root_loop db k p (c # seen)"
  by (simp add: root_loop.simps [of _ _ c])

lemma root_loop_no_cycle:
  assumes "root_loop db k c seen \<noteq> Inl (BadRequest (''Flow '' @ show_int k @ '' has a circular parent_flow_id chain''))"
  shows "\<exists>e n. chain db e n c"
  using assms
proof (induction db k c seen rule: root_loop.induct)
  case (1 db k c seen)
  then have new: "c \<notin> set seen" using root_loop_seen by blast
  consider "find_flow db c = None" | f where "find_flow db c = Some f" "cf_parentFlowId f = None"
    | f p where "find_flow db c = Some f" "cf_parentFlowId f = Some p"
    by (metis option.exhaust)
  then show ?case
  proof cases
    case (3 f p)
    then have "\<exists>e n. chain db e n p"
      using 1 new root_loop_up [OF new 3] by simp
    with 3 show ?thesis by (blast intro: chain_step)
  qed (blast intro: chain_missing chain_root)+
qed

lemma root_loop_chain_root: "root_loop db k c seen = Inr r \<Longrightarrow> \<exists>n. chain db (Some r) n c"
proof -
  assume r: "root_loop db k c seen = Inr r"
  have "\<exists>n. chain db (Some r) n c" if "chain db e m c" for e m
    using that r
  proof (induction arbitrary: seen rule: chain.induct)
    case (chain_missing i)
    then show ?case by (simp add: root_loop.simps [of _ _ i] split: if_splits)
  next
    case (chain_root i f)
    then have "cf_id f = r" by (simp add: root_loop.simps [of _ _ i] split: if_splits)
    with chain_root show ?case by (metis chain.chain_root find_flow_Some)
  next
    case (chain_step i f p e n)
    have "i \<notin> set seen" using chain_step.prems root_loop_seen [of i seen db k] by auto
    then have "root_loop db k p (i # seen) = Inr r"
      using chain_step.prems root_loop_up chain_step.hyps(1,2) by simp
    then show ?case using chain_step.IH chain_step.hyps(1,2) by (blast intro: chain.chain_step)
  qed
  moreover have "\<exists>e n. chain db e n c" using r root_loop_no_cycle [of db k c seen] by simp
  ultimately show ?thesis by blast
qed

lemma getRootFlowId_iff: "getRootFlowId db i = Inr r \<longleftrightarrow> (\<exists>n. chain db (Some r) n i)"
  using root_loop_chain [of db "Some r" _ i "[]"] root_loop_chain_root
  by (auto simp: getRootFlowId_def)

lemma getRootFlowId_circular_iff:
  "getRootFlowId db i = Inl (BadRequest (''Flow '' @ show_int i @ '' has a circular parent_flow_id chain''))
     \<longleftrightarrow> (\<nexists>e n. chain db e n i)"
proof
  assume "\<nexists>e n. chain db e n i"
  then show "getRootFlowId db i = Inl (BadRequest (''Flow '' @ show_int i @ '' has a circular parent_flow_id chain''))"
    using root_loop_no_cycle unfolding getRootFlowId_def by blast
qed (auto simp: getRootFlowId_def dest!: root_loop_chain [of db _ _ i "[]" i] split: option.splits)

lemma chain_root_row: "chain db (Some r) n i \<Longrightarrow> \<exists>f. find_flow db r = Some f \<and> cf_parentFlowId f = None"
  by (induction "Some r" n i rule: chain.induct) auto

section \<open>The breadcrumb returns exactly when the chain ends\<close>

lemma breadcrumb_loop_chain:
  "chain db e n c \<Longrightarrow> find_flow db 0 = None \<Longrightarrow>
     \<exists>bs. breadcrumb_loop db (Some c) acc = Some (acc @ bs)
       \<and> (e = Some r \<longrightarrow> bs \<noteq> [] \<and> bi_flowId (hd bs) = c \<and> bi_flowId (last bs) = r \<and> length bs = Suc n)"
proof (induction arbitrary: acc rule: chain.induct)
  case (chain_missing i)
  then show ?case by (simp add: breadcrumb_loop.simps nonzero_def)
next
  case (chain_root i f)
  then show ?case
    by (auto simp: breadcrumb_loop.simps nonzero_def breadcrumb_of_def dest: find_flow_Some)
next
  case (chain_step i f p e n)
  obtain bs where "breadcrumb_loop db (Some p) (acc @ [breadcrumb_of db f]) = Some ((acc @ [breadcrumb_of db f]) @ bs)"
    and "e = Some r \<longrightarrow> bs \<noteq> [] \<and> bi_flowId (hd bs) = p \<and> bi_flowId (last bs) = r \<and> length bs = Suc n"
    using chain_step.IH [of "acc @ [breadcrumb_of db f]"] chain_step.prems by blast
  then show ?case using chain_step
    by (intro exI [of _ "breadcrumb_of db f # bs"])
      (auto simp: breadcrumb_loop.simps [of _ "Some i"] nonzero_def breadcrumb_of_def dest: find_flow_Some)
qed

lemma breadcrumb_loop_ends:
  "breadcrumb_loop db cur acc = Some bs \<Longrightarrow> find_flow db 0 = None \<Longrightarrow> cur = Some c \<Longrightarrow> \<exists>e n. chain db e n c"
proof (induction arbitrary: c rule: breadcrumb_loop.raw_induct [rotated, consumes 1])
  case (1 loop db cur acc bs)
  show ?case
  proof (cases "find_flow db c")
    case None
    then show ?thesis by (auto intro: chain_missing)
  next
    case (Some f)
    then have "c \<noteq> 0" using \<open>find_flow db 0 = None\<close> by auto
    with 1 Some show ?thesis
      by (cases "cf_parentFlowId f")
        (auto simp: nonzero_def intro: chain_root, metis chain_step)
  qed
qed

lemma flow_zero: "flows_ok db \<Longrightarrow> find_flow db 0 = None"
  by (auto simp: find_flow_None flows_ok_def ids_ok_def)

section \<open>The subtree below a flow\<close>

definition child_rel :: "flow_db \<Rightarrow> (int \<times> int) set" where
  "child_rel db = {(p, c). \<exists>f. find_flow db c = Some f \<and> cf_parentFlowId f = Some p}"

lemma child_rel_subflows:
  "flows_ok db \<Longrightarrow> (p, c) \<in> child_rel db \<longleftrightarrow> c \<in> cf_id ` set (getDirectSubflows db p)"
  by (auto simp: child_rel_def getDirectSubflows_def image_iff dest: find_flow_Some find_flow_mem)

lemma chain_below:
  "(r, i) \<in> (child_rel db)\<^sup>* \<Longrightarrow> chain db e n r \<Longrightarrow> \<exists>m. chain db e m i"
  by (induction rule: rtrancl_induct) (auto simp: child_rel_def intro: chain_step)

lemma chain_is_below: "chain db (Some r) n i \<Longrightarrow> (r, i) \<in> (child_rel db)\<^sup>*"
proof (induction "Some r" n i rule: chain.induct)
  case (chain_step i f p n)
  then show ?case by (auto simp: child_rel_def intro: rtrancl_into_rtrancl)
qed simp

lemma below_root_iff:
  assumes "chain db (Some r) n i"
  shows "(r, j) \<in> (child_rel db)\<^sup>* \<longleftrightarrow> (\<exists>m. chain db (Some r) m j)"
  using chain_root_row [OF assms] by (auto dest: chain_is_below intro: chain_below chain_root)

lemma rtrancl_children: "{j. (i, j) \<in> R\<^sup>*} = insert i (\<Union>c \<in> {c. (i, c) \<in> R}. {j. (c, j) \<in> R\<^sup>*})"
  by (auto elim: converse_rtranclE intro: converse_rtrancl_into_rtrancl)

text \<open>The flows a snapshot holds, at every level.\<close>

primrec snapshot_ids :: "snapshot \<Rightarrow> int set" where
  "snapshot_ids (Snapshot fid name nodes edges subs) =
     set_option fid \<union> \<Union> (\<Union> (set ` set_option (map_option (map snapshot_ids) subs)))"

lemma snapshot_ids_as_subflow: "ss_flowId s = Some i \<Longrightarrow> snapshot_ids (as_subflow s) = snapshot_ids s"
  by (cases s) (auto simp: as_subflow_def snapshot_flow_id_def split: option.splits list.splits)

lemma getFlowWithNodesEdges_ok:
  "find_flow db i = Some f \<Longrightarrow> \<exists>ns es. getFlowWithNodesEdges db i = Inr (f, ns, es)"
  by (auto simp: getFlowWithNodesEdges_def Let_def split: option.splits)

lemma full_tree_chain:
  assumes "flows_ok db"
  shows "chain db (Some r) n i \<Longrightarrow> (\<And>x. x \<in> set visited \<Longrightarrow> \<exists>e m. chain db e m x \<and> m < n) \<Longrightarrow>
    \<exists>s. buildFullTreeSnapshot db i visited = Inr s \<and> ss_flowId s = Some i
      \<and> snapshot_ids s = {j. (i, j) \<in> (child_rel db)\<^sup>*}"
proof (induction "card (flow_ids db - set visited)" arbitrary: i n visited rule: less_induct)
  case less
  obtain f where f: "find_flow db i = Some f"
    using less.prems(1) by (auto elim: chain_cases)
  then obtain ns es where g: "getFlowWithNodesEdges db i = Inr (f, ns, es)"
    using getFlowWithNodesEdges_ok by blast
  have fresh: "i \<notin> set visited" using less.prems chain_unique by blast
  have kids: "\<exists>s. buildFullTreeSnapshot db (cf_id c) (i # visited) = Inr s \<and> ss_flowId s = Some (cf_id c)
      \<and> snapshot_ids s = {j. (cf_id c, j) \<in> (child_rel db)\<^sup>*}"
    if c: "c \<in> set (getDirectSubflows db i)" for c
  proof (rule less.hyps)
    show "card (flow_ids db - set (i # visited)) < card (flow_ids db - set visited)"
      using visited_decreases [OF find_flow_ids [OF f] fresh] by simp
    have "find_flow db (cf_id c) = Some c" "cf_parentFlowId c = Some i"
      using c assms by (auto simp: getDirectSubflows_def intro: find_flow_mem)
    then show "chain db (Some r) (Suc n) (cf_id c)" using less.prems(1) by (rule chain_step)
    show "\<exists>e m. chain db e m x \<and> m < Suc n" if "x \<in> set (i # visited)" for x
      using that less.prems(1) less.prems(2) [of x] less_Suc_eq by auto
  qed
  then obtain ss where ss: "map_result (\<lambda>c. buildFullTreeSnapshot db (cf_id c) (i # visited)) (getDirectSubflows db i) = Inr ss"
    using map_result_total [of "getDirectSubflows db i"] by metis
  then have all2: "list_all2 (\<lambda>c s. ss_flowId s = Some (cf_id c)
      \<and> snapshot_ids s = {j. (cf_id c, j) \<in> (child_rel db)\<^sup>*}) (getDirectSubflows db i) ss"
    unfolding map_result_ok by (rule list.rel_mono_strong) (use kids in fastforce)
  have "map (snapshot_ids \<circ> as_subflow) ss = map (\<lambda>c. {j. (cf_id c, j) \<in> (child_rel db)\<^sup>*}) (getDirectSubflows db i)"
    using all2 by (induction rule: list_all2_induct) (simp_all add: snapshot_ids_as_subflow)
  from arg_cong [OF this, of set]
  have "(snapshot_ids \<circ> as_subflow) ` set ss = (\<lambda>c. {j. (c, j) \<in> (child_rel db)\<^sup>*}) ` {c. (i, c) \<in> child_rel db}"
    using child_rel_subflows [OF assms, of i] by (auto simp: image_iff)
  then have "snapshot_ids (Snapshot (Some (cf_id f)) (Some (cf_name f)) ns es (Some (map as_subflow ss)))
      = {j. (i, j) \<in> (child_rel db)\<^sup>*}"
    using find_flow_Some [OF f] by (subst rtrancl_children) (simp add: image_comp)
  then show ?case
    using fresh g ss find_flow_Some [OF f] by (simp add: buildFullTreeSnapshot.simps [of db i])
qed

lemma root_tree_snapshot:
  assumes "flows_ok db" and "getRootFlowId db i = Inr r"
  shows "\<exists>s. buildFullTreeSnapshot db r [] = Inr s \<and> ss_flowId s = Some r
    \<and> snapshot_ids s = {j. getRootFlowId db j = Inr r}"
proof -
  obtain n where n: "chain db (Some r) n i" using assms(2) by (auto simp: getRootFlowId_iff)
  then have "chain db (Some r) 0 r" using chain_root_row chain_root by blast
  from full_tree_chain [OF assms(1) this, of "[]"] below_root_iff [OF n]
  show ?thesis by (simp add: getRootFlowId_iff)
qed

section \<open>Collecting the subtree to delete\<close>

lemma collect_kids:
  assumes "flows_ok db"
  shows "cf_id ` set (filter P (getDirectSubflows db p)) \<subseteq> child_rel db `` {p}"
    and "set (filter P (getDirectSubflows db p)) \<subseteq> set (call_flows db)"
  using child_rel_subflows [OF assms, of p] by (auto simp: getDirectSubflows_def)

text \<open>
  The loop invariant: the visited ids are those of the ordered flows, each once, and every child
  of a visited flow is visited or queued.
\<close>

definition collect_inv :: "flow_db \<Rightarrow> call_flow list \<Rightarrow> int list \<Rightarrow> call_flow list \<Rightarrow> bool" where
  "collect_inv db queue visited ordered \<longleftrightarrow>
     set visited = cf_id ` set ordered \<and> distinct (map cf_id ordered)
     \<and> set queue \<union> set ordered \<subseteq> set (call_flows db)
     \<and> child_rel db `` set visited \<subseteq> set visited \<union> cf_id ` set queue"

lemma collect_inv_skip:
  "collect_inv db (current # queue) visited ordered \<Longrightarrow> cf_id current \<in> set visited \<Longrightarrow>
     collect_inv db queue visited ordered"
  unfolding collect_inv_def by (elim conjE) (simp add: insert_absorb)

lemma collect_inv_visit:
  assumes "flows_ok db" and inv: "collect_inv db (current # queue) visited ordered"
    and new: "cf_id current \<notin> set visited"
  shows "collect_inv db
    (queue @ filter (\<lambda>c. cf_id c \<notin> set (cf_id current # visited)) (getDirectSubflows db (cf_id current)))
    (cf_id current # visited) (ordered @ [current])"
proof -
  have "child_rel db `` {cf_id current} \<subseteq> set (cf_id current # visited) \<union>
      cf_id ` set (filter (\<lambda>c. cf_id c \<notin> set (cf_id current # visited)) (getDirectSubflows db (cf_id current)))"
    using child_rel_subflows [OF assms(1), of "cf_id current"] by (auto simp: image_iff)
  moreover have "child_rel db `` set visited \<subseteq> set visited \<union> cf_id ` set (current # queue)"
    using inv unfolding collect_inv_def by (elim conjE)
  ultimately have "child_rel db `` set (cf_id current # visited) \<subseteq> set (cf_id current # visited) \<union>
      cf_id ` set (queue @ filter (\<lambda>c. cf_id c \<notin> set (cf_id current # visited)) (getDirectSubflows db (cf_id current)))"
    by (auto simp: Image_Un image_Un)
  then show ?thesis
    using inv new collect_kids(2) [OF assms(1)] unfolding collect_inv_def by simp
qed

lemma collect_loop_facts:
  assumes "flows_ok db"
  shows "collect_inv db queue visited ordered \<Longrightarrow>
    distinct (map cf_id (collect_loop db queue visited ordered))
    \<and> set (collect_loop db queue visited ordered) \<subseteq> set (call_flows db)
    \<and> cf_id ` set (collect_loop db queue visited ordered)
        = (child_rel db)\<^sup>* `` (cf_id ` (set queue \<union> set ordered))"
  using assms
proof (induction db queue visited ordered rule: collect_loop.induct)
  case (1 db visited ordered)
  then have "child_rel db `` (cf_id ` set ordered) \<subseteq> cf_id ` set ordered"
    unfolding collect_inv_def by (elim conjE) simp
  then have "(child_rel db)\<^sup>* `` (cf_id ` set ordered) = cf_id ` set ordered"
    by (rule Image_closed_trancl)
  with 1 show ?case by (simp add: collect_inv_def)
next
  case (2 db current queue visited ordered)
  let ?R = "(child_rel db)\<^sup>*"
  show ?case
  proof (cases "cf_id current \<in> set visited")
    case True
    have "cf_id ` (set (current # queue) \<union> set ordered) = cf_id ` (set queue \<union> set ordered)"
      using True 2(3) by (auto simp: collect_inv_def)
    with True 2 collect_inv_skip [OF 2(3) True] show ?thesis by (simp add: collect_loop.simps)
  next
    case False
    let ?kids = "filter (\<lambda>c. cf_id c \<notin> set (cf_id current # visited)) (getDirectSubflows db (cf_id current))"
    let ?old = "cf_id ` (set (current # queue) \<union> set ordered)"
    have new: "cf_id ` (set (queue @ ?kids) \<union> set (ordered @ [current])) = ?old \<union> cf_id ` set ?kids" by auto
    have "?R `` (cf_id ` set ?kids) \<subseteq> ?R `` {cf_id current}"
      using collect_kids(1) [OF 2(4)] by (blast intro: converse_rtrancl_into_rtrancl)
    moreover have "?R `` {cf_id current} \<subseteq> ?R `` ?old" by (rule Image_mono) auto
    ultimately have "?R `` (cf_id ` (set (queue @ ?kids) \<union> set (ordered @ [current]))) = ?R `` ?old"
      unfolding new Image_Un by blast
    with False 2(2) [OF False collect_inv_visit [OF 2(4,3) False] 2(4)] show ?thesis
      by (simp add: collect_loop.simps)
  qed
qed

lemma collectFlowSubtreeForDelete_facts:
  assumes "flows_ok db" and "root \<in> set (call_flows db)"
  shows "distinct (map cf_id (collectFlowSubtreeForDelete db root))"
    and "set (collectFlowSubtreeForDelete db root) \<subseteq> set (call_flows db)"
    and "cf_id ` set (collectFlowSubtreeForDelete db root) = {j. (cf_id root, j) \<in> (child_rel db)\<^sup>*}"
proof -
  have "collect_inv db [root] [] []" using assms by (simp add: collect_inv_def)
  from collect_loop_facts [OF assms(1) this]
  show "distinct (map cf_id (collectFlowSubtreeForDelete db root))"
    "set (collectFlowSubtreeForDelete db root) \<subseteq> set (call_flows db)"
    "cf_id ` set (collectFlowSubtreeForDelete db root) = {j. (cf_id root, j) \<in> (child_rel db)\<^sup>*}"
    by (auto simp: collectFlowSubtreeForDelete_def rev_map [symmetric])
qed

end
