(* ===== verification/FlowService.thy ===== *)
theory FlowService
  imports FlowTree
begin

text \<open>
  The operations of \<open>FlowsService\<close>.  An operation that runs in \<open>dataSource.transaction\<close> takes
  the database and returns its response with the new database, or the error with which the
  transaction is rolled back.  \<open>now\<close> is \<open>Date.now()\<close>, \<open>lc\<close> is \<open>localeCompare\<close> and
  \<open>urlProtocol\<close> the WHATWG URL parser.
\<close>

section \<open>Slugs\<close>

definition slug_char :: "char \<Rightarrow> bool" where
  "slug_char c \<longleftrightarrow> is_digit c \<or> (97 :: nat) \<le> of_char c \<and> of_char c \<le> (122 :: nat)"

text \<open>\<open>replace(/[^a-z0-9]+/g, '-')\<close>: a run of other characters becomes one hyphen.\<close>

function hyphenate :: "string \<Rightarrow> string" where
  "hyphenate [] = []"
| "hyphenate (c # cs) =
     (if slug_char c then c # hyphenate cs
      else CHR ''-'' # hyphenate (dropWhile (\<lambda>d. \<not> slug_char d) cs))"
  by pat_completeness auto
termination
  by (relation "measure length") (auto simp: le_imp_less_Suc length_dropWhile_le)

text \<open>\<open>replace(/(^-|-\$)/g, '')\<close>.\<close>

definition strip_hyphens :: "string \<Rightarrow> string" where
  "strip_hyphens s =
     (let s1 = (if s \<noteq> [] \<and> hd s = CHR ''-'' then tl s else s) in
      if s1 \<noteq> [] \<and> last s1 = CHR ''-'' then butlast s1 else s1)"

definition slugify :: "nat \<Rightarrow> string \<Rightarrow> string" where
  "slugify now input =
     (let s = strip_hyphens (hyphenate (trim (map to_lower input))) in
      if s = [] then ''flow-'' @ show_nat now else s)"

definition base36_char :: "nat \<Rightarrow> char" where
  "base36_char d = (if d < 10 then char_of (48 + d) else char_of (87 + d))"

fun show_base36 :: "nat \<Rightarrow> string" where
  "show_base36 n = (if n < 36 then [base36_char n] else show_base36 (n div 36) @ [base36_char (n mod 36)])"

declare show_base36.simps [simp del]

definition ensureUniqueSlug :: "nat \<Rightarrow> flow_db \<Rightarrow> string \<Rightarrow> string" where
  "ensureUniqueSlug now db candidate =
     (let base = (if candidate = [] then ''untitled'' else candidate) in
      if list_ex (\<lambda>f. cf_slug f = base) (call_flows db) then base @ ''-'' @ show_base36 now else base)"

text \<open>\<open>dto.slug?.trim() || fallback\<close>.\<close>

definition slug_or :: "string option \<Rightarrow> string \<Rightarrow> string" where
  "slug_or s d = (if trim (text_or_empty s) = [] then d else trim (text_or_empty s))"

section \<open>Menu branch links\<close>

definition normalizeParentBranchKeyForPersist ::
    "flow_db \<Rightarrow> int option \<Rightarrow> string option \<Rightarrow> string option \<Rightarrow> string option" where
  "normalizeParentBranchKeyForPersist db parentFlowId parentNodeKey parentBranchKey =
     (let explicit = trim (text_or_empty parentBranchKey) in
      if explicit \<noteq> [] then Some explicit
      else case nonzero parentFlowId of
        None \<Rightarrow> None
      | Some p \<Rightarrow>
        if text_or_empty parentNodeKey = [] then None
        else case nonzero (Option.bind (find_flow db p) cf_currentVersionId) of
          None \<Rightarrow> None
        | Some v \<Rightarrow> (case find_version_node db v (text_or_empty parentNodeKey) of
              None \<Rightarrow> None
            | Some n \<Rightarrow> if fn_type n \<noteq> ''menu'' then None else resolveLegacyMenuBranchKey (fn_configJson n)))"

text \<open>
  One round of the loop of \<open>normalizeLegacyMenuBranchLinks\<close>.  The child entities are shared
  objects: assigning \<open>parentBranchKey\<close> changes the list the next round filters.
\<close>

definition legacy_link_step ::
    "flow_node \<Rightarrow> call_flow list \<times> flow_db \<Rightarrow> (call_flow list \<times> flow_db) result" where
  "legacy_link_step node = (\<lambda>(childFlows, db).
     if fn_type node \<noteq> ''menu'' then ok (childFlows, db)
     else let nodeChildFlows = filter (\<lambda>c. cf_parentNodeKey c = Some (fn_nodeKey node)) childFlows in
       case (legacy_flow node nodeChildFlows, resolveLegacyMenuBranchKey (fn_configJson node)) of
         (Some legacyFlow, Some legacyBranchKey) \<Rightarrow>
           if cf_parentBranchKey legacyFlow \<noteq> None \<or> legacyBranchKey = []
             \<or> list_ex (\<lambda>c. trim (text_or_empty (cf_parentBranchKey c)) = legacyBranchKey) nodeChildFlows
           then ok (childFlows, db)
           else let linked = legacyFlow\<lparr>cf_parentBranchKey := Some legacyBranchKey\<rparr> in
             bind_result (save_flow linked db) (\<lambda>db'. ok (replace_row cf_id linked childFlows, db'))
       | _ \<Rightarrow> ok (childFlows, db))"

fun legacy_links :: "flow_node list \<Rightarrow> call_flow list \<times> flow_db \<Rightarrow> (call_flow list \<times> flow_db) result" where
  "legacy_links [] st = ok st"
| "legacy_links (n # ns) st = bind_result (legacy_link_step n st) (legacy_links ns)"

definition normalizeLegacyMenuBranchLinks :: "call_flow \<Rightarrow> flow_node list \<Rightarrow> flow_db \<Rightarrow> flow_db result" where
  "normalizeLegacyMenuBranchLinks flow nodes db =
     (if list_all (\<lambda>n. fn_type n \<noteq> ''menu'') nodes then ok db
      else bind_result (legacy_links nodes (getDirectSubflows db (cf_id flow), db)) (\<lambda>(_, db'). ok db'))"

text \<open>\<open>Map<nodeKey, Record<branchKey, \{flowId, name\}>>\<close>: a later menu node with the same key wins.\<close>

definition buildMenuBranchSubflowLookup :: "flow_db \<Rightarrow> call_flow \<Rightarrow> flow_node list \<Rightarrow> string \<Rightarrow> config option" where
  "buildMenuBranchSubflowLookup db flow nodes =
     map_of (rev (map (\<lambda>n. (fn_nodeKey n,
         from_entries (map (\<lambda>(b, c). (b, JObj [(''flowId'', JNum (num_of_int (cf_id c))), (''name'', JStr (cf_name c))]))
           (buildMenuBranchFlowEntries n (getDirectSubflows db (cf_id flow))))))
       (filter (\<lambda>n. fn_type n = ''menu'') nodes)))"

section \<open>Responses\<close>

record node_response =
  nr_id :: int
  nr_nodeKey :: string
  nr_type :: string
  nr_label :: "string option"
  nr_positionX :: number
  nr_positionY :: number
  nr_config :: config
  nr_groupId :: "string option"
  nr_subflowId :: "int option"

record flow_detail =
  fd_id :: int
  fd_name :: string
  fd_description :: "string option"
  fd_slug :: string
  fd_parentFlowId :: "int option"
  fd_parentNodeKey :: "string option"
  fd_parentBranchKey :: "string option"
  fd_createdAt :: nat
  fd_updatedAt :: nat
  fd_versionId :: int
  fd_versionNumber :: int
  fd_nodes :: "node_response list"
  fd_edges :: "flow_edge list"

definition node_response_of :: "(string \<Rightarrow> config option) \<Rightarrow> flow_node \<Rightarrow> node_response" where
  "node_response_of branchSubflowLookup n =
     \<lparr>nr_id = fn_id n, nr_nodeKey = fn_nodeKey n, nr_type = fn_type n, nr_label = fn_label n,
      nr_positionX = fn_positionX n, nr_positionY = fn_positionY n,
      nr_config = (let c = sanitizePersistedNodeConfig (fn_type n) (Some (fn_configJson n)) in
        if fn_type n = ''menu''
        then obj_set ''submenu_branch_flows''
               (JObj (case branchSubflowLookup (fn_nodeKey n) of None \<Rightarrow> [] | Some m \<Rightarrow> m)) c
        else c),
      nr_groupId = fn_groupId n, nr_subflowId = fn_subflowId n\<rparr>"

text \<open>An edge response is the edge row without its version, kept here as the row.\<close>

definition buildFlowDetail :: "call_flow \<Rightarrow> flow_version \<Rightarrow> flow_db \<Rightarrow> (flow_detail \<times> flow_db) result" where
  "buildFlowDetail flow version db =
     (let nodes = version_nodes db (fv_id version); edges = version_edges db (fv_id version) in
      bind_result (normalizeLegacyMenuBranchLinks flow nodes db) (\<lambda>db'.
        ok (\<lparr>fd_id = cf_id flow, fd_name = cf_name flow, fd_description = cf_description flow,
             fd_slug = cf_slug flow, fd_parentFlowId = cf_parentFlowId flow,
             fd_parentNodeKey = cf_parentNodeKey flow, fd_parentBranchKey = cf_parentBranchKey flow,
             fd_createdAt = cf_createdAt flow, fd_updatedAt = cf_updatedAt flow,
             fd_versionId = fv_id version, fd_versionNumber = fv_versionNumber version,
             fd_nodes = map (node_response_of (buildMenuBranchSubflowLookup db' flow nodes)) nodes,
             fd_edges = edges\<rparr>, db')))"

definition flow_not_found :: "int \<Rightarrow> http_error" where
  "flow_not_found i = NotFound (''Flow '' @ show_int i @ '' not found'')"

text \<open>\<open>findOneOrFail\<close>.\<close>

definition flow_or_fail :: "flow_db \<Rightarrow> int \<Rightarrow> call_flow result" where
  "flow_or_fail db i = (case find_flow db i of None \<Rightarrow> throw (InternalError ''EntityNotFoundError'') | Some f \<Rightarrow> ok f)"

definition version_or_fail :: "flow_db \<Rightarrow> int \<Rightarrow> flow_version result" where
  "version_or_fail db i = (case find_version db i of None \<Rightarrow> throw (InternalError ''EntityNotFoundError'') | Some v \<Rightarrow> ok v)"

text \<open>
  The end of \<open>create\<close> and \<open>update\<close>: reload the flow and a version (the given one, or the flow's
  current one with the given one as default) and answer with the detail.
\<close>

definition detail_of_version :: "int \<Rightarrow> int \<Rightarrow> flow_db \<Rightarrow> (flow_detail \<times> flow_db) result" where
  "detail_of_version flowId versionId db =
     bind_result (flow_or_fail db flowId) (\<lambda>flow.
     bind_result (version_or_fail db versionId) (\<lambda>version.
       buildFlowDetail flow version db))"

definition detail_of_current :: "int \<Rightarrow> int \<Rightarrow> flow_db \<Rightarrow> (flow_detail \<times> flow_db) result" where
  "detail_of_current flowId versionId db =
     bind_result (flow_or_fail db flowId) (\<lambda>flow.
     bind_result (version_or_fail db (case cf_currentVersionId flow of Some v \<Rightarrow> v | None \<Rightarrow> versionId)) (\<lambda>version.
       buildFlowDetail flow version db))"

section \<open>Reading\<close>

record flow_list_item =
  li_id :: int
  li_name :: string
  li_description :: "string option"
  li_createdAt :: nat

record flow_page =
  fp_data :: "flow_list_item list"
  fp_total :: nat
  fp_page :: nat
  fp_limit :: nat
  fp_totalPages :: nat

text \<open>The listed flows, newest first; flows created at the same instant stay in the order of their ids.\<close>

definition listed_flows :: "flow_db \<Rightarrow> call_flow list" where
  "listed_flows db = sort_key (\<lambda>f. - int (cf_createdAt f))
     (filter (\<lambda>f. cf_parentFlowId f = None \<and> \<not> cf_isTemplate f) (call_flows db))"

definition list_item :: "call_flow \<Rightarrow> flow_list_item" where
  "list_item f = \<lparr>li_id = cf_id f, li_name = cf_name f, li_description = cf_description f, li_createdAt = cf_createdAt f\<rparr>"

definition findAll :: "flow_db \<Rightarrow> int \<Rightarrow> int \<Rightarrow> flow_page" where
  "findAll db page limit =
     (let safePage = nat (max 1 page); safeLimit = nat (max 1 limit); total = length (listed_flows db) in
      \<lparr>fp_data = map list_item (take safeLimit (drop ((safePage - 1) * safeLimit) (listed_flows db))),
       fp_total = total, fp_page = safePage, fp_limit = safeLimit,
       fp_totalPages = max 1 ((total + safeLimit - 1) div safeLimit)\<rparr>)"

definition findOne :: "int \<Rightarrow> flow_db \<Rightarrow> (flow_detail \<times> flow_db) result" where
  "findOne i db =
     (case find_flow db i of
        None \<Rightarrow> throw (flow_not_found i)
      | Some flow \<Rightarrow> (case nonzero (cf_currentVersionId flow) of
            None \<Rightarrow> (case getLatestVersion db (cf_id flow) of
                None \<Rightarrow> throw (NotFound (''Flow '' @ show_int i @ '' has no versions''))
              | Some latest \<Rightarrow> buildFlowDetail flow latest db)
          | Some v \<Rightarrow> (case find_version db v of
                None \<Rightarrow> throw (NotFound (''Flow '' @ show_int i @ '' version '' @ show_int v @ '' not found''))
              | Some version \<Rightarrow> buildFlowDetail flow version db)))"

definition ensureFlowExists :: "flow_db \<Rightarrow> int \<Rightarrow> unit result" where
  "ensureFlowExists db i = throw_if (find_flow db i = None) (flow_not_found i)"

definition listVersions :: "flow_db \<Rightarrow> int \<Rightarrow> version_summary list result" where
  "listVersions db i =
     bind_result (getRootFlowId db i) (\<lambda>rootFlowId.
     bind_result (ensureFlowExists db rootFlowId) (\<lambda>_.
       ok (map mapFlowVersionSummary
         (filter (\<lambda>v. fv_snapshot v \<noteq> None \<and> fv_nodeCount v \<noteq> None)
           (sort_key (\<lambda>v. - fv_versionNumber v) (versions_of db rootFlowId))))))"

definition mapFlowVersionDetail :: "flow_version \<Rightarrow> version_summary \<times> snapshot option" where
  "mapFlowVersionDetail v = (mapFlowVersionSummary v, fv_snapshot v)"

definition findVersion :: "flow_db \<Rightarrow> int \<Rightarrow> int \<Rightarrow> (version_summary \<times> snapshot option) result" where
  "findVersion db i versionId =
     bind_result (getRootFlowId db i) (\<lambda>rootFlowId.
     bind_result (ensureFlowExists db rootFlowId) (\<lambda>_.
       case List.find (\<lambda>v. fv_id v = versionId \<and> fv_flowId v = Some rootFlowId) (flow_versions db) of
         Some v \<Rightarrow> if fv_snapshot v = None \<or> fv_nodeCount v = None
           then throw (NotFound (''Flow '' @ show_int rootFlowId @ '' version '' @ show_int versionId @ '' not found''))
           else ok (mapFlowVersionDetail v)
       | None \<Rightarrow> throw (NotFound (''Flow '' @ show_int rootFlowId @ '' version '' @ show_int versionId @ '' not found''))))"

section \<open>Creating\<close>

definition new_flow :: "nat \<Rightarrow> string \<Rightarrow> create_flow_dto \<Rightarrow> string option \<Rightarrow> call_flow" where
  "new_flow now slug dto parentBranchKey =
     \<lparr>cf_id = 0, cf_name = d_name dto, cf_slug = slug, cf_description = d_description dto,
      cf_status = ''published'',
      cf_entryType = (if nonzero (d_parentFlowId dto) \<noteq> None then ''subflow'' else ''default''),
      cf_entryValue = None, cf_currentVersionId = None, cf_parentFlowId = d_parentFlowId dto,
      cf_parentNodeKey = d_parentNodeKey dto, cf_parentBranchKey = parentBranchKey,
      cf_isTemplate = False, cf_templateDescription = None, cf_templateCategory = None,
      cf_createdAt = now, cf_updatedAt = now\<rparr>"

definition create :: "string comparator \<Rightarrow> (string \<Rightarrow> string option) \<Rightarrow> nat \<Rightarrow> create_flow_dto \<Rightarrow> flow_db
    \<Rightarrow> (flow_detail \<times> flow_db) result" where
  "create lc urlProtocol now dto db =
     (let slug = ensureUniqueSlug now db (slug_or (d_slug dto) (slugify now (d_name dto)));
          branch = normalizeParentBranchKeyForPersist db (d_parentFlowId dto) (d_parentNodeKey dto) (d_parentBranchKey dto)
      in bind_result (insert_flow (new_flow now slug dto branch) db) (\<lambda>(savedFlow, db1).
         bind_result (validateNodesConfig urlProtocol (normalizeNodesForSave (d_nodes dto))
                        (nonzero (cf_parentFlowId savedFlow) \<noteq> None)) (\<lambda>nodes.
         bind_result (validateEdgesConfig (d_edges dto) nodes) (\<lambda>_.
         bind_result (createStoredVersion now (cf_id savedFlow) 1
                        (buildSnapshotForSave db1 savedFlow nodes (d_edges dto)) (d_versionMessage dto) db1)
           (\<lambda>(savedVersion, db2).
         bind_result (save_flow (savedFlow\<lparr>cf_currentVersionId := Some (fv_id savedVersion), cf_updatedAt := now\<rparr>) db2)
           (\<lambda>db3.
         bind_result (saveNodesAndEdges (fv_id savedVersion) nodes (d_edges dto) db3) (\<lambda>db4.
           detail_of_version (cf_id savedFlow) (fv_id savedVersion) db4)))))))"

text \<open>
  \<open>getSubflow\<close> and \<open>createSubflow\<close>, the submenu helpers.  What TypeORM does with a \<open>null\<close> in a
  \<open>where\<close> object is TypeORM's: \<open>matchNull k\<close> tells whether a row with branch key \<open>k\<close> is selected.
\<close>

definition getSubflow :: "(string option \<Rightarrow> bool) \<Rightarrow> flow_db \<Rightarrow> int \<Rightarrow> string \<Rightarrow> string option \<Rightarrow> call_flow option" where
  "getSubflow matchNull db parentFlowId parentNodeKey parentBranchKey =
     List.find (\<lambda>f. cf_parentFlowId f = Some parentFlowId \<and> cf_parentNodeKey f = Some parentNodeKey
         \<and> (case parentBranchKey of None \<Rightarrow> matchNull (cf_parentBranchKey f)
            | Some b \<Rightarrow> cf_parentBranchKey f = Some b)) (call_flows db)"

definition submenu_start :: node_dto where
  "submenu_start = \<lparr>nd_nodeKey = ''start'', nd_type = ''start'', nd_label = Some ''Start'',
     nd_positionX = Some (Dec 12 1), nd_positionY = Some (Dec 14 1), nd_config = Some [],
     nd_groupId = None, nd_subflowId = None\<rparr>"

definition createSubflow :: "(string option \<Rightarrow> bool) \<Rightarrow> nat \<Rightarrow> int \<Rightarrow> string \<Rightarrow> string option \<Rightarrow> string \<Rightarrow> flow_db
    \<Rightarrow> (int \<times> flow_db) result" where
  "createSubflow matchNull now parentFlowId parentNodeKey parentBranchKey name db =
     (let branch = normalizeParentBranchKeyForPersist db (Some parentFlowId) (Some parentNodeKey) parentBranchKey in
      case getSubflow matchNull db parentFlowId parentNodeKey branch of
        Some existing \<Rightarrow> ok (cf_id existing, db)
      | None \<Rightarrow>
        (let flowName = (if trim name = [] then ''Menu '' @ parentNodeKey else trim name);
             slug = ensureUniqueSlug now db (slugify now flowName);
             subflow = \<lparr>cf_id = 0, cf_name = flowName, cf_slug = slug, cf_description = None,
               cf_status = ''published'', cf_entryType = ''subflow'', cf_entryValue = None,
               cf_currentVersionId = None, cf_parentFlowId = Some parentFlowId,
               cf_parentNodeKey = Some parentNodeKey, cf_parentBranchKey = branch,
               cf_isTemplate = False, cf_templateDescription = None, cf_templateCategory = None,
               cf_createdAt = now, cf_updatedAt = now\<rparr>
         in bind_result (insert_flow subflow db) (\<lambda>(saved, db1).
            bind_result (createStoredVersion now (cf_id saved) 1 (buildSnapshotFromPayload [submenu_start] [])
                           (Some ''Initialized submenu'') db1) (\<lambda>(version, db2).
            bind_result (save_flow (saved\<lparr>cf_currentVersionId := Some (fv_id version), cf_updatedAt := now\<rparr>) db2) (\<lambda>db3.
            bind_result (saveNodesAndEdges (fv_id version) [submenu_start] [] db3) (\<lambda>db4.
              ok (cf_id saved, db4)))))))"

text \<open>The default names of submenus; the em dash of the source is written as its UTF-8 bytes.\<close>

definition em_dash :: string where
  "em_dash = map char_of [226 :: nat, 128, 148]"

definition buildSubflowName :: "string \<Rightarrow> string option \<Rightarrow> string \<Rightarrow> string" where
  "buildSubflowName flowName label nodeKey =
     flowName @ '' '' @ em_dash @ '' ''
       @ (if trim (text_or_empty label) = [] then ''Menu'' else trim (text_or_empty label))
       @ '' submenu ('' @ nodeKey @ '')''"

definition resolveSubflowName :: "string \<Rightarrow> node_dto \<Rightarrow> string" where
  "resolveSubflowName flowName n =
     (let customName = str_trim (cfg n ''submenu_name'') in
      if customName \<noteq> [] then customName else buildSubflowName flowName (nd_label n) (nd_nodeKey n))"

section \<open>Updating\<close>

text \<open>\<open>a ?? b\<close> on options.\<close>

definition or_else :: "'a option \<Rightarrow> 'a option \<Rightarrow> 'a option" where
  "or_else a b = (case a of None \<Rightarrow> b | Some x \<Rightarrow> Some x)"

definition updated_flow :: "nat \<Rightarrow> flow_db \<Rightarrow> update_flow_dto \<Rightarrow> int \<Rightarrow> call_flow \<Rightarrow> call_flow" where
  "updated_flow now db dto versionId flow =
     (let parent = or_else (d_parentFlowId dto) (cf_parentFlowId flow);
          node = or_else (d_parentNodeKey dto) (cf_parentNodeKey flow) in
      flow\<lparr>cf_name := d_name dto, cf_description := d_description dto,
           cf_slug := slug_or (d_slug dto) (if cf_slug flow = [] then slugify now (d_name dto) else cf_slug flow),
           cf_parentFlowId := parent, cf_parentNodeKey := node,
           cf_parentBranchKey := normalizeParentBranchKeyForPersist db parent node
             (or_else (d_parentBranchKey dto) (cf_parentBranchKey flow)),
           cf_currentVersionId := Some versionId\<rparr>)"

definition empty_snapshot :: snapshot where
  "empty_snapshot = buildSnapshotFromPayload [] []"

definition snapshot_or_empty :: "flow_version option \<Rightarrow> snapshot" where
  "snapshot_or_empty v = (case Option.bind v fv_snapshot of Some s \<Rightarrow> s | None \<Rightarrow> empty_snapshot)"

text \<open>\<open>(previous?.versionNumber ?? 0) + 1\<close>.\<close>

definition next_version_number :: "flow_version option \<Rightarrow> int" where
  "next_version_number v = (case v of None \<Rightarrow> 0 | Some w \<Rightarrow> fv_versionNumber w) + 1"

definition replace_with_snapshot :: "flow_version \<Rightarrow> snapshot \<Rightarrow> flow_db \<Rightarrow> flow_db result" where
  "replace_with_snapshot version s db =
     replaceVersionSnapshot version s (mapSnapshotNodesToPayload (ss_nodes s)) (mapSnapshotEdgesToPayload (ss_edges s)) db"

text \<open>A new version with its rows, made the current version of the given flow row.\<close>

definition add_version :: "nat \<Rightarrow> call_flow \<Rightarrow> int \<Rightarrow> snapshot \<Rightarrow> string option \<Rightarrow> node_dto list \<Rightarrow> edge_dto list
    \<Rightarrow> flow_db \<Rightarrow> (flow_version \<times> flow_db) result" where
  "add_version now flow number s message nodes edges db =
     bind_result (createStoredVersion now (cf_id flow) number s message db) (\<lambda>(saved, db1).
     bind_result (saveNodesAndEdges (fv_id saved) nodes edges db1) (\<lambda>db2.
     bind_result (save_flow (flow\<lparr>cf_currentVersionId := Some (fv_id saved)\<rparr>) db2) (\<lambda>db3.
       ok (saved, db3))))"

text \<open>The tail of an auto-save of a subflow: bring the root's current version up to date.\<close>

definition autosave_root :: "string comparator \<Rightarrow> int \<Rightarrow> flow_db \<Rightarrow> flow_db result" where
  "autosave_root lc flowId db =
     bind_result (getRootFlowId db flowId) (\<lambda>rootFlowId.
     bind_result (flow_or_fail db rootFlowId) (\<lambda>rootFlow.
       case nonzero (flow_version_id db rootFlow) of
         None \<Rightarrow> ok db
       | Some rootVersionId \<Rightarrow>
           bind_result (buildFullTreeSnapshot db rootFlowId []) (\<lambda>fullSnapshot.
           bind_result (version_or_fail db rootVersionId) (\<lambda>rootVersion.
             if snapshotsAreExactlyEqual lc (fv_snapshot rootVersion) (Some fullSnapshot) then ok db
             else replace_with_snapshot rootVersion fullSnapshot db))))"

text \<open>The tail of a save of a subflow: version the whole tree at the root.\<close>

definition version_root :: "string comparator \<Rightarrow> nat \<Rightarrow> string option \<Rightarrow> int \<Rightarrow> flow_db \<Rightarrow> flow_db result" where
  "version_root lc now message flowId db =
     bind_result (getRootFlowId db flowId) (\<lambda>rootFlowId.
     bind_result (buildFullTreeSnapshot db rootFlowId []) (\<lambda>fullSnapshot.
       (let latestRoot = getLatestVersion db rootFlowId;
            previous = snapshot_or_empty latestRoot in
        if snapshotsAreStructurallyEqual lc (Some previous) (Some fullSnapshot)
        then (case latestRoot of
                None \<Rightarrow> ok db
              | Some v \<Rightarrow> if snapshotsAreExactlyEqual lc (Some previous) (Some fullSnapshot) then ok db
                  else replace_with_snapshot v fullSnapshot db)
        else if snapshotsAreExactlyEqual lc (Some previous) (Some fullSnapshot) then ok db
        else bind_result (createStoredVersion now rootFlowId (next_version_number latestRoot) fullSnapshot message db)
               (\<lambda>(rootVersion, db1).
             bind_result (saveNodesAndEdges (fv_id rootVersion) (mapSnapshotNodesToPayload (ss_nodes fullSnapshot))
                            (mapSnapshotEdgesToPayload (ss_edges fullSnapshot)) db1) (\<lambda>db2.
             bind_result (flow_or_fail db2 rootFlowId) (\<lambda>rootFlow.
               save_flow (rootFlow\<lparr>cf_currentVersionId := Some (fv_id rootVersion)\<rparr>) db2))))))"

definition update_autosave :: "string comparator \<Rightarrow> call_flow \<Rightarrow> flow_version \<Rightarrow> snapshot \<Rightarrow> node_dto list \<Rightarrow> edge_dto list
    \<Rightarrow> flow_db \<Rightarrow> (flow_detail \<times> flow_db) result" where
  "update_autosave lc flow latest nextSnapshot nodes edges db =
     bind_result (replaceVersionSnapshot latest nextSnapshot nodes edges db) (\<lambda>db1.
     bind_result (if cf_parentFlowId flow \<noteq> None then autosave_root lc (cf_id flow) db1 else ok db1) (\<lambda>db2.
       detail_of_version (cf_id flow) (fv_id latest) db2))"

definition update_root :: "string comparator \<Rightarrow> nat \<Rightarrow> string option \<Rightarrow> call_flow \<Rightarrow> flow_version \<Rightarrow> snapshot
    \<Rightarrow> node_dto list \<Rightarrow> edge_dto list \<Rightarrow> flow_db \<Rightarrow> (flow_detail \<times> flow_db) result" where
  "update_root lc now message flow latest nextSnapshot nodes edges db =
     (let previousRoot = getLatestVersion db (cf_id flow); previous = snapshot_or_empty previousRoot in
      bind_result
        (if snapshotsAreStructurallyEqual lc (Some previous) (Some nextSnapshot)
         then replaceVersionSnapshot latest nextSnapshot nodes edges db
         else if \<not> snapshotsAreExactlyEqual lc (Some previous) (Some nextSnapshot)
         then bind_result (add_version now flow (next_version_number previousRoot) nextSnapshot message nodes edges db)
                (\<lambda>(_, db'). ok db')
         else ok db)
        (detail_of_current (cf_id flow) (fv_id latest)))"

definition update_subflow :: "string comparator \<Rightarrow> nat \<Rightarrow> string option \<Rightarrow> call_flow \<Rightarrow> flow_version \<Rightarrow> snapshot \<Rightarrow> snapshot
    \<Rightarrow> node_dto list \<Rightarrow> edge_dto list \<Rightarrow> flow_db \<Rightarrow> (flow_detail \<times> flow_db) result" where
  "update_subflow lc now message flow latest previous nextSnapshot nodes edges db =
     bind_result
       (if snapshotsAreStructurallyEqual lc (Some previous) (Some nextSnapshot)
        then replaceVersionSnapshot latest nextSnapshot nodes edges db
        else bind_result (add_version now flow (fv_versionNumber latest + 1) nextSnapshot message nodes edges db)
               (\<lambda>(_, db'). ok db'))
       (\<lambda>db1. bind_result (version_root lc now message (cf_id flow) db1)
         (detail_of_current (cf_id flow) (fv_id latest)))"

definition update_snapshot :: "flow_db \<Rightarrow> call_flow \<Rightarrow> node_dto list \<Rightarrow> edge_dto list \<Rightarrow> snapshot" where
  "update_snapshot db flow nodes edges =
     (if cf_parentFlowId flow = None then buildSnapshotForSave db flow nodes edges
      else buildSnapshotFromPayload nodes edges)"

definition update :: "string comparator \<Rightarrow> (string \<Rightarrow> string option) \<Rightarrow> nat \<Rightarrow> int \<Rightarrow> update_flow_dto \<Rightarrow> flow_db
    \<Rightarrow> (flow_detail \<times> flow_db) result" where
  "update lc urlProtocol now i dto db =
     (case find_flow db i of
        None \<Rightarrow> throw (flow_not_found i)
      | Some row \<Rightarrow> (case getLatestVersion db (cf_id row) of
          None \<Rightarrow> throw (NotFound (''Flow '' @ show_int i @ '' has no version to update''))
        | Some latest \<Rightarrow>
          (let flow = updated_flow now db dto (fv_id latest) row in
           bind_result (validateNodesConfig urlProtocol (normalizeNodesForSave (d_nodes dto))
                          (nonzero (cf_parentFlowId flow) \<noteq> None)) (\<lambda>nodes.
           bind_result (validateEdgesConfig (d_edges dto) nodes) (\<lambda>_.
             (let nextSnapshot = update_snapshot db flow nodes (d_edges dto);
                  previous = snapshot_or_empty (Some latest) in
              if snapshotsAreExactlyEqual lc (Some previous) (Some nextSnapshot)
              then detail_of_version (cf_id flow) (fv_id latest) db
              else (let flow' = flow\<lparr>cf_updatedAt := now\<rparr> in
                bind_result (save_flow flow' db) (\<lambda>db1.
                  if d_autoSave dto = Some True
                  then update_autosave lc flow' latest nextSnapshot nodes (d_edges dto) db1
                  else if cf_parentFlowId flow' = None
                  then update_root lc now (d_versionMessage dto) flow' latest nextSnapshot nodes (d_edges dto) db1
                  else update_subflow lc now (d_versionMessage dto) flow' latest previous nextSnapshot nodes (d_edges dto) db1))))))))"

section \<open>Versions\<close>

definition IMMEDIATE_HANGUP_PUBLISH_MESSAGE :: string where
  "IMMEDIATE_HANGUP_PUBLISH_MESSAGE =
     ''This flow hangs up immediately on every caller. Add at least one action node between Start and Hangup before publishing.''"

definition store_root_version :: "nat \<Rightarrow> call_flow \<Rightarrow> snapshot \<Rightarrow> string option \<Rightarrow> flow_db
    \<Rightarrow> (version_summary \<times> flow_db) result" where
  "store_root_version now rootFlow s message db =
     bind_result (createStoredVersion now (cf_id rootFlow) (next_version_number (getLatestVersion db (cf_id rootFlow))) s message db)
       (\<lambda>(saved, db1).
     bind_result (save_flow (rootFlow\<lparr>cf_currentVersionId := Some (fv_id saved), cf_updatedAt := now\<rparr>) db1) (\<lambda>db2.
     bind_result (saveNodesAndEdges (fv_id saved) (mapSnapshotNodesToPayload (ss_nodes s))
                    (mapSnapshotEdgesToPayload (ss_edges s)) db2) (\<lambda>db3.
     bind_result (version_or_fail db3 (fv_id saved)) (\<lambda>persisted.
       ok (mapFlowVersionSummary persisted, db3)))))"

definition createVersion :: "string comparator \<Rightarrow> nat \<Rightarrow> int \<Rightarrow> string option \<Rightarrow> flow_db
    \<Rightarrow> (version_summary \<times> flow_db) result" where
  "createVersion lc now i message db =
     bind_result (getRootFlowId db i) (\<lambda>rootFlowId.
       case find_flow db rootFlowId of
         None \<Rightarrow> throw (flow_not_found i)
       | Some rootFlow \<Rightarrow>
         bind_result (buildFullTreeSnapshot db rootFlowId []) (\<lambda>s.
           if isImmediateHangupSnapshot s then throw (BadRequest IMMEDIATE_HANGUP_PUBLISH_MESSAGE)
           else case getLatestVersion db rootFlowId of
             None \<Rightarrow> store_root_version now rootFlow s message db
           | Some previous \<Rightarrow>
               if snapshotsAreStructurallyEqual lc (fv_snapshot previous) (Some s)
               then ok (mapFlowVersionSummary previous, db)
               else store_root_version now rootFlow s message db))"

definition restore_subflow_row :: "nat \<Rightarrow> snapshot \<Rightarrow> call_flow \<Rightarrow> flow_db \<Rightarrow> flow_db result" where
  "restore_subflow_row now s subflow db =
     bind_result (createStoredVersion now (snapshot_flow_id s)
                    (next_version_number (getLatestVersion db (snapshot_flow_id s)))
                    (Snapshot (Some (snapshot_flow_id s)) (ss_name s) (ss_nodes s) (ss_edges s) None)
                    (Some ''Restored from root version'') db) (\<lambda>(saved, db1).
     bind_result (saveNodesAndEdges (fv_id saved) (mapSnapshotNodesToPayload (ss_nodes s))
                    (mapSnapshotEdgesToPayload (ss_edges s)) db1) (\<lambda>db2.
       save_flow (subflow\<lparr>cf_currentVersionId := Some (fv_id saved),
         cf_name := (case ss_name s of Some n \<Rightarrow> n | None \<Rightarrow> cf_name subflow), cf_updatedAt := now\<rparr>) db2))"

definition subflow_list :: "snapshot \<Rightarrow> snapshot list" where
  "subflow_list s = (case ss_subflows s of None \<Rightarrow> [] | Some ss \<Rightarrow> ss)"

lemma subflow_list_size: "size_list size (subflow_list s) < size s"
  by (cases s) (auto simp: subflow_list_def split: option.split)

function restoreSubflowSnapshots :: "nat \<Rightarrow> snapshot list \<Rightarrow> flow_db \<Rightarrow> flow_db result" where
  "restoreSubflowSnapshots now [] db = ok db"
| "restoreSubflowSnapshots now (s # rest) db =
     (if snapshot_flow_id s \<le> 0 then restoreSubflowSnapshots now rest db
      else case find_flow db (snapshot_flow_id s) of
        None \<Rightarrow> throw (flow_not_found (snapshot_flow_id s))
      | Some subflow \<Rightarrow>
          bind_result (restore_subflow_row now s subflow db) (\<lambda>db1.
          bind_result (restoreSubflowSnapshots now (subflow_list s) db1) (\<lambda>db2.
            restoreSubflowSnapshots now rest db2)))"
  by pat_completeness auto
termination
  by (relation "measure (\<lambda>(_, ss, _). size_list size ss)") (auto simp: subflow_list_size trans_less_add1 less_SucI)

definition restored_node :: "snap_node \<Rightarrow> node_dto" where
  "restored_node n = \<lparr>nd_nodeKey = sn_nodeKey n, nd_type = sn_type n, nd_label = sn_label n,
     nd_positionX = Some (sn_positionX n), nd_positionY = Some (sn_positionY n), nd_config = Some (sn_config n),
     nd_groupId = sn_groupId n, nd_subflowId = sn_subflowId n\<rparr>"

definition restored_edge :: "snap_edge \<Rightarrow> edge_dto" where
  "restored_edge e = \<lparr>ed_sourceNodeKey = se_sourceNodeKey e, ed_targetNodeKey = se_targetNodeKey e,
     ed_branchKey = Some (se_branchKey e), ed_condition = se_condition e, ed_sourceHandle = None, ed_targetHandle = None\<rparr>"

definition restoreVersion :: "nat \<Rightarrow> int \<Rightarrow> int \<Rightarrow> flow_db \<Rightarrow> (unit \<times> flow_db) result" where
  "restoreVersion now i versionId db =
     (case find_flow db i of
        None \<Rightarrow> throw (flow_not_found i)
      | Some flow \<Rightarrow>
        (case Option.bind (List.find (\<lambda>v. fv_id v = versionId \<and> fv_flowId v = Some i) (flow_versions db))
                (\<lambda>v. map_option (Pair v) (fv_snapshot v)) of
           None \<Rightarrow> throw (NotFound (''Flow '' @ show_int i @ '' version '' @ show_int versionId @ '' not found''))
         | Some (version, s) \<Rightarrow>
           bind_result (createStoredVersion now i (next_version_number (getLatestVersion db i)) s
                          (Some (''Restored from v'' @ show_int (fv_versionNumber version))) db) (\<lambda>(saved, db1).
           bind_result (save_flow (flow\<lparr>cf_currentVersionId := Some (fv_id saved),
                          cf_name := (case ss_name s of Some n \<Rightarrow> n | None \<Rightarrow> cf_name flow), cf_updatedAt := now\<rparr>) db1) (\<lambda>db2.
           bind_result (saveNodesAndEdges (fv_id saved) (map restored_node (ss_nodes s)) (map restored_edge (ss_edges s)) db2) (\<lambda>db3.
           bind_result (restoreSubflowSnapshots now (subflow_list s) db3)
             (\<lambda>db4. ok ((), db4)))))))"

section \<open>Renaming and deleting\<close>

definition rename :: "nat \<Rightarrow> int \<Rightarrow> string option \<Rightarrow> flow_db \<Rightarrow> ((int \<times> string) \<times> flow_db) result" where
  "rename now i name db =
     (let trimmedName = trim (text_or_empty name) in
      if trimmedName = [] then throw (BadRequest ''Flow name is required'')
      else case find_flow db i of
        None \<Rightarrow> throw (flow_not_found i)
      | Some flow \<Rightarrow>
        bind_result (save_flow (flow\<lparr>cf_name := trimmedName, cf_updatedAt := now\<rparr>) db) (\<lambda>db'.
          ok ((cf_id flow, trimmedName), db')))"

text \<open>
  Deleting rows of \<open>call_flows\<close>: the schema sets \<open>subflow_id\<close> and \<open>parent_flow_id\<close> references
  to the deleted rows to \<open>NULL\<close>.
\<close>

definition clear_ref :: "int list \<Rightarrow> int option \<Rightarrow> int option" where
  "clear_ref ids r = (case r of None \<Rightarrow> None | Some i \<Rightarrow> if i \<in> set ids then None else Some i)"

definition delete_flows :: "int list \<Rightarrow> flow_db \<Rightarrow> flow_db" where
  "delete_flows ids db =
     db\<lparr>call_flows := map (\<lambda>f. f\<lparr>cf_parentFlowId := clear_ref ids (cf_parentFlowId f)\<rparr>)
          (filter (\<lambda>f. cf_id f \<notin> set ids) (call_flows db)),
        flow_nodes := map (\<lambda>n. n\<lparr>fn_subflowId := clear_ref ids (fn_subflowId n)\<rparr>) (flow_nodes db)\<rparr>"

definition delete_versions :: "int list \<Rightarrow> flow_db \<Rightarrow> flow_db" where
  "delete_versions ids db =
     db\<lparr>flow_edges := filter (\<lambda>e. fe_flowVersionId e \<notin> Some ` set ids) (flow_edges db),
        flow_nodes := filter (\<lambda>n. fn_flowVersionId n \<notin> Some ` set ids) (flow_nodes db),
        flow_versions := filter (\<lambda>v. fv_id v \<notin> set ids) (flow_versions db)\<rparr>"

definition remove :: "int \<Rightarrow> flow_db \<Rightarrow> (int \<times> flow_db) result" where
  "remove i db =
     (case find_flow db i of
        None \<Rightarrow> throw (flow_not_found i)
      | Some flow \<Rightarrow>
        (let flowIds = map cf_id (collectFlowSubtreeForDelete db flow);
             versionIds = map fv_id (filter (\<lambda>v. fv_flowId v \<in> Some ` set flowIds) (flow_versions db));
             db1 = (if versionIds \<noteq> [] then delete_versions versionIds db else db);
             db2 = db1\<lparr>call_node_logs := filter (\<lambda>l. nl_flowId l \<notin> set flowIds) (call_node_logs db1)\<rparr>
         in ok (cf_id flow, delete_flows flowIds db2)))"

end
