(* ===== verification/FlowServiceLaws.thy ===== *)
theory FlowServiceLaws
  imports FlowService
begin

text \<open>
  What the operations of \<open>FlowsService\<close> do to the tables: the effect of each composite write,
  the table invariant \<open>db_inv\<close>, and the forest of parent links.
\<close>

section \<open>Effects of the composite writes\<close>

lemma createStoredVersion_okD:
  assumes "createStoredVersion now fid num s msg db = Inr (v, db')"
  shows "fv_id v = next_version_id db" "fv_flowId v = Some fid" "fv_versionNumber v = num" "fv_snapshot v = Some s"
    and "fv_nodeCount v = Some (int (length (ss_nodes s)))"
    and "db' = db\<lparr>flow_versions := flow_versions db @ [v], next_version_id := next_version_id db + 1\<rparr>"
  using insert_version_okD [OF assms [unfolded createStoredVersion_def]] by simp_all

lemma createStoredVersion_inv:
  assumes "db_inv db" and "createStoredVersion now fid num s msg db = Inr (v, db')"
    and "fid \<in> cf_id ` set (call_flows db)"
  shows "db_inv db'"
  using assms by (auto simp: createStoredVersion_def intro: insert_version_inv)

lemma saveNodesAndEdges_okD:
  assumes "saveNodesAndEdges v nodes edges db = Inr db'"
  shows "db' = db\<lparr>flow_nodes := flow_nodes db @ number_nodes (next_node_id db) (map (node_entity v) nodes),
                  next_node_id := next_node_id db + int (length nodes),
                  flow_edges := flow_edges db @ number_edges (next_edge_id db) (map (edge_entity v) edges),
                  next_edge_id := next_edge_id db + int (length edges)\<rparr>"
  using assms by (auto simp: saveNodesAndEdges_def insert_edges_def dest!: insert_nodes_okD)

lemma saveNodesAndEdges_frame [db_simps]:
  assumes "saveNodesAndEdges v nodes edges db = Inr db'"
  shows "call_flows db' = call_flows db" "flow_versions db' = flow_versions db"
    "next_flow_id db' = next_flow_id db" "next_version_id db' = next_version_id db"
    "call_node_logs db' = call_node_logs db"
  using saveNodesAndEdges_okD [OF assms] by simp_all

lemma saveNodesAndEdges_inv:
  assumes "db_inv db" and "saveNodesAndEdges v nodes edges db = Inr db'" and "v \<in> fv_id ` set (flow_versions db)"
  shows "db_inv db'"
proof -
  obtain db1 where db1: "insert_nodes (map (node_entity v) nodes) db = Inr db1"
    and db': "db' = insert_edges (map (edge_entity v) edges) db1"
    using assms(2) by (auto simp: saveNodesAndEdges_def)
  have "db_inv db1" using assms(3) by (intro insert_nodes_inv [OF assms(1) db1]) (auto simp: node_entity_def)
  moreover have "flow_versions db1 = flow_versions db" using insert_nodes_okD [OF db1] by simp
  ultimately show ?thesis unfolding db' using assms(3)
    by (intro insert_edges_inv) (auto simp: edge_entity_def)
qed

lemma replaceVersionSnapshot_okD:
  assumes "replaceVersionSnapshot w s nodes edges db = Inr db'"
  shows "call_flows db' = call_flows db"
    and "flow_versions db' = replace_row fv_id (w\<lparr>fv_snapshot := Some s, fv_nodeCount := Some (int (length (ss_nodes s)))\<rparr>) (flow_versions db)"
    and "next_flow_id db' = next_flow_id db" "next_version_id db' = next_version_id db"
    and "call_node_logs db' = call_node_logs db"
  using assms saveNodesAndEdges_okD
  by (fastforce simp: replaceVersionSnapshot_def replaceNodesAndEdges_def delete_version_rows_def save_version_def)+

lemma replaceVersionSnapshot_inv:
  assumes "db_inv db" and "replaceVersionSnapshot w s nodes edges db = Inr db'" and "w \<in> set (flow_versions db)"
  shows "db_inv db'"
proof -
  let ?w = "w\<lparr>fv_snapshot := Some s, fv_nodeCount := Some (int (length (ss_nodes s)))\<rparr>"
  have "db_inv (delete_version_rows (fv_id w) (save_version ?w db))"
    using assms by (intro delete_version_rows_inv save_version_inv) auto
  moreover have "fv_id w \<in> fv_id ` set (flow_versions (delete_version_rows (fv_id w) (save_version ?w db)))"
    using assms(3) replace_row_key_set [of fv_id ?w "flow_versions db"]
    by (simp add: delete_version_rows_def save_version_def)
  ultimately show ?thesis
    using assms(2) by (auto simp: replaceVersionSnapshot_def replaceNodesAndEdges_def intro: saveNodesAndEdges_inv)
qed

lemma replace_with_snapshot_inv:
  "db_inv db \<Longrightarrow> replace_with_snapshot w s db = Inr db' \<Longrightarrow> w \<in> set (flow_versions db) \<Longrightarrow> db_inv db'"
  by (auto simp: replace_with_snapshot_def intro: replaceVersionSnapshot_inv)

text \<open>The parent links of a table of flows, which fix every chain.\<close>

definition parents :: "flow_db \<Rightarrow> (int \<times> int option) list" where
  "parents db = map (\<lambda>f. (cf_id f, cf_parentFlowId f)) (call_flows db)"

lemma find_flow_parents: "map_option cf_parentFlowId (find_flow db i) = map_of (parents db) i"
proof -
  have "map_option cf_parentFlowId (List.find (\<lambda>f. cf_id f = i) fs)
      = map_of (map (\<lambda>f. (cf_id f, cf_parentFlowId f)) fs) i" for fs
    by (induction fs) auto
  then show ?thesis by (simp add: find_flow_def parents_def)
qed

lemma find_flow_image: "find_flow db i = Some f \<Longrightarrow> i \<in> cf_id ` set (call_flows db)"
  using find_flow_Some by force

lemma find_flow_same_parent:
  assumes "find_flow db i = Some f" and "parents db' = parents db"
  obtains f' where "find_flow db' i = Some f'" "cf_parentFlowId f' = cf_parentFlowId f"
proof -
  have "map_option cf_parentFlowId (find_flow db' i) = map_option cf_parentFlowId (find_flow db i)"
    unfolding find_flow_parents assms(2) ..
  with assms(1) that show thesis by (cases "find_flow db' i") auto
qed

lemma chain_parents_mono:
  assumes "chain db e n i" and "parents db' = parents db"
  shows "chain db' e n i"
  using assms(1)
proof induction
  case (chain_missing i)
  then show ?case using find_flow_parents [of db i] find_flow_parents [of db' i] assms(2)
    by (intro chain.chain_missing) auto
next
  case (chain_root i f)
  then obtain f' where "find_flow db' i = Some f'" "cf_parentFlowId f' = None"
    using find_flow_same_parent [OF _ assms(2)] by metis
  then show ?case by (rule chain.chain_root)
next
  case (chain_step i f p e n)
  then obtain f' where "find_flow db' i = Some f'" "cf_parentFlowId f' = Some p"
    using find_flow_same_parent [OF _ assms(2)] by metis
  then show ?case using chain_step.IH by (rule chain.chain_step)
qed

lemma chain_parents: "parents db' = parents db \<Longrightarrow> chain db' e n i = chain db e n i"
  using chain_parents_mono by metis

text \<open>Every flow's parent chain ends at a root.\<close>

definition forest :: "flow_db \<Rightarrow> bool" where
  "forest db \<longleftrightarrow> (\<forall>i \<in> flow_ids db. \<exists>r n. chain db (Some r) n i)"

lemma parents_ids: "parents db' = parents db \<Longrightarrow> flow_ids db' = flow_ids db"
proof -
  have "flow_ids d = fst ` set (parents d)" for d by (auto simp: flow_ids_def parents_def image_iff)
  then show "parents db' = parents db \<Longrightarrow> flow_ids db' = flow_ids db" by simp
qed

lemma forest_parents: "parents db' = parents db \<Longrightarrow> forest db' = forest db"
  unfolding forest_def by (simp add: chain_parents [of db' db] parents_ids [of db' db])

lemma save_flow_parents:
  assumes "flows_ok db" and "save_flow f db = Inr db'" and "g \<in> set (call_flows db)"
    and "cf_id f = cf_id g" and "cf_parentFlowId f = cf_parentFlowId g"
  shows "parents db' = parents db"
proof -
  have "\<And>y. y \<in> set (call_flows db) \<Longrightarrow> cf_id y = cf_id f \<Longrightarrow> cf_parentFlowId y = cf_parentFlowId f"
    using flow_eq_if_same_id [OF assms(1) _ assms(3)] assms(4,5) by metis
  then show ?thesis using save_flow_okD(2) [OF assms(2)] by (auto simp: parents_def replace_row_def)
qed

section \<open>Legacy branch links\<close>

lemma legacy_flow_mem: "legacy_flow n cs = Some c \<Longrightarrow> c \<in> set cs"
  by (auto simp: legacy_flow_def split: option.splits dest: find_Some_iff')

lemma sanitizeMenuBranches_trim: "b \<in> set (sanitizeMenuBranches v) \<Longrightarrow> trim b = b \<and> b \<noteq> []"
  by (auto simp: sanitizeMenuBranches_def str_trim_def isValidMenuBranchValue_def Let_def
        split: option.splits json.splits if_splits)
    (auto simp: trim_def is_space_def)

lemma resolveLegacyMenuBranchKey_trim: "resolveLegacyMenuBranchKey c = Some b \<Longrightarrow> trim b = b \<and> b \<noteq> []"
  using sanitizeMenuBranches_trim
  by (auto simp: resolveLegacyMenuBranchKey_def Let_def split: if_splits list.splits)
    (metis list.set_intros(1))+

text \<open>The two tables agree but for branch keys of flows.\<close>

definition links_only :: "flow_db \<Rightarrow> flow_db \<Rightarrow> bool" where
  "links_only db db' \<longleftrightarrow> db' = db\<lparr>call_flows := call_flows db'\<rparr>
     \<and> map (cf_parentBranchKey_update (\<lambda>_. None)) (call_flows db') = map (cf_parentBranchKey_update (\<lambda>_. None)) (call_flows db)"

lemma links_only_refl [simp]: "links_only db db"
  by (simp add: links_only_def)

lemma links_only_trans: "links_only a b \<Longrightarrow> links_only b c \<Longrightarrow> links_only a c"
  by (auto simp: links_only_def) (metis flow_db.select_convs flow_db.surjective flow_db.update_convs(1))

lemma links_only_field:
  assumes "links_only db db'" and "\<And>f. h (cf_parentBranchKey_update (\<lambda>_. None) f) = h f"
  shows "map h (call_flows db') = map h (call_flows db)"
proof -
  have "map h fs = map h (map (cf_parentBranchKey_update (\<lambda>_. None)) fs)" for fs by (simp add: assms(2))
  then show ?thesis using assms(1) by (metis links_only_def)
qed

lemma links_only_frame:
  assumes "links_only db db'"
  shows "parents db' = parents db" "flow_versions db' = flow_versions db" "flow_nodes db' = flow_nodes db"
    "flow_edges db' = flow_edges db" "next_flow_id db' = next_flow_id db" "next_version_id db' = next_version_id db"
    "call_node_logs db' = call_node_logs db"
proof -
  have eq: "db' = db\<lparr>call_flows := call_flows db'\<rparr>" using assms by (simp add: links_only_def)
  show "parents db' = parents db" unfolding parents_def by (rule links_only_field [OF assms]) simp
  show "flow_versions db' = flow_versions db" "flow_nodes db' = flow_nodes db"
    "flow_edges db' = flow_edges db" "next_flow_id db' = next_flow_id db" "next_version_id db' = next_version_id db"
    "call_node_logs db' = call_node_logs db"
    by (subst eq, simp)+
qed

lemma flow_row_ok_link:
  assumes fl: "flows_ok db" and f: "f \<in> set (call_flows db)"
    and free: "\<And>g. g \<in> set (call_flows db) \<Longrightarrow> cf_parentFlowId g = cf_parentFlowId f \<Longrightarrow>
      cf_parentNodeKey g = cf_parentNodeKey f \<Longrightarrow> cf_parentBranchKey g \<noteq> Some k"
  shows "flow_row_ok db (f\<lparr>cf_parentBranchKey := Some k\<rparr>)"
proof -
  have "cf_id g = cf_id f \<or> cf_slug g \<noteq> cf_slug f \<and> \<not> same_branch (f\<lparr>cf_parentBranchKey := Some k\<rparr>) g"
    if g: "g \<in> set (call_flows db)" for g
  proof -
    have "cf_slug g = cf_slug f \<Longrightarrow> g = f"
      using fl g f by (auto simp: flows_ok_def distinct_map inj_on_def)
    moreover have "\<not> same_branch (f\<lparr>cf_parentBranchKey := Some k\<rparr>) g"
      using free [OF g] by (auto simp: same_branch_def)
    ultimately show ?thesis by blast
  qed
  moreover have "\<forall>p. cf_parentFlowId f = Some p \<longrightarrow> p \<in> cf_id ` set (call_flows db)"
    using fl f by (auto simp: flows_ok_def)
  ultimately show ?thesis
    by (auto simp: flow_row_ok_def list_all_iff list_ex_iff split: option.split)
qed

lemma save_link:
  assumes inv: "db_inv db" and f: "f \<in> set (call_flows db)"
    and free: "\<And>g. g \<in> set (call_flows db) \<Longrightarrow> cf_parentFlowId g = cf_parentFlowId f \<Longrightarrow>
      cf_parentNodeKey g = cf_parentNodeKey f \<Longrightarrow> cf_parentBranchKey g \<noteq> Some k"
  shows "\<exists>db'. save_flow (f\<lparr>cf_parentBranchKey := Some k\<rparr>) db = Inr db' \<and> db_inv db' \<and> links_only db db'
    \<and> call_flows db' = replace_row cf_id (f\<lparr>cf_parentBranchKey := Some k\<rparr>) (call_flows db)"
proof -
  let ?f = "f\<lparr>cf_parentBranchKey := Some k\<rparr>"
  have fl: "flows_ok db" using inv by (simp add: db_inv_def)
  have "flow_row_ok db ?f" using fl f free by (rule flow_row_ok_link)
  then obtain db' where sv: "save_flow ?f db = Inr db'" by (simp add: save_flow_def)
  have "db_inv db'"
    using inv f by (intro save_flow_inv [OF inv sv]) (auto simp: db_inv_def current_ok_def)
  moreover have "g = f" if "g \<in> set (call_flows db)" "cf_id g = cf_id f" for g
    using flow_eq_if_same_id [OF fl that(1) f that(2)] .
  then have "links_only db db'"
    using save_flow_okD(2) [OF sv] by (simp add: links_only_def replace_row_def) metis
  ultimately show ?thesis using sv save_flow_okD(2) [OF sv] by simp
qed

lemma getDirectSubflows_replace:
  assumes "cf_parentFlowId f = Some p" and "\<And>g. g \<in> set fs \<Longrightarrow> cf_id g = cf_id f \<Longrightarrow> cf_parentFlowId g = Some p"
  shows "filter (\<lambda>g. cf_parentFlowId g = Some p) (replace_row cf_id f fs)
    = replace_row cf_id f (filter (\<lambda>g. cf_parentFlowId g = Some p) fs)"
  using assms by (induction fs) (auto simp: replace_row_def)

lemma legacy_link_step_ok:
  assumes inv: "db_inv db"
  shows "\<exists>db'. legacy_link_step node (getDirectSubflows db p, db) = Inr (getDirectSubflows db' p, db')
    \<and> db_inv db' \<and> links_only db db'"
proof (cases "\<exists>f k. legacy_flow node (filter (\<lambda>c. cf_parentNodeKey c = Some (fn_nodeKey node)) (getDirectSubflows db p)) = Some f
    \<and> resolveLegacyMenuBranchKey (fn_configJson node) = Some k \<and> fn_type node = ''menu''
    \<and> cf_parentBranchKey f = None \<and> k \<noteq> []
    \<and> \<not> list_ex (\<lambda>c. trim (text_or_empty (cf_parentBranchKey c)) = k)
        (filter (\<lambda>c. cf_parentNodeKey c = Some (fn_nodeKey node)) (getDirectSubflows db p))")
  case False
  then have "legacy_link_step node (getDirectSubflows db p, db) = Inr (getDirectSubflows db p, db)"
    by (auto simp: legacy_link_step_def Let_def split: option.splits)
  with inv show ?thesis by (intro exI [of _ db]) simp
next
  case True
  then obtain f k where f: "legacy_flow node (filter (\<lambda>c. cf_parentNodeKey c = Some (fn_nodeKey node)) (getDirectSubflows db p)) = Some f"
    and k: "resolveLegacyMenuBranchKey (fn_configJson node) = Some k" and go: "fn_type node = ''menu''" "cf_parentBranchKey f = None" "k \<noteq> []"
    and free: "\<not> list_ex (\<lambda>c. trim (text_or_empty (cf_parentBranchKey c)) = k)
        (filter (\<lambda>c. cf_parentNodeKey c = Some (fn_nodeKey node)) (getDirectSubflows db p))" by blast
  have mem: "f \<in> set (call_flows db)" "cf_parentFlowId f = Some p" "cf_parentNodeKey f = Some (fn_nodeKey node)"
    using legacy_flow_mem [OF f] by (auto simp: getDirectSubflows_def)
  have "cf_parentBranchKey g \<noteq> Some k" if "g \<in> set (call_flows db)" "cf_parentFlowId g = cf_parentFlowId f"
      "cf_parentNodeKey g = cf_parentNodeKey f" for g
    using free that mem resolveLegacyMenuBranchKey_trim [OF k]
    by (auto simp: list_ex_iff getDirectSubflows_def text_or_empty_def)
  from save_link [OF inv mem(1) this] obtain db' where
    db': "save_flow (f\<lparr>cf_parentBranchKey := Some k\<rparr>) db = Inr db'" "db_inv db'" "links_only db db'"
    "call_flows db' = replace_row cf_id (f\<lparr>cf_parentBranchKey := Some k\<rparr>) (call_flows db)" by blast
  have "g = f" if "g \<in> set (call_flows db)" "cf_id g = cf_id f" for g
    using inv flow_eq_if_same_id [OF _ that(1) mem(1) that(2)] by (simp add: db_inv_def)
  then have "getDirectSubflows db' p = replace_row cf_id (f\<lparr>cf_parentBranchKey := Some k\<rparr>) (getDirectSubflows db p)"
    unfolding getDirectSubflows_def db'(4) using mem by (intro getDirectSubflows_replace) auto
  then show ?thesis using f k go free db' by (intro exI [of _ db']) (simp add: legacy_link_step_def)
qed

lemma legacy_links_ok:
  "db_inv db \<Longrightarrow> \<exists>db'. legacy_links ns (getDirectSubflows db p, db) = Inr (getDirectSubflows db' p, db')
     \<and> db_inv db' \<and> links_only db db'"
proof (induction ns arbitrary: db)
  case Nil
  then show ?case by (intro exI [of _ db]) simp
next
  case (Cons n ns)
  obtain db1 where db1: "legacy_link_step n (getDirectSubflows db p, db) = Inr (getDirectSubflows db1 p, db1)"
    "db_inv db1" "links_only db db1" using legacy_link_step_ok [OF Cons.prems] by blast
  with Cons.IH [OF db1(2)] show ?case by (auto intro: links_only_trans)
qed

lemma normalizeLegacyMenuBranchLinks_ok:
  assumes "db_inv db"
  shows "\<exists>db'. normalizeLegacyMenuBranchLinks flow nodes db = Inr db' \<and> db_inv db' \<and> links_only db db'"
  using legacy_links_ok [OF assms, of nodes "cf_id flow"] assms
  by (auto simp: normalizeLegacyMenuBranchLinks_def)

lemma buildFlowDetail_ok:
  assumes "db_inv db"
  shows "\<exists>d db'. buildFlowDetail flow version db = Inr (d, db') \<and> db_inv db' \<and> links_only db db'
    \<and> fd_id d = cf_id flow \<and> fd_versionId d = fv_id version \<and> fd_edges d = version_edges db (fv_id version)
    \<and> map nr_nodeKey (fd_nodes d) = map fn_nodeKey (version_nodes db (fv_id version))"
  using normalizeLegacyMenuBranchLinks_ok [OF assms, of flow "version_nodes db (fv_id version)"]
  by (auto simp: buildFlowDetail_def Let_def node_response_of_def)

lemma buildFlowDetail_okD:
  assumes "db_inv db" and "buildFlowDetail flow version db = Inr (d, db')"
  shows "db_inv db'" "links_only db db'"
  using buildFlowDetail_ok [OF assms(1), of flow version] assms(2) by auto

lemma detail_of_version_okD:
  assumes "db_inv db" and "detail_of_version i v db = Inr (d, db')"
  shows "db_inv db'" "links_only db db'"
  using assms by (auto simp: detail_of_version_def dest: buildFlowDetail_okD)

lemma detail_of_current_okD:
  assumes "db_inv db" and "detail_of_current i v db = Inr (d, db')"
  shows "db_inv db'" "links_only db db'"
  using assms by (auto simp: detail_of_current_def dest: buildFlowDetail_okD)

section \<open>The invariant through the service operations\<close>

lemma flow_ids_append: "x \<in> set (call_flows db) \<Longrightarrow> cf_id x \<in> flow_ids db"
  by (simp add: flow_ids_def)

lemma save_current_inv:
  assumes "db_inv db" and "save_flow f db = Inr db'" and "cf_id f \<in> cf_id ` set (call_flows db)"
    and "v \<in> set (flow_versions db)" "fv_flowId v = Some (cf_id f)" "cf_currentVersionId f = Some (fv_id v)"
  shows "db_inv db'"
  using assms by (intro save_flow_inv [OF assms(1,2)]) auto

text \<open>The first version of a flow that was just inserted, as \<open>create\<close>, \<open>createSubflow\<close> and the import write it.\<close>

lemma first_version_inv:
  assumes inv: "db_inv db" and ins: "insert_flow f0 db = Inr (f, db1)" and cur: "cf_currentVersionId f0 = None"
    and ver: "createStoredVersion now (cf_id f) num s msg db1 = Inr (v, db2)"
    and sv: "save_flow (f\<lparr>cf_currentVersionId := Some (fv_id v), cf_updatedAt := now\<rparr>) db2 = Inr db3"
    and rows: "saveNodesAndEdges (fv_id v) nodes edges db3 = Inr db4"
  shows "db_inv db4"
proof -
  have inv1: "db_inv db1" by (rule insert_flow_inv [OF inv ins cur])
  have mem: "cf_id f \<in> cf_id ` set (call_flows db1)" using insert_flow_okD(3) [OF ins] by simp
  have inv2: "db_inv db2" by (rule createStoredVersion_inv [OF inv1 ver mem])
  note d2 = createStoredVersion_okD [OF ver]
  have "db_inv db3"
    using mem d2 by (intro save_current_inv [OF inv2 sv, of v]) auto
  then show ?thesis
    using rows d2 save_flow_okD(2) [OF sv] by (intro saveNodesAndEdges_inv [OF _ rows]) auto
qed

lemma create_steps:
  assumes "create lc urlProtocol now dto db = Inr (d, db')"
  obtains f0 f db1 nodes v db2 db3 db4 where
    "insert_flow f0 db = Inr (f, db1)" "cf_currentVersionId f0 = None" "cf_parentFlowId f0 = d_parentFlowId dto"
    "cf_status f0 = ''published''"
    "validateNodesConfig urlProtocol (normalizeNodesForSave (d_nodes dto)) (nonzero (cf_parentFlowId f) \<noteq> None) = Inr nodes"
    "validateEdgesConfig (d_edges dto) nodes = Inr ()"
    "createStoredVersion now (cf_id f) 1 (buildSnapshotForSave db1 f nodes (d_edges dto)) (d_versionMessage dto) db1 = Inr (v, db2)"
    "save_flow (f\<lparr>cf_currentVersionId := Some (fv_id v), cf_updatedAt := now\<rparr>) db2 = Inr db3"
    "saveNodesAndEdges (fv_id v) nodes (d_edges dto) db3 = Inr db4"
    "detail_of_version (cf_id f) (fv_id v) db4 = Inr (d, db')"
  using assms by (auto simp: create_def Let_def new_flow_def)

lemma create_inv: "db_inv db \<Longrightarrow> create lc urlProtocol now dto db = Inr (d, db') \<Longrightarrow> db_inv db'"
  by (elim create_steps) (blast intro: detail_of_version_okD first_version_inv)

lemma createSubflow_inv:
  "db_inv db \<Longrightarrow> createSubflow matchNull now p k b name db = Inr (i, db') \<Longrightarrow> db_inv db'"
  by (auto simp: createSubflow_def Let_def split: option.splits intro: first_version_inv)

lemma updated_flow_fields [simp]:
  "cf_id (updated_flow now db dto v f) = cf_id f"
  "cf_currentVersionId (updated_flow now db dto v f) = Some v"
  by (simp_all add: updated_flow_def Let_def)

lemma add_version_inv:
  assumes inv: "db_inv db" and add: "add_version now f num s msg nodes edges db = Inr (v, db')"
    and mem: "cf_id f \<in> cf_id ` set (call_flows db)"
  shows "db_inv db'"
proof -
  obtain db1 db2 where st: "createStoredVersion now (cf_id f) num s msg db = Inr (v, db1)"
    "saveNodesAndEdges (fv_id v) nodes edges db1 = Inr db2"
    "save_flow (f\<lparr>cf_currentVersionId := Some (fv_id v)\<rparr>) db2 = Inr db'"
    using add by (auto simp: add_version_def)
  note d1 = createStoredVersion_okD [OF st(1)] and d2 = saveNodesAndEdges_frame [OF st(2)]
  have "db_inv db1" by (rule createStoredVersion_inv [OF inv st(1) mem])
  then have "db_inv db2" using st(2) d1 by (intro saveNodesAndEdges_inv [OF _ st(2)]) auto
  then show ?thesis using mem d1 d2 by (intro save_current_inv [OF _ st(3), of v]) auto
qed

lemma version_or_fail_okD: "version_or_fail db i = Inr v \<Longrightarrow> v \<in> set (flow_versions db) \<and> fv_id v = i"
  by (auto simp: version_or_fail_def split: option.splits dest: find_version_Some)

lemma flow_or_fail_okD: "flow_or_fail db i = Inr f \<Longrightarrow> f \<in> set (call_flows db) \<and> cf_id f = i"
  by (auto simp: flow_or_fail_def split: option.splits dest: find_flow_Some)

lemma getRootFlowId_mem: "getRootFlowId db i = Inr r \<Longrightarrow> r \<in> cf_id ` set (call_flows db)"
  by (auto simp: getRootFlowId_iff dest!: chain_root_row find_flow_Some)

lemma autosave_root_inv: "db_inv db \<Longrightarrow> autosave_root lc i db = Inr db' \<Longrightarrow> db_inv db'"
  by (auto simp: autosave_root_def split: option.splits if_splits
        dest!: version_or_fail_okD intro: replace_with_snapshot_inv)

lemma version_root_cases:
  assumes "version_root lc now msg i db = Inr db'"
  obtains (same) r where "getRootFlowId db i = Inr r" "db' = db"
  | (replace) r s w where "getRootFlowId db i = Inr r" "getLatestVersion db r = Some w" "replace_with_snapshot w s db = Inr db'"
  | (new) r s v db1 db2 f where "getRootFlowId db i = Inr r"
      "createStoredVersion now r (next_version_number (getLatestVersion db r)) s msg db = Inr (v, db1)"
      "saveNodesAndEdges (fv_id v) (mapSnapshotNodesToPayload (ss_nodes s)) (mapSnapshotEdgesToPayload (ss_edges s)) db1 = Inr db2"
      "flow_or_fail db2 r = Inr f" "save_flow (f\<lparr>cf_currentVersionId := Some (fv_id v)\<rparr>) db2 = Inr db'"
proof (cases "db' = db")
  case True
  then show thesis using assms same by (auto simp: version_root_def)
next
  case False
  obtain r s where r: "getRootFlowId db i = Inr r" and s: "buildFullTreeSnapshot db r [] = Inr s"
    using assms by (auto simp: version_root_def)
  consider w where "getLatestVersion db r = Some w" "replace_with_snapshot w s db = Inr db'"
    | v db1 db2 f where "createStoredVersion now r (next_version_number (getLatestVersion db r)) s msg db = Inr (v, db1)"
      "saveNodesAndEdges (fv_id v) (mapSnapshotNodesToPayload (ss_nodes s)) (mapSnapshotEdgesToPayload (ss_edges s)) db1 = Inr db2"
      "flow_or_fail db2 r = Inr f" "save_flow (f\<lparr>cf_currentVersionId := Some (fv_id v)\<rparr>) db2 = Inr db'"
    using assms r s False by (auto simp: version_root_def Let_def split: if_splits option.splits)
  then show thesis using replace [OF r] new [OF r] by cases blast+
qed

lemma version_root_inv:
  assumes inv: "db_inv db" and run: "version_root lc now msg i db = Inr db'"
  shows "db_inv db'"
  using run
proof (cases rule: version_root_cases)
  case (replace r s w)
  then show ?thesis using inv by (auto dest: getLatestVersion_Some intro: replace_with_snapshot_inv)
next
  case (new r s v db1 db2 f)
  note d1 = createStoredVersion_okD [OF new(2)] and d2 = saveNodesAndEdges_frame [OF new(3)]
    and f = flow_or_fail_okD [OF new(4)]
  have "db_inv db1" using getRootFlowId_mem [OF new(1)] by (rule createStoredVersion_inv [OF inv new(2)])
  then have "db_inv db2" using d1 by (intro saveNodesAndEdges_inv [OF _ new(3)]) auto
  then show ?thesis using d1 d2 f by (intro save_current_inv [OF _ new(5), of v]) auto
qed (use inv in simp)

lemma update_tail_inv:
  assumes inv: "db_inv db" and w: "w \<in> set (flow_versions db)" and mem: "cf_id f \<in> cf_id ` set (call_flows db)"
  shows "update_autosave lc f w s nodes edges db = Inr (d, db') \<Longrightarrow> db_inv db'"
    and "update_root lc now msg f w s nodes edges db = Inr (d, db') \<Longrightarrow> db_inv db'"
    and "update_subflow lc now msg f w previous s nodes edges db = Inr (d, db') \<Longrightarrow> db_inv db'"
proof -
  have rep: "db_inv db1" if "replaceVersionSnapshot w s nodes edges db = Inr db1" for db1
    using inv that w by (rule replaceVersionSnapshot_inv)
  have add: "db_inv db1" if "add_version now f num s msg nodes edges db = Inr (v, db1)" for num v db1
    using inv that mem by (rule add_version_inv)
  show "db_inv db'" if "update_autosave lc f w s nodes edges db = Inr (d, db')"
    using that rep by (auto simp: update_autosave_def split: if_splits dest!: detail_of_version_okD(1) [rotated] intro: autosave_root_inv)
  show "db_inv db'" if "update_root lc now msg f w s nodes edges db = Inr (d, db')"
    using that rep add inv by (auto simp: update_root_def Let_def split: if_splits dest: detail_of_current_okD(1) [rotated])
  show "db_inv db'" if "update_subflow lc now msg f w previous s nodes edges db = Inr (d, db')"
    using that rep add by (auto simp: update_subflow_def split: if_splits
        dest: detail_of_current_okD(1) [rotated] version_root_inv [rotated])
qed

text \<open>
  A successful update either leaves the tables (the early return) or saves the row and takes one
  of three tails; \<open>f\<close> is the row as saved, \<open>w\<close> the latest version.
\<close>

definition update_outcome ::
    "string comparator \<Rightarrow> nat \<Rightarrow> update_flow_dto \<Rightarrow> flow_db \<Rightarrow> call_flow \<Rightarrow> flow_version \<Rightarrow> snapshot \<Rightarrow> node_dto list
      \<Rightarrow> flow_detail \<Rightarrow> flow_db \<Rightarrow> bool" where
  "update_outcome lc now dto db f w s nodes d db' \<longleftrightarrow>
     (snapshotsAreExactlyEqual lc (Some (snapshot_or_empty (Some w))) (Some s)
        \<and> detail_of_version (cf_id f) (fv_id w) db = Inr (d, db'))
     \<or> (\<not> snapshotsAreExactlyEqual lc (Some (snapshot_or_empty (Some w))) (Some s)
        \<and> (\<exists>db1. save_flow f db = Inr db1
          \<and> (update_autosave lc f w s nodes (d_edges dto) db1 = Inr (d, db')
             \<or> cf_parentFlowId f = None \<and> update_root lc now (d_versionMessage dto) f w s nodes (d_edges dto) db1 = Inr (d, db')
             \<or> cf_parentFlowId f \<noteq> None \<and> update_subflow lc now (d_versionMessage dto) f w
                  (snapshot_or_empty (Some w)) s nodes (d_edges dto) db1 = Inr (d, db'))))"

lemma update_steps:
  assumes "update lc urlProtocol now i dto db = Inr (d, db')"
  obtains row w nodes f where
    "find_flow db i = Some row" "getLatestVersion db i = Some w"
    "f = (updated_flow now db dto (fv_id w) row)\<lparr>cf_updatedAt := now\<rparr>"
    "validateNodesConfig urlProtocol (normalizeNodesForSave (d_nodes dto)) (nonzero (cf_parentFlowId f) \<noteq> None) = Inr nodes"
    "validateEdgesConfig (d_edges dto) nodes = Inr ()"
    "update_outcome lc now dto db f w
       (update_snapshot db (updated_flow now db dto (fv_id w) row) nodes (d_edges dto)) nodes d db'"
proof -
  obtain row where row: "find_flow db i = Some row"
    using assms by (auto simp: update_def split: option.splits)
  then have id: "cf_id row = i" by (simp add: find_flow_Some)
  obtain w where w: "getLatestVersion db i = Some w"
    using assms row id by (auto simp: update_def split: option.splits)
  let ?f = "(updated_flow now db dto (fv_id w) row)\<lparr>cf_updatedAt := now\<rparr>"
  obtain nodes where v: "validateNodesConfig urlProtocol (normalizeNodesForSave (d_nodes dto)) (nonzero (cf_parentFlowId ?f) \<noteq> None) = Inr nodes"
    "validateEdgesConfig (d_edges dto) nodes = Inr ()"
    using assms row id w by (auto simp: update_def Let_def)
  show thesis
    using assms row id w v
    by (intro that [OF row w refl v]) (auto simp: update_def update_outcome_def Let_def split: if_splits)
qed

lemma update_saved_inv:
  assumes inv: "db_inv db" and row: "find_flow db i = Some row" and w: "getLatestVersion db i = Some w"
    and sv: "save_flow ((updated_flow now db dto (fv_id w) row)\<lparr>cf_updatedAt := now\<rparr>) db = Inr db1"
  shows "db_inv db1" "w \<in> set (flow_versions db1)" "i \<in> cf_id ` set (call_flows db1)"
proof -
  have r: "row \<in> set (call_flows db)" "cf_id row = i" using find_flow_Some [OF row] by auto
  have l: "w \<in> set (flow_versions db)" "fv_flowId w = Some i" using getLatestVersion_Some [OF w] by auto
  show "db_inv db1" using r l by (intro save_current_inv [OF inv sv, of w]) auto
  show "w \<in> set (flow_versions db1)" using l save_flow_okD(2) [OF sv] by simp
  show "i \<in> cf_id ` set (call_flows db1)" using r save_flow_okD(2) [OF sv] by (force simp: replace_row_key_set)
qed

lemma update_outcome_inv:
  assumes inv: "db_inv db" and row: "find_flow db i = Some row" and w: "getLatestVersion db i = Some w"
    and out: "update_outcome lc now dto db ((updated_flow now db dto (fv_id w) row)\<lparr>cf_updatedAt := now\<rparr>) w s nodes d db'"
  shows "db_inv db'"
proof -
  let ?f = "(updated_flow now db dto (fv_id w) row)\<lparr>cf_updatedAt := now\<rparr>"
  have id: "cf_id ?f = i" using row find_flow_Some by simp
  from out consider "detail_of_version (cf_id ?f) (fv_id w) db = Inr (d, db')"
    | db1 where "save_flow ?f db = Inr db1"
      "update_autosave lc ?f w s nodes (d_edges dto) db1 = Inr (d, db')
       \<or> update_root lc now (d_versionMessage dto) ?f w s nodes (d_edges dto) db1 = Inr (d, db')
       \<or> update_subflow lc now (d_versionMessage dto) ?f w (snapshot_or_empty (Some w)) s nodes (d_edges dto) db1 = Inr (d, db')"
    unfolding update_outcome_def by blast
  then show ?thesis
  proof cases
    case 1
    then show ?thesis using inv by (blast intro: detail_of_version_okD)
  next
    case 2
    note sv = update_saved_inv [OF inv row w 2(1)]
    from 2(2) show ?thesis
      using update_tail_inv [OF sv(1,2), of ?f] sv(3) id by auto
  qed
qed

lemma update_inv: "db_inv db \<Longrightarrow> update lc urlProtocol now i dto db = Inr (d, db') \<Longrightarrow> db_inv db'"
  by (erule update_steps) (blast intro: update_outcome_inv)

lemma createVersion_cases:
  assumes "createVersion lc now i msg db = Inr (sm, db')"
  obtains (same) r f s w where "getRootFlowId db i = Inr r" "find_flow db r = Some f" "buildFullTreeSnapshot db r [] = Inr s"
      "\<not> isImmediateHangupSnapshot s" "getLatestVersion db r = Some w"
      "snapshotsAreStructurallyEqual lc (fv_snapshot w) (Some s)" "sm = mapFlowVersionSummary w" "db' = db"
  | (new) r f s v db1 db2 w where "getRootFlowId db i = Inr r" "find_flow db r = Some f" "buildFullTreeSnapshot db r [] = Inr s"
      "\<not> isImmediateHangupSnapshot s"
      "createStoredVersion now r (next_version_number (getLatestVersion db r)) s msg db = Inr (v, db1)"
      "save_flow (f\<lparr>cf_currentVersionId := Some (fv_id v), cf_updatedAt := now\<rparr>) db1 = Inr db2"
      "saveNodesAndEdges (fv_id v) (mapSnapshotNodesToPayload (ss_nodes s)) (mapSnapshotEdgesToPayload (ss_edges s)) db2 = Inr db'"
      "version_or_fail db' (fv_id v) = Inr w" "sm = mapFlowVersionSummary w"
proof -
  obtain r f s where st: "getRootFlowId db i = Inr r" "find_flow db r = Some f" "buildFullTreeSnapshot db r [] = Inr s"
    "\<not> isImmediateHangupSnapshot s"
    using assms by (auto simp: createVersion_def split: option.splits if_splits)
  have run: "(case getLatestVersion db r of None \<Rightarrow> store_root_version now f s msg db
      | Some w \<Rightarrow> if snapshotsAreStructurallyEqual lc (fv_snapshot w) (Some s) then ok (mapFlowVersionSummary w, db)
          else store_root_version now f s msg db) = Inr (sm, db')"
    using assms st by (simp add: createVersion_def)
  show thesis
  proof (cases "\<exists>w. getLatestVersion db r = Some w \<and> snapshotsAreStructurallyEqual lc (fv_snapshot w) (Some s)")
    case True
    then obtain w where w: "getLatestVersion db r = Some w" "snapshotsAreStructurallyEqual lc (fv_snapshot w) (Some s)" by blast
    from run have "sm = mapFlowVersionSummary w" "db' = db" unfolding w(1) using w(2) by simp_all
    with same [OF st w] show thesis .
  next
    case False
    with run have "store_root_version now f s msg db = Inr (sm, db')" by (auto split: option.splits if_splits)
    then obtain v db1 db2 w where "createStoredVersion now r (next_version_number (getLatestVersion db r)) s msg db = Inr (v, db1)"
      "save_flow (f\<lparr>cf_currentVersionId := Some (fv_id v), cf_updatedAt := now\<rparr>) db1 = Inr db2"
      "saveNodesAndEdges (fv_id v) (mapSnapshotNodesToPayload (ss_nodes s)) (mapSnapshotEdgesToPayload (ss_edges s)) db2 = Inr db'"
      "version_or_fail db' (fv_id v) = Inr w" "sm = mapFlowVersionSummary w"
      using find_flow_Some [OF st(2)] by (auto simp: store_root_version_def)
    with new [OF st] show thesis by blast
  qed
qed

lemma createVersion_inv:
  assumes inv: "db_inv db" and cv: "createVersion lc now i msg db = Inr (sm, db')"
  shows "db_inv db'"
  using cv
proof (cases rule: createVersion_cases)
  case (new r f s v db1 db2 w)
  note d1 = createStoredVersion_okD [OF new(5)] and f = find_flow_Some [OF new(2)]
  have "db_inv db1" using getRootFlowId_mem [OF new(1)] by (rule createStoredVersion_inv [OF inv new(5)])
  then have "db_inv db2" using d1 f by (intro save_current_inv [OF _ new(6), of v]) auto
  then show ?thesis using d1 save_flow_okD(2) [OF new(6)] by (intro saveNodesAndEdges_inv [OF _ new(7)]) auto
qed (use inv in simp)

lemma restore_subflow_row_inv:
  assumes inv: "db_inv db" and rs: "restore_subflow_row now s f db = Inr db'" and f: "find_flow db (snapshot_flow_id s) = Some f"
  shows "db_inv db'" "parents db' = parents db"
proof -
  obtain v db1 db2 where st: "createStoredVersion now (snapshot_flow_id s) (next_version_number (getLatestVersion db (snapshot_flow_id s)))
      (Snapshot (Some (snapshot_flow_id s)) (ss_name s) (ss_nodes s) (ss_edges s) None) (Some ''Restored from root version'') db = Inr (v, db1)"
    "saveNodesAndEdges (fv_id v) (mapSnapshotNodesToPayload (ss_nodes s)) (mapSnapshotEdgesToPayload (ss_edges s)) db1 = Inr db2"
    "save_flow (f\<lparr>cf_currentVersionId := Some (fv_id v), cf_name := (case ss_name s of Some n \<Rightarrow> n | None \<Rightarrow> cf_name f),
       cf_updatedAt := now\<rparr>) db2 = Inr db'"
    using rs by (auto simp: restore_subflow_row_def)
  note d1 = createStoredVersion_okD [OF st(1)] and d2 = saveNodesAndEdges_frame [OF st(2)] and m = find_flow_Some [OF f]
  have "db_inv db1" using find_flow_image [OF f] by (rule createStoredVersion_inv [OF inv st(1)])
  then have inv2: "db_inv db2" using d1 by (intro saveNodesAndEdges_inv [OF _ st(2)]) auto
  then show "db_inv db'" using d1 d2 m find_flow_image [OF f] by (intro save_current_inv [OF _ st(3), of v]) auto
  have fl: "flows_ok db2" using inv2 by (simp add: db_inv_def)
  have "parents db' = parents db2" by (rule save_flow_parents [OF fl st(3), of f]) (use d1 d2 m in auto)
  then show "parents db' = parents db" using d1 d2 by (simp add: parents_def)
qed

lemma restoreSubflowSnapshots_inv:
  "db_inv db \<Longrightarrow> restoreSubflowSnapshots now ss db = Inr db' \<Longrightarrow> db_inv db' \<and> parents db' = parents db"
proof (induction now ss db arbitrary: db' rule: restoreSubflowSnapshots.induct)
  case (1 now db)
  then show ?case by simp
next
  case (2 now s rest db)
  show ?case
  proof (cases "snapshot_flow_id s \<le> 0")
    case True
    with 2 show ?thesis by simp
  next
    case False
    with 2(5) obtain f db1 db2 where f: "find_flow db (snapshot_flow_id s) = Some f"
      "restore_subflow_row now s f db = Inr db1" "restoreSubflowSnapshots now (subflow_list s) db1 = Inr db2"
      "restoreSubflowSnapshots now rest db2 = Inr db'"
      by (auto split: option.splits)
    note r = restore_subflow_row_inv [OF 2(4) f(2,1)]
    have r2: "db_inv db2 \<and> parents db2 = parents db1" using 2(2) [OF False f(1,2) r(1) f(3)] .
    then show ?thesis using 2(3) [OF False f(1,2,3) _ f(4)] r by auto
  qed
qed

lemma restoreVersion_steps:
  assumes "restoreVersion now i vid db = Inr (u, db')"
  obtains f w s v db1 db2 db3 where "find_flow db i = Some f" "w \<in> set (flow_versions db)" "fv_id w = vid"
    "fv_flowId w = Some i" "fv_snapshot w = Some s"
    "createStoredVersion now i (next_version_number (getLatestVersion db i)) s
       (Some (''Restored from v'' @ show_int (fv_versionNumber w))) db = Inr (v, db1)"
    "save_flow (f\<lparr>cf_currentVersionId := Some (fv_id v), cf_name := (case ss_name s of Some n \<Rightarrow> n | None \<Rightarrow> cf_name f),
       cf_updatedAt := now\<rparr>) db1 = Inr db2"
    "saveNodesAndEdges (fv_id v) (map restored_node (ss_nodes s)) (map restored_edge (ss_edges s)) db2 = Inr db3"
    "restoreSubflowSnapshots now (subflow_list s) db3 = Inr db'"
  using assms by (auto simp: restoreVersion_def split: option.splits Option.bind_splits dest!: find_Some_iff')

lemma restoreVersion_inv:
  assumes inv: "db_inv db" and rv: "restoreVersion now i vid db = Inr (u, db')"
  shows "db_inv db' \<and> parents db' = parents db"
  using rv
proof (rule restoreVersion_steps)
  fix f w s v db1 db2 db3
  assume st: "find_flow db i = Some f"
    "createStoredVersion now i (next_version_number (getLatestVersion db i)) s
       (Some (''Restored from v'' @ show_int (fv_versionNumber w))) db = Inr (v, db1)"
    "save_flow (f\<lparr>cf_currentVersionId := Some (fv_id v), cf_name := (case ss_name s of Some n \<Rightarrow> n | None \<Rightarrow> cf_name f),
       cf_updatedAt := now\<rparr>) db1 = Inr db2"
    "saveNodesAndEdges (fv_id v) (map restored_node (ss_nodes s)) (map restored_edge (ss_edges s)) db2 = Inr db3"
    "restoreSubflowSnapshots now (subflow_list s) db3 = Inr db'"
  note d1 = createStoredVersion_okD [OF st(2)] and m = find_flow_Some [OF st(1)]
    and d3 = saveNodesAndEdges_frame [OF st(4)]
  have inv1: "db_inv db1" using find_flow_image [OF st(1)] by (rule createStoredVersion_inv [OF inv st(2)])
  then have "db_inv db2" using d1 m by (intro save_current_inv [OF _ st(3), of v]) auto
  then have "db_inv db3" using d1 save_flow_okD(2) [OF st(3)] by (intro saveNodesAndEdges_inv [OF _ st(4)]) auto
  moreover have "parents db3 = parents db"
  proof -
    have "parents db2 = parents db1"
      by (rule save_flow_parents [OF _ st(3), of f]) (use inv1 d1 m in \<open>auto simp: db_inv_def\<close>)
    then show ?thesis using d1 d3 by (simp add: parents_def)
  qed
  ultimately show ?thesis using restoreSubflowSnapshots_inv [OF _ st(5)] by simp
qed

lemma rename_inv:
  assumes inv: "db_inv db" and rn: "rename now i name db = Inr (r, db')"
  shows "db_inv db' \<and> parents db' = parents db"
proof -
  obtain f where f: "find_flow db i = Some f"
    and sv: "save_flow (f\<lparr>cf_name := trim (text_or_empty name), cf_updatedAt := now\<rparr>) db = Inr db'"
    using rn by (auto simp: rename_def Let_def split: if_splits option.splits)
  note m = find_flow_Some [OF f]
  have "db_inv db'" using inv m by (intro save_flow_inv [OF inv sv]) (auto simp: db_inv_def current_ok_def)
  moreover have "parents db' = parents db"
    by (rule save_flow_parents [OF _ sv, of f]) (use inv m in \<open>auto simp: db_inv_def\<close>)
  ultimately show ?thesis ..
qed

lemma findOne_inv:
  assumes "db_inv db" and "findOne i db = Inr (d, db')"
  shows "db_inv db' \<and> links_only db db'"
  using assms by (auto simp: findOne_def split: option.splits dest: buildFlowDetail_okD)

section \<open>Deleting a subtree\<close>

definition subtree :: "flow_db \<Rightarrow> int \<Rightarrow> int set" where
  "subtree db i = {j. (i, j) \<in> (child_rel db)\<^sup>*}"

lemma subtree_parent:
  "flows_ok db \<Longrightarrow> f \<in> set (call_flows db) \<Longrightarrow> cf_parentFlowId f = Some p \<Longrightarrow> p \<in> subtree db i \<Longrightarrow> cf_id f \<in> subtree db i"
  unfolding subtree_def
  by (auto intro!: rtrancl_into_rtrancl [of i p] simp: child_rel_def find_flow_mem)

lemma delete_versions_Nil: "delete_versions [] db = db"
  by (simp add: delete_versions_def)

lemma remove_effect:
  assumes fl: "flows_ok db" and rm: "remove i db = Inr (j, db')"
  shows "j = i" "i \<in> flow_ids db"
    and "call_flows db' = filter (\<lambda>f. cf_id f \<notin> subtree db i) (call_flows db)"
    and "flow_versions db' = filter (\<lambda>v. fv_id v \<notin> fv_id ` {w \<in> set (flow_versions db). fv_flowId w \<in> Some ` subtree db i}) (flow_versions db)"
    and "flow_edges db' = filter (\<lambda>e. fe_flowVersionId e \<notin> Some ` fv_id ` {w \<in> set (flow_versions db). fv_flowId w \<in> Some ` subtree db i}) (flow_edges db)"
    and "map fn_flowVersionId (flow_nodes db') = map fn_flowVersionId (filter (\<lambda>n. fn_flowVersionId n \<notin> Some ` fv_id ` {w \<in> set (flow_versions db). fv_flowId w \<in> Some ` subtree db i}) (flow_nodes db))"
    and "call_node_logs db' = filter (\<lambda>l. nl_flowId l \<notin> subtree db i) (call_node_logs db)"
    and "next_flow_id db' = next_flow_id db" "next_version_id db' = next_version_id db"
proof -
  obtain f where f: "find_flow db i = Some f" using rm by (auto simp: remove_def split: option.splits)
  note m = find_flow_Some [OF f]
  let ?ids = "map cf_id (collectFlowSubtreeForDelete db f)"
  have ids: "set ?ids = subtree db i"
    using collectFlowSubtreeForDelete_facts(3) [OF fl] m by (simp add: subtree_def)
  let ?vs = "map fv_id (filter (\<lambda>v. fv_flowId v \<in> Some ` set ?ids) (flow_versions db))"
  have vs: "set ?vs = fv_id ` {w \<in> set (flow_versions db). fv_flowId w \<in> Some ` subtree db i}"
    using ids by auto
  have some: "(if ?vs \<noteq> [] then delete_versions ?vs db else db) = delete_versions ?vs db"
    using delete_versions_Nil [of db] by (metis (no_types))
  have logs: "call_node_logs (delete_versions ?vs db) = call_node_logs db" by (simp add: delete_versions_def)
  have "remove i db = Inr (cf_id f, delete_flows ?ids
      ((delete_versions ?vs db)\<lparr>call_node_logs := filter (\<lambda>l. nl_flowId l \<notin> set ?ids) (call_node_logs db)\<rparr>))"
    by (simp only: remove_def f option.case Let_def some logs)
  then have db': "db' = delete_flows ?ids ((delete_versions ?vs db)\<lparr>call_node_logs := filter (\<lambda>l. nl_flowId l \<notin> set ?ids) (call_node_logs db)\<rparr>)"
    and "j = i"
    using rm m by simp_all
  then show "j = i" "i \<in> flow_ids db" using find_flow_ids [OF f] by auto
  have keep: "clear_ref ?ids (cf_parentFlowId g) = cf_parentFlowId g"
    if "g \<in> set (call_flows db)" "cf_id g \<notin> subtree db i" for g
    using subtree_parent [OF fl that(1)] that(2) ids by (auto simp: clear_ref_def split: option.splits)
  show "call_flows db' = filter (\<lambda>f. cf_id f \<notin> subtree db i) (call_flows db)"
    unfolding db' delete_flows_def delete_versions_def ids by (simp, intro map_idI) (simp add: keep)
  show "flow_versions db' = filter (\<lambda>v. fv_id v \<notin> fv_id ` {w \<in> set (flow_versions db). fv_flowId w \<in> Some ` subtree db i}) (flow_versions db)"
    "flow_edges db' = filter (\<lambda>e. fe_flowVersionId e \<notin> Some ` fv_id ` {w \<in> set (flow_versions db). fv_flowId w \<in> Some ` subtree db i}) (flow_edges db)"
    "map fn_flowVersionId (flow_nodes db') = map fn_flowVersionId (filter (\<lambda>n. fn_flowVersionId n \<notin> Some ` fv_id ` {w \<in> set (flow_versions db). fv_flowId w \<in> Some ` subtree db i}) (flow_nodes db))"
    unfolding db' delete_flows_def delete_versions_def vs by simp_all
  show "call_node_logs db' = filter (\<lambda>l. nl_flowId l \<notin> subtree db i) (call_node_logs db)"
    "next_flow_id db' = next_flow_id db" "next_version_id db' = next_version_id db"
    unfolding db' ids [symmetric] by (simp_all add: delete_flows_def delete_versions_def)
qed

lemma Some_image_diff: "x \<in> Some ` A \<Longrightarrow> x \<notin> Some ` B \<Longrightarrow> x \<in> Some ` (A - B)"
  by auto

lemma remove_inv:
  assumes inv: "db_inv db" and rm: "remove i db = Inr (j, db')"
  shows "db_inv db'"
proof -
  have fl: "flows_ok db" and vs: "versions_ok db" using inv by (auto simp: db_inv_def)
  note e = remove_effect [OF fl rm]
  let ?dead = "{w \<in> set (flow_versions db). fv_flowId w \<in> Some ` subtree db i}"
  have alive: "fv_id v \<notin> fv_id ` ?dead \<longleftrightarrow> fv_flowId v \<notin> Some ` subtree db i" if "v \<in> set (flow_versions db)" for v
    using version_eq_if_same_id [OF vs that] that by auto
  have "flows_ok db'"
    using fl e(8) subtree_parent [OF fl] unfolding flows_ok_def e(3)
    by (auto simp: ids_ok_filter distinct_map_filter image_iff) metis
  moreover have "versions_ok db'"
  proof -
    have "\<forall>v \<in> set (flow_versions db'). fv_flowId v \<in> Some ` cf_id ` set (call_flows db')"
      using vs alive unfolding versions_ok_def e(3,4) by (auto simp: image_iff) metis
    then show ?thesis using vs e(9) by (simp add: versions_ok_def e(4) ids_ok_filter distinct_map_filter)
  qed
  moreover have "current_ok db'"
  proof -
    have "\<exists>v \<in> set (flow_versions db'). fv_id v = k \<and> fv_flowId v = Some (cf_id f)"
      if "f \<in> set (call_flows db')" "cf_currentVersionId f = Some k" for f k
    proof -
      have "f \<in> set (call_flows db)" using that e(3) by simp
      with that(2) inv obtain v where "v \<in> set (flow_versions db)" "fv_id v = k" "fv_flowId v = Some (cf_id f)"
        unfolding db_inv_def current_ok_def by blast
      then show ?thesis using that alive [of v] e(3,4) by auto
    qed
    then show ?thesis by (simp add: current_ok_def)
  qed
  moreover have "rows_ok db'"
  proof -
    have ids: "fv_id ` set (flow_versions db') = fv_id ` set (flow_versions db) - fv_id ` ?dead" unfolding e(4) by auto
    have "set (map fn_flowVersionId (flow_nodes db')) \<subseteq> Some ` fv_id ` set (flow_versions db')"
      unfolding e(6) ids set_map image_subset_iff
      by (intro ballI Some_image_diff) (use inv in \<open>simp_all add: db_inv_def rows_ok_def\<close>)
    moreover have "\<forall>x \<in> set (flow_edges db'). fe_flowVersionId x \<in> Some ` fv_id ` set (flow_versions db')"
      unfolding e(5) ids
      by (intro ballI Some_image_diff) (use inv in \<open>simp_all add: db_inv_def rows_ok_def\<close>)
    ultimately show ?thesis by (auto simp: rows_ok_def)
  qed
  ultimately show ?thesis by (simp add: db_inv_def)
qed

end
