(* ===== verification/CallModel.thy ===== *)
theory CallModel
  imports FlowModel "HOL-Library.AList"
begin

text \<open>
  The call engine's data and its pure functions: \<open>flowLoader.ts\<close> (reading a published flow from
  the shared tables), \<open>callSession.ts\<close>, \<open>timeoutResolver.ts\<close>, \<open>engine/edgeResolver.ts\<close>,
  \<open>webhookPayload.ts\<close> and \<open>lib/formatDialNumber.ts\<close>.
\<close>

section \<open>Loading a flow\<close>

record rt_node =
  n_key :: string
  n_type :: string
  n_label :: string
  n_config :: config

record rt_edge =
  e_source :: string
  e_target :: string
  e_branch :: string
  e_condition :: "string option"

record flow =
  f_id :: int
  f_name :: string
  f_versionId :: int
  f_nodes :: "rt_node list"
  f_edges :: "rt_edge list"

definition rt_node_of_row :: "flow_node \<Rightarrow> rt_node" where
  "rt_node_of_row n = \<lparr>n_key = fn_nodeKey n, n_type = fn_type n,
     n_label = (case fn_label n of None \<Rightarrow> [] | Some l \<Rightarrow> l), n_config = fn_configJson n\<rparr>"

definition rt_edge_of_row :: "flow_edge \<Rightarrow> rt_edge" where
  "rt_edge_of_row e = \<lparr>e_source = fe_sourceNodeKey e, e_target = fe_targetNodeKey e,
     e_branch = (if fe_branchKey e = [] then ''default'' else fe_branchKey e), e_condition = fe_condition e\<rparr>"

definition buildFlowFromRow :: "flow_db \<Rightarrow> call_flow option \<Rightarrow> flow option" where
  "buildFlowFromRow db flowRow =
     (case flowRow of
        None \<Rightarrow> None
      | Some row \<Rightarrow> (case cf_currentVersionId row of
          None \<Rightarrow> None
        | Some versionId \<Rightarrow>
          if versionId = 0 then None
          else let nodes = map rt_node_of_row (version_nodes db versionId) in
            if \<not> list_ex (\<lambda>n. n_type n = ''start'') nodes then None
            else Some \<lparr>f_id = cf_id row, f_name = cf_name row, f_versionId = versionId, f_nodes = nodes,
                       f_edges = map rt_edge_of_row (version_edges db versionId)\<rparr>))"

definition loadFlow :: "flow_db \<Rightarrow> string option \<Rightarrow> flow option" where
  "loadFlow db entryValue =
     buildFlowFromRow db
       (case entryValue of
          Some (c # cs) \<Rightarrow> List.find (\<lambda>f. cf_status f = ''published'' \<and> cf_entryValue f = Some (c # cs)) (call_flows db)
        | _ \<Rightarrow> List.find (\<lambda>f. cf_status f = ''published'') (call_flows db))"

definition loadFlowById :: "flow_db \<Rightarrow> int \<Rightarrow> flow option" where
  "loadFlowById db i =
     buildFlowFromRow db (List.find (\<lambda>f. cf_id f = i \<and> cf_status f = ''published'') (call_flows db))"

section \<open>Sessions\<close>

record webhook_payload =
  wp_outcome :: "json option"
  wp_bridge :: "json option"
  wp_queue :: "json option"
  wp_recording :: "json option"
  wp_callback :: "json option"

definition empty_payload :: webhook_payload where
  "empty_payload = \<lparr>wp_outcome = None, wp_bridge = None, wp_queue = None, wp_recording = None, wp_callback = None\<rparr>"

text \<open>Instants are in milliseconds.\<close>

record recording_state =
  rc_name :: string
  rc_fileName :: string
  rc_filePath :: string
  rc_format :: string
  rc_startedAt :: nat
  rc_endedAt :: "nat option"

record session =
  s_callUuid :: string
  s_channelId :: string
  s_callerNumber :: string
  s_flow :: flow
  s_currentNodeKey :: string
  s_variables :: "(string \<times> string) list"
  s_webhookPayload :: webhook_payload
  s_startedAt :: nat
  s_endedAt :: "nat option"
  s_recording :: "recording_state option"
  s_inboundBridge :: "string option"

definition createSession :: "nat \<Rightarrow> string \<Rightarrow> string \<Rightarrow> flow \<Rightarrow> string \<Rightarrow> session" where
  "createSession now channelId callerNumber flow entryNodeKey =
     \<lparr>s_callUuid = channelId, s_channelId = channelId, s_callerNumber = callerNumber, s_flow = flow,
      s_currentNodeKey = entryNodeKey, s_variables = [], s_webhookPayload = empty_payload,
      s_startedAt = now, s_endedAt = None, s_recording = None, s_inboundBridge = None\<rparr>"

definition markCallEnded :: "session \<Rightarrow> nat \<Rightarrow> nat \<times> session" where
  "markCallEnded s endedAt =
     (case s_endedAt s of Some t \<Rightarrow> (t, s) | None \<Rightarrow> (endedAt, s\<lparr>s_endedAt := Some endedAt\<rparr>))"

text \<open>\<open>session.variables[k] = v\<close>, \<open>delete session.variables[k]\<close> and \<open>session.variables[k]\<close>.\<close>

definition get_var :: "session \<Rightarrow> string \<Rightarrow> string option" where
  "get_var s k = map_of (s_variables s) k"

definition set_var :: "string \<Rightarrow> string \<Rightarrow> session \<Rightarrow> session" where
  "set_var k v s = s\<lparr>s_variables := AList.update k v (s_variables s)\<rparr>"

definition del_var :: "string \<Rightarrow> session \<Rightarrow> session" where
  "del_var k s = s\<lparr>s_variables := AList.delete k (s_variables s)\<rparr>"

interpretation vars: keyed_store get_var set_var del_var
  by unfold_locales (auto simp: get_var_def set_var_def del_var_def update_conv' delete_conv' fun_upd_def fun_eq_iff)

text \<open>The module-level \<open>Map\<close> of active sessions, keyed by channel.\<close>

type_synonym active_sessions = "(string \<times> session) list"

definition addSession :: "session \<Rightarrow> active_sessions \<Rightarrow> active_sessions" where
  "addSession s m = AList.update (s_channelId s) s m"

definition getSession :: "active_sessions \<Rightarrow> string \<Rightarrow> session option" where
  "getSession m channelId = map_of m channelId"

definition removeSession :: "string \<Rightarrow> active_sessions \<Rightarrow> active_sessions" where
  "removeSession channelId m = AList.delete channelId m"

definition getActiveSessionCount :: "active_sessions \<Rightarrow> nat" where
  "getActiveSessionCount m = length m"

interpretation active: keyed_store getSession "\<lambda>k v m. AList.update k v m" removeSession
  by unfold_locales (auto simp: getSession_def removeSession_def update_conv' delete_conv' fun_upd_def fun_eq_iff)

section \<open>Timeouts\<close>

definition MIN_TIMEOUT_MS :: int where "MIN_TIMEOUT_MS = 1000"
definition MAX_TIMEOUT_MS :: int where "MAX_TIMEOUT_MS = 120000"

definition INTER_DIGIT_TIMEOUT_MS :: int where "INTER_DIGIT_TIMEOUT_MS = 4000"

definition parseValidTimeoutMs :: "json option \<Rightarrow> int option" where
  "parseValidTimeoutMs v =
     (case num_int (js_number v) of
        None \<Rightarrow> None
      | Some i \<Rightarrow> if i < MIN_TIMEOUT_MS \<or> MAX_TIMEOUT_MS < i then None else Some i)"

definition resolveFlowDefaultTimeoutMs :: "flow \<Rightarrow> int option" where
  "resolveFlowDefaultTimeoutMs flow =
     (case List.find (\<lambda>n. n_type n = ''start'') (f_nodes flow) of
        None \<Rightarrow> None
      | Some n \<Rightarrow> parseValidTimeoutMs (js_coalesce (obj_get (n_config n) ''flow_default_timeout_ms'')
                                                   (obj_get (n_config n) ''queue_login_default_input_timeout_ms'')))"

definition resolveNodeTimeoutMs :: "rt_node \<Rightarrow> session \<Rightarrow> int \<Rightarrow> int" where
  "resolveNodeTimeoutMs node s fallbackMs =
     (case parseValidTimeoutMs (obj_get (n_config node) ''timeout_ms'') of
        Some t \<Rightarrow> t
      | None \<Rightarrow> (case resolveFlowDefaultTimeoutMs (s_flow s) of Some t \<Rightarrow> t | None \<Rightarrow> fallbackMs))"

section \<open>Edges\<close>

text \<open>\<open>a || b\<close> on found edges.\<close>

definition edge_or :: "rt_edge option \<Rightarrow> rt_edge option \<Rightarrow> rt_edge option" where
  "edge_or a b = (case a of None \<Rightarrow> b | Some e \<Rightarrow> Some e)"

definition resolveGetDigitsEdge :: "rt_edge list \<Rightarrow> string \<Rightarrow> rt_edge option" where
  "resolveGetDigitsEdge edges result =
     edge_or (List.find (\<lambda>e. e_condition e = Some result) edges)
       (edge_or (List.find (\<lambda>e. e_condition e = Some (if result = ''timeout'' then ''timeout'' else ''invalid'')) edges)
         (List.find (\<lambda>e. e_condition e = Some ''default'' \<or> e_condition e = None) edges))"

definition resolveNextEdge :: "string \<Rightarrow> string \<Rightarrow> string \<Rightarrow> rt_edge list \<Rightarrow> rt_edge option" where
  "resolveNextEdge currentNodeKey nodeType result edges =
     (let outgoing = filter (\<lambda>e. e_source e = currentNodeKey) edges in
      if outgoing = [] then None
      else if nodeType = ''get_digits'' then resolveGetDigitsEdge outgoing result
      else let conditionalEdges = filter (\<lambda>e. e_condition e \<noteq> None) outgoing in
        if conditionalEdges \<noteq> [] then
          edge_or (List.find (\<lambda>e. e_condition e = Some result) conditionalEdges)
            (edge_or (List.find (\<lambda>e. e_condition e = Some ''default'') conditionalEdges)
              (List.find (\<lambda>e. e_condition e = None) outgoing))
        else
          edge_or (List.find (\<lambda>e. e_branch e = result) outgoing)
            (edge_or (List.find (\<lambda>e. e_branch e = ''default'') outgoing)
              (List.find (\<lambda>e. e_condition e = None) outgoing)))"

section \<open>Webhook bodies and dial strings\<close>

text \<open>Dates are printed by \<open>toISOString\<close>, which \<open>toISO\<close> stands for; seconds are rounded half up.\<close>

definition opt_json :: "json option \<Rightarrow> json" where
  "opt_json j = (case j of None \<Rightarrow> JNull | Some v \<Rightarrow> v)"

definition call_duration_seconds :: "session \<Rightarrow> int option" where
  "call_duration_seconds s =
     (case s_endedAt s of
        None \<Rightarrow> None
      | Some e \<Rightarrow> (let diff = int e - int (s_startedAt s) in if 0 \<le> diff then Some ((diff + 500) div 1000) else None))"

definition buildWebhookPayload :: "(nat \<Rightarrow> string) \<Rightarrow> nat \<Rightarrow> session \<Rightarrow> rt_node \<Rightarrow> bool \<Rightarrow> config" where
  "buildWebhookPayload toISO now s sourceNode includeVariables =
     (let base = [(''caller_number'', JStr (s_callerNumber s)), (''flow_id'', JNum (num_of_int (f_id (s_flow s)))),
            (''node_type'', JStr (n_type sourceNode)), (''node_id'', JStr (n_key sourceNode)),
            (''timestamp'', JStr (toISO now)), (''call_started_at'', JStr (toISO (s_startedAt s))),
            (''call_ended_at'', opt_json (map_option (\<lambda>t. JStr (toISO t)) (s_endedAt s))),
            (''call_duration_seconds'', opt_json (map_option (\<lambda>i. JNum (num_of_int i)) (call_duration_seconds s)))];
          wp = s_webhookPayload s;
          add = (\<lambda>k v body. case v of None \<Rightarrow> body | Some j \<Rightarrow> obj_set k j body)
      in obj_set ''variables'' (JObj (if includeVariables then map (\<lambda>(k, v). (k, JStr v)) (s_variables s) else []))
           (add ''callback'' (wp_callback wp) (add ''recording'' (wp_recording wp) (add ''queue'' (wp_queue wp)
             (add ''bridge'' (wp_bridge wp) (add ''outcome'' (wp_outcome wp) base))))))"

text \<open>\<open>s.replace('\{number\}', digits)\<close>: the first occurrence of the pattern.\<close>

fun replace_first :: "string \<Rightarrow> string \<Rightarrow> string \<Rightarrow> string" where
  "replace_first pat by [] = (if pat = [] then by else [])"
| "replace_first pat by (c # cs) =
     (if starts_with pat (c # cs) then by @ drop (length pat) (c # cs) else c # replace_first pat by cs)"

definition formatDialNumber :: "string \<Rightarrow> string \<Rightarrow> string option" where
  "formatDialNumber raw dialFormat =
     (let digits = filter is_digit raw in
      if length digits < 9 then None else Some (replace_first ''{number}'' digits dialFormat))"

text \<open>\<open>lib/trunkResolver.ts\<close>: the \<open>dialFormat\<close> of a trunk, \<open>None\<close> when the request fails.\<close>

definition fetchTrunkDialFormat :: "(number \<Rightarrow> string option) \<Rightarrow> number \<Rightarrow> string" where
  "fetchTrunkDialFormat trunk trunkId =
     (let dialFormat = text_or_empty (trunk trunkId) in if dialFormat = [] then ''{number}'' else dialFormat)"

end
