(* ===== verification/Slugs.thy ===== *)
theory Slugs
  imports Prelude
begin

text \<open>
  The search for a free slug, as the services of flow templates and of queues run it: a candidate that is
  taken is replaced by the base with the next number.  The loop ends because only finitely many slugs are
  taken.
\<close>

definition suffixed :: "string \<Rightarrow> nat \<Rightarrow> string" where
  "suffixed base k = base @ ''-'' @ show_nat k"

lemma suffixed_inject [simp]: "suffixed base j = suffixed base k \<longleftrightarrow> j = k"
  by (simp add: suffixed_def)

text \<open>The suffixes still to be tried that are taken.\<close>

definition taken_from :: "string list \<Rightarrow> string \<Rightarrow> nat \<Rightarrow> nat" where
  "taken_from taken base n = card {k. n \<le> k \<and> suffixed base k \<in> set taken}"

lemma finite_taken: "finite {k. n \<le> k \<and> suffixed base k \<in> set taken}"
proof -
  have "finite (suffixed base ` {k. n \<le> k \<and> suffixed base k \<in> set taken})"
    by (rule finite_subset [of _ "set taken"]) auto
  then show ?thesis by (rule finite_imageD) (simp add: inj_on_def)
qed

lemma taken_from_step:
  "taken_from taken base n = taken_from taken base (Suc n) + (if suffixed base n \<in> set taken then 1 else 0)"
proof -
  let ?A = "{k. Suc n \<le> k \<and> suffixed base k \<in> set taken}"
  have "{k. n \<le> k \<and> suffixed base k \<in> set taken} = (if suffixed base n \<in> set taken then insert n ?A else ?A)"
    by (auto simp: Suc_le_eq le_less)
  then show ?thesis using finite_taken [of "Suc n" base taken] by (simp add: taken_from_def)
qed

function slug_search :: "string list \<Rightarrow> string \<Rightarrow> string \<Rightarrow> nat \<Rightarrow> string" where
  "slug_search taken base candidate suffix =
     (if candidate \<in> set taken then slug_search taken base (suffixed base suffix) (Suc suffix) else candidate)"
  by pat_completeness auto
termination
proof (relation "measure (\<lambda>(taken, base, c, n). taken_from taken base n + (if c \<in> set taken then 1 else 0))")
  fix taken :: "string list" and base c :: string and n :: nat
  assume "c \<in> set taken"
  then show "((taken, base, suffixed base n, Suc n), taken, base, c, n)
      \<in> measure (\<lambda>(taken, base, c, n). taken_from taken base n + (if c \<in> set taken then 1 else 0))"
    using taken_from_step [of taken base n] by simp
qed simp

declare slug_search.simps [simp del]

lemma slug_search_free: "slug_search taken base candidate suffix \<notin> set taken"
proof (induction taken base candidate suffix rule: slug_search.induct)
  case (1 taken base candidate suffix)
  then show ?case by (subst slug_search.simps) simp
qed

text \<open>Which slug it is: the candidate, or the base with the least free suffix.\<close>

lemma slug_search_least:
  "slug_search taken base candidate suffix = (if candidate \<in> set taken
     then suffixed base (LEAST k. suffix \<le> k \<and> suffixed base k \<notin> set taken) else candidate)"
proof (induction taken base candidate suffix rule: slug_search.induct)
  case (1 taken base candidate suffix)
  show ?case
  proof (cases "candidate \<in> set taken")
    case taken: True
    let ?P = "\<lambda>n k. n \<le> k \<and> suffixed base k \<notin> set taken"
    have step: "slug_search taken base candidate suffix = slug_search taken base (suffixed base suffix) (Suc suffix)"
      using taken by (subst slug_search.simps) simp
    show ?thesis
    proof (cases "suffixed base suffix \<in> set taken")
      case True
      then have "?P suffix = ?P (Suc suffix)" by (auto simp: fun_eq_iff Suc_le_eq le_less)
      with 1 [OF taken] True taken step show ?thesis by simp
    next
      case False
      then have "(LEAST k. ?P suffix k) = suffix" by (intro Least_equality) auto
      with 1 [OF taken] False taken step show ?thesis by simp
    qed
  qed (simp add: slug_search.simps)
qed

end
