(* ===== verification/Templates.thy ===== *)
theory Templates
  imports FlowServiceLaws CallModel Slugs
begin

text \<open>
  \<open>templates/templates.service.ts\<close>: listing the template flows and importing one as a new flow.
\<close>

section \<open>Listing\<close>

record template_item =
  ti_id :: int
  ti_name :: string
  ti_description :: "string option"
  ti_templateDescription :: "string option"
  ti_templateCategory :: "string option"
  ti_nodeCount :: int

text \<open>\<open>x ? String(x) : null\<close>.\<close>

definition nonempty :: "string option \<Rightarrow> string option" where
  "nonempty s = (if text_or_empty s = [] then None else s)"

text \<open>\<open>COALESCE(fv.node_count, node_counts.node_count, 0)\<close>.\<close>

definition template_node_count :: "flow_db \<Rightarrow> call_flow \<Rightarrow> int" where
  "template_node_count db f =
     (case cf_currentVersionId f of
        None \<Rightarrow> 0
      | Some v \<Rightarrow> (case Option.bind (find_version db v) fv_nodeCount of
            Some n \<Rightarrow> n
          | None \<Rightarrow> int (length (version_nodes db v))))"

definition template_item :: "flow_db \<Rightarrow> call_flow \<Rightarrow> template_item" where
  "template_item db f =
     \<lparr>ti_id = cf_id f, ti_name = cf_name f, ti_description = nonempty (cf_description f),
      ti_templateDescription = nonempty (cf_templateDescription f),
      ti_templateCategory = nonempty (cf_templateCategory f), ti_nodeCount = template_node_count db f\<rparr>"

definition listTemplates :: "flow_db \<Rightarrow> template_item list" where
  "listTemplates db =
     map (template_item db) (sort_key (\<lambda>f. - int (cf_createdAt f))
       (rev (filter cf_isTemplate (call_flows db))))"

section \<open>Slugs\<close>

definition slug_taken :: "flow_db \<Rightarrow> string \<Rightarrow> bool" where
  "slug_taken db s \<longleftrightarrow> s \<in> set (map cf_slug (call_flows db))"

text \<open>The loop of \<open>ensureUniqueSlug\<close>.\<close>

definition unique_slug_loop :: "flow_db \<Rightarrow> string \<Rightarrow> string \<Rightarrow> nat \<Rightarrow> string" where
  "unique_slug_loop db base candidate suffix = slug_search (map cf_slug (call_flows db)) base candidate suffix"

definition normalizedBase :: "string \<Rightarrow> string" where
  "normalizedBase baseSlug =
     (let s = strip_hyphens (hyphenate (map to_lower baseSlug)) in if s = [] then ''template-copy'' else s)"

definition ensureUniqueTemplateSlug :: "flow_db \<Rightarrow> string \<Rightarrow> string" where
  "ensureUniqueTemplateSlug db baseSlug = unique_slug_loop db (normalizedBase baseSlug) (normalizedBase baseSlug) 2"

section \<open>Importing\<close>

definition copied_flow :: "nat \<Rightarrow> flow_db \<Rightarrow> call_flow \<Rightarrow> call_flow" where
  "copied_flow now db t =
     \<lparr>cf_id = 0, cf_name = (if cf_name t = [] then ''Template'' else cf_name t) @ '' (copy)'',
      cf_slug = ensureUniqueTemplateSlug db ((if cf_slug t = [] then ''template'' else cf_slug t) @ ''-copy''),
      cf_description = nonempty (cf_description t), cf_status = ''draft'', cf_entryType = ''default'', cf_entryValue = None,
      cf_currentVersionId = None, cf_parentFlowId = None, cf_parentNodeKey = None, cf_parentBranchKey = None,
      cf_isTemplate = False, cf_templateDescription = None, cf_templateCategory = None,
      cf_createdAt = now, cf_updatedAt = now\<rparr>"

definition copied_version :: "nat \<Rightarrow> int \<Rightarrow> int \<Rightarrow> flow_version \<Rightarrow> flow_version" where
  "copied_version now flowId templateId v =
     \<lparr>fv_id = 0, fv_flowId = Some flowId, fv_versionNumber = 1, fv_isPublished = False, fv_publishedAt = None,
      fv_message = Some (''Imported from template #'' @ show_int templateId), fv_snapshot = fv_snapshot v,
      fv_nodeCount = fv_nodeCount v, fv_createdAt = now\<rparr>"

definition copied_nodes :: "int \<Rightarrow> int \<Rightarrow> flow_db \<Rightarrow> flow_node list" where
  "copied_nodes newVersionId v db =
     map (\<lambda>n. n\<lparr>fn_flowVersionId := Some newVersionId, fn_subflowId := None\<rparr>) (version_nodes db v)"

definition copied_edges :: "int \<Rightarrow> int \<Rightarrow> flow_db \<Rightarrow> flow_edge list" where
  "copied_edges newVersionId v db =
     map (\<lambda>e. e\<lparr>fe_flowVersionId := Some newVersionId, fe_sourceHandle := None, fe_targetHandle := None\<rparr>) (version_edges db v)"

text \<open>Without a row for the template's version, the id of the new version is 0, and a copied row refers to no version.\<close>

definition importTemplate :: "nat \<Rightarrow> int \<Rightarrow> flow_db \<Rightarrow> ((int \<times> string) \<times> flow_db) result" where
  "importTemplate now templateId db =
     (case List.find (\<lambda>f. cf_id f = templateId \<and> cf_isTemplate f) (call_flows db) of
        None \<Rightarrow> throw (NotFound (''Template '' @ show_int templateId @ '' not found''))
      | Some t \<Rightarrow>
        (let v = (case cf_currentVersionId t of None \<Rightarrow> 0 | Some v \<Rightarrow> v) in
         if v \<le> 0 then throw (NotFound (''Template '' @ show_int templateId @ '' has no active version''))
         else bind_result (insert_flow (copied_flow now db t) db) (\<lambda>(newFlow, db1).
              bind_result (case find_version db1 v of
                  None \<Rightarrow> ok (0, db1)
                | Some version \<Rightarrow> bind_result (insert_version (copied_version now (cf_id newFlow) templateId version) db1)
                    (\<lambda>(saved, db2). ok (fv_id saved, db2))) (\<lambda>(newVersionId, db2).
              bind_result (throw_if ((version_nodes db2 v \<noteq> [] \<or> version_edges db2 v \<noteq> []) \<and> find_version db2 newVersionId = None)
                  (DbConstraint ''flow_versions'')) (\<lambda>_.
              bind_result (insert_nodes (copied_nodes newVersionId v db2) db2) (\<lambda>db3.
              bind_result (save_flow (newFlow\<lparr>cf_currentVersionId := Some newVersionId, cf_updatedAt := now\<rparr>)
                  (insert_edges (copied_edges newVersionId v db2) db3)) (\<lambda>db4.
                ok ((cf_id newFlow, cf_name newFlow), db4))))))))"

section \<open>Laws\<close>

lemma unique_slug_loop_free: "\<not> slug_taken db (unique_slug_loop db base candidate suffix)"
  unfolding slug_taken_def unique_slug_loop_def by (rule slug_search_free)

text \<open>Which slug it is: the base, or the base with the least free suffix from 2 on.\<close>

lemma unique_slug_loop_least:
  "unique_slug_loop db base candidate suffix = (if slug_taken db candidate
     then suffixed base (LEAST k. suffix \<le> k \<and> \<not> slug_taken db (suffixed base k)) else candidate)"
  unfolding slug_taken_def unique_slug_loop_def by (rule slug_search_least)

lemma importTemplate_steps:
  assumes "db_inv db" and "importTemplate now t db = Inr ((j, name), db')"
  obtains tf v version f db1 w db2 db3 where
    "List.find (\<lambda>f. cf_id f = t \<and> cf_isTemplate f) (call_flows db) = Some tf" "cf_currentVersionId tf = Some v" "0 < v"
    "find_version db v = Some version" "insert_flow (copied_flow now db tf) db = Inr (f, db1)"
    "insert_version (copied_version now (cf_id f) t version) db1 = Inr (w, db2)"
    "insert_nodes (copied_nodes (fv_id w) v db2) db2 = Inr db3"
    "save_flow (f\<lparr>cf_currentVersionId := Some (fv_id w), cf_updatedAt := now\<rparr>) (insert_edges (copied_edges (fv_id w) v db2) db3) = Inr db'"
    "j = cf_id f" "name = cf_name f"
proof -
  obtain tf where tf: "List.find (\<lambda>f. cf_id f = t \<and> cf_isTemplate f) (call_flows db) = Some tf"
    using assms(2) by (auto simp: importTemplate_def split: option.splits)
  then have mem: "tf \<in> set (call_flows db)" using find_Some_iff' by fast
  obtain v where v: "cf_currentVersionId tf = Some v" "0 < v"
    using assms(2) tf by (auto simp: importTemplate_def Let_def split: option.splits if_splits)
  obtain version where ver: "version \<in> set (flow_versions db)" "fv_id version = v"
    using assms(1) mem v by (auto simp: db_inv_def current_ok_def)
  have fv: "find_version db v = Some version"
    using find_version_mem [OF _ ver(1)] ver(2) assms(1) by (simp add: db_inv_def)
  have same: "find_version db1 v = Some version" if "insert_flow x db = Inr (f, db1)" for x f db1
    using fv insert_flow_okD(3) [OF that] by (simp add: find_version_def)
  from assms(2) tf v obtain f db1 where f: "insert_flow (copied_flow now db tf) db = Inr (f, db1)"
    by (auto simp: importTemplate_def Let_def)
  with assms(2) tf v same [OF f] show thesis
    by (auto simp: importTemplate_def Let_def intro: that [OF tf v fv f])
qed

text \<open>
  The imported flow: a draft without parent whose only version has the rows of the template's
  current version, the references to subflows apart.
\<close>

lemma importTemplate_effect:
  assumes inv: "db_inv db" and im: "importTemplate now t db = Inr ((j, name), db')"
  obtains tf v w g where
    "List.find (\<lambda>f. cf_id f = t \<and> cf_isTemplate f) (call_flows db) = Some tf" "cf_currentVersionId tf = Some v"
    "j = next_flow_id db" "find_flow db' j = Some g" "cf_status g = ''draft''" "cf_isTemplate g = False" "cf_name g = name"
    "cf_currentVersionId g = Some w" "map rt_node_of_row (version_nodes db' w) = map rt_node_of_row (version_nodes db v)"
    "map rt_edge_of_row (version_edges db' w) = map rt_edge_of_row (version_edges db v)"
    "db_inv db'" "parents db' = parents db @ [(j, None)]"
proof (rule importTemplate_steps [OF inv im])
  fix tf v version f db1 w db2 db3
  assume tf: "List.find (\<lambda>f. cf_id f = t \<and> cf_isTemplate f) (call_flows db) = Some tf" "cf_currentVersionId tf = Some v" "0 < v"
    and ver: "find_version db v = Some version"
    and ins: "insert_flow (copied_flow now db tf) db = Inr (f, db1)"
    and insv: "insert_version (copied_version now (cf_id f) t version) db1 = Inr (w, db2)"
    and insn: "insert_nodes (copied_nodes (fv_id w) v db2) db2 = Inr db3"
    and sv: "save_flow (f\<lparr>cf_currentVersionId := Some (fv_id w), cf_updatedAt := now\<rparr>) (insert_edges (copied_edges (fv_id w) v db2) db3) = Inr db'"
    and j: "j = cf_id f" "name = cf_name f"
  note d1 = insert_flow_okD [OF ins] and d2 = insert_version_okD [OF insv] and d3 = insert_nodes_okD [OF insn] and d4 = save_flow_okD [OF sv]
  let ?f = "f\<lparr>cf_currentVersionId := Some (fv_id w), cf_updatedAt := now\<rparr>" and ?db4 = "insert_edges (copied_edges (fv_id w) v db2) db3"
  have w: "fv_id w = next_version_id db" "fv_flowId w = Some (cf_id f)" using d2 d1(3) by (simp_all add: copied_version_def)
  have inv1: "db_inv db1" by (rule insert_flow_inv [OF inv ins]) (simp add: copied_flow_def)
  have inv2: "db_inv db2" by (rule insert_version_inv [OF inv1 insv]) (use d1(3) in \<open>auto simp: copied_version_def\<close>)
  have inv3: "db_inv db3" by (rule insert_nodes_inv [OF inv2 insn, of "fv_id w"]) (use d2 in \<open>auto simp: copied_nodes_def\<close>)
  have inv4: "db_inv ?db4" by (rule insert_edges_inv [OF inv3, of _ "fv_id w"]) (use d2 d3 in \<open>auto simp: copied_edges_def\<close>)
  have flows: "call_flows ?db4 = call_flows db @ [f]" using d1 d2 d3 by (simp add: insert_edges_def)
  have "w \<in> set (flow_versions ?db4)" using d2 d3 by (simp add: insert_edges_def)
  then have inv': "db_inv db'" using flows w(2) by (intro save_current_inv [OF inv4 sv, of w]) auto
  have g: "find_flow db' j = Some ?f"
    using find_replace_row_same [of cf_id ?f "call_flows ?db4"] flows d4(2) j by (simp add: find_flow_def)
  have fresh: "version_nodes db (fv_id w) = []" "version_edges db (fv_id w) = []"
    using fresh_version_rows [OF inv, of "fv_id w"] w(1) by simp_all
  have rn: "rt_node_of_row (n\<lparr>fn_id := k\<rparr>) = rt_node_of_row n" "rt_edge_of_row (e\<lparr>fe_id := k\<rparr>) = rt_edge_of_row e" for n e k
    by (simp_all add: rt_node_of_row_def rt_edge_of_row_def)
  have own: "filter (\<lambda>n. fn_flowVersionId n = Some (fv_id w)) (number_nodes i (copied_nodes (fv_id w) v db2)) = number_nodes i (copied_nodes (fv_id w) v db2)"
    "filter (\<lambda>e. fe_flowVersionId e = Some (fv_id w)) (number_edges k (copied_edges (fv_id w) v db2)) = number_edges k (copied_edges (fv_id w) v db2)" for i k
    by (auto simp: filter_id_conv copied_nodes_def copied_edges_def dest!: number_nodes_set number_edges_set)
  have tables: "flow_nodes db2 = flow_nodes db" "flow_edges db2 = flow_edges db" using d1 d2 by simp_all
  have "version_nodes db' (fv_id w) = number_nodes (next_node_id db2) (copied_nodes (fv_id w) v db2)"
    "version_edges db' (fv_id w) = number_edges (next_edge_id db3) (copied_edges (fv_id w) v db2)"
    using fresh own tables d3 d4(2) by (simp_all add: version_nodes_def version_edges_def insert_edges_def)
  then have rows: "map rt_node_of_row (version_nodes db' (fv_id w)) = map rt_node_of_row (version_nodes db v)"
    "map rt_edge_of_row (version_edges db' (fv_id w)) = map rt_edge_of_row (version_edges db v)"
    using number_nodes_map [of rt_node_of_row] number_edges_map [of rt_edge_of_row] rn tables
    by (simp_all add: copied_nodes_def copied_edges_def version_nodes_def version_edges_def rt_node_of_row_def rt_edge_of_row_def)
  have ids: "cf_id f \<notin> cf_id ` set (call_flows db)"
    using d1(1) inv next_flow_id_fresh by (fastforce simp: db_inv_def)
  then have "parents db' = parents db @ [(j, None)]"
    unfolding parents_def d4(2) flow_db.simps flows replace_row_def using d1(1) j
    by (auto simp: copied_flow_def image_iff)
  then show thesis
    using that [OF tf(1,2) _ g] j d1(1) rows inv' by (simp add: copied_flow_def)
qed

lemma importTemplate_inv: "db_inv db \<Longrightarrow> importTemplate now t db = Inr (jn, db') \<Longrightarrow> db_inv db'"
  by (cases jn) (auto elim: importTemplate_effect)

text \<open>Neither loader finds a draft.\<close>

lemma draft_not_loaded:
  assumes "flows_ok db" and "find_flow db i = Some g" and "cf_status g \<noteq> ''published''"
  shows "loadFlowById db i = None"
proof -
  have "List.find (\<lambda>f. cf_id f = i \<and> cf_status f = ''published'') (call_flows db) = None"
    unfolding find_None_iff' using flow_eq_if_same_id [OF assms(1)] find_flow_Some [OF assms(2)] assms(3) by blast
  then show ?thesis by (simp add: loadFlowById_def buildFlowFromRow_def)
qed

end
