(* ===== verification/FlowForest.thy ===== *)
theory FlowForest
  imports Templates
begin

text \<open>
  The parent links stay a forest: every operation of \<open>FlowsService\<close> keeps each flow's parent
  chain ending at a root, with the one exception of a created flow that names the id it is
  about to get as its own parent.  The operations are the steps of a transition system whose
  reachable states satisfy the full invariant.
\<close>

section \<open>Links of the composite writes\<close>

lemma createStoredVersion_parents:
  "createStoredVersion now fid num s msg db = Inr (v, db') \<Longrightarrow> parents db' = parents db"
  by (drule createStoredVersion_okD(6)) (simp add: parents_def)

lemma saveNodesAndEdges_parents: "saveNodesAndEdges v nodes edges db = Inr db' \<Longrightarrow> parents db' = parents db"
  by (simp add: parents_def saveNodesAndEdges_frame)

lemma replaceVersionSnapshot_parents: "replaceVersionSnapshot w s nodes edges db = Inr db' \<Longrightarrow> parents db' = parents db"
  by (simp add: parents_def replaceVersionSnapshot_okD)

lemma parents_row:
  assumes "parents db' = parents db" and "f \<in> set (call_flows db)"
  obtains g where "g \<in> set (call_flows db')" "cf_id g = cf_id f" "cf_parentFlowId g = cf_parentFlowId f"
proof -
  have "(cf_id f, cf_parentFlowId f) \<in> set (parents db')" using assms by (auto simp: parents_def)
  then show thesis using that by (auto simp: parents_def)
qed

lemma save_same_parents:
  assumes "db_inv db" and "save_flow f db = Inr db'" and "(cf_id f, cf_parentFlowId f) \<in> set (parents db)"
  shows "parents db' = parents db"
proof -
  obtain g where "g \<in> set (call_flows db)" "cf_id f = cf_id g" "cf_parentFlowId f = cf_parentFlowId g"
    using assms(3) by (auto simp: parents_def)
  then show ?thesis using assms(1) by (intro save_flow_parents [OF _ assms(2)]) (auto simp: db_inv_def)
qed

lemma add_version_parents:
  assumes inv: "db_inv db" and add: "add_version now f num s msg nodes edges db = Inr (v, db')"
    and mem: "(cf_id f, cf_parentFlowId f) \<in> set (parents db)"
  shows "parents db' = parents db"
proof -
  obtain db1 db2 where st: "createStoredVersion now (cf_id f) num s msg db = Inr (v, db1)"
    "saveNodesAndEdges (fv_id v) nodes edges db1 = Inr db2"
    "save_flow (f\<lparr>cf_currentVersionId := Some (fv_id v)\<rparr>) db2 = Inr db'"
    using add by (auto simp: add_version_def)
  have p2: "parents db2 = parents db"
    using createStoredVersion_parents [OF st(1)] saveNodesAndEdges_parents [OF st(2)] by simp
  have "cf_id f \<in> cf_id ` set (call_flows db)" using mem by (auto simp: parents_def)
  then have "db_inv db1" by (rule createStoredVersion_inv [OF inv st(1)])
  then have "db_inv db2" using createStoredVersion_okD [OF st(1)] by (intro saveNodesAndEdges_inv [OF _ st(2)]) auto
  then have "parents db' = parents db2" using mem p2 by (intro save_same_parents [OF _ st(3)]) auto
  with p2 show ?thesis by simp
qed

lemma autosave_root_parents: "autosave_root lc i db = Inr db' \<Longrightarrow> parents db' = parents db"
  by (auto simp: autosave_root_def replace_with_snapshot_def split: option.splits if_splits
        dest!: replaceVersionSnapshot_parents)

lemma root_mem_parents: "getRootFlowId db i = Inr r \<Longrightarrow> (r, None) \<in> set (parents db)"
proof -
  assume "getRootFlowId db i = Inr r"
  then obtain f where "find_flow db r = Some f" "cf_parentFlowId f = None"
    by (auto simp: getRootFlowId_iff dest: chain_root_row)
  then show ?thesis by (force simp: parents_def dest: find_flow_Some)
qed

lemma flow_row_parents: "f \<in> set (call_flows db) \<Longrightarrow> (cf_id f, cf_parentFlowId f) \<in> set (parents db)"
  by (auto simp: parents_def)

lemma version_root_parents:
  assumes inv: "db_inv db" and run: "version_root lc now msg i db = Inr db'"
  shows "parents db' = parents db"
  using run
proof (cases rule: version_root_cases)
  case (replace r s w)
  then show ?thesis by (simp add: replace_with_snapshot_def replaceVersionSnapshot_parents)
next
  case (new r s v db1 db2 f)
  have "db_inv db1" using getRootFlowId_mem [OF new(1)] by (rule createStoredVersion_inv [OF inv new(2)])
  then have "db_inv db2" using createStoredVersion_okD [OF new(2)] by (intro saveNodesAndEdges_inv [OF _ new(3)]) auto
  moreover have "(cf_id f, cf_parentFlowId f) \<in> set (parents db2)" using flow_or_fail_okD [OF new(4)] by (blast intro: flow_row_parents)
  ultimately have "parents db' = parents db2" by (intro save_same_parents [OF _ new(5)]) auto
  then show ?thesis using createStoredVersion_parents [OF new(2)] saveNodesAndEdges_parents [OF new(3)] by simp
qed simp

lemma version_root_chain: "version_root lc now msg i db = Inr db' \<Longrightarrow> \<exists>r n. chain db (Some r) n i"
  by (auto simp: version_root_def getRootFlowId_iff)

lemma autosave_root_chain: "autosave_root lc i db = Inr db' \<Longrightarrow> \<exists>r n. chain db (Some r) n i"
  by (auto simp: autosave_root_def getRootFlowId_iff)

section \<open>Saving a row whose chain ends\<close>

lemma save_flow_forest:
  assumes fl: "flows_ok db" and fo: "forest db" and sv: "save_flow f db = Inr db'"
    and mem: "cf_id f \<in> flow_ids db" and ch: "chain db' (Some r) n (cf_id f)"
  shows "forest db'"
proof -
  have other: "find_flow db' i = find_flow db i" if "i \<noteq> cf_id f" for i
    using save_flow_okD(2) [OF sv] that by (simp add: find_flow_def find_replace_row_other)
  have "\<exists>r' m'. chain db' (Some r') m' i" if "chain db e m i" "i \<in> flow_ids db" for e m i
    using that
  proof (induction rule: chain.induct)
    case (chain_missing i)
    then show ?case by (simp add: find_flow_None flow_ids_def)
  next
    case (chain_root i g)
    then show ?case using ch other chain.chain_root by (metis (no_types))
  next
    case (chain_step i g p e m)
    have "p \<in> flow_ids db" using chain_step.hyps(1,2) fl by (auto simp: flows_ok_def flow_ids_def dest!: find_flow_Some)
    then obtain r' m' where "chain db' (Some r') m' p" using chain_step.IH by blast
    then show ?case using ch other chain_step.hyps(1,2) chain.chain_step by (metis (no_types))
  qed
  moreover have "flow_ids db' = flow_ids db"
    using save_flow_okD(2) [OF sv] by (simp add: flow_ids_def replace_row_key_set)
  ultimately show ?thesis using fo unfolding forest_def by blast
qed

lemma insert_flow_forest:
  assumes fl: "flows_ok db" and fo: "forest db" and ins: "insert_flow f0 db = Inr (f, db')"
    and par: "cf_parentFlowId f0 \<noteq> Some (next_flow_id db)"
  shows "forest db'"
proof -
  note d = insert_flow_okD [OF ins]
  have fresh: "find_flow db (next_flow_id db) = None"
    using next_flow_id_fresh [OF fl] by (fastforce simp: find_flow_None)
  have old: "find_flow db' i = find_flow db i" if "i \<noteq> next_flow_id db" for i
    using d that by (simp add: find_flow_def find_append split: option.splits)
  have new: "find_flow db' (next_flow_id db) = Some f"
    using fresh d by (simp add: find_flow_def find_append)
  have keep: "chain db' (Some r) n i" if "chain db (Some r) n i" for r n i
    using that
  proof (induction "Some r" n i rule: chain.induct)
    case (chain_root f)
    then show ?case using old fresh by (metis chain.chain_root option.distinct(1))
  next
    case (chain_step i g p n)
    then show ?case using old fresh by (metis chain.chain_step option.distinct(1))
  qed
  have "\<exists>r n. chain db' (Some r) n (next_flow_id db)"
  proof (cases "cf_parentFlowId f")
    case None
    then show ?thesis using new by (blast intro: chain_root)
  next
    case (Some p)
    then have "p \<in> flow_ids db"
      using flow_row_ok_parent [OF d(2)] par d(1) by (auto simp: flow_ids_def)
    then obtain r n where "chain db (Some r) n p" using fo by (auto simp: forest_def)
    then show ?thesis using new Some keep by (blast intro: chain_step)
  qed
  moreover have "flow_ids db' = insert (next_flow_id db) (flow_ids db)" using d by (auto simp: flow_ids_def)
  ultimately show ?thesis using fo keep unfolding forest_def by (metis insert_iff)
qed

section \<open>The forest through the operations\<close>

lemma first_version_parents:
  assumes inv: "db_inv db" and ins: "insert_flow f0 db = Inr (f, db1)" and cur: "cf_currentVersionId f0 = None"
    and ver: "createStoredVersion now (cf_id f) num s msg db1 = Inr (v, db2)"
    and sv: "save_flow (f\<lparr>cf_currentVersionId := Some (fv_id v), cf_updatedAt := now\<rparr>) db2 = Inr db3"
    and rows: "saveNodesAndEdges (fv_id v) nodes edges db3 = Inr db4"
  shows "parents db4 = parents db1"
proof -
  have inv1: "db_inv db1" by (rule insert_flow_inv [OF inv ins cur])
  have mem: "f \<in> set (call_flows db1)" using insert_flow_okD(3) [OF ins] by simp
  then have "cf_id f \<in> cf_id ` set (call_flows db1)" by simp
  then have inv2: "db_inv db2" by (rule createStoredVersion_inv [OF inv1 ver])
  have p2: "parents db2 = parents db1" by (rule createStoredVersion_parents [OF ver])
  have "parents db3 = parents db2"
    using flow_row_parents [OF mem] p2 by (intro save_same_parents [OF inv2 sv]) simp
  then show ?thesis using p2 saveNodesAndEdges_parents [OF rows] by simp
qed

lemma create_forest:
  assumes inv: "db_inv db" and fo: "forest db" and par: "d_parentFlowId dto \<noteq> Some (next_flow_id db)"
    and cr: "create lc urlProtocol now dto db = Inr (d, db')"
  shows "forest db'"
  using cr
proof (rule create_steps)
  fix f0 f db1 nodes v db2 db3 db4
  assume st: "insert_flow f0 db = Inr (f, db1)" "cf_currentVersionId f0 = None" "cf_parentFlowId f0 = d_parentFlowId dto"
    "createStoredVersion now (cf_id f) 1 (buildSnapshotForSave db1 f nodes (d_edges dto)) (d_versionMessage dto) db1 = Inr (v, db2)"
    "save_flow (f\<lparr>cf_currentVersionId := Some (fv_id v), cf_updatedAt := now\<rparr>) db2 = Inr db3"
    "saveNodesAndEdges (fv_id v) nodes (d_edges dto) db3 = Inr db4"
    "detail_of_version (cf_id f) (fv_id v) db4 = Inr (d, db')"
  have "forest db1" using inv par st(3) by (intro insert_flow_forest [OF _ fo st(1)]) (auto simp: db_inv_def)
  moreover have "parents db4 = parents db1" by (rule first_version_parents [OF inv st(1,2,4,5,6)])
  moreover have "db_inv db4" by (rule first_version_inv [OF inv st(1,2,4,5,6)])
  then have "parents db' = parents db4" using st(7) by (blast dest: detail_of_version_okD(2) links_only_frame(1))
  ultimately show "forest db'" using forest_parents by metis
qed

lemma createSubflow_forest:
  assumes inv: "db_inv db" and fo: "forest db" and par: "p \<noteq> next_flow_id db"
    and cr: "createSubflow matchNull now p k b name db = Inr (i, db')"
  shows "forest db'"
proof (cases "db' = db")
  case False
  then obtain f0 f db1 v db2 db3 num s msg nodes edges where st: "insert_flow f0 db = Inr (f, db1)"
    "cf_currentVersionId f0 = None" "cf_parentFlowId f0 = Some p"
    "createStoredVersion now (cf_id f) num s msg db1 = Inr (v, db2)"
    "save_flow (f\<lparr>cf_currentVersionId := Some (fv_id v), cf_updatedAt := now\<rparr>) db2 = Inr db3"
    "saveNodesAndEdges (fv_id v) nodes edges db3 = Inr db'"
    using cr by (auto simp: createSubflow_def Let_def split: option.splits)
  have "forest db1" using inv par st(3) by (intro insert_flow_forest [OF _ fo st(1)]) (auto simp: db_inv_def)
  then show ?thesis using first_version_parents [OF inv st(1,2,4,5,6)] forest_parents by metis
qed (use fo in simp)

lemma createVersion_parents:
  assumes inv: "db_inv db" and cv: "createVersion lc now i msg db = Inr (sm, db')"
  shows "parents db' = parents db"
  using cv
proof (cases rule: createVersion_cases)
  case (new r f s v db1 db2 w)
  have p1: "parents db1 = parents db" by (rule createStoredVersion_parents [OF new(5)])
  have "db_inv db1" using getRootFlowId_mem [OF new(1)] by (rule createStoredVersion_inv [OF inv new(5)])
  then have "parents db2 = parents db1"
    using flow_row_parents [of f db] find_flow_Some [OF new(2)] p1 by (intro save_same_parents [OF _ new(6)]) auto
  then show ?thesis using p1 saveNodesAndEdges_parents [OF new(7)] by simp
qed simp

text \<open>
  The tails of an update keep the links of the saved row; the tails of a subflow have walked its
  chain to the root.
\<close>

lemma update_tail_links:
  assumes inv: "db_inv db" and w: "w \<in> set (flow_versions db)" and mem: "(cf_id f, cf_parentFlowId f) \<in> set (parents db)"
  shows "update_autosave lc f w s nodes edges db = Inr (d, db') \<Longrightarrow>
      parents db' = parents db \<and> (cf_parentFlowId f \<noteq> None \<longrightarrow> (\<exists>r n. chain db (Some r) n (cf_id f)))"
    and "update_root lc now msg f w s nodes edges db = Inr (d, db') \<Longrightarrow> parents db' = parents db"
    and "update_subflow lc now msg f w previous s nodes edges db = Inr (d, db') \<Longrightarrow>
      parents db' = parents db \<and> (\<exists>r n. chain db (Some r) n (cf_id f))"
proof -
  have ids: "cf_id f \<in> cf_id ` set (call_flows db)" using mem by (auto simp: parents_def)
  have rep: "db_inv db1 \<and> parents db1 = parents db" if "replaceVersionSnapshot w s nodes edges db = Inr db1" for db1
    using replaceVersionSnapshot_inv [OF inv that w] replaceVersionSnapshot_parents [OF that] ..
  have add: "db_inv db1 \<and> parents db1 = parents db" if "add_version now f num s msg nodes edges db = Inr (v, db1)" for num v db1
    using add_version_inv [OF inv that ids] add_version_parents [OF inv that mem] ..
  have det: "parents db2 = parents db1" if "db_inv db1" "detail_of_version i v db1 = Inr (d, db2)" for i v db1 db2
    using detail_of_version_okD(2) [OF that] links_only_frame(1) by blast
  have det': "parents db2 = parents db1" if "db_inv db1" "detail_of_current i v db1 = Inr (d, db2)" for i v db1 db2
    using detail_of_current_okD(2) [OF that] links_only_frame(1) by blast
  show "parents db' = parents db \<and> (cf_parentFlowId f \<noteq> None \<longrightarrow> (\<exists>r n. chain db (Some r) n (cf_id f)))"
    if up: "update_autosave lc f w s nodes edges db = Inr (d, db')"
  proof -
    obtain db1 db2 where st: "replaceVersionSnapshot w s nodes edges db = Inr db1"
      "(if cf_parentFlowId f \<noteq> None then autosave_root lc (cf_id f) db1 else ok db1) = Inr db2"
      "detail_of_version (cf_id f) (fv_id w) db2 = Inr (d, db')"
      using up unfolding update_autosave_def bind_result_eq_Inr by blast
    note r = rep [OF st(1)]
    have "db_inv db2 \<and> parents db2 = parents db1"
      using st(2) r autosave_root_inv autosave_root_parents by (metis Inr_inject)
    moreover have "cf_parentFlowId f \<noteq> None \<Longrightarrow> \<exists>r n. chain db1 (Some r) n (cf_id f)"
      using st(2) autosave_root_chain by auto
    ultimately show ?thesis using r det [OF _ st(3)] chain_parents [of db1 db] by auto
  qed
  show "parents db' = parents db" if up: "update_root lc now msg f w s nodes edges db = Inr (d, db')"
  proof -
    obtain db1 where "db_inv db1 \<and> parents db1 = parents db" "detail_of_current (cf_id f) (fv_id w) db1 = Inr (d, db')"
      using up inv by (auto simp: update_root_def Let_def split: if_splits dest: rep add)
    then show ?thesis using det' by metis
  qed
  show "parents db' = parents db \<and> (\<exists>r n. chain db (Some r) n (cf_id f))"
    if up: "update_subflow lc now msg f w previous s nodes edges db = Inr (d, db')"
  proof -
    obtain db1 db2 where st: "db_inv db1 \<and> parents db1 = parents db" "version_root lc now msg (cf_id f) db1 = Inr db2"
      "detail_of_current (cf_id f) (fv_id w) db2 = Inr (d, db')"
      using up by (auto simp: update_subflow_def split: if_splits dest: rep add)
    have "db_inv db2" "parents db2 = parents db1"
      using st version_root_inv version_root_parents by blast+
    moreover have "\<exists>r n. chain db1 (Some r) n (cf_id f)" using version_root_chain [OF st(2)] .
    ultimately show ?thesis using st(1) det' [OF _ st(3)] chain_parents [of db1 db] by auto
  qed
qed

lemma update_outcome_forest:
  assumes inv: "db_inv db" and fo: "forest db" and row: "find_flow db i = Some row" and w: "getLatestVersion db i = Some w"
    and f: "f = (updated_flow now db dto (fv_id w) row)\<lparr>cf_updatedAt := now\<rparr>"
    and out: "update_outcome lc now dto db f w s nodes d db'"
  shows "forest db'"
proof -
  have id: "cf_id f = i" using row f find_flow_Some by simp
  from out consider "detail_of_version (cf_id f) (fv_id w) db = Inr (d, db')"
    | db1 where "save_flow f db = Inr db1"
      "update_autosave lc f w s nodes (d_edges dto) db1 = Inr (d, db')
       \<or> cf_parentFlowId f = None \<and> update_root lc now (d_versionMessage dto) f w s nodes (d_edges dto) db1 = Inr (d, db')
       \<or> update_subflow lc now (d_versionMessage dto) f w (snapshot_or_empty (Some w)) s nodes (d_edges dto) db1 = Inr (d, db')"
    unfolding update_outcome_def by blast
  then show ?thesis
  proof cases
    case 1
    then show ?thesis using inv fo detail_of_version_okD(2) links_only_frame(1) forest_parents by metis
  next
    case 2
    note sv = update_saved_inv [OF inv row w 2(1) [unfolded f]]
    have fdb1: "find_flow db1 i = Some f"
      using save_flow_okD(2) [OF 2(1)] find_flow_image [OF row] id find_replace_row_same [of cf_id f "call_flows db"]
      by (simp add: find_flow_def)
    then have mem: "(cf_id f, cf_parentFlowId f) \<in> set (parents db1)"
      using find_flow_Some by (blast intro: flow_row_parents)
    have "parents db' = parents db1 \<and> (\<exists>r n. chain db1 (Some r) n (cf_id f))"
    proof (cases "cf_parentFlowId f")
      case None
      then have "\<exists>r n. chain db1 (Some r) n (cf_id f)" using fdb1 id by (blast intro: chain_root)
      then show ?thesis using 2(2) update_tail_links [OF sv(1,2) mem] by auto
    next
      case (Some p)
      then show ?thesis using 2(2) update_tail_links [OF sv(1,2) mem] by auto
    qed
    moreover have "forest db1" if "chain db1 (Some r) n (cf_id f)" for r n
      using inv find_flow_ids [OF row] id by (intro save_flow_forest [OF _ fo 2(1) _ that]) (auto simp: db_inv_def)
    ultimately show ?thesis using forest_parents by metis
  qed
qed

lemma update_forest:
  "db_inv db \<Longrightarrow> forest db \<Longrightarrow> update lc urlProtocol now i dto db = Inr (d, db') \<Longrightarrow> forest db'"
  by (erule update_steps) (blast intro: update_outcome_forest)

lemma remove_forest:
  assumes inv: "db_inv db" and fo: "forest db" and rm: "remove i db = Inr (j, db')"
  shows "forest db'"
proof -
  have fl: "flows_ok db" using inv by (simp add: db_inv_def)
  note e = remove_effect [OF fl rm]
  have same: "find_flow db' k = find_flow db k" if "k \<notin> subtree db i" for k
    using that unfolding find_flow_def e(3) find_filter by (metis (mono_tags, lifting))
  have "chain db' (Some r) n k" if "chain db (Some r) n k" "k \<notin> subtree db i" for r n k
    using that
  proof (induction "Some r" n k rule: chain.induct)
    case (chain_root f)
    then show ?case using same by (metis chain.chain_root)
  next
    case (chain_step k g p n)
    have "p \<notin> subtree db i"
      using subtree_parent [OF fl, of g p i] chain_step.hyps(1,2) chain_step.prems find_flow_Some by blast
    then show ?case using same chain_step by (metis chain.chain_step)
  qed
  moreover have "k \<in> flow_ids db \<and> k \<notin> subtree db i" if "k \<in> flow_ids db'" for k
    using that unfolding flow_ids_def e(3) by auto
  ultimately show ?thesis using fo unfolding forest_def by blast
qed

lemma importTemplate_forest:
  assumes inv: "db_inv db" and fo: "forest db" and im: "importTemplate now t db = Inr (jn, db')"
  shows "forest db'"
proof -
  obtain j name where jn: "jn = (j, name)" by (cases jn)
  obtain tf f db1 where ins: "insert_flow (copied_flow now db tf) db = Inr (f, db1)"
    by (rule importTemplate_steps [OF inv im [unfolded jn]]) (rule that)
  have root: "cf_parentFlowId (copied_flow now db tf) = None" by (simp add: copied_flow_def)
  have "forest db1" using inv root by (intro insert_flow_forest [OF _ fo ins]) (auto simp: db_inv_def)
  moreover have "parents db1 = parents db @ [(next_flow_id db, None)]"
    using insert_flow_okD [OF ins] root by (simp add: parents_def)
  moreover have "parents db' = parents db @ [(next_flow_id db, None)]"
    by (rule importTemplate_effect [OF inv im [unfolded jn]]) simp
  ultimately show ?thesis using forest_parents by metis
qed

section \<open>The service as a transition system\<close>

text \<open>
  One completed request: the tables before and after.  A request that fails is rolled back and is
  no step.  The guard of \<open>step_create\<close> and \<open>step_createSubflow\<close> is the exception named above.
\<close>

inductive service_step :: "flow_db \<Rightarrow> flow_db \<Rightarrow> bool" where
  step_create: "create lc url now dto db = Inr (d, db') \<Longrightarrow> d_parentFlowId dto \<noteq> Some (next_flow_id db)
     \<Longrightarrow> service_step db db'"
| step_createSubflow: "createSubflow matchNull now p k b name db = Inr (i, db') \<Longrightarrow> p \<noteq> next_flow_id db
     \<Longrightarrow> service_step db db'"
| step_update: "update lc url now i udto db = Inr (d, db') \<Longrightarrow> service_step db db'"
| step_findOne: "findOne i db = Inr (d, db') \<Longrightarrow> service_step db db'"
| step_createVersion: "createVersion lc now i msg db = Inr (sm, db') \<Longrightarrow> service_step db db'"
| step_restoreVersion: "restoreVersion now i vid db = Inr (u, db') \<Longrightarrow> service_step db db'"
| step_rename: "rename now i name db = Inr (r, db') \<Longrightarrow> service_step db db'"
| step_importTemplate: "importTemplate now t db = Inr (jn, db') \<Longrightarrow> service_step db db'"
| step_remove: "remove i db = Inr (j, db') \<Longrightarrow> service_step db db'"

inductive reachable :: "flow_db \<Rightarrow> bool" where
  reach_empty: "reachable empty_db"
| reach_step: "reachable db \<Longrightarrow> service_step db db' \<Longrightarrow> reachable db'"

definition flow_inv :: "flow_db \<Rightarrow> bool" where
  "flow_inv db \<longleftrightarrow> db_inv db \<and> forest db"

lemma service_step_inv:
  assumes "service_step db db'" and "flow_inv db"
  shows "flow_inv db'"
  using assms
proof cases
  case (step_create lc url now dto d)
  then show ?thesis using assms(2) by (auto simp: flow_inv_def intro: create_inv create_forest)
next
  case (step_createSubflow matchNull now p k b name i)
  then show ?thesis using assms(2) by (auto simp: flow_inv_def intro: createSubflow_inv createSubflow_forest)
next
  case (step_update lc url now i udto d)
  then show ?thesis using assms(2) by (auto simp: flow_inv_def intro: update_inv update_forest)
next
  case (step_findOne i d)
  then show ?thesis using assms(2) findOne_inv links_only_frame(1) forest_parents unfolding flow_inv_def by metis
next
  case (step_createVersion lc now i msg sm)
  then show ?thesis using assms(2) createVersion_inv createVersion_parents forest_parents unfolding flow_inv_def by metis
next
  case (step_restoreVersion now i vid u)
  then show ?thesis using assms(2) restoreVersion_inv forest_parents unfolding flow_inv_def by metis
next
  case (step_rename now i name r)
  then show ?thesis using assms(2) rename_inv forest_parents unfolding flow_inv_def by metis
next
  case (step_importTemplate now t jn)
  then show ?thesis using assms(2) importTemplate_inv importTemplate_forest unfolding flow_inv_def by blast
next
  case (step_remove i j)
  then show ?thesis using assms(2) by (auto simp: flow_inv_def intro: remove_inv remove_forest)
qed

lemma empty_flow_inv: "flow_inv empty_db"
  using empty_db_inv by (simp add: flow_inv_def forest_def flow_ids_def) (simp add: empty_db_def)

lemma reachable_flow_inv: "reachable db \<Longrightarrow> flow_inv db"
  by (induction rule: reachable.induct) (auto intro: empty_flow_inv service_step_inv)

lemma forest_root:
  "forest db \<Longrightarrow> find_flow db i = Some f \<Longrightarrow> \<exists>r. getRootFlowId db i = Inr r"
  by (auto simp: forest_def getRootFlowId_iff dest: find_flow_ids)

lemma getBreadcrumb_root:
  assumes "flows_ok db" and "getRootFlowId db i = Inr r"
  shows "\<exists>bs. getBreadcrumb db i = Some (Inr bs) \<and> bs \<noteq> [] \<and> bi_flowId (hd bs) = r \<and> bi_flowId (last bs) = i"
proof -
  obtain n where "chain db (Some r) n i" using assms(2) by (auto simp: getRootFlowId_iff)
  from breadcrumb_loop_chain [OF this flow_zero [OF assms(1)], of "[]" r]
  show ?thesis by (auto simp: getBreadcrumb_def hd_rev last_rev)
qed

lemma getBreadcrumb_returns_iff:
  assumes "flows_ok db"
  shows "getBreadcrumb db i \<noteq> None \<longleftrightarrow>
    getRootFlowId db i \<noteq> Inl (BadRequest (''Flow '' @ show_int i @ '' has a circular parent_flow_id chain''))"
proof -
  have "getBreadcrumb db i \<noteq> None \<longleftrightarrow> (\<exists>e n. chain db e n i)"
    using breadcrumb_loop_chain [OF _ flow_zero [OF assms], of _ _ i "[]"]
      breadcrumb_loop_ends [OF _ flow_zero [OF assms] refl, of i "[]"]
    by (auto simp: getBreadcrumb_def) blast
  then show ?thesis using getRootFlowId_circular_iff by blast
qed

end
