(* ===== verification/FlowVersions.thy ===== *)
theory FlowVersions
  imports FlowForest
begin

text \<open>
  What a version holds: reading the rows back gives what was written, snapshots of the tree are
  stable under \<open>createVersion\<close>, and the current version of a flow holds the last request.
\<close>

section \<open>Reading rows back\<close>

definition saved_edge :: "edge_dto \<Rightarrow> snap_edge" where
  "saved_edge e = snap_of_edge_row (edge_entity 0 e)"

lemma snap_of_node_entity: "snap_of_node_row (node_entity v n) = snap_of_dto n"
  by (simp add: snap_of_node_row_def node_entity_def snap_of_dto_def)

lemma snap_of_edge_entity: "snap_of_edge_row (edge_entity v e) = saved_edge e"
  by (simp add: saved_edge_def snap_of_edge_row_def edge_entity_def)

lemma snap_rows_number:
  "map snap_of_node_row (number_nodes i ns) = map snap_of_node_row ns"
  "map snap_of_edge_row (number_edges j es) = map snap_of_edge_row es"
  by (rule number_nodes_map, simp add: snap_of_node_row_def) (rule number_edges_map, simp add: snap_of_edge_row_def)

lemma number_nodes_version:
  "filter (\<lambda>n. fn_flowVersionId n = Some u) (number_nodes i (map (node_entity v) ns)) =
     (if u = v then number_nodes i (map (node_entity v) ns) else [])"
  by (induction ns arbitrary: i) (auto simp: node_entity_def)

lemma number_edges_version:
  "filter (\<lambda>e. fe_flowVersionId e = Some u) (number_edges i (map (edge_entity v) es)) =
     (if u = v then number_edges i (map (edge_entity v) es) else [])"
  by (induction es arbitrary: i) (auto simp: edge_entity_def)

lemma version_rows_saved:
  assumes "saveNodesAndEdges v nodes edges db = Inr db'"
  shows "version_nodes db' u = version_nodes db u @ (if u = v then number_nodes (next_node_id db) (map (node_entity v) nodes) else [])"
    and "version_edges db' u = version_edges db u @ (if u = v then number_edges (next_edge_id db) (map (edge_entity v) edges) else [])"
  using saveNodesAndEdges_okD [OF assms]
  by (simp_all add: version_nodes_def version_edges_def number_nodes_version number_edges_version)

lemma snapshot_of_saved:
  assumes "saveNodesAndEdges v nodes edges db = Inr db'" and "version_nodes db v = []" "version_edges db v = []"
  shows "buildSnapshotFromVersionId db' v = Snapshot None None (map snap_of_dto nodes) (map saved_edge edges) None"
  using version_rows_saved [OF assms(1), of v] assms(2,3)
  by (simp add: buildSnapshotFromVersionId_def snap_rows_number snap_of_node_entity snap_of_edge_entity comp_def)

lemma version_rows_other:
  assumes "saveNodesAndEdges v nodes edges db = Inr db'" and "u \<noteq> v"
  shows "version_nodes db' u = version_nodes db u" "version_edges db' u = version_edges db u"
  using version_rows_saved [OF assms(1), of u] assms(2) by simp_all

lemma snapshot_of_replaced:
  assumes "replaceVersionSnapshot w s nodes edges db = Inr db'"
  shows "buildSnapshotFromVersionId db' (fv_id w) = Snapshot None None (map snap_of_dto nodes) (map saved_edge edges) None"
    and "u \<noteq> fv_id w \<Longrightarrow> version_nodes db' u = version_nodes db u"
    and "u \<noteq> fv_id w \<Longrightarrow> version_edges db' u = version_edges db u"
proof -
  let ?db1 = "delete_version_rows (fv_id w) (save_version (w\<lparr>fv_snapshot := Some s, fv_nodeCount := Some (int (length (ss_nodes s)))\<rparr>) db)"
  have sv: "saveNodesAndEdges (fv_id w) nodes edges ?db1 = Inr db'"
    using assms by (simp add: replaceVersionSnapshot_def replaceNodesAndEdges_def)
  have gone: "version_nodes ?db1 (fv_id w) = []" "version_edges ?db1 (fv_id w) = []"
    by (simp_all add: version_nodes_def version_edges_def delete_version_rows_def save_version_def filter_empty_conv)
  show "buildSnapshotFromVersionId db' (fv_id w) = Snapshot None None (map snap_of_dto nodes) (map saved_edge edges) None"
    by (rule snapshot_of_saved [OF sv gone])
  have kept: "version_nodes ?db1 u = version_nodes db u" "version_edges ?db1 u = version_edges db u" if "u \<noteq> fv_id w"
    using that by (auto simp: version_nodes_def version_edges_def delete_version_rows_def save_version_def filter_filter
        intro!: filter_cong)
  show "u \<noteq> fv_id w \<Longrightarrow> version_nodes db' u = version_nodes db u"
    "u \<noteq> fv_id w \<Longrightarrow> version_edges db' u = version_edges db u"
    using version_rows_other [OF sv] kept by auto
qed

text \<open>A snapshot read from rows is written back as the same rows.\<close>

lemma snap_payload_nodes:
  "(\<And>n. n \<in> set ns \<Longrightarrow> sanitizePersistedNodeConfig (sn_type n) (Some (sn_config n)) = sn_config n) \<Longrightarrow>
     map snap_of_dto (mapSnapshotNodesToPayload ns) = ns"
  by (induction ns) (auto simp: mapSnapshotNodesToPayload_def snap_of_dto_def)

lemma snap_payload_edges: "map saved_edge (mapSnapshotEdgesToPayload es) = es"
  by (induction es) (auto simp: mapSnapshotEdgesToPayload_def saved_edge_def snap_of_edge_row_def edge_entity_def)

lemma snapshot_rows_sanitized:
  "n \<in> set (ss_nodes (buildSnapshotFromVersionId db v)) \<Longrightarrow>
     sanitizePersistedNodeConfig (sn_type n) (Some (sn_config n)) = sn_config n"
  by (auto simp: buildSnapshotFromVersionId_def snap_of_node_row_def)

lemma getFlowWithNodesEdges_sanitized:
  "getFlowWithNodesEdges db i = Inr (f, ns, es) \<Longrightarrow> n \<in> set ns \<Longrightarrow>
     sanitizePersistedNodeConfig (sn_type n) (Some (sn_config n)) = sn_config n"
  by (auto simp: getFlowWithNodesEdges_def Let_def split: option.splits dest: snapshot_rows_sanitized)

section \<open>The tree snapshot after a new root version\<close>

definition flow_view :: "flow_db \<Rightarrow> int \<Rightarrow> (int \<times> string \<times> snap_node list \<times> snap_edge list) result" where
  "flow_view db i = map_sum id (\<lambda>(f, ns, es). (cf_id f, cf_name f, ns, es)) (getFlowWithNodesEdges db i)"

lemma map_result_map: "map_result f (map g xs) = map_result (\<lambda>x. f (g x)) xs"
  by (induction xs) simp_all

lemma full_tree_view:
  "buildFullTreeSnapshot db i visited =
     (if i \<in> set visited then throw (BadRequest (''Flow '' @ show_int i @ '' has a circular subflow tree''))
      else bind_result (flow_view db i) (\<lambda>(j, name, nodes, edges).
        bind_result (map_result (\<lambda>c. buildFullTreeSnapshot db c (i # visited)) (map cf_id (getDirectSubflows db i)))
          (\<lambda>subflows. ok (Snapshot (Some j) (Some name) nodes edges (Some (map as_subflow subflows))))))"
  by (subst buildFullTreeSnapshot.simps, cases "getFlowWithNodesEdges db i")
    (auto simp: flow_view_def map_result_map split: prod.splits)

lemma full_tree_cong:
  assumes "\<And>i. flow_view db' i = flow_view db i"
    and "\<And>p. map cf_id (getDirectSubflows db' p) = map cf_id (getDirectSubflows db p)"
  shows "buildFullTreeSnapshot db' i visited = buildFullTreeSnapshot db i visited"
proof (induction "card (flow_ids db - set visited)" arbitrary: i visited rule: less_induct)
  case less
  show ?case
  proof (cases "i \<in> set visited \<or> i \<notin> flow_ids db")
    case True
    have "flow_view db i = Inl (NotFound (''Flow '' @ show_int i @ '' not found''))" if "i \<notin> flow_ids db"
      using that find_flow_None [of db i] by (simp add: flow_view_def getFlowWithNodesEdges_def flow_ids_def)
    with True show ?thesis by (subst (1 2) full_tree_view) (auto simp: assms)
  next
    case False
    then have "buildFullTreeSnapshot db' c (i # visited) = buildFullTreeSnapshot db c (i # visited)" for c
      using visited_decreases [of i db visited] by (intro less.hyps) simp
    then show ?thesis by (subst (1 2) full_tree_view) (simp add: assms)
  qed
qed

lemma flow_version_id_frame:
  assumes "find_flow db' i = Some f" and "cf_currentVersionId f = Some v"
  shows "flow_version_id db' f = Some v"
  using assms by (simp add: flow_version_id_def)

lemma versions_of_append:
  "flow_versions db' = flow_versions db @ [v] \<Longrightarrow>
     versions_of db' i = versions_of db i @ (if fv_flowId v = Some i then [v] else [])"
  by (simp add: versions_of_def)

lemma latest_after_new:
  assumes "flow_versions db' = flow_versions db @ [v]" and "fv_flowId v = Some i"
    and "fv_versionNumber v = next_version_number (getLatestVersion db i)"
  shows "getLatestVersion db' i = Some v"
proof -
  have "fv_versionNumber w < fv_versionNumber v" if "w \<in> set (versions_of db i)" for w
    using that assms(3) getLatestVersion_Some [of db i] getLatestVersion_None [of db i]
    by (cases "getLatestVersion db i") (auto simp: next_version_number_def versions_of_def)
  then show ?thesis
    using versions_of_append [OF assms(1)] assms(2) by (simp add: getLatestVersion_def max_by_append_greater)
qed

text \<open>The state after \<open>createVersion\<close> stored a new version \<open>v\<close> of the root \<open>r\<close> from the tree \<open>s\<close>.\<close>

definition new_root_version :: "flow_db \<Rightarrow> flow_db \<Rightarrow> flow_db \<Rightarrow> flow_db \<Rightarrow> nat \<Rightarrow> int \<Rightarrow> call_flow \<Rightarrow> snapshot
    \<Rightarrow> string option \<Rightarrow> flow_version \<Rightarrow> bool" where
  "new_root_version db db1 db2 db' now r f s msg v \<longleftrightarrow>
     db_inv db \<and> find_flow db r = Some f \<and> buildFullTreeSnapshot db r [] = Inr s
     \<and> createStoredVersion now r (next_version_number (getLatestVersion db r)) s msg db = Inr (v, db1)
     \<and> save_flow (f\<lparr>cf_currentVersionId := Some (fv_id v), cf_updatedAt := now\<rparr>) db1 = Inr db2
     \<and> saveNodesAndEdges (fv_id v) (mapSnapshotNodesToPayload (ss_nodes s)) (mapSnapshotEdgesToPayload (ss_edges s)) db2 = Inr db'"

lemma new_root_versionD:
  assumes "new_root_version db db1 db2 db' now r f s msg v"
  shows "db_inv db" "find_flow db r = Some f" "buildFullTreeSnapshot db r [] = Inr s"
    "createStoredVersion now r (next_version_number (getLatestVersion db r)) s msg db = Inr (v, db1)"
    "save_flow (f\<lparr>cf_currentVersionId := Some (fv_id v), cf_updatedAt := now\<rparr>) db1 = Inr db2"
    "saveNodesAndEdges (fv_id v) (mapSnapshotNodesToPayload (ss_nodes s)) (mapSnapshotEdgesToPayload (ss_edges s)) db2 = Inr db'"
  using assms by (auto simp: new_root_version_def)

lemma root_version_versions:
  assumes nv: "new_root_version db db1 db2 db' now r f s msg v"
  shows "flow_versions db' = flow_versions db @ [v]"
  using createStoredVersion_okD(6) [OF new_root_versionD(4) [OF nv]] save_flow_okD(2) [OF new_root_versionD(5) [OF nv]] saveNodesAndEdges_frame [OF new_root_versionD(6) [OF nv]] by simp

lemma root_version_flows:
  assumes nv: "new_root_version db db1 db2 db' now r f s msg v"
  shows "call_flows db' = replace_row cf_id (f\<lparr>cf_currentVersionId := Some (fv_id v), cf_updatedAt := now\<rparr>) (call_flows db)"
  using createStoredVersion_okD(6) [OF new_root_versionD(4) [OF nv]] save_flow_okD(2) [OF new_root_versionD(5) [OF nv]] saveNodesAndEdges_frame [OF new_root_versionD(6) [OF nv]] by simp

lemma root_version_find_flow_root:
  assumes nv: "new_root_version db db1 db2 db' now r f s msg v"
  shows "find_flow db' r = Some (f\<lparr>cf_currentVersionId := Some (fv_id v), cf_updatedAt := now\<rparr>)"
proof -
  let ?f = "f\<lparr>cf_currentVersionId := Some (fv_id v), cf_updatedAt := now\<rparr>"
  have "cf_id ?f = r" using find_flow_Some [OF new_root_versionD(2) [OF nv]] by simp
  then show ?thesis
    using find_replace_row_same [of cf_id ?f "call_flows db"] find_flow_image [OF new_root_versionD(2) [OF nv]]
    unfolding find_flow_def root_version_flows [OF nv] by simp
qed

lemma root_version_find_flow_other:
  assumes nv: "new_root_version db db1 db2 db' now r f s msg v"
  shows "i \<noteq> r \<Longrightarrow> find_flow db' i = find_flow db i"
  using find_flow_Some [OF new_root_versionD(2) [OF nv]] unfolding find_flow_def root_version_flows [OF nv] by (simp add: find_replace_row_other)

lemma root_version_latest:
  assumes nv: "new_root_version db db1 db2 db' now r f s msg v"
  shows "getLatestVersion db' r = Some v"
  using createStoredVersion_okD [OF new_root_versionD(4) [OF nv]] by (intro latest_after_new [OF root_version_versions [OF nv]]) auto

lemma root_version_latest_other:
  assumes nv: "new_root_version db db1 db2 db' now r f s msg v"
  shows "i \<noteq> r \<Longrightarrow> getLatestVersion db' i = getLatestVersion db i"
  using versions_of_append [OF root_version_versions [OF nv]] createStoredVersion_okD(2) [OF new_root_versionD(4) [OF nv]] by (simp add: getLatestVersion_def)

lemma root_version_fresh_rows:
  assumes nv: "new_root_version db db1 db2 db' now r f s msg v"
  shows "version_nodes db2 u = version_nodes db u" "version_edges db2 u = version_edges db u"
  using createStoredVersion_okD(6) [OF new_root_versionD(4) [OF nv]] save_flow_okD(2) [OF new_root_versionD(5) [OF nv]]
  by (simp_all add: version_nodes_def version_edges_def)

lemma root_version_root_rows:
  assumes nv: "new_root_version db db1 db2 db' now r f s msg v"
  shows "buildSnapshotFromVersionId db' (fv_id v) = Snapshot None None (ss_nodes s) (ss_edges s) None"
proof -
  have "fv_id v = next_version_id db" using createStoredVersion_okD(1) [OF new_root_versionD(4) [OF nv]] .
  then have none: "version_nodes db2 (fv_id v) = []" "version_edges db2 (fv_id v) = []"
    using fresh_version_rows [OF new_root_versionD(1) [OF nv]] root_version_fresh_rows [OF nv] by auto
  obtain nodes edges where g: "getFlowWithNodesEdges db r = Inr (f, nodes, edges)"
    using getFlowWithNodesEdges_ok [OF new_root_versionD(2) [OF nv]] by blast
  then have "ss_nodes s = nodes"
    using new_root_versionD(3) [OF nv] by (subst (asm) buildFullTreeSnapshot.simps) auto
  then have "sanitizePersistedNodeConfig (sn_type n) (Some (sn_config n)) = sn_config n" if "n \<in> set (ss_nodes s)" for n
    using that getFlowWithNodesEdges_sanitized [OF g] by simp
  then show ?thesis using snapshot_of_saved [OF new_root_versionD(6) [OF nv] none] by (simp add: snap_payload_nodes snap_payload_edges)
qed

lemma root_version_other_rows:
  assumes nv: "new_root_version db db1 db2 db' now r f s msg v"
  shows "u \<noteq> fv_id v \<Longrightarrow> buildSnapshotFromVersionId db' u = buildSnapshotFromVersionId db u"
  using version_rows_other [OF new_root_versionD(6) [OF nv]] root_version_fresh_rows [OF nv] by (simp add: buildSnapshotFromVersionId_def)

lemma root_version_old_version_id:
  assumes nv: "new_root_version db db1 db2 db' now r f s msg v"
  shows "w \<in> set (flow_versions db) \<Longrightarrow> fv_id w \<noteq> fv_id v"
  using createStoredVersion_okD(1) [OF new_root_versionD(4) [OF nv]] next_version_id_fresh new_root_versionD(1) [OF nv] by (fastforce simp: db_inv_def)

lemma root_version_view:
  assumes nv: "new_root_version db db1 db2 db' now r f s msg v"
  shows "flow_view db' i = flow_view db i"
proof (cases "i = r")
  case True
  obtain nodes edges where g: "getFlowWithNodesEdges db r = Inr (f, nodes, edges)"
    using getFlowWithNodesEdges_ok [OF new_root_versionD(2) [OF nv]] by blast
  then have s: "ss_nodes s = nodes" "ss_edges s = edges"
    using new_root_versionD(3) [OF nv] by (subst (asm) buildFullTreeSnapshot.simps, auto)+
  have "fv_id v \<noteq> 0"
    using createStoredVersion_okD(1) [OF new_root_versionD(4) [OF nv]] new_root_versionD(1) [OF nv] by (auto simp: db_inv_def versions_ok_def ids_ok_def)
  then have "getFlowWithNodesEdges db' r = Inr (f\<lparr>cf_currentVersionId := Some (fv_id v), cf_updatedAt := now\<rparr>, nodes, edges)"
    using root_version_find_flow_root [OF nv] root_version_root_rows [OF nv] s by (simp add: getFlowWithNodesEdges_def flow_version_id_def nonzero_def)
  with g True show ?thesis by (simp add: flow_view_def)
next
  case False
  note same = root_version_find_flow_other [OF nv False]
  show ?thesis
  proof (cases "find_flow db i")
    case None
    then show ?thesis using same by (simp add: flow_view_def getFlowWithNodesEdges_def)
  next
    case (Some g)
    have id: "cf_id g = i" "g \<in> set (call_flows db)" using find_flow_Some [OF Some] by auto
    have fvi: "flow_version_id db' g = flow_version_id db g"
      using root_version_latest_other [OF nv False] id by (simp add: flow_version_id_def split: option.split)
    have "u \<noteq> fv_id v" if "flow_version_id db g = Some u" for u
    proof -
      have "u \<in> fv_id ` set (flow_versions db)"
        using that id new_root_versionD(1) [OF nv] getLatestVersion_Some
        by (auto simp: flow_version_id_def db_inv_def current_ok_def split: option.splits) blast+
      then show ?thesis using root_version_old_version_id [OF nv] by auto
    qed
    then show ?thesis using same Some fvi root_version_other_rows [OF nv]
      by (auto simp: flow_view_def getFlowWithNodesEdges_def split: option.split)
  qed
qed

lemma root_version_subflow_ids:
  assumes nv: "new_root_version db db1 db2 db' now r f s msg v"
  shows "map cf_id (getDirectSubflows db' p) = map cf_id (getDirectSubflows db p)"
proof -
  have eq: "\<And>y. y \<in> set (call_flows db) \<Longrightarrow> cf_id y = cf_id f \<Longrightarrow> y = f"
    using flow_eq_if_same_id [of db _ f] find_flow_Some [OF new_root_versionD(2) [OF nv]] new_root_versionD(1) [OF nv] by (auto simp: db_inv_def)
  show ?thesis
    unfolding getDirectSubflows_def root_version_flows [OF nv] replace_row_def filter_map map_map
    by (auto simp: comp_def intro!: map_cong filter_cong dest: eq)
qed

lemma root_version_tree_again:
  assumes nv: "new_root_version db db1 db2 db' now r f s msg v"
  shows "buildFullTreeSnapshot db' r [] = Inr s"
  using full_tree_cong [OF root_version_view [OF nv] root_version_subflow_ids [OF nv]] new_root_versionD(3) [OF nv] by simp

lemma structurally_equal_refl [simp]: "snapshotsAreStructurallyEqual lc (Some s) (Some s)"
  by (simp add: snapshotsAreStructurallyEqual_def)

text \<open>Publishing twice without a change in between stores one version.\<close>

lemma createVersion_twice:
  assumes inv: "db_inv db" and cv: "createVersion lc now i msg db = Inr (sm, db')"
  shows "createVersion lc now' i msg' db' = Inr (sm, db')"
  using cv
proof (cases rule: createVersion_cases)
  case (same r f s w)
  then show ?thesis by (simp add: createVersion_def)
next
  case (new r f s v db1 db2 w)
  have nv: "new_root_version db db1 db2 db' now r f s msg v"
    using inv new by (simp add: new_root_version_def)
  have "versions_ok db'" using createVersion_inv [OF inv cv] by (simp add: db_inv_def)
  moreover have "v \<in> set (flow_versions db')" using root_version_versions [OF nv] by simp
  ultimately have "w = v" using version_or_fail_okD [OF new(8)] version_eq_if_same_id by blast
  moreover have "getRootFlowId db' i = Inr r"
    using new(1) chain_parents [OF createVersion_parents [OF inv cv]] by (simp add: getRootFlowId_iff)
  moreover have "fv_snapshot v = Some s" using createStoredVersion_okD(4) [OF new(5)] .
  ultimately show ?thesis
    using new(4,9) root_version_find_flow_root [OF nv] root_version_tree_again [OF nv] root_version_latest [OF nv]
    by (simp add: createVersion_def)
qed

section \<open>The current version holds the last request\<close>

lemma links_only_find:
  assumes "links_only db db'" and "find_flow db i = Some f"
  obtains g where "find_flow db' i = Some g" "cf_parentBranchKey_update (\<lambda>_. None) g = cf_parentBranchKey_update (\<lambda>_. None) f"
proof -
  let ?u = "cf_parentBranchKey_update (\<lambda>_. None)"
  have "map_option ?u (List.find (\<lambda>f. cf_id f = i) fs) = List.find (\<lambda>f. cf_id f = i) (map ?u fs)" for fs
    by (simp add: find_map comp_def)
  moreover have "map ?u (call_flows db') = map ?u (call_flows db)"
    using assms(1) unfolding links_only_def by blast
  ultimately have "map_option ?u (find_flow db' i) = map_option ?u (find_flow db i)"
    unfolding find_flow_def by metis
  with assms(2) that show thesis by (cases "find_flow db' i") auto
qed

text \<open>Equal but for the branch key: all other fields agree.\<close>

lemma same_but_branch:
  assumes "cf_parentBranchKey_update (\<lambda>_. None) g = cf_parentBranchKey_update (\<lambda>_. None) f"
  shows "cf_id g = cf_id f" "cf_status g = cf_status f" "cf_currentVersionId g = cf_currentVersionId f"
    "cf_name g = cf_name f" "cf_slug g = cf_slug f" "cf_isTemplate g = cf_isTemplate f"
    "cf_parentFlowId g = cf_parentFlowId f" "cf_parentNodeKey g = cf_parentNodeKey f"
    "cf_description g = cf_description f"
  using arg_cong [OF assms, of cf_id] arg_cong [OF assms, of cf_status] arg_cong [OF assms, of cf_currentVersionId]
    arg_cong [OF assms, of cf_name] arg_cong [OF assms, of cf_slug] arg_cong [OF assms, of cf_isTemplate]
    arg_cong [OF assms, of cf_parentFlowId] arg_cong [OF assms, of cf_parentNodeKey] arg_cong [OF assms, of cf_description]
  by simp_all

lemma links_only_rows:
  assumes "links_only db db'"
  shows "version_nodes db' v = version_nodes db v" "version_edges db' v = version_edges db v"
    "find_version db' v = find_version db v" "getLatestVersion db' i = getLatestVersion db i"
    "buildSnapshotFromVersionId db' v = buildSnapshotFromVersionId db v"
  using links_only_frame [OF assms]
  by (simp_all add: version_nodes_def version_edges_def find_version_def getLatestVersion_def versions_of_def buildSnapshotFromVersionId_def)

lemma detail_of_version_ids:
  assumes "db_inv db" and "detail_of_version i v db = Inr (d, db')"
  shows "fd_id d = i" "fd_versionId d = v"
proof -
  obtain f w where "flow_or_fail db i = Inr f" "version_or_fail db v = Inr w" "buildFlowDetail f w db = Inr (d, db')"
    using assms(2) by (auto simp: detail_of_version_def)
  then show "fd_id d = i" "fd_versionId d = v"
    using buildFlowDetail_ok [OF assms(1), of f w] flow_or_fail_okD version_or_fail_okD by auto
qed

lemma detail_of_current_ids:
  assumes "db_inv db" and "detail_of_current i v db = Inr (d, db')" and "find_flow db i = Some f" "cf_currentVersionId f = Some u"
  shows "fd_id d = i" "fd_versionId d = u"
proof -
  obtain w where "version_or_fail db u = Inr w" "buildFlowDetail f w db = Inr (d, db')"
    using assms(2-4) by (auto simp: detail_of_current_def flow_or_fail_def)
  then show "fd_id d = i" "fd_versionId d = u"
    using buildFlowDetail_ok [OF assms(1), of f w] find_flow_Some [OF assms(3)] version_or_fail_okD by auto
qed

text \<open>The state after a successful \<open>create\<close>.\<close>

lemma create_effect:
  assumes inv: "db_inv db" and cr: "create lc urlProtocol now dto db = Inr (d, db')"
  obtains nodes g w where
    "validateNodesConfig urlProtocol (normalizeNodesForSave (d_nodes dto)) (nonzero (d_parentFlowId dto) \<noteq> None) = Inr nodes"
    "validateEdgesConfig (d_edges dto) nodes = Inr ()"
    "fd_id d = next_flow_id db" "find_flow db' (fd_id d) = Some g" "cf_status g = ''published''"
    "cf_name g = d_name dto" "cf_parentFlowId g = d_parentFlowId dto"
    "cf_currentVersionId g = Some (fd_versionId d)" "find_version db' (fd_versionId d) = Some w"
    "fv_flowId w = Some (fd_id d)" "fv_versionNumber w = 1" "fd_versionId d = next_version_id db"
    "version_nodes db' (fd_versionId d) = number_nodes (next_node_id db) (map (node_entity (fd_versionId d)) nodes)"
    "version_edges db' (fd_versionId d) = number_edges (next_edge_id db) (map (edge_entity (fd_versionId d)) (d_edges dto))"
proof -
  obtain f0 f db1 nodes v db2 db3 db4 where st:
    "insert_flow f0 db = Inr (f, db1)" "cf_currentVersionId f0 = None" "cf_parentFlowId f0 = d_parentFlowId dto"
    "cf_status f0 = ''published''" "cf_name f0 = d_name dto"
    "validateNodesConfig urlProtocol (normalizeNodesForSave (d_nodes dto)) (nonzero (cf_parentFlowId f) \<noteq> None) = Inr nodes"
    "validateEdgesConfig (d_edges dto) nodes = Inr ()"
    "createStoredVersion now (cf_id f) 1 (buildSnapshotForSave db1 f nodes (d_edges dto)) (d_versionMessage dto) db1 = Inr (v, db2)"
    "save_flow (f\<lparr>cf_currentVersionId := Some (fv_id v), cf_updatedAt := now\<rparr>) db2 = Inr db3"
    "saveNodesAndEdges (fv_id v) nodes (d_edges dto) db3 = Inr db4"
    "detail_of_version (cf_id f) (fv_id v) db4 = Inr (d, db')"
    using cr by (auto simp: create_def Let_def new_flow_def)
  note ins = insert_flow_okD [OF st(1)] and ver = createStoredVersion_okD [OF st(8)]
    and sv = save_flow_okD(2) [OF st(9)] and rows = saveNodesAndEdges_okD [OF st(10)]
  have inv4: "db_inv db4" by (rule first_version_inv [OF inv st(1,2,8,9,10)])
  note links = detail_of_version_okD(2) [OF inv4 st(11)] and ids = detail_of_version_ids [OF inv4 st(11)]
  have fid: "cf_id f = next_flow_id db" and vid: "fv_id v = next_version_id db" using ins ver by simp_all
  let ?f = "f\<lparr>cf_currentVersionId := Some (fv_id v), cf_updatedAt := now\<rparr>"
  have mem: "cf_id ?f \<in> set (map cf_id (call_flows db2))" using ins(3) ver(6) by simp
  have "find_flow db4 (cf_id f) = Some ?f"
    using find_replace_row_same [OF mem] sv rows by (simp add: find_flow_def)
  then obtain g where g: "find_flow db' (cf_id f) = Some g"
    "cf_parentBranchKey_update (\<lambda>_. None) g = cf_parentBranchKey_update (\<lambda>_. None) ?f"
    using links_only_find [OF links] by blast
  have "v \<in> set (flow_versions db4)" using ver(6) sv rows by simp
  then have fv: "find_version db' (fv_id v) = Some v"
    using find_version_mem [of db4 v] inv4 links_only_rows(3) [OF links] by (simp add: db_inv_def)
  have none: "version_nodes db3 (fv_id v) = []" "version_edges db3 (fv_id v) = []"
    using fresh_version_rows [OF inv, of "fv_id v"] vid ins(3) ver(6) sv by (simp_all add: version_nodes_def version_edges_def)
  have "next_node_id db3 = next_node_id db" "next_edge_id db3 = next_edge_id db" using ins(3) ver(6) sv by simp_all
  then have "version_nodes db' (fv_id v) = number_nodes (next_node_id db) (map (node_entity (fv_id v)) nodes)"
    "version_edges db' (fv_id v) = number_edges (next_edge_id db) (map (edge_entity (fv_id v)) (d_edges dto))"
    using version_rows_saved [OF st(10), of "fv_id v"] none links_only_rows [OF links] by simp_all
  then show thesis
    using that [of nodes g v] st(3-7) ins(1) ids fid vid g(1) same_but_branch [OF g(2)] fv ver by simp
qed

lemma latest_if_max:
  assumes "versions_ok db" and x: "x \<in> set (flow_versions db)" "fv_flowId x = Some i"
    and "\<And>y. y \<in> set (flow_versions db) \<Longrightarrow> fv_flowId y = Some i \<Longrightarrow> fv_versionNumber y \<le> fv_versionNumber x"
  shows "getLatestVersion db i = Some x"
proof -
  obtain y where y: "getLatestVersion db i = Some y" using x getLatestVersion_None [of db i] by (cases "getLatestVersion db i") auto
  note l = getLatestVersion_Some [OF y]
  then have "fv_versionNumber y = fv_versionNumber x" using assms by (meson order_antisym)
  then have "y = x" using l x assms(1) by (auto simp: versions_ok_def distinct_map inj_on_def)
  with y show ?thesis by simp
qed

text \<open>The flow's row points to its latest version, whose rows are the given nodes and edges.\<close>

definition holds_request :: "flow_db \<Rightarrow> int \<Rightarrow> string \<Rightarrow> int \<Rightarrow> node_dto list \<Rightarrow> edge_dto list \<Rightarrow> bool" where
  "holds_request db i name v nodes edges \<longleftrightarrow>
     (\<exists>g w. find_flow db i = Some g \<and> cf_name g = name \<and> cf_currentVersionId g = Some v
        \<and> getLatestVersion db i = Some w \<and> fv_id w = v)
     \<and> buildSnapshotFromVersionId db v = Snapshot None None (map snap_of_dto nodes) (map saved_edge edges) None"

lemma holds_request_links:
  assumes "links_only db db'" and "holds_request db i name v nodes edges"
  shows "holds_request db' i name v nodes edges"
  using assms links_only_rows [OF assms(1)] unfolding holds_request_def
  by (metis links_only_find same_but_branch(3,4))

lemma replace_holds:
  assumes inv: "db_inv db" and run: "replaceVersionSnapshot w s nodes edges db = Inr db'"
    and row: "find_flow db i = Some g" "cf_name g = name" "cf_currentVersionId g = Some (fv_id w)" and w: "getLatestVersion db i = Some w"
  shows "holds_request db' i name (fv_id w) nodes edges"
proof -
  let ?w = "w\<lparr>fv_snapshot := Some s, fv_nodeCount := Some (int (length (ss_nodes s)))\<rparr>"
  note d = replaceVersionSnapshot_okD [OF run] and l = getLatestVersion_Some [OF w]
  have inv': "db_inv db'" using l by (intro replaceVersionSnapshot_inv [OF inv run]) auto
  have vs: "set (flow_versions db') \<subseteq> insert ?w (set (flow_versions db))" unfolding d(2) by (auto simp: replace_row_def)
  have "getLatestVersion db' i = Some ?w"
  proof (rule latest_if_max)
    show "versions_ok db'" using inv' by (simp add: db_inv_def)
    show "?w \<in> set (flow_versions db')" unfolding d(2) replace_row_def using l by force
  qed (use l vs in auto)
  moreover have "find_flow db' i = Some g" using row d(1) by (simp add: find_flow_def)
  ultimately show ?thesis using row snapshot_of_replaced(1) [OF run] by (auto simp: holds_request_def)
qed

lemma add_version_holds:
  assumes inv: "db_inv db" and run: "add_version now f num s msg nodes edges db = Inr (v, db')"
    and mem: "cf_id f \<in> cf_id ` set (call_flows db)" and num: "num = next_version_number (getLatestVersion db (cf_id f))"
  shows "holds_request db' (cf_id f) (cf_name f) (fv_id v) nodes edges"
proof -
  obtain db1 db2 where st: "createStoredVersion now (cf_id f) num s msg db = Inr (v, db1)"
    "saveNodesAndEdges (fv_id v) nodes edges db1 = Inr db2"
    "save_flow (f\<lparr>cf_currentVersionId := Some (fv_id v)\<rparr>) db2 = Inr db'"
    using run by (auto simp: add_version_def)
  note d1 = createStoredVersion_okD [OF st(1)] and d2 = saveNodesAndEdges_frame [OF st(2)] and d3 = save_flow_okD(2) [OF st(3)]
  let ?f = "f\<lparr>cf_currentVersionId := Some (fv_id v)\<rparr>"
  have "cf_id ?f \<in> set (map cf_id (call_flows db2))" using mem d1 d2 by simp
  then have "find_flow db' (cf_id f) = Some ?f"
    using find_replace_row_same [of cf_id ?f "call_flows db2"] d3 by (simp add: find_flow_def)
  moreover have "flow_versions db' = flow_versions db @ [v]" using d1 d2 d3 by simp
  then have "getLatestVersion db' (cf_id f) = Some v" using d1 num by (intro latest_after_new) auto
  moreover have "version_nodes db1 (fv_id v) = []" "version_edges db1 (fv_id v) = []"
    using fresh_version_rows [OF inv, of "fv_id v"] d1 by (simp_all add: version_nodes_def version_edges_def)
  then have "buildSnapshotFromVersionId db2 (fv_id v) = Snapshot None None (map snap_of_dto nodes) (map saved_edge edges) None"
    by (rule snapshot_of_saved [OF st(2)])
  then have "buildSnapshotFromVersionId db' (fv_id v) = Snapshot None None (map snap_of_dto nodes) (map saved_edge edges) None"
    using d3 by (simp add: buildSnapshotFromVersionId_def version_nodes_def version_edges_def)
  ultimately show ?thesis by (auto simp: holds_request_def)
qed

text \<open>A write to the versions of flow \<open>r\<close> leaves the others alone.\<close>

definition touches_only :: "int \<Rightarrow> flow_db \<Rightarrow> flow_db \<Rightarrow> bool" where
  "touches_only r db db' \<longleftrightarrow>
     (\<forall>i. i \<noteq> r \<longrightarrow> find_flow db' i = find_flow db i \<and> getLatestVersion db' i = getLatestVersion db i)
     \<and> (\<forall>w \<in> set (flow_versions db). fv_flowId w \<noteq> Some r \<longrightarrow>
          buildSnapshotFromVersionId db' (fv_id w) = buildSnapshotFromVersionId db (fv_id w))"

lemma touches_only_refl [simp]: "touches_only r db db"
  by (simp add: touches_only_def)

lemma touches_only_holds:
  assumes "touches_only r db db'" and "holds_request db i name v nodes edges" and "i \<noteq> r"
  shows "holds_request db' i name v nodes edges"
proof -
  obtain g w where gw: "find_flow db i = Some g" "cf_name g = name" "cf_currentVersionId g = Some v"
    "getLatestVersion db i = Some w" "fv_id w = v" using assms(2) by (auto simp: holds_request_def)
  then have "buildSnapshotFromVersionId db' v = buildSnapshotFromVersionId db v"
    using assms(1,3) getLatestVersion_Some [OF gw(4)] by (auto simp: touches_only_def)
  then show ?thesis using assms gw by (auto simp: holds_request_def touches_only_def)
qed

lemma replace_touches_only:
  assumes inv: "db_inv db" and run: "replace_with_snapshot w s db = Inr db'" and w: "w \<in> set (flow_versions db)" "fv_flowId w = Some r"
  shows "touches_only r db db'"
proof -
  note d = replaceVersionSnapshot_okD [OF run [unfolded replace_with_snapshot_def]]
    and rows = snapshot_of_replaced(2,3) [OF run [unfolded replace_with_snapshot_def]]
  let ?w = "w\<lparr>fv_snapshot := Some s, fv_nodeCount := Some (int (length (ss_nodes s)))\<rparr>"
  have uniq: "u = w" if "u \<in> set (flow_versions db)" "fv_id u = fv_id w" for u
    using version_eq_if_same_id [OF _ that(1) w(1) that(2)] inv by (simp add: db_inv_def)
  have "filter (\<lambda>v. fv_flowId v = Some i) (replace_row fv_id ?w vs) = filter (\<lambda>v. fv_flowId v = Some i) vs"
    if "i \<noteq> r" "\<forall>u \<in> set vs. fv_id u = fv_id w \<longrightarrow> fv_flowId u = Some r" for i vs
    using that w by (induction vs) (auto simp: replace_row_def)
  then have "versions_of db' i = versions_of db i" if "i \<noteq> r" for i
    unfolding versions_of_def d(2) using uniq that w(2) by blast
  moreover have "fv_id u \<noteq> fv_id w" if "u \<in> set (flow_versions db)" "fv_flowId u \<noteq> Some r" for u
    using uniq that w(2) by blast
  ultimately show ?thesis using d(1) rows
    by (simp add: touches_only_def find_flow_def getLatestVersion_def buildSnapshotFromVersionId_def)
qed

lemma version_root_touches_only:
  assumes inv: "db_inv db" and run: "version_root lc now msg i db = Inr db'"
  shows "\<exists>r. getRootFlowId db i = Inr r \<and> touches_only r db db'"
  using run
proof (cases rule: version_root_cases)
  case (same r)
  then show ?thesis by simp
next
  case (replace r s w)
  then show ?thesis using inv getLatestVersion_Some [OF replace(2)] by (auto intro: replace_touches_only)
next
  case (new r s v db1 db2 f)
  note d1 = createStoredVersion_okD [OF new(2)] and d2 = saveNodesAndEdges_frame [OF new(3)] and d3 = save_flow_okD(2) [OF new(5)]
  have id: "cf_id f = r" using flow_or_fail_okD [OF new(4)] by simp
  have "fv_id w \<noteq> fv_id v" if "w \<in> set (flow_versions db)" for w
    using next_version_id_fresh [OF _ that] inv d1(1) by (auto simp: db_inv_def)
  then have "buildSnapshotFromVersionId db' (fv_id w) = buildSnapshotFromVersionId db (fv_id w)" if "w \<in> set (flow_versions db)" for w
    using version_rows_other [OF new(3)] that d1(6) d3
    by (simp add: buildSnapshotFromVersionId_def version_nodes_def version_edges_def)
  moreover have "flow_versions db' = flow_versions db @ [v]" using d1 d2 d3 by simp
  then have "versions_of db' j = versions_of db j" if "j \<noteq> r" for j
    using that d1(2) by (simp add: versions_of_append)
  ultimately have "touches_only r db db'" using d1 d2 d3 id
    by (auto simp: touches_only_def find_flow_def getLatestVersion_def find_replace_row_other)
  with new(1) show ?thesis by blast
qed

lemma autosave_root_touches_only:
  assumes inv: "db_inv db" and run: "autosave_root lc i db = Inr db'"
  shows "\<exists>r. getRootFlowId db i = Inr r \<and> touches_only r db db'"
proof -
  obtain r f where r: "getRootFlowId db i = Inr r" and f: "flow_or_fail db r = Inr f"
    using run by (auto simp: autosave_root_def)
  have own: "fv_flowId w = Some r" if k: "flow_version_id db f = Some k" "version_or_fail db k = Inr w" for k w
  proof (cases "cf_currentVersionId f")
    case None
    then obtain w' where "getLatestVersion db r = Some w'" "fv_id w' = k"
      using k(1) flow_or_fail_okD [OF f] by (auto simp: flow_version_id_def)
    then show ?thesis
      using getLatestVersion_Some version_or_fail_okD [OF k(2)] version_eq_if_same_id inv by (metis db_inv_def)
  next
    case (Some k')
    then obtain w' where "w' \<in> set (flow_versions db)" "fv_id w' = k" "fv_flowId w' = Some r"
      using k(1) flow_or_fail_okD [OF f] inv by (auto simp: flow_version_id_def db_inv_def current_ok_def)
    then show ?thesis
      using version_or_fail_okD [OF k(2)] version_eq_if_same_id inv by (metis db_inv_def)
  qed
  consider "db' = db" | w k s where "flow_version_id db f = Some k" "version_or_fail db k = Inr w" "replace_with_snapshot w s db = Inr db'"
    using run r f by (auto simp: autosave_root_def split: option.splits if_splits)
  then have "touches_only r db db'"
  proof cases
    case 1
    then show ?thesis by simp
  next
    case 2
    then show ?thesis using version_or_fail_okD own inv by (intro replace_touches_only [OF inv 2(3)]) auto
  qed
  with r show ?thesis by blast
qed

lemma root_differs:
  assumes "getRootFlowId db i = Inr r" and "find_flow db i = Some f" and "cf_parentFlowId f \<noteq> None"
  shows "i \<noteq> r"
  using assms chain_root_row by (fastforce simp: getRootFlowId_iff)

lemma update_tail_holds:
  assumes inv: "db_inv db" and w: "getLatestVersion db (cf_id f) = Some w" and row: "find_flow db (cf_id f) = Some f"
    and cur: "cf_currentVersionId f = Some (fv_id w)" and new: "\<not> snapshotsAreExactlyEqual lc (Some (snapshot_or_empty (Some w))) (Some s)"
  shows "update_autosave lc f w s nodes edges db = Inr (d, db') \<Longrightarrow>
      holds_request db' (cf_id f) (cf_name f) (fd_versionId d) nodes edges \<and> fd_id d = cf_id f"
    and "update_root lc now msg f w s nodes edges db = Inr (d, db') \<Longrightarrow>
      holds_request db' (cf_id f) (cf_name f) (fd_versionId d) nodes edges \<and> fd_id d = cf_id f"
    and "cf_parentFlowId f \<noteq> None \<Longrightarrow> update_subflow lc now msg f w previous s nodes edges db = Inr (d, db') \<Longrightarrow>
      holds_request db' (cf_id f) (cf_name f) (fd_versionId d) nodes edges \<and> fd_id d = cf_id f"
proof -
  let ?P = "\<lambda>db v. holds_request db (cf_id f) (cf_name f) v nodes edges"
  have mem: "(cf_id f, cf_parentFlowId f) \<in> set (parents db)"
    using find_flow_Some [OF row] by (auto intro: flow_row_parents)
  have ids: "cf_id f \<in> cf_id ` set (call_flows db)" using find_flow_image [OF row] .
  have rep: "?P db1 (fv_id w) \<and> db_inv db1 \<and> parents db1 = parents db"
    if "replaceVersionSnapshot w s nodes edges db = Inr db1" for db1
    using replace_holds [OF inv that row refl cur w] replaceVersionSnapshot_inv [OF inv that] getLatestVersion_Some [OF w]
      replaceVersionSnapshot_parents [OF that] by blast
  have add: "?P db1 (fv_id v) \<and> db_inv db1 \<and> parents db1 = parents db"
    if "add_version now f (fv_versionNumber w + 1) s msg nodes edges db = Inr (v, db1)" for v db1
    using add_version_holds [OF inv that ids] add_version_inv [OF inv that ids] add_version_parents [OF inv that mem] w
    by (simp add: next_version_number_def)
  have cur_det: "?P db2 (fd_versionId d) \<and> fd_id d = cf_id f"
    if "?P db1 u" "db_inv db1" "detail_of_current (cf_id f) k db1 = Inr (d, db2)" for u k db1 db2
    using that detail_of_current_ids [OF that(2,3)] holds_request_links [OF detail_of_current_okD(2) [OF that(2,3)] that(1)]
    by (auto simp: holds_request_def)
  have below: "cf_id f \<noteq> r" if "parents db1 = parents db" "getRootFlowId db1 (cf_id f) = Inr r" "cf_parentFlowId f \<noteq> None" for db1 r
    using that row find_flow_same_parent [OF row that(1)] root_differs by metis
  show "?P db' (fd_versionId d) \<and> fd_id d = cf_id f" if up: "update_autosave lc f w s nodes edges db = Inr (d, db')"
  proof -
    obtain db1 db2 where st: "replaceVersionSnapshot w s nodes edges db = Inr db1"
      "(if cf_parentFlowId f \<noteq> None then autosave_root lc (cf_id f) db1 else ok db1) = Inr db2"
      "detail_of_version (cf_id f) (fv_id w) db2 = Inr (d, db')"
      using up unfolding update_autosave_def bind_result_eq_Inr by blast
    note r = rep [OF st(1)]
    have "?P db2 (fv_id w) \<and> db_inv db2"
    proof (cases "cf_parentFlowId f = None")
      case False
      with st(2) have as: "autosave_root lc (cf_id f) db1 = Inr db2" by simp
      then obtain r' where "getRootFlowId db1 (cf_id f) = Inr r'" "touches_only r' db1 db2"
        using r autosave_root_touches_only by blast
      then show ?thesis using r below False autosave_root_inv [OF _ as] touches_only_holds by blast
    qed (use st(2) r in simp)
    then show ?thesis using st(3) detail_of_version_ids holds_request_links detail_of_version_okD(2) by metis
  qed
  show "?P db' (fd_versionId d) \<and> fd_id d = cf_id f" if up: "update_root lc now msg f w s nodes edges db = Inr (d, db')"
  proof -
    obtain db1 u where "?P db1 u" "db_inv db1" "detail_of_current (cf_id f) (fv_id w) db1 = Inr (d, db')"
      using up new w by (auto simp: update_root_def Let_def next_version_number_def split: if_splits dest: rep add)
    then show ?thesis using cur_det by blast
  qed
  show "?P db' (fd_versionId d) \<and> fd_id d = cf_id f"
    if par: "cf_parentFlowId f \<noteq> None" and up: "update_subflow lc now msg f w previous s nodes edges db = Inr (d, db')"
  proof -
    obtain db1 db2 u where st: "?P db1 u \<and> db_inv db1 \<and> parents db1 = parents db" "version_root lc now msg (cf_id f) db1 = Inr db2"
      "detail_of_current (cf_id f) (fv_id w) db2 = Inr (d, db')"
      using up by (auto simp: update_subflow_def split: if_splits dest: rep add)
    then obtain r' where "getRootFlowId db1 (cf_id f) = Inr r'" "touches_only r' db1 db2"
      using version_root_touches_only by blast
    then have "?P db2 u" using st(1) below par touches_only_holds by blast
    then show ?thesis using cur_det version_root_inv st by blast
  qed
qed

text \<open>
  A successful update answers with the latest version: either nothing differed from it and nothing
  but branch links was written, or the flow's current version now holds exactly the request.
\<close>

lemma update_effect:
  assumes inv: "db_inv db" and up: "update lc urlProtocol now i dto db = Inr (d, db')"
  shows "fd_id d = i \<and> (\<exists>nodes w isSubflow. getLatestVersion db i = Some w
    \<and> validateNodesConfig urlProtocol (normalizeNodesForSave (d_nodes dto)) isSubflow = Inr nodes
    \<and> validateEdgesConfig (d_edges dto) nodes = Inr ()
    \<and> (links_only db db' \<and> fd_versionId d = fv_id w
       \<or> holds_request db' i (d_name dto) (fd_versionId d) nodes (d_edges dto)))"
  using up
proof (rule update_steps)
  fix row w nodes f
  assume st: "find_flow db i = Some row" "getLatestVersion db i = Some w"
    and f: "f = (updated_flow now db dto (fv_id w) row)\<lparr>cf_updatedAt := now\<rparr>"
    and ok: "validateNodesConfig urlProtocol (normalizeNodesForSave (d_nodes dto)) (nonzero (cf_parentFlowId f) \<noteq> None) = Inr nodes"
      "validateEdgesConfig (d_edges dto) nodes = Inr ()"
    and out: "update_outcome lc now dto db f w
       (update_snapshot db (updated_flow now db dto (fv_id w) row) nodes (d_edges dto)) nodes d db'"
  have id: "cf_id f = i" "cf_name f = d_name dto" "cf_currentVersionId f = Some (fv_id w)"
    using f st find_flow_Some by (simp_all add: updated_flow_def Let_def)
  let ?s = "update_snapshot db (updated_flow now db dto (fv_id w) row) nodes (d_edges dto)"
  have "fd_id d = i \<and> (links_only db db' \<and> fd_versionId d = fv_id w
       \<or> holds_request db' i (d_name dto) (fd_versionId d) nodes (d_edges dto))"
  proof (cases "snapshotsAreExactlyEqual lc (Some (snapshot_or_empty (Some w))) (Some ?s)")
    case True
    then have det: "detail_of_version i (fv_id w) db = Inr (d, db')" using out id by (simp add: update_outcome_def)
    from detail_of_version_okD(2) [OF inv det] detail_of_version_ids [OF inv det] show ?thesis by simp
  next
    case False
    then obtain db1 where sv: "save_flow f db = Inr db1" and tail: "update_autosave lc f w ?s nodes (d_edges dto) db1 = Inr (d, db')
        \<or> update_root lc now (d_versionMessage dto) f w ?s nodes (d_edges dto) db1 = Inr (d, db')
        \<or> cf_parentFlowId f \<noteq> None \<and> update_subflow lc now (d_versionMessage dto) f w
             (snapshot_or_empty (Some w)) ?s nodes (d_edges dto) db1 = Inr (d, db')"
      using out unfolding update_outcome_def by blast
    note s1 = update_saved_inv(1) [OF inv st sv [unfolded f]] and d1 = save_flow_okD(2) [OF sv]
    have l: "getLatestVersion db1 (cf_id f) = Some w" using st(2) d1 id by (simp add: getLatestVersion_def versions_of_def)
    have "find_flow db1 (cf_id f) = Some f"
      using find_replace_row_same [of cf_id f "call_flows db"] find_flow_image [OF st(1)] d1 id by (simp add: find_flow_def)
    from update_tail_holds [OF s1 l this id(3) False] tail show ?thesis using id by auto
  qed
  with st(2) ok show ?thesis by blast
qed

end
