(* ===== verification/Runtime.thy ===== *)
theory Runtime
  imports CallModel FlowTree
begin

text \<open>
  The flow interpreter of the call engine: \<open>runtime.ts\<close> and \<open>executors/webhook.executor.ts\<close>.  One
  round of the \<open>while (true)\<close> loop of \<open>runFlow\<close> is the function \<open>step\<close>; the loop itself is a
  partial function, since a flow may route in circles for as long as its nodes answer.

  What the interpreter calls is an environment: the shared tables as a query sees them (or a
  rejected query), whether a write of a node log succeeds, \<open>executeNode\<close>, and what happens on
  the channel when it is hung up.  Its state \<open>'w\<close> is the rest of the world.
\<close>

section \<open>State\<close>

record frame =
  fr_flow :: flow
  fr_menuNodeKey :: string

datatype call_status = Completed | Failed

text \<open>A webhook request as \<open>fireWebhookAsync\<close> sends it; the body is the JSON object before printing.\<close>

record webhook_request =
  wr_nodeKey :: string
  wr_url :: string
  wr_method :: string
  wr_headers :: "(string \<times> string) list"
  wr_body :: "config option"
  wr_timeoutMs :: int
  wr_retryEnabled :: bool
  wr_maxAttempts :: number
  wr_retryOn5xx :: bool
  wr_retryOnTimeout :: bool
  wr_retryOn4xx :: bool

text \<open>The innermost frame of the subflow stack is the head of the list.\<close>

record 'w rt_state =
  r_session :: session
  r_stack :: "frame list"
  r_lastNodeKey :: string
  r_status :: call_status
  r_reason :: "string option"
  r_logs :: "node_log list"
  r_hangups :: nat
  r_webhooks :: "webhook_request list"
  r_world :: 'w

text \<open>
  \<open>env_query w\<close> is the database a read sees, \<open>None\<close> when the query is rejected.  \<open>env_hangup w\<close> is
  the instant at which the \<open>StasisEnd\<close> event of the call's channel arrives within the second the
  runtime waits for it, if it does.
\<close>

record 'w env =
  env_query :: "'w \<Rightarrow> flow_db option"
  env_log_ok :: "'w \<Rightarrow> bool \<times> 'w"
  env_exec :: "rt_node \<Rightarrow> session \<Rightarrow> 'w \<Rightarrow> (string + string) \<times> session \<times> 'w"
  env_hangup :: "'w \<Rightarrow> nat option \<times> 'w"
  env_events :: bool
  env_now :: "'w \<Rightarrow> nat"
  env_toISO :: "nat \<Rightarrow> string"

datatype 'w outcome = Continue "'w rt_state" | Break "'w rt_state" | Raise "'w rt_state"

section \<open>Node logs\<close>

definition insertNodeLog :: "'w env \<Rightarrow> rt_node \<Rightarrow> 'w rt_state \<Rightarrow> 'w rt_state" where
  "insertNodeLog env node st =
     (case env_log_ok env (r_world st) of (written, w) \<Rightarrow>
        let s = r_session st; st' = st\<lparr>r_world := w\<rparr> in
        if written
        then st'\<lparr>r_logs := r_logs st' @ [\<lparr>nl_callUuid = s_callUuid s, nl_flowId = f_id (s_flow s), nl_nodeKey = n_key node,
                  nl_nodeType = n_type node, nl_open = True, nl_exitBranch = None, nl_errorMessage = None\<rparr>]\<rparr>
        else st')"

definition open_log :: "session \<Rightarrow> rt_node \<Rightarrow> node_log \<Rightarrow> bool" where
  "open_log s node l \<longleftrightarrow> nl_callUuid l = s_callUuid s \<and> nl_flowId l = f_id (s_flow s) \<and> nl_nodeKey l = n_key node \<and> nl_open l"

text \<open>\<open>ORDER BY entered_at DESC, id DESC LIMIT 1\<close>: the last matching row.\<close>

definition updateNodeLog :: "'w env \<Rightarrow> rt_node \<Rightarrow> string \<Rightarrow> string option \<Rightarrow> 'w rt_state \<Rightarrow> 'w rt_state" where
  "updateNodeLog env node branch errorMessage st =
     (case env_log_ok env (r_world st) of (written, w) \<Rightarrow>
        let st' = st\<lparr>r_world := w\<rparr> in
        if written
        then st'\<lparr>r_logs := rev (update_first (open_log (r_session st) node)
                  (\<lambda>l. l\<lparr>nl_open := False, nl_exitBranch := Some branch, nl_errorMessage := errorMessage\<rparr>) (rev (r_logs st')))\<rparr>
        else st')"

definition consumeNodeError :: "session \<Rightarrow> string option \<times> session" where
  "consumeNodeError s =
     (let message = trim (text_or_empty (get_var s ''__last_node_error__'')) in
      if message = [] then (None, s) else (Some message, del_var ''__last_node_error__'' s))"

section \<open>Looking up nodes and subflows\<close>

text \<open>\<open>flow.nodes.find(...)\<close> takes the first node with a key, \<open>new Map(...).get\<close> the last.\<close>

definition find_node :: "flow \<Rightarrow> string \<Rightarrow> rt_node option" where
  "find_node flow k = List.find (\<lambda>n. n_key n = k) (f_nodes flow)"

definition node_by_key :: "flow \<Rightarrow> string \<Rightarrow> rt_node option" where
  "node_by_key flow k = List.find (\<lambda>n. n_key n = k) (rev (f_nodes flow))"

definition is_webhook :: "flow \<Rightarrow> string \<Rightarrow> bool" where
  "is_webhook flow k = (case node_by_key flow k of None \<Rightarrow> False | Some n \<Rightarrow> n_type n = ''webhook'')"

text \<open>\<open>a || b\<close> on optional keys: the empty string counts as absent.\<close>

definition key_or :: "string option \<Rightarrow> string option \<Rightarrow> string option" where
  "key_or a b = (if text_or_empty a = [] then b else a)"

definition findEntryNode :: "flow \<Rightarrow> string option" where
  "findEntryNode flow =
     key_or (map_option n_key (List.find (\<lambda>n. n_type n = ''start'') (f_nodes flow)))
       (key_or (case f_nodes flow of [] \<Rightarrow> None | n # _ \<Rightarrow> Some (n_key n)) None)"

definition getMenuSubflowTargetNodeKey :: "config \<Rightarrow> string \<Rightarrow> string option" where
  "getMenuSubflowTargetNodeKey config result =
     (case obj_get config ''submenu_branch_targets'' of
        Some (JObj mapping) \<Rightarrow>
          (let k = str_trim (obj_get mapping result) in if k = [] then None else Some k)
      | _ \<Rightarrow> None)"

definition getMenuBranchSubflowId :: "config \<Rightarrow> string \<Rightarrow> number option" where
  "getMenuBranchSubflowId config result =
     (case obj_get config ''submenu_branch_flows'' of
        Some (JObj flows) \<Rightarrow> (case obj_get flows result of
            Some (JObj entry) \<Rightarrow>
              (let flowId = num_or_zero (obj_get entry ''flowId'') in
               if num_finite flowId \<and> num_pos flowId then Some flowId else None)
          | _ \<Rightarrow> None)
      | _ \<Rightarrow> None)"

definition positive_id :: "int option \<Rightarrow> int option" where
  "positive_id i = (case i of None \<Rightarrow> None | Some k \<Rightarrow> if 0 < k then Some k else None)"

definition getMenuSubflowId :: "flow_db \<Rightarrow> int \<Rightarrow> string \<Rightarrow> int option" where
  "getMenuSubflowId db versionId nodeKey =
     positive_id (Option.bind (find_version_node db versionId nodeKey) fn_subflowId)"

definition getMenuBranchSubflowIdFromParentLink :: "flow_db \<Rightarrow> int \<Rightarrow> string \<Rightarrow> string \<Rightarrow> int option" where
  "getMenuBranchSubflowIdFromParentLink db flowId nodeKey branchKey =
     positive_id (map_option cf_id
       (List.find (\<lambda>f. cf_parentFlowId f = Some flowId \<and> cf_parentNodeKey f = Some nodeKey
          \<and> cf_parentBranchKey f = Some branchKey \<and> cf_status f = ''published'') (call_flows db)))"

section \<open>Webhooks\<close>

text \<open>
  The loop over \<open>config.headers\<close>: reading a property of a \<open>null\<close> entry is a \<open>TypeError\<close>, here \<open>None\<close>.
\<close>

fun add_headers :: "json list \<Rightarrow> (string \<times> string) list \<Rightarrow> (string \<times> string) list option" where
  "add_headers [] headers = Some headers"
| "add_headers (header # rest) headers =
     (if header = JNull then None
      else let k = str_trim (entry_get header ''key'') in
        add_headers rest (if k = [] then headers else AList.update k (str_trim (entry_get header ''value'')) headers))"

definition webhook_headers :: "config \<Rightarrow> (string \<times> string) list option" where
  "webhook_headers config =
     add_headers (case obj_get config ''headers'' of Some (JArr xs) \<Rightarrow> xs | _ \<Rightarrow> [])
       [(''Content-Type'', ''application/json'')]"

definition fireWebhookAsync :: "'w env \<Rightarrow> rt_node \<Rightarrow> rt_node \<Rightarrow> 'w rt_state \<Rightarrow> 'w rt_state option" where
  "fireWebhookAsync env webhookNode sourceNode st =
     (let config = n_config webhookNode; s = r_session st; url = str_trim (obj_get config ''url'');
          method = (if obj_get config ''method'' = Some (JStr ''GET'') then ''GET'' else ''POST'') in
      if url = [] then Some st
      else map_option (\<lambda>headers. st\<lparr>r_webhooks := r_webhooks st @
        [\<lparr>wr_nodeKey = n_key webhookNode, wr_url = url, wr_method = method, wr_headers = headers,
          wr_body = (if method = ''POST''
            then Some (buildWebhookPayload (env_toISO env) (env_now env (r_world st)) s sourceNode
                         (truthy (obj_get config ''include_session_variables'')))
            else None),
          wr_timeoutMs = resolveNodeTimeoutMs webhookNode s 5000,
          wr_retryEnabled = (obj_get config ''retry_enabled'' \<noteq> Some (JBool False)),
          wr_maxAttempts = (case obj_get config ''max_attempts'' of
              Some (JNum n) \<Rightarrow> if num_finite n \<and> num_pos n then n else Dec 3 0
            | _ \<Rightarrow> Dec 3 0),
          wr_retryOn5xx = (obj_get config ''retry_on_5xx'' \<noteq> Some (JBool False)),
          wr_retryOnTimeout = (obj_get config ''retry_on_timeout'' \<noteq> Some (JBool False)),
          wr_retryOn4xx = (obj_get config ''retry_on_4xx'' = Some (JBool True))\<rparr>]\<rparr>)
        (webhook_headers config))"

definition outgoing_edges :: "flow \<Rightarrow> string \<Rightarrow> rt_edge list" where
  "outgoing_edges flow k = filter (\<lambda>e. e_source e = k) (f_edges flow)"

fun fire_targets :: "'w env \<Rightarrow> flow \<Rightarrow> string \<Rightarrow> rt_edge list \<Rightarrow> 'w rt_state \<Rightarrow> 'w rt_state option" where
  "fire_targets env flow sourceNodeKey [] st = Some st"
| "fire_targets env flow sourceNodeKey (edge # edges) st =
     (case (node_by_key flow (e_target edge), node_by_key flow sourceNodeKey) of
        (Some target, Some source) \<Rightarrow>
          if n_type target = ''webhook''
          then Option.bind (fireWebhookAsync env target source st) (fire_targets env flow sourceNodeKey edges)
          else fire_targets env flow sourceNodeKey edges st
      | _ \<Rightarrow> fire_targets env flow sourceNodeKey edges st)"

definition fireWebhookSideEffects :: "'w env \<Rightarrow> string \<Rightarrow> 'w rt_state \<Rightarrow> 'w rt_state option" where
  "fireWebhookSideEffects env sourceNodeKey st =
     (let flow = s_flow (r_session st) in
      fire_targets env flow sourceNodeKey (outgoing_edges flow sourceNodeKey) st)"

definition getRoutingEdgesExcludingWebhookTargets :: "string \<Rightarrow> flow \<Rightarrow> rt_edge list" where
  "getRoutingEdgesExcludingWebhookTargets sourceNodeKey flow =
     filter (\<lambda>e. e_source e = sourceNodeKey \<and> \<not> is_webhook flow (e_target e)) (f_edges flow)"

definition resolveWebhookEdge :: "string \<Rightarrow> string \<Rightarrow> string \<Rightarrow> flow \<Rightarrow> rt_edge option" where
  "resolveWebhookEdge sourceNodeKey nodeType result flow =
     resolveNextEdge sourceNodeKey nodeType result
       (filter (\<lambda>e. e_source e = sourceNodeKey \<and> is_webhook flow (e_target e)) (f_edges flow))"

definition getWebhookTargetNode :: "rt_edge option \<Rightarrow> flow \<Rightarrow> rt_node option" where
  "getWebhookTargetNode edge flow =
     (case edge of
        None \<Rightarrow> None
      | Some e \<Rightarrow> (case find_node flow (e_target e) of
            Some n \<Rightarrow> if n_type n = ''webhook'' then Some n else None
          | None \<Rightarrow> None))"

definition isPostCompletionRoutableNode :: "string \<Rightarrow> bool" where
  "isPostCompletionRoutableNode t \<longleftrightarrow> t \<in> {''voicemail'', ''callback'', ''transfer'', ''hunt''}"

section \<open>Steps of the loop\<close>

definition goto_node :: "string \<Rightarrow> 'w rt_state \<Rightarrow> 'w rt_state" where
  "goto_node k st = st\<lparr>r_session := (r_session st)\<lparr>s_currentNodeKey := k\<rparr>\<rparr>"

definition fail_with :: "string \<Rightarrow> 'w rt_state \<Rightarrow> 'w rt_state" where
  "fail_with reason st = st\<lparr>r_status := Failed, r_reason := Some reason\<rparr>"

definition enter_subflow :: "flow \<Rightarrow> string \<Rightarrow> rt_node \<Rightarrow> 'w rt_state \<Rightarrow> 'w rt_state" where
  "enter_subflow subflow k node st =
     st\<lparr>r_stack := \<lparr>fr_flow = s_flow (r_session st), fr_menuNodeKey = n_key node\<rparr> # r_stack st,
        r_session := (r_session st)\<lparr>s_flow := subflow, s_currentNodeKey := k\<rparr>\<rparr>"

definition returnToParentFlow :: "'w rt_state \<Rightarrow> bool \<times> 'w rt_state" where
  "returnToParentFlow st =
     (case r_stack st of
        [] \<Rightarrow> (False, st)
      | fr # stack \<Rightarrow>
        (let st1 = st\<lparr>r_stack := stack, r_session := (r_session st)\<lparr>s_flow := fr_flow fr\<rparr>\<rparr> in
         case resolveNextEdge (fr_menuNodeKey fr) ''menu'' ''complete'' (f_edges (fr_flow fr)) of
           None \<Rightarrow> (False, st1)
         | Some e \<Rightarrow> (True, goto_node (e_target e) st1)))"

text \<open>\<open>if (await returnToParentFlow(...)) continue\<close>, else the given end of the loop.\<close>

definition return_or :: "('w rt_state \<Rightarrow> 'w rt_state) \<Rightarrow> 'w rt_state \<Rightarrow> 'w outcome" where
  "return_or finish st = (case returnToParentFlow st of (True, st') \<Rightarrow> Continue st' | (False, st') \<Rightarrow> Break (finish st'))"

definition hangup_channel :: "'w env \<Rightarrow> 'w rt_state \<Rightarrow> 'w rt_state" where
  "hangup_channel env st =
     (case env_hangup env (r_world st) of (_, w) \<Rightarrow> st\<lparr>r_hangups := Suc (r_hangups st), r_world := w\<rparr>)"

definition hangupAndWaitForSessionEnd :: "'w env \<Rightarrow> 'w rt_state \<Rightarrow> 'w rt_state" where
  "hangupAndWaitForSessionEnd env st =
     (case env_hangup env (r_world st) of (ended, w) \<Rightarrow>
        let st' = st\<lparr>r_hangups := Suc (r_hangups st), r_world := w\<rparr> in
        if s_endedAt (r_session st) = None \<and> env_events env
        then (case ended of None \<Rightarrow> st'
              | Some t \<Rightarrow> st'\<lparr>r_session := snd (markCallEnded (r_session st') t)\<rparr>)
        else st')"

definition execute_logged :: "'w env \<Rightarrow> rt_node \<Rightarrow> 'w rt_state \<Rightarrow> string \<times> 'w rt_state" where
  "execute_logged env node st =
     (let st1 = insertNodeLog env node st in
      case env_exec env node (r_session st1) (r_world st1) of
        (Inr result, s, w) \<Rightarrow>
          (case consumeNodeError s of (runtimeError, s') \<Rightarrow>
             (result, updateNodeLog env node result runtimeError (st1\<lparr>r_session := s', r_world := w\<rparr>)))
      | (Inl message, s, w) \<Rightarrow>
          (''hangup'', updateNodeLog env node ''hangup'' (Some message)
             (fail_with message (st1\<lparr>r_session := s, r_world := w\<rparr>))))"

text \<open>A read query: the rest of the step, or an exception that leaves \<open>runFlow\<close>.\<close>

definition with_db :: "'w env \<Rightarrow> 'w rt_state \<Rightarrow> (flow_db \<Rightarrow> 'w outcome) \<Rightarrow> 'w outcome" where
  "with_db env st k = (case env_query env (r_world st) of None \<Rightarrow> Raise st | Some db \<Rightarrow> k db)"

definition finish_call :: "'w env \<Rightarrow> 'w rt_state \<Rightarrow> 'w outcome" where
  "finish_call env st =
     (let st1 = hangup_channel env st in
      if r_stack st1 \<noteq> [] then return_or id st1 else Break st1)"

definition subflow_failure :: "string \<Rightarrow> string \<Rightarrow> string" where
  "subflow_failure subflowId what = ''Subflow '' @ subflowId @ '' '' @ what"

definition enter_branch_subflow :: "rt_node \<Rightarrow> int \<Rightarrow> flow_db \<Rightarrow> 'w rt_state \<Rightarrow> 'w outcome" where
  "enter_branch_subflow node subflowId db st =
     (case loadFlowById db subflowId of
        None \<Rightarrow> Break (fail_with (subflow_failure (show_int subflowId) ''load failure'') st)
      | Some subflow \<Rightarrow> (case findEntryNode subflow of
            None \<Rightarrow> Break (fail_with (subflow_failure (show_int subflowId) ''missing entry node'') st)
          | Some k \<Rightarrow> Continue (enter_subflow subflow k node st)))"

definition enter_submenu_target :: "rt_node \<Rightarrow> string \<Rightarrow> flow_db \<Rightarrow> 'w rt_state \<Rightarrow> 'w outcome" where
  "enter_submenu_target node target db st =
     (case getMenuSubflowId db (f_versionId (s_flow (r_session st))) (n_key node) of
        None \<Rightarrow> Break (fail_with (''Menu '' @ n_key node @ '' submenu missing subflow_id'') st)
      | Some subflowId \<Rightarrow> (case loadFlowById db subflowId of
            None \<Rightarrow> Break (fail_with (subflow_failure (show_int subflowId) ''load failure'') st)
          | Some subflow \<Rightarrow> (case find_node subflow target of
                None \<Rightarrow> Break (fail_with (subflow_failure (show_int subflowId) (''missing target node '' @ target)) st)
              | Some n \<Rightarrow> Continue (enter_subflow subflow (n_key n) node st))))"

definition no_edge :: "'w env \<Rightarrow> rt_node \<Rightarrow> string \<Rightarrow> 'w rt_state \<Rightarrow> 'w outcome" where
  "no_edge env node result st =
     (if n_type node = ''queue_login'' \<and> result = ''authenticated'' then Break st
      else if n_type node = ''play_audio'' then Break (hangup_channel env st)
      else
        (let finish = fail_with (''No edge found from '' @ n_key node @ '' ('' @ n_type node @ '') for result '' @ [CHR 0x22] @ result @ [CHR 0x22]) in
         if r_stack st \<noteq> [] then return_or finish st else Break (finish st)))"

text \<open>
  The menu branch without an edge.  A branch id in the configuration that is not an integer makes the
  query fail.
\<close>

definition menu_without_edge :: "'w env \<Rightarrow> rt_node \<Rightarrow> string \<Rightarrow> 'w rt_state \<Rightarrow> 'w outcome" where
  "menu_without_edge env node result st =
     (case getMenuBranchSubflowId (n_config node) result of
        Some flowId \<Rightarrow> with_db env st (\<lambda>db. case num_int flowId of
            None \<Rightarrow> Raise st
          | Some i \<Rightarrow> enter_branch_subflow node i db st)
      | None \<Rightarrow> with_db env st (\<lambda>db.
          case getMenuBranchSubflowIdFromParentLink db (f_id (s_flow (r_session st))) (n_key node) result of
            Some i \<Rightarrow> enter_branch_subflow node i db st
          | None \<Rightarrow> (case getMenuSubflowTargetNodeKey (n_config node) result of
                Some target \<Rightarrow> enter_submenu_target node target db st
              | None \<Rightarrow> no_edge env node result st)))"

definition follow_edge :: "'w env \<Rightarrow> rt_node \<Rightarrow> rt_edge \<Rightarrow> 'w rt_state \<Rightarrow> 'w outcome" where
  "follow_edge env node edge st =
     (let flow = s_flow (r_session st);
          missing = (let finish = fail_with (''Target node '' @ e_target edge @ '' not found'') in
                     if r_stack st \<noteq> [] then return_or finish st else Break (finish st)) in
      case find_node flow (e_target edge) of
        Some n \<Rightarrow> Continue (goto_node (n_key n) st)
      | None \<Rightarrow>
        if n_type node \<noteq> ''menu'' then missing
        else with_db env st (\<lambda>db. case getMenuSubflowId db (f_versionId flow) (n_key node) of
            None \<Rightarrow> missing
          | Some subflowId \<Rightarrow> (case loadFlowById db subflowId of
                None \<Rightarrow> (let finish = fail_with (subflow_failure (show_int subflowId) ''load failure'') in
                         if r_stack st \<noteq> [] then return_or finish st else Break (finish st))
              | Some subflow \<Rightarrow>
                  Continue (enter_subflow subflow
                    (case key_or (map_option n_key (find_node subflow (e_target edge)))
                            (key_or (findEntryNode subflow) (Some (e_target edge))) of
                       Some k \<Rightarrow> k | None \<Rightarrow> e_target edge) node st))))"

definition route_result :: "'w env \<Rightarrow> rt_node \<Rightarrow> string \<Rightarrow> 'w rt_state \<Rightarrow> 'w outcome" where
  "route_result env node result st =
     (if result = ''done'' \<or> result = ''hangup'' then finish_call env st
      else if starts_with ''route:'' result then Continue (goto_node (drop 6 result) st)
      else
        (let cur = s_currentNodeKey (r_session st) in
         case fireWebhookSideEffects env cur st of
           None \<Rightarrow> Raise st
         | Some st1 \<Rightarrow>
           (case resolveNextEdge cur (n_type node) result
                   (getRoutingEdgesExcludingWebhookTargets cur (s_flow (r_session st1))) of
              Some edge \<Rightarrow> follow_edge env node edge st1
            | None \<Rightarrow> if n_type node = ''menu'' then menu_without_edge env node result st1
                      else no_edge env node result st1)))"

definition route_completed :: "'w env \<Rightarrow> rt_node \<Rightarrow> 'w rt_state \<Rightarrow> 'w outcome" where
  "route_completed env node st =
     (let flow = s_flow (r_session st);
          webhookNode = getWebhookTargetNode (resolveWebhookEdge (n_key node) (n_type node) ''done'' flow) flow in
      case resolveNextEdge (n_key node) (n_type node) ''done''
             (getRoutingEdgesExcludingWebhookTargets (n_key node) flow) of
        Some edge \<Rightarrow> (case find_node flow (e_target edge) of
            Some n \<Rightarrow> Continue (goto_node (n_key n) st)
          | None \<Rightarrow> Break (fail_with (''Target node '' @ e_target edge @ '' not found'') st))
      | None \<Rightarrow> (case webhookNode of
            Some wn \<Rightarrow>
              (let st1 = hangupAndWaitForSessionEnd env st in
               case fireWebhookAsync env wn node st1 of None \<Rightarrow> Raise st1 | Some st2 \<Rightarrow> Break st2)
          | None \<Rightarrow> route_result env node ''done'' st))"

definition step :: "'w env \<Rightarrow> 'w rt_state \<Rightarrow> 'w outcome" where
  "step env st0 =
     (let cur = s_currentNodeKey (r_session st0); st = st0\<lparr>r_lastNodeKey := cur\<rparr> in
      case find_node (s_flow (r_session st0)) cur of
        None \<Rightarrow> return_or (\<lambda>st'. fail_with (''Node not found: '' @ s_currentNodeKey (r_session st')) st') st
      | Some node \<Rightarrow>
        (case execute_logged env node st of (result, st1) \<Rightarrow>
           if result = ''done'' \<and> isPostCompletionRoutableNode (n_type node)
           then route_completed env node st1
           else route_result env node result st1))"

section \<open>runFlow\<close>

datatype call_event =
    FailedEvent string string int "string option" string
  | EndedEvent string string int int

record 'w run_result =
  rr_status :: call_status
  rr_events :: "call_event list"
  rr_state :: "'w rt_state"

text \<open>\<open>None\<close>: the loop never ends; \<open>Inl\<close>: an exception leaves \<open>runFlow\<close> and no event is published.\<close>

partial_function (option) run_loop :: "'w env \<Rightarrow> 'w rt_state \<Rightarrow> ('w rt_state + 'w rt_state) option" where
  "run_loop env st =
     (case step env st of
        Continue st' \<Rightarrow> run_loop env st'
      | Break st' \<Rightarrow> Some (Inr st')
      | Raise st' \<Rightarrow> Some (Inl st'))"

definition final_event :: "'w env \<Rightarrow> 'w rt_state \<Rightarrow> call_event" where
  "final_event env st =
     (let s = r_session st in
      case r_status st of
        Failed \<Rightarrow> FailedEvent (s_channelId s) (s_callerNumber s) (f_id (s_flow s)) (Some (r_lastNodeKey st))
          (if text_or_empty (r_reason st) = [] then ''Flow execution failed'' else text_or_empty (r_reason st))
      | Completed \<Rightarrow> EndedEvent (s_channelId s) (s_callerNumber s) (f_id (s_flow s))
          ((int (env_now env (r_world st)) - int (s_startedAt s) + 500) div 1000))"

definition initial_state :: "session \<Rightarrow> string \<Rightarrow> node_log list \<Rightarrow> 'w \<Rightarrow> 'w rt_state" where
  "initial_state s k logs w =
     \<lparr>r_session = s\<lparr>s_currentNodeKey := k\<rparr>, r_stack = [], r_lastNodeKey = k, r_status = Completed, r_reason = None,
      r_logs = logs, r_hangups = 0, r_webhooks = [], r_world = w\<rparr>"

definition runFlow :: "'w env \<Rightarrow> session \<Rightarrow> node_log list \<Rightarrow> 'w \<Rightarrow> ('w rt_state + 'w run_result) option" where
  "runFlow env s logs w =
     (case findEntryNode (s_flow s) of
        None \<Rightarrow> Some (Inr \<lparr>rr_status = Failed,
          rr_events = [FailedEvent (s_channelId s) (s_callerNumber s) (f_id (s_flow s)) None ''No entry node found in flow''],
          rr_state = initial_state s (s_currentNodeKey s) logs w\<rparr>)
      | Some k \<Rightarrow> map_option (map_sum id (\<lambda>st. \<lparr>rr_status = r_status st, rr_events = [final_event env st], rr_state = st\<rparr>))
          (run_loop env (initial_state s k logs w)))"

end
