(* ===== verification/RuntimeLaws.thy ===== *)
theory RuntimeLaws
  imports Runtime
begin

text \<open>
  Laws of the interpreter: what a step leaves alone, the runs of the loop as an inductive
  relation, the node logs, failure reasons, routing inside closed graphs, and termination.
\<close>

section \<open>Frames\<close>

primrec out_state :: "'w outcome \<Rightarrow> 'w rt_state" where
  "out_state (Continue st) = st"
| "out_state (Break st) = st"
| "out_state (Raise st) = st"

text \<open>The identity of the call and the log, which routing never changes.\<close>

definition call_view :: "'w rt_state \<Rightarrow> string \<times> string \<times> string \<times> nat \<times> node_log list" where
  "call_view st = (s_callUuid (r_session st), s_channelId (r_session st), s_callerNumber (r_session st),
     s_startedAt (r_session st), r_logs st)"

lemma view_updates [rt_simps]:
  "call_view (goto_node k st) = call_view st"
  "call_view (fail_with r st) = call_view st"
  "call_view (enter_subflow f k n st) = call_view st"
  "call_view (hangup_channel env st) = call_view st"
  "call_view (hangupAndWaitForSessionEnd env st) = call_view st"
  "call_view (st\<lparr>r_lastNodeKey := k\<rparr>) = call_view st"
  by (auto simp: call_view_def goto_node_def fail_with_def enter_subflow_def hangup_channel_def
      hangupAndWaitForSessionEnd_def markCallEnded_def Let_def split: prod.split option.split)

lemma return_view: "call_view (snd (returnToParentFlow st)) = call_view st"
  by (auto simp: returnToParentFlow_def call_view_def goto_node_def Let_def split: list.split option.split)

lemma return_or_view [rt_simps]:
  "(\<And>s. call_view (finish s) = call_view s) \<Longrightarrow> call_view (out_state (return_or finish st)) = call_view st"
  using return_view [of st] by (auto simp: return_or_def split: prod.split bool.split)

lemma fireWebhookAsync_frame:
  assumes "fireWebhookAsync env wn n st = Some st'"
  shows "r_session st' = r_session st" "r_stack st' = r_stack st" "r_logs st' = r_logs st" "r_status st' = r_status st"
    "r_reason st' = r_reason st" "r_world st' = r_world st" "r_lastNodeKey st' = r_lastNodeKey st" "r_hangups st' = r_hangups st"
  using assms by (auto simp: fireWebhookAsync_def Let_def split: if_splits)

lemma fire_targets_frame:
  assumes "fire_targets env flow k es st = Some st'"
  shows "r_session st' = r_session st \<and> r_stack st' = r_stack st \<and> r_logs st' = r_logs st \<and> r_status st' = r_status st
    \<and> r_reason st' = r_reason st \<and> r_world st' = r_world st \<and> r_lastNodeKey st' = r_lastNodeKey st \<and> r_hangups st' = r_hangups st"
  using assms
proof (induction es arbitrary: st)
  case (Cons e es)
  show ?case
  proof (cases "fire_targets env flow k es st = Some st'")
    case True
    then show ?thesis by (rule Cons.IH)
  next
    case False
    with Cons.prems obtain n m st1 where "fireWebhookAsync env n m st = Some st1" "fire_targets env flow k es st1 = Some st'"
      by (auto split: option.splits if_splits Option.bind_splits)
    then show ?thesis using Cons.IH fireWebhookAsync_frame by metis
  qed
qed simp

lemma side_effects_view: "fireWebhookSideEffects env k st = Some st' \<Longrightarrow> call_view st' = call_view st"
  by (auto simp: fireWebhookSideEffects_def Let_def call_view_def dest!: fire_targets_frame)

lemma webhook_view: "fireWebhookAsync env wn n st = Some st' \<Longrightarrow> call_view st' = call_view st"
  by (simp add: call_view_def fireWebhookAsync_frame)

lemma branch_view [rt_simps]:
  "call_view (out_state (enter_branch_subflow node i db st)) = call_view st"
  "call_view (out_state (enter_submenu_target node k db st)) = call_view st"
  by (auto simp: enter_branch_subflow_def enter_submenu_target_def rt_simps split: option.split)

lemma no_edge_view [rt_simps]: "call_view (out_state (no_edge env node r st)) = call_view st"
  by (auto simp: no_edge_def Let_def rt_simps)

lemma menu_view [rt_simps]: "call_view (out_state (menu_without_edge env node r st)) = call_view st"
  by (auto simp: menu_without_edge_def with_db_def rt_simps split: option.split)

lemma follow_view [rt_simps]: "call_view (out_state (follow_edge env node e st)) = call_view st"
  by (auto simp: follow_edge_def with_db_def Let_def rt_simps split: option.split)

lemma finish_view [rt_simps]: "call_view (out_state (finish_call env st)) = call_view st"
  by (auto simp: finish_call_def Let_def rt_simps)

lemma route_result_view [rt_simps]: "call_view (out_state (route_result env node r st)) = call_view st"
  by (auto simp: route_result_def Let_def rt_simps side_effects_view split: option.split)

lemma route_completed_view [rt_simps]: "call_view (out_state (route_completed env node st)) = call_view st"
  by (auto simp: route_completed_def Let_def rt_simps webhook_view split: option.split)

section \<open>Runs\<close>

text \<open>The runs of the loop: finitely many \<open>Continue\<close> steps and a final one.\<close>

inductive runs :: "'w env \<Rightarrow> 'w rt_state \<Rightarrow> ('w rt_state + 'w rt_state) \<Rightarrow> bool" for env where
  run_break: "step env st = Break st' \<Longrightarrow> runs env st (Inr st')"
| run_raise: "step env st = Raise st' \<Longrightarrow> runs env st (Inl st')"
| run_continue: "step env st = Continue st1 \<Longrightarrow> runs env st1 out \<Longrightarrow> runs env st out"

lemma runs_run_loop: "runs env st out \<Longrightarrow> run_loop env st = Some out"
  by (induction rule: runs.induct) (simp_all add: run_loop.simps)

lemma run_loop_runs: "run_loop env st = Some out \<Longrightarrow> runs env st out"
proof (induction rule: run_loop.raw_induct [rotated, consumes 1])
  case (1 loop env st out)
  then show ?case by (cases "step env st") (auto intro: runs.intros)
qed

lemma run_loop_iff: "run_loop env st = Some out \<longleftrightarrow> runs env st out"
  using runs_run_loop run_loop_runs by metis

text \<open>A property of states that every step keeps holds at the end of the run.\<close>

lemma runs_invariant:
  assumes "runs env st out" and "P st"
    and "\<And>s. P s \<Longrightarrow> P (out_state (step env s))"
  shows "\<forall>st'. out = Inr st' \<or> out = Inl st' \<longrightarrow> P st'"
  using assms(1,2)
proof induction
  case (run_break st st')
  then show ?case using assms(3) [of st] by simp
next
  case (run_raise st st')
  then show ?case using assms(3) [of st] by simp
next
  case (run_continue st st1 out)
  have "P st1" using assms(3) [OF run_continue.prems] run_continue.hyps(1) by simp
  then show ?case by (rule run_continue.IH)
qed

section \<open>Node logs\<close>

definition logging_works :: "'w env \<Rightarrow> bool" where
  "logging_works env \<longleftrightarrow> (\<forall>w. fst (env_log_ok env w))"

text \<open>An executor leaves the call's identity, its flow and its position alone.\<close>

definition exec_frame :: "'w env \<Rightarrow> bool" where
  "exec_frame env \<longleftrightarrow> (\<forall>n s w r s' w'. env_exec env n s w = (r, s', w') \<longrightarrow>
     s_callUuid s' = s_callUuid s \<and> s_flow s' = s_flow s \<and> s_currentNodeKey s' = s_currentNodeKey s)"

lemma exec_frameD:
  "exec_frame env \<Longrightarrow> env_exec env n s w = (r, s', w') \<Longrightarrow>
     s_callUuid s' = s_callUuid s \<and> s_flow s' = s_flow s \<and> s_currentNodeKey s' = s_currentNodeKey s"
  unfolding exec_frame_def by blast

lemma consume_frame:
  "consumeNodeError s = (e, s') \<Longrightarrow>
     s_callUuid s' = s_callUuid s \<and> s_flow s' = s_flow s \<and> s_currentNodeKey s' = s_currentNodeKey s"
  by (auto simp: consumeNodeError_def del_var_def Let_def split: if_splits)

definition closed_entry :: "session \<Rightarrow> rt_node \<Rightarrow> string \<Rightarrow> string option \<Rightarrow> node_log" where
  "closed_entry s node result err =
     \<lparr>nl_callUuid = s_callUuid s, nl_flowId = f_id (s_flow s), nl_nodeKey = n_key node, nl_nodeType = n_type node,
      nl_open = False, nl_exitBranch = Some result, nl_errorMessage = err\<rparr>"

lemma log_pair:
  assumes "logging_works env" and "s_callUuid (r_session st') = s_callUuid (r_session st)" "s_flow (r_session st') = s_flow (r_session st)"
    and "r_logs st' = r_logs (insertNodeLog env node st)"
  shows "r_logs (updateNodeLog env node result err st') = r_logs st @ [closed_entry (r_session st) node result err]"
  using assms
  by (auto simp: insertNodeLog_def updateNodeLog_def logging_works_def open_log_def closed_entry_def Let_def
      split: prod.splits) (metis fst_conv)+

lemma updateNodeLog_session [simp]: "r_session (updateNodeLog env node b e st) = r_session st"
  by (auto simp: updateNodeLog_def Let_def split: prod.split)

lemma insertNodeLog_session [simp]: "r_session (insertNodeLog env node st) = r_session st"
  by (auto simp: insertNodeLog_def Let_def split: prod.split)

lemma execute_logged_logs:
  assumes "logging_works env" and "exec_frame env" and "execute_logged env node st = (result, st')"
  shows "\<exists>err. r_logs st' = r_logs st @ [closed_entry (r_session st) node result err]"
    and "s_callUuid (r_session st') = s_callUuid (r_session st)" "s_flow (r_session st') = s_flow (r_session st)"
proof -
  let ?st1 = "insertNodeLog env node st"
  obtain r s w where x: "env_exec env node (r_session ?st1) (r_world ?st1) = (r, s, w)" by (metis prod.exhaust)
  note fr = exec_frameD [OF assms(2) x]
  consider (ok) res e s' where "r = Inr res" "consumeNodeError s = (e, s')" "result = res"
      "st' = updateNodeLog env node res e (?st1\<lparr>r_session := s', r_world := w\<rparr>)"
    | (err) m where "r = Inl m" "result = ''hangup''"
      "st' = updateNodeLog env node ''hangup'' (Some m) (fail_with m (?st1\<lparr>r_session := s, r_world := w\<rparr>))"
    using assms(3) x by (auto simp: execute_logged_def Let_def split: sum.splits prod.splits)
  then have "(\<exists>err. r_logs st' = r_logs st @ [closed_entry (r_session st) node result err])
      \<and> s_callUuid (r_session st') = s_callUuid (r_session st) \<and> s_flow (r_session st') = s_flow (r_session st)"
  proof cases
    case ok
    then show ?thesis using fr consume_frame [OF ok(2)] log_pair [OF assms(1)] by auto
  next
    case err
    then show ?thesis using fr log_pair [OF assms(1)] by (auto simp: fail_with_def)
  qed
  then show "\<exists>err. r_logs st' = r_logs st @ [closed_entry (r_session st) node result err]"
    "s_callUuid (r_session st') = s_callUuid (r_session st)" "s_flow (r_session st') = s_flow (r_session st)" by auto
qed

text \<open>A step appends the closed entry of the node it executed, and nothing when there is no such node.\<close>

definition current_node :: "'w rt_state \<Rightarrow> rt_node option" where
  "current_node st = find_node (s_flow (r_session st)) (s_currentNodeKey (r_session st))"

lemma call_viewD:
  "call_view a = call_view b \<Longrightarrow> s_callUuid (r_session a) = s_callUuid (r_session b) \<and> r_logs a = r_logs b"
  by (simp add: call_view_def)

lemma step_missing_view: "current_node st = None \<Longrightarrow> call_view (out_state (step env st)) = call_view st"
  by (simp add: step_def current_node_def Let_def rt_simps)

lemma step_executed_view:
  assumes "current_node st = Some node"
    and "execute_logged env node (st\<lparr>r_lastNodeKey := s_currentNodeKey (r_session st)\<rparr>) = (result, st1)"
  shows "call_view (out_state (step env st)) = call_view st1"
  using assms by (simp add: step_def current_node_def Let_def rt_simps)

lemma step_logs:
  assumes "logging_works env" and "exec_frame env"
  shows "s_callUuid (r_session (out_state (step env st))) = s_callUuid (r_session st)
    \<and> (case current_node st of
         None \<Rightarrow> r_logs (out_state (step env st)) = r_logs st
       | Some node \<Rightarrow> \<exists>result err. r_logs (out_state (step env st)) = r_logs st @ [closed_entry (r_session st) node result err])"
proof (cases "current_node st")
  case None
  then show ?thesis using call_viewD [OF step_missing_view [OF None]] by simp
next
  case (Some node)
  obtain result st1 where x: "execute_logged env node (st\<lparr>r_lastNodeKey := s_currentNodeKey (r_session st)\<rparr>) = (result, st1)"
    by (metis prod.exhaust)
  from execute_logged_logs [OF assms x] call_viewD [OF step_executed_view [OF Some x]] Some
  show ?thesis by auto
qed

text \<open>No entry of the call is open between two steps.\<close>

definition logs_closed :: "string \<Rightarrow> 'w rt_state \<Rightarrow> bool" where
  "logs_closed uuid st \<longleftrightarrow> s_callUuid (r_session st) = uuid \<and> (\<forall>l \<in> set (r_logs st). nl_callUuid l = uuid \<longrightarrow> \<not> nl_open l)"

lemma step_logs_closed:
  assumes "logging_works env" and "exec_frame env" and "logs_closed uuid st"
  shows "logs_closed uuid (out_state (step env st))"
  using step_logs [OF assms(1,2), of st] assms(3)
  by (auto simp: logs_closed_def closed_entry_def split: option.splits)

section \<open>Failures have a reason\<close>

text \<open>The failures of routing, by their message.\<close>

definition routing_failure :: "string \<Rightarrow> bool" where
  "routing_failure r \<longleftrightarrow> starts_with ''Node not found: '' r \<or> starts_with ''Subflow '' r \<or> starts_with ''Menu '' r
     \<or> starts_with ''No edge found from '' r \<or> starts_with ''Target node '' r"

lemma routing_failures:
  "routing_failure (''Node not found: '' @ k)" "routing_failure (subflow_failure i k)" "routing_failure (''Menu '' @ k)"
  "routing_failure (''No edge found from '' @ k)" "routing_failure (''Target node '' @ k)"
  unfolding routing_failure_def subflow_failure_def using starts_with_append by metis+

lemmas routing_failures_cons [simp] = routing_failures [unfolded append_Cons append_Nil]

definition reason_ok :: "'w rt_state \<Rightarrow> bool" where
  "reason_ok st \<longleftrightarrow> (r_status st = Failed \<longrightarrow> (\<exists>r. r_reason st = Some r \<and> routing_failure r))"

text \<open>An executor that reports its failures as results.\<close>

definition never_rejects :: "'w env \<Rightarrow> bool" where
  "never_rejects env \<longleftrightarrow> (\<forall>n s w. \<exists>r s' w'. env_exec env n s w = (Inr r, s', w'))"

lemma fail_with_reason [simp]: "reason_ok (fail_with r st) = routing_failure r"
  by (simp add: reason_ok_def fail_with_def)

lemma same_reason:
  "r_status b = r_status a \<Longrightarrow> r_reason b = r_reason a \<Longrightarrow> reason_ok a \<Longrightarrow> reason_ok b"
  by (simp add: reason_ok_def)

lemma status_updates:
  "r_status (goto_node k st) = r_status st" "r_reason (goto_node k st) = r_reason st"
  "r_status (enter_subflow f k n st) = r_status st" "r_reason (enter_subflow f k n st) = r_reason st"
  "r_status (hangup_channel env st) = r_status st" "r_reason (hangup_channel env st) = r_reason st"
  "r_status (hangupAndWaitForSessionEnd env st) = r_status st" "r_reason (hangupAndWaitForSessionEnd env st) = r_reason st"
  "r_status (insertNodeLog env n st) = r_status st" "r_reason (insertNodeLog env n st) = r_reason st"
  "r_status (updateNodeLog env n b e st) = r_status st" "r_reason (updateNodeLog env n b e st) = r_reason st"
  "r_status (snd (returnToParentFlow st)) = r_status st" "r_reason (snd (returnToParentFlow st)) = r_reason st"
  by (auto simp: goto_node_def enter_subflow_def hangup_channel_def hangupAndWaitForSessionEnd_def insertNodeLog_def
      updateNodeLog_def returnToParentFlow_def Let_def split: prod.split option.split list.split)

lemma reason_updates [simp]:
  "reason_ok (goto_node k st) = reason_ok st" "reason_ok (enter_subflow f k n st) = reason_ok st"
  "reason_ok (hangup_channel env st) = reason_ok st" "reason_ok (hangupAndWaitForSessionEnd env st) = reason_ok st"
  "reason_ok (st\<lparr>r_lastNodeKey := k\<rparr>) = reason_ok st" "reason_ok (insertNodeLog env n st) = reason_ok st"
  "reason_ok (updateNodeLog env n b e st) = reason_ok st" "reason_ok (st\<lparr>r_session := s, r_world := w\<rparr>) = reason_ok st"
  "reason_ok (snd (returnToParentFlow st)) = reason_ok st"
  by (simp_all add: reason_ok_def status_updates)

lemma return_or_reason:
  "reason_ok st \<Longrightarrow> (\<And>s. reason_ok s \<Longrightarrow> reason_ok (finish s)) \<Longrightarrow> reason_ok (out_state (return_or finish st))"
  using reason_updates(9) [of st] by (auto simp: return_or_def simp del: reason_updates(9) split: prod.split bool.split)

lemma side_effects_reason: "fireWebhookSideEffects env k st = Some st' \<Longrightarrow> reason_ok st \<Longrightarrow> reason_ok st'"
  by (auto simp: fireWebhookSideEffects_def Let_def reason_ok_def dest!: fire_targets_frame)

lemma webhook_reason: "fireWebhookAsync env wn n st = Some st' \<Longrightarrow> reason_ok st \<Longrightarrow> reason_ok st'"
  by (simp add: reason_ok_def fireWebhookAsync_frame)

lemma no_edge_reason: "reason_ok st \<Longrightarrow> reason_ok (out_state (no_edge env node r st))"
  by (auto simp: no_edge_def Let_def intro: return_or_reason)

lemma menu_reason: "reason_ok st \<Longrightarrow> reason_ok (out_state (menu_without_edge env node r st))"
  by (auto simp: menu_without_edge_def with_db_def enter_branch_subflow_def enter_submenu_target_def no_edge_reason
      split: option.split)

lemma follow_reason: "reason_ok st \<Longrightarrow> reason_ok (out_state (follow_edge env node e st))"
  by (auto simp: follow_edge_def with_db_def Let_def split: option.split intro: return_or_reason)

lemma route_result_reason: "reason_ok st \<Longrightarrow> reason_ok (out_state (route_result env node r st))"
  by (auto simp: route_result_def finish_call_def Let_def split: option.split
      intro: return_or_reason follow_reason menu_reason no_edge_reason side_effects_reason)

lemma route_completed_reason: "reason_ok st \<Longrightarrow> reason_ok (out_state (route_completed env node st))"
  by (auto simp: route_completed_def Let_def route_result_reason split: option.split intro: webhook_reason)

lemma execute_logged_reason:
  assumes "never_rejects env" and "reason_ok st"
  shows "reason_ok (snd (execute_logged env node st))"
proof -
  let ?st1 = "insertNodeLog env node st"
  obtain r s w where "env_exec env node (r_session ?st1) (r_world ?st1) = (Inr r, s, w)"
    using assms(1) unfolding never_rejects_def by blast
  then show ?thesis using assms(2) by (simp add: execute_logged_def Let_def split: prod.split)
qed

lemma step_reason:
  assumes "never_rejects env" and "reason_ok st"
  shows "reason_ok (out_state (step env st))"
proof -
  let ?st = "st\<lparr>r_lastNodeKey := s_currentNodeKey (r_session st)\<rparr>"
  have ok: "reason_ok ?st" using assms(2) by simp
  show ?thesis
  proof (cases "find_node (s_flow (r_session st)) (s_currentNodeKey (r_session st))")
    case None
    then show ?thesis using return_or_reason [OF ok] by (simp add: step_def Let_def)
  next
    case (Some node)
    obtain result st1 where x: "execute_logged env node ?st = (result, st1)" by (metis prod.exhaust)
    then have "reason_ok st1" using execute_logged_reason [OF assms(1) ok, of node] by simp
    with Some x show ?thesis
      by (simp add: step_def Let_def route_result_reason route_completed_reason)
  qed
qed

section \<open>Routing inside a closed graph\<close>

definition closed_flow :: "flow \<Rightarrow> bool" where
  "closed_flow flow \<longleftrightarrow> list_all (\<lambda>e. find_node flow (e_target e) \<noteq> None) (f_edges flow)"

lemma edge_or_Some: "edge_or a b = Some e \<Longrightarrow> a = Some e \<or> b = Some e"
  by (auto simp: edge_or_def split: option.splits)

lemma resolveNextEdge_mem:
  "resolveNextEdge k t r es = Some e \<Longrightarrow> e \<in> set es \<and> e_source e = k"
  by (auto simp: resolveNextEdge_def resolveGetDigitsEdge_def Let_def split: if_splits
      dest!: edge_or_Some find_Some_iff')

lemma routing_edge_mem:
  "resolveNextEdge k t r (getRoutingEdgesExcludingWebhookTargets k' flow) = Some e \<Longrightarrow>
     e \<in> set (f_edges flow) \<and> e_source e = k"
  by (auto simp: getRoutingEdgesExcludingWebhookTargets_def dest!: resolveNextEdge_mem)

lemma find_node_key: "find_node flow k = Some n \<Longrightarrow> n_key n = k \<and> n \<in> set (f_nodes flow)"
  by (auto simp: find_node_def dest: find_Some_iff')

lemma follow_edge_closed:
  assumes "closed_flow (s_flow (r_session st))" and "e \<in> set (f_edges (s_flow (r_session st)))"
  shows "follow_edge env node e st = Continue (goto_node (e_target e) st)"
proof -
  obtain n where n: "find_node (s_flow (r_session st)) (e_target e) = Some n"
    using assms by (auto simp: closed_flow_def list_all_iff)
  with find_node_key [OF n] show ?thesis by (simp add: follow_edge_def)
qed

section \<open>Termination\<close>

text \<open>A flow without menus in which every edge leads to a smaller rank.\<close>

definition ranked :: "(string \<Rightarrow> nat) \<Rightarrow> flow \<Rightarrow> bool" where
  "ranked rank flow \<longleftrightarrow> list_all (\<lambda>e. rank (e_target e) < rank (e_source e)) (f_edges flow)
     \<and> list_all (\<lambda>n. n_type n \<noteq> ''menu'') (f_nodes flow)"

definition no_jumps :: "'w env \<Rightarrow> bool" where
  "no_jumps env \<longleftrightarrow> (\<forall>n s w r s' w'. env_exec env n s w = (Inr r, s', w') \<longrightarrow> \<not> starts_with ''route:'' r)"

lemma execute_logged_frame:
  assumes "exec_frame env" and "execute_logged env node st = (result, st')"
  shows "s_flow (r_session st') = s_flow (r_session st)" "s_currentNodeKey (r_session st') = s_currentNodeKey (r_session st)"
    "r_stack st' = r_stack st" and "no_jumps env \<Longrightarrow> \<not> starts_with ''route:'' result"
proof -
  let ?st1 = "insertNodeLog env node st"
  obtain r s w where x: "env_exec env node (r_session ?st1) (r_world ?st1) = (r, s, w)" by (metis prod.exhaust)
  have stack: "r_stack (updateNodeLog env node b e s1) = r_stack s1" "r_stack ?st1 = r_stack st" for b e s1
    by (auto simp: updateNodeLog_def insertNodeLog_def Let_def split: prod.split)
  show "s_flow (r_session st') = s_flow (r_session st)" "s_currentNodeKey (r_session st') = s_currentNodeKey (r_session st)"
    "r_stack st' = r_stack st"
    using assms(2) x exec_frameD [OF assms(1) x] stack
    by (auto simp: execute_logged_def fail_with_def Let_def split: sum.splits prod.splits dest: consume_frame)
  have "r = Inr result \<or> result = ''hangup''"
    using assms(2) x by (auto simp: execute_logged_def Let_def split: sum.splits prod.splits)
  then show "\<not> starts_with ''route:'' result" if "no_jumps env"
    using that x unfolding no_jumps_def by (elim disjE) (blast, simp add: starts_with_def)
qed

lemma route_continue_smaller:
  assumes rk: "ranked rank flow" and fl: "s_flow (r_session st) = flow" "r_stack st = []" "s_currentNodeKey (r_session st) = n_key node"
    and mem: "node \<in> set (f_nodes flow)"
  shows "\<not> starts_with ''route:'' r \<Longrightarrow> route_result env node r st = Continue st' \<Longrightarrow>
      s_flow (r_session st') = flow \<and> r_stack st' = [] \<and> rank (s_currentNodeKey (r_session st')) < rank (n_key node)"
    and "route_completed env node st = Continue st' \<Longrightarrow>
      s_flow (r_session st') = flow \<and> r_stack st' = [] \<and> rank (s_currentNodeKey (r_session st')) < rank (n_key node)"
proof -
  have menu: "n_type node \<noteq> ''menu''" using rk mem by (auto simp: ranked_def list_all_iff)
  have less: "rank (e_target e) < rank (n_key node)" if "e \<in> set (f_edges flow)" "e_source e = n_key node" for e
    using rk that by (auto simp: ranked_def list_all_iff)
  show res: "s_flow (r_session st') = flow \<and> r_stack st' = [] \<and> rank (s_currentNodeKey (r_session st')) < rank (n_key node)"
    if nj: "\<not> starts_with ''route:'' r" and run: "route_result env node r st = Continue st'" for r
  proof -
    have nofin: "finish_call env st \<noteq> Continue st'"
      using fl(2) by (auto simp: finish_call_def hangup_channel_def Let_def split: prod.splits)
    obtain st1 where st1: "fireWebhookSideEffects env (n_key node) st = Some st1"
      using run nj nofin fl(3) by (auto simp: route_result_def Let_def split: if_splits option.splits)
    have fr: "r_session st1 = r_session st" "r_stack st1 = []"
      using st1 fl(2) by (auto simp: fireWebhookSideEffects_def Let_def dest!: fire_targets_frame)
    have none: "no_edge env node r st1 \<noteq> Continue st'"
      using fr by (auto simp: no_edge_def hangup_channel_def Let_def split: prod.splits if_splits)
    obtain e where e: "resolveNextEdge (n_key node) (n_type node) r (getRoutingEdgesExcludingWebhookTargets (n_key node) flow) = Some e"
      and go: "follow_edge env node e st1 = Continue st'"
      using run nj nofin fl st1 fr none menu by (auto simp: route_result_def Let_def split: if_splits option.splits)
    obtain n where "find_node flow (e_target e) = Some n" "st' = goto_node (n_key n) st1"
      using go menu fr fl by (auto simp: follow_edge_def Let_def split: option.splits if_splits)
    then show ?thesis using fr fl find_node_key [of flow "e_target e"] routing_edge_mem [OF e] less
      by (auto simp: goto_node_def)
  qed
  show "s_flow (r_session st') = flow \<and> r_stack st' = [] \<and> rank (s_currentNodeKey (r_session st')) < rank (n_key node)"
    if run: "route_completed env node st = Continue st'"
  proof (cases "resolveNextEdge (n_key node) (n_type node) ''done'' (getRoutingEdgesExcludingWebhookTargets (n_key node) flow)")
    case None
    then have "route_result env node ''done'' st = Continue st'"
      using run fl by (auto simp: route_completed_def Let_def split: option.splits)
    then show ?thesis using res [of "''done''"] by (simp add: starts_with_def)
  next
    case (Some e)
    then obtain n where "find_node flow (e_target e) = Some n" "st' = goto_node (n_key n) st"
      using run fl by (auto simp: route_completed_def Let_def split: option.splits)
    then show ?thesis using fl find_node_key [of flow "e_target e"] routing_edge_mem [OF Some] less
      by (auto simp: goto_node_def)
  qed
qed

lemma step_continue_smaller:
  assumes "ranked rank flow" and "exec_frame env" and "no_jumps env"
    and "s_flow (r_session st) = flow" "r_stack st = []" and "step env st = Continue st'"
  shows "s_flow (r_session st') = flow \<and> r_stack st' = []
    \<and> rank (s_currentNodeKey (r_session st')) < rank (s_currentNodeKey (r_session st))"
proof -
  let ?st = "st\<lparr>r_lastNodeKey := s_currentNodeKey (r_session st)\<rparr>"
  obtain node where node: "find_node flow (s_currentNodeKey (r_session st)) = Some node"
    using assms(4-6) by (auto simp: step_def return_or_def returnToParentFlow_def Let_def split: option.splits)
  obtain result st1 where x: "execute_logged env node ?st = (result, st1)" by (metis prod.exhaust)
  note fr = execute_logged_frame [OF assms(2) x]
  have key: "n_key node = s_currentNodeKey (r_session st)" "node \<in> set (f_nodes flow)" using find_node_key [OF node] by auto
  have "route_completed env node st1 = Continue st' \<or> route_result env node result st1 = Continue st'"
    using assms(4,6) node x by (auto simp: step_def Let_def split: if_splits)
  moreover have st1: "s_flow (r_session st1) = flow" "r_stack st1 = []" "s_currentNodeKey (r_session st1) = n_key node"
    using fr key assms(4,5) by simp_all
  ultimately show ?thesis
    using route_continue_smaller [OF assms(1) st1 key(2)] fr(4) [OF assms(3)] unfolding key(1) by blast
qed

lemma ranked_runs:
  assumes "ranked rank flow" and "exec_frame env" and "no_jumps env"
  shows "s_flow (r_session st) = flow \<Longrightarrow> r_stack st = [] \<Longrightarrow> \<exists>out. runs env st out"
proof (induction "rank (s_currentNodeKey (r_session st))" arbitrary: st rule: less_induct)
  case less
  show ?case
  proof (cases "step env st")
    case (Continue st')
    then obtain out where "runs env st' out"
      using less.hyps step_continue_smaller [OF assms less.prems Continue] by blast
    with Continue show ?thesis by (blast intro: run_continue)
  qed (blast intro: run_break run_raise)+
qed

end
