(* ===== verification/JsArith.thy ===== *)
theory JsArith
  imports JsValues
begin

text \<open>
  Arithmetic on JavaScript numbers as the executors use it: addition, \<open>>=\<close>, \<open>Math.max\<close>, rounding
  up, \<open>parseInt\<close>, and the fact that a counter stored with \<open>String(n)\<close> is read back by \<open>Number(s)\<close>.
\<close>

section \<open>Operations\<close>

fun num_add :: "number \<Rightarrow> number \<Rightarrow> number" where
  "num_add (Dec m e) (Dec m' e') =
     (let k = min e e' in mk_num (m * 10 ^ nat (e - k) + m' * 10 ^ nat (e' - k)) k)"
| "num_add (Dec m e) n = n"
| "num_add n (Dec m e) = n"
| "num_add PosInf PosInf = PosInf"
| "num_add NegInf NegInf = NegInf"
| "num_add _ _ = NaN"

fun num_le :: "number \<Rightarrow> number \<Rightarrow> bool" where
  "num_le (Dec m e) (Dec m' e') =
     (let k = min e e' in m * 10 ^ nat (e - k) \<le> m' * 10 ^ nat (e' - k))"
| "num_le NaN n = False"
| "num_le n NaN = False"
| "num_le NegInf n = True"
| "num_le n PosInf = True"
| "num_le n NegInf = False"
| "num_le PosInf n = False"

text \<open>\<open>Math.max(a, b)\<close>, and \<open>n || d\<close> for a number.\<close>

definition num_max :: "number \<Rightarrow> number \<Rightarrow> number" where
  "num_max a b = (if a = NaN \<or> b = NaN then NaN else if num_le a b then b else a)"

definition num_or :: "number \<Rightarrow> number \<Rightarrow> number" where
  "num_or n d = (if num_truthy n then n else d)"

section \<open>Normal forms\<close>

lemma norm_dec_form:
  "\<exists>m' e'. norm_dec m e = Dec m' e' \<and> (m' = 0 \<and> e' = 0 \<and> m = 0
     \<or> m' mod 10 \<noteq> 0 \<and> e \<le> e' \<and> m = m' * 10 ^ nat (e' - e))"
proof (induction m e rule: norm_dec.induct)
  case (1 m e)
  show ?case
  proof (cases "m = 0 \<or> m mod 10 \<noteq> 0")
    case True
    then show ?thesis by (auto simp: norm_dec.simps [of m e])
  next
    case False
    with 1 obtain m' e' where n: "norm_dec (m div 10) (e + 1) = Dec m' e'"
      and f: "m' = 0 \<and> e' = 0 \<and> m div 10 = 0 \<or> m' mod 10 \<noteq> 0 \<and> e + 1 \<le> e' \<and> m div 10 = m' * 10 ^ nat (e' - (e + 1))"
      by blast
    have m: "m = 10 * (m div 10)" using False by (metis mod_div_mult_eq add_0 mult.commute)
    have "e + 1 \<le> e' \<Longrightarrow> nat (e' - e) = Suc (nat (e' - (e + 1)))" by simp
    moreover have "norm_dec m e = Dec m' e'" using n False by (simp add: norm_dec.simps [of m e])
    ultimately show ?thesis using f m False by auto
  qed
qed

lemma num_of_int_form:
  assumes "0 < i"
  obtains m e where "num_of_int i = Dec m e" "0 < m" "m mod 10 \<noteq> 0" "0 \<le> e" "i = m * 10 ^ nat e"
proof -
  obtain m e where "num_of_int i = Dec m e" "m mod 10 \<noteq> 0" "0 \<le> e" "i = m * 10 ^ nat e"
    using norm_dec_form [of i 0] assms by (auto simp: num_of_int_def)
  with assms show thesis by (intro that [of m e]) (auto simp: zero_less_mult_iff)
qed

lemma num_of_int_zero [simp]: "num_of_int 0 = Dec 0 0"
  by (simp add: num_of_int_def norm_dec.simps)

section \<open>Printing and reading\<close>

lemma digit_char_zero [simp]: "digit_char 0 = CHR ''0''"
  using char_of_char [of "CHR ''0''"] by (simp add: digit_char_def)

lemma show_nat_times_ten: "0 < n \<Longrightarrow> show_nat (10 * n) = show_nat n @ ''0''"
  by (subst show_nat.simps) simp

lemma show_nat_shift: "0 < m \<Longrightarrow> show_nat (m * 10 ^ k) = show_nat m @ replicate k (CHR ''0'')"
proof (induction k)
  case (Suc k)
  have e: "m * 10 ^ Suc k = 10 * (m * 10 ^ k)" by simp
  show ?case unfolding e using Suc show_nat_times_ten [of "m * 10 ^ k"]
    by (simp add: replicate_append_same)
qed simp

lemma length_show_nat: "n < 10 ^ k \<Longrightarrow> 0 < k \<Longrightarrow> length (show_nat n) \<le> k"
proof (induction k arbitrary: n)
  case (Suc k)
  show ?case
  proof (cases "n < 10")
    case False
    then have "0 < k" using Suc.prems by (cases k) auto
    with Suc False show ?thesis by (subst show_nat.simps) (simp add: less_mult_imp_div_less mult.commute)
  qed (simp add: show_nat.simps [of n])
qed simp

lemma num_to_string_nat:
  assumes "n < 10 ^ 21"
  shows "num_to_string (num_of_int (int n)) = show_nat n"
proof (cases "n = 0")
  case True
  then show ?thesis by (simp add: norm_dec.simps show_nat.simps)
next
  case False
  then obtain m e where d: "num_of_int (int n) = Dec m e" "0 < m" "m mod 10 \<noteq> 0" "0 \<le> e" "int n = m * 10 ^ nat e"
    using num_of_int_form [of "int n"] by auto
  have "n = nat m * 10 ^ nat e" using d(2,5) by (metis nat_int nat_mult_distrib nat_power_eq less_imp_le nat_numeral zero_le_numeral)
  then have sh: "show_nat n = show_nat (nat m) @ replicate (nat e) (CHR ''0'')" using show_nat_shift d(2) by simp
  have "length (show_nat n) \<le> 21" using length_show_nat [OF assms] by simp
  then have "int (length (show_nat (nat m))) + e \<le> 21" using sh d(4) by simp
  then have "dec_digits (show_nat (nat m)) e = show_nat n" using d(4) sh by (simp add: dec_digits_def Let_def)
  then show ?thesis using d by (simp add: norm_dec.simps [of m e])
qed

lemma string_to_number_nat:
  assumes "int n < double_limit"
  shows "string_to_number (show_nat n) = num_of_int (int n)"
proof -
  let ?s = "show_nat n"
  have dig: "\<forall>c \<in> set ?s. is_digit c" by (rule show_nat_digits)
  obtain c t where s: "?s = c # t" by (cases ?s) auto
  have c: "is_digit c" using dig s by simp
  have trim: "trim ?s = ?s" using dig digit_not_space by (blast intro: trim_id)
  have letters: "\<not> is_digit (CHR ''I'')" "\<not> is_digit (CHR ''+'')" "\<not> is_digit (CHR ''-'')"
    "\<not> is_digit (CHR ''x'')" "\<not> is_digit (CHR ''X'')" "\<not> is_digit (CHR ''o'')" "\<not> is_digit (CHR ''O'')"
    "\<not> is_digit (CHR ''b'')" "\<not> is_digit (CHR ''B'')" by (simp_all add: is_digit_def)
  have pre: "take 2 ?s \<noteq> [CHR ''0'', x]" if "\<not> is_digit x" for x
    using that dig by (metis in_set_takeD list.set_intros(1,2))
  have ends: "?s \<noteq> y # ys" if "\<not> is_digit y" for y ys using that c s by auto
  have tw: "takeWhile is_digit ?s = ?s" and dw: "dropWhile is_digit ?s = []" using dig by (simp_all add: takeWhile_eq_all_conv)
  have "parse_decimal ?s = Some (int n, 0)" unfolding parse_decimal_def tw dw by (simp add: Let_def)
  moreover have "mk_num (int n) 0 = num_of_int (int n)" using assms by (simp add: mk_num_def num_of_int_def)
  moreover have "hd ?s \<noteq> CHR ''-''" "hd ?s \<noteq> CHR ''+''" using c s letters by auto
  ultimately show ?thesis
    unfolding string_to_number_def Let_def trim using pre ends letters by simp
qed

lemma number_string_nat:
  assumes "n < 10 ^ 21"
  shows "string_to_number (num_to_string (num_of_int (int n))) = num_of_int (int n)"
proof -
  have "(10 :: int) ^ 21 \<le> double_limit" unfolding double_limit_def by simp
  moreover have "int n < 10 ^ 21" using assms by (metis of_nat_less_iff of_nat_numeral of_nat_power)
  ultimately show ?thesis using assms by (simp add: num_to_string_nat string_to_number_nat)
qed

section \<open>Order\<close>

text \<open>The comparison may be made at any exponent below both.\<close>

lemma num_le_scaled:
  assumes "k \<le> e" "k \<le> e'"
  shows "num_le (Dec m e) (Dec m' e') \<longleftrightarrow> m * 10 ^ nat (e - k) \<le> m' * 10 ^ nat (e' - k)"
proof -
  let ?j = "min e e'"
  have "nat (e - k) = nat (e - ?j) + nat (?j - k)" "nat (e' - k) = nat (e' - ?j) + nat (?j - k)" using assms by auto
  then have "m * 10 ^ nat (e - k) \<le> m' * 10 ^ nat (e' - k)
      \<longleftrightarrow> m * 10 ^ nat (e - ?j) * 10 ^ nat (?j - k) \<le> m' * 10 ^ nat (e' - ?j) * 10 ^ nat (?j - k)"
    by (simp only: power_add mult.assoc)
  also have "\<dots> \<longleftrightarrow> m * 10 ^ nat (e - ?j) \<le> m' * 10 ^ nat (e' - ?j)" by simp
  finally show ?thesis by (simp add: Let_def)
qed

lemma num_le_trans:
  assumes "num_le a b" and "num_le b c"
  shows "num_le a c"
proof (cases "\<exists>m e m' e' m'' e''. a = Dec m e \<and> b = Dec m' e' \<and> c = Dec m'' e''")
  case True
  then obtain m e m' e' m'' e'' where d: "a = Dec m e" "b = Dec m' e'" "c = Dec m'' e''" by blast
  let ?k = "min e (min e' e'')"
  have k: "?k \<le> e" "?k \<le> e'" "?k \<le> e''" by auto
  show ?thesis using assms unfolding d num_le_scaled [OF k(1,2)] num_le_scaled [OF k(2,3)] num_le_scaled [OF k(1,3)]
    by (rule order_trans)
next
  case False
  then show ?thesis using assms by (cases a; cases b; cases c) auto
qed

lemma num_le_of_int: "num_le (num_of_int i) (num_of_int j) \<longleftrightarrow> i \<le> j"
proof -
  obtain m e where i: "num_of_int i = Dec m e" "0 \<le> e" "i = m * 10 ^ nat e"
    using norm_dec_form [of i 0] by (auto simp: num_of_int_def)
  obtain m' e' where j: "num_of_int j = Dec m' e'" "0 \<le> e'" "j = m' * 10 ^ nat e'"
    using norm_dec_form [of j 0] by (auto simp: num_of_int_def)
  show ?thesis using i j by (simp add: num_le_scaled [of 0] del: num_le.simps)
qed

lemma num_add_one:
  assumes "0 \<le> i" and "i + 1 < double_limit"
  shows "num_add (num_of_int i) (Dec 1 0) = num_of_int (i + 1)"
proof -
  obtain m e where "num_of_int i = Dec m e" "0 \<le> e" "i = m * 10 ^ nat e"
    using norm_dec_form [of i 0] by (auto simp: num_of_int_def)
  then show ?thesis using assms by (simp add: Let_def mk_num_def num_of_int_def)
qed

section \<open>Rounding up\<close>

text \<open>The least integer that is no smaller than a finite number.\<close>

fun num_ceiling :: "number \<Rightarrow> int" where
  "num_ceiling (Dec m e) = (if 0 \<le> e then m * 10 ^ nat e else - ((- m) div 10 ^ nat (- e)))"
| "num_ceiling _ = 0"

lemma le_mult_iff_ceiling: "(0::int) < b \<Longrightarrow> m \<le> i * b \<longleftrightarrow> - i \<le> (- m) div b"
  by (smt (verit) pos_imp_zdiv_nonneg_iff zdiv_mono1 nonzero_mult_div_cancel_right minus_mult_left div_mult_self1)

lemma num_le_ceiling:
  assumes "num_finite n"
  shows "num_le n (num_of_int i) \<longleftrightarrow> num_ceiling n \<le> i"
proof -
  obtain m e where n: "n = Dec m e" using assms by (cases n) auto
  obtain m' e' where i: "num_of_int i = Dec m' e'" "0 \<le> e'" "i = m' * 10 ^ nat e'"
    using norm_dec_form [of i 0] by (auto simp: num_of_int_def)
  show ?thesis
  proof (cases "0 \<le> e")
    case True
    then show ?thesis using n i by (simp add: num_le_scaled [of 0] del: num_le.simps)
  next
    case False
    have "nat (e' - e) = nat e' + nat (- e)" using False i(2) by simp
    then have s: "m' * 10 ^ nat (e' - e) = i * 10 ^ nat (- e)" using i(3) by (simp add: power_add)
    have "num_le n (num_of_int i) \<longleftrightarrow> m \<le> m' * 10 ^ nat (e' - e)"
      unfolding n i(1) using False i(2) num_le_scaled [of e e e' m m'] by simp
    then have "num_le n (num_of_int i) \<longleftrightarrow> m \<le> i * 10 ^ nat (- e)" by (simp only: s)
    also have "\<dots> \<longleftrightarrow> - i \<le> (- m) div 10 ^ nat (- e)"
      by (rule le_mult_iff_ceiling) simp
    finally show ?thesis using n False by auto
  qed
qed

section \<open>Reading an integer\<close>

text \<open>\<open>parseInt(text, 10)\<close>.\<close>

definition js_parse_int :: "string \<Rightarrow> number" where
  "js_parse_int text =
     (let t = dropWhile is_space text;
          negative = (t \<noteq> [] \<and> hd t = CHR ''-'');
          body = (if t \<noteq> [] \<and> (hd t = CHR ''-'' \<or> hd t = CHR ''+'') then tl t else t);
          digits = takeWhile is_digit body in
      if digits = [] then NaN else mk_num (if negative then - int (read_nat digits) else int (read_nat digits)) 0)"

end
