(* ===== verification/DigitCollection.thy ===== *)
theory DigitCollection
  imports CallModel JsArith
begin

text \<open>
  Collecting DTMF: \<open>executeGetDigits\<close> of \<open>nodes/index.ts\<close> and \<open>executors/menu.executor.ts\<close>, with
  \<open>audioResolver.ts\<close>.  A collector is the closure of one \<open>new Promise(...)\<close>; the ARI events and
  timers that reach its listeners are a list of events, one call of a listener each.  Removing the
  listeners and clearing the timers makes every later event a no-op.
\<close>

section \<open>Prompts\<close>

datatype playback_target = ChannelTarget | BridgeTarget string

definition getPlaybackTarget :: "session \<Rightarrow> playback_target" where
  "getPlaybackTarget s = (case s_inboundBridge s of Some b \<Rightarrow> BridgeTarget b | None \<Rightarrow> ChannelTarget)"

datatype collect_event =
    Dtmf "string option" "string option"
  | ChannelGone "string option"
  | PromptFinished
  | TimerFires
  | InterDigitFires

text \<open>
  What the executors ask of the rest of the system: the \<open>storage_path_converted\<close> of a ready audio
  file (or the message of a rejected query), starting a playback, and the events seen by the next
  attempt before and after its prompt is requested.
\<close>

record 'w media_env =
  md_audio :: "'w \<Rightarrow> number \<Rightarrow> string + string option"
  md_play :: "playback_target \<Rightarrow> string \<Rightarrow> 'w \<Rightarrow> (string + unit) \<times> 'w"
  md_events :: "rt_node \<Rightarrow> 'w \<Rightarrow> (collect_event list \<times> collect_event list) \<times> 'w"

definition last_segment :: "string \<Rightarrow> string" where
  "last_segment p = rev (takeWhile (\<lambda>c. c \<noteq> CHR ''/'') (rev p))"

definition drop_extension :: "string \<Rightarrow> string" where
  "drop_extension f =
     (let ext = takeWhile (\<lambda>c. c \<noteq> CHR ''.'') (rev f) in
      if ext \<noteq> [] \<and> length ext < length f then rev (drop (Suc (length ext)) (rev f)) else f)"

definition toAsteriskSoundPath :: "string \<Rightarrow> string" where
  "toAsteriskSoundPath storagePathConverted = ''callytics/'' @ drop_extension (last_segment storagePathConverted)"

definition resolveAudioMediaPath :: "'w media_env \<Rightarrow> 'w \<Rightarrow> config \<Rightarrow> string \<Rightarrow> string \<Rightarrow> string + string option" where
  "resolveAudioMediaPath md w config idField pathField =
     (let audioId = num_or_zero (obj_get config idField);
          rawPath = str_trim (obj_get config pathField);
          fallback = (if rawPath = [] then None else Some rawPath) in
      if num_pos audioId
      then (case md_audio md w audioId of
              Inl msg \<Rightarrow> Inl msg
            | Inr path \<Rightarrow> if text_or_empty path = [] then Inr fallback
                          else Inr (Some (toAsteriskSoundPath (text_or_empty path))))
      else Inr fallback)"

section \<open>Collectors\<close>

text \<open>
  The variables of the closure.  \<open>col_promise\<close> is the promise: \<open>Inr\<close> resolved, \<open>Inl\<close> rejected; \<open>reject\<close>
  neither sets \<open>finished\<close> nor removes a listener.
\<close>

record collector =
  col_promise :: "(string + string) option"
  col_finished :: bool
  col_timer :: bool
  col_inter :: bool
  col_playing :: bool
  col_digits :: string
  col_session :: session

definition new_collector :: "bool \<Rightarrow> session \<Rightarrow> collector" where
  "new_collector armed s =
     \<lparr>col_promise = None, col_finished = False, col_timer = armed, col_inter = False, col_playing = False,
      col_digits = [], col_session = s\<rparr>"

definition settle_promise :: "string + string \<Rightarrow> collector \<Rightarrow> collector" where
  "settle_promise r c = (case col_promise c of None \<Rightarrow> c\<lparr>col_promise := Some r\<rparr> | Some _ \<Rightarrow> c)"

definition cleanup :: "collector \<Rightarrow> collector" where
  "cleanup c = c\<lparr>col_finished := True, col_timer := False, col_inter := False, col_playing := False\<rparr>"

definition all_digits :: "string \<Rightarrow> bool" where
  "all_digits s \<longleftrightarrow> s \<noteq> [] \<and> list_all is_digit s"

definition two_digits :: "string \<Rightarrow> bool" where
  "two_digits s \<longleftrightarrow> length s = 2 \<and> list_all is_digit s"

definition one_digit :: "string \<Rightarrow> bool" where
  "one_digit s \<longleftrightarrow> length s = 1 \<and> list_all is_digit s"

text \<open>\<open>event.channel?.id && event.channel.id !== channel.id\<close>.\<close>

definition other_channel :: "string \<Rightarrow> string option \<Rightarrow> bool" where
  "other_channel ch evc \<longleftrightarrow> text_or_empty evc \<noteq> [] \<and> evc \<noteq> Some ch"

subsection \<open>executeGetDigits\<close>

definition hasDoubleDigitCondition :: "rt_node \<Rightarrow> session \<Rightarrow> bool" where
  "hasDoubleDigitCondition node s \<longleftrightarrow>
     list_ex (\<lambda>e. e_source e = n_key node \<and> two_digits (text_or_empty (e_condition e))) (f_edges (s_flow s))"

definition getDigits_settle :: "rt_node \<Rightarrow> string \<Rightarrow> collector \<Rightarrow> collector" where
  "getDigits_settle node v c =
     (if col_finished c then c
      else let variableName = str_trim (obj_get (n_config node) ''variable_name'');
               c1 = cleanup c;
               c2 = (if variableName \<noteq> [] \<and> all_digits v
                     then c1\<lparr>col_session := set_var variableName v (col_session c1)\<rparr> else c1)
           in settle_promise (Inr v) c2)"

fun getDigits_event :: "bool \<Rightarrow> string \<Rightarrow> rt_node \<Rightarrow> collect_event \<Rightarrow> collector \<Rightarrow> collector" where
  "getDigits_event double ch node (Dtmf evc d) c =
     (if col_finished c \<or> other_channel ch evc then c
      else let digit = trim (text_or_empty d) in
        if digit = [] then c
        else if \<not> double \<or> \<not> one_digit digit then getDigits_settle node digit c
        else let c1 = c\<lparr>col_digits := col_digits c @ digit\<rparr> in
          if 2 \<le> length (col_digits c1) then getDigits_settle node (take 2 (col_digits c1)) c1
          else c1\<lparr>col_inter := True\<rparr>)"
| "getDigits_event double ch node (ChannelGone evc) c =
     (if col_finished c \<or> evc \<noteq> Some ch then c else getDigits_settle node ''hangup'' c)"
| "getDigits_event double ch node PromptFinished c = c"
| "getDigits_event double ch node TimerFires c =
     (if col_timer c then getDigits_settle node ''timeout'' c else c)"
| "getDigits_event double ch node InterDigitFires c =
     (if col_inter c then getDigits_settle node (col_digits c) c else c)"

text \<open>
  The whole executor: the promise after the events that reach it, \<open>None\<close> while it is pending.
\<close>

definition executeGetDigits :: "'w media_env \<Rightarrow> rt_node \<Rightarrow> session \<Rightarrow> 'w \<Rightarrow> ((string + string) \<times> session \<times> 'w) option" where
  "executeGetDigits md node s w =
     (case resolveAudioMediaPath md w (n_config node) ''prompt_audio_file_id'' ''prompt_path'' of
        Inl msg \<Rightarrow> Some (Inl msg, s, w)
      | Inr promptPath \<Rightarrow>
        (let c0 = new_collector True s;
             (played, w1) = (case promptPath of
                None \<Rightarrow> (Inr (), w)
              | Some p \<Rightarrow> md_play md (getPlaybackTarget s) (''sound:'' @ p) w);
             c1 = (case played of Inl msg \<Rightarrow> settle_promise (Inl msg) c0 | Inr _ \<Rightarrow> c0);
             ((before, after), w2) = md_events md node w1;
             c = fold (getDigits_event (hasDoubleDigitCondition node s) (s_channelId s) node) (before @ after) c1
         in map_option (\<lambda>r. (r, col_session c, w2)) (col_promise c)))"

subsection \<open>collectMenuAttempt\<close>

definition configured_branches :: "rt_node \<Rightarrow> string list" where
  "configured_branches node =
     (case obj_get (n_config node) ''branches'' of
        Some (JArr xs) \<Rightarrow> map (\<lambda>v. str_trim (Some v)) xs
      | _ \<Rightarrow> [])"

definition resolveMenuDigit :: "rt_node \<Rightarrow> string \<Rightarrow> string" where
  "resolveMenuDigit node rawDigit =
     (if rawDigit \<in> set (filter (\<lambda>b. b \<noteq> []) (configured_branches node)) then rawDigit else ''invalid'')"

definition hasDoubleDigitMenuBranch :: "rt_node \<Rightarrow> bool" where
  "hasDoubleDigitMenuBranch node = list_ex two_digits (configured_branches node)"

definition menu_settle :: "string \<Rightarrow> collector \<Rightarrow> collector" where
  "menu_settle v c = (if col_finished c then c else settle_promise (Inr v) (cleanup c))"

definition armTimeout :: "collector \<Rightarrow> collector" where
  "armTimeout c = (if col_finished c \<or> col_timer c then c else c\<lparr>col_timer := True\<rparr>)"

fun menu_event :: "bool \<Rightarrow> string \<Rightarrow> rt_node \<Rightarrow> collect_event \<Rightarrow> collector \<Rightarrow> collector" where
  "menu_event double ch node (Dtmf evc d) c =
     (if col_finished c \<or> other_channel ch evc then c
      else let rawDigit = text_or_empty d in
        if \<not> double \<or> \<not> one_digit rawDigit then menu_settle (resolveMenuDigit node rawDigit) c
        else let c1 = c\<lparr>col_digits := col_digits c @ rawDigit\<rparr> in
          if 2 \<le> length (col_digits c1) then menu_settle (resolveMenuDigit node (take 2 (col_digits c1))) c1
          else c1\<lparr>col_inter := True\<rparr>)"
| "menu_event double ch node (ChannelGone evc) c =
     (if col_finished c \<or> evc \<noteq> Some ch then c else menu_settle ''hangup'' c)"
| "menu_event double ch node PromptFinished c = (if col_playing c then armTimeout c else c)"
| "menu_event double ch node TimerFires c = (if col_timer c then menu_settle ''timeout'' c else c)"
| "menu_event double ch node InterDigitFires c =
     (if col_inter c then menu_settle (resolveMenuDigit node (col_digits c)) c else c)"

text \<open>The prompt is looked up while the listeners are already registered.\<close>

definition menu_prompt :: "'w media_env \<Rightarrow> rt_node \<Rightarrow> collector \<Rightarrow> 'w \<Rightarrow> collector \<times> 'w" where
  "menu_prompt md node c w =
     (case resolveAudioMediaPath md w (n_config node) ''prompt_audio_file_id'' ''prompt_path'' of
        Inl msg \<Rightarrow> (settle_promise (Inl msg) c, w)
      | Inr None \<Rightarrow> (armTimeout c, w)
      | Inr (Some p) \<Rightarrow>
          (case md_play md (getPlaybackTarget (col_session c)) (''sound:'' @ p) w of
             (Inl msg, w1) \<Rightarrow> (settle_promise (Inl msg) (c\<lparr>col_playing := True\<rparr>), w1)
           | (Inr _, w1) \<Rightarrow> (c\<lparr>col_playing := True\<rparr>, w1)))"

definition collectMenuAttempt :: "'w media_env \<Rightarrow> rt_node \<Rightarrow> session \<Rightarrow> 'w \<Rightarrow> ((string + string) \<times> 'w) option" where
  "collectMenuAttempt md node s w =
     (let ((before, after), w1) = md_events md node w;
          handle = menu_event (hasDoubleDigitMenuBranch node) (s_channelId s) node;
          c1 = fold handle before (new_collector False s);
          (c2, w2) = menu_prompt md node c1 w1;
          c3 = fold handle after c2
      in map_option (\<lambda>r. (r, w2)) (col_promise c3))"

subsection \<open>executeMenu\<close>

definition getCounterKey :: "session \<Rightarrow> rt_node \<Rightarrow> string \<Rightarrow> string" where
  "getCounterKey s node kind = ''menu:'' @ show_int (f_id (s_flow s)) @ '':'' @ n_key node @ '':'' @ kind @ ''_count''"

definition getCounter :: "session \<Rightarrow> rt_node \<Rightarrow> string \<Rightarrow> number" where
  "getCounter s node kind =
     (let v = text_or_empty (get_var s (getCounterKey s node kind)) in
      if v = [] then Dec 0 0 else string_to_number v)"

definition setCounter :: "rt_node \<Rightarrow> string \<Rightarrow> number \<Rightarrow> session \<Rightarrow> session" where
  "setCounter node kind v s = set_var (getCounterKey s node kind) (num_to_string v) s"

definition clearCounters :: "rt_node \<Rightarrow> session \<Rightarrow> session" where
  "clearCounters node s =
     del_var (getCounterKey s node ''invalid'') (del_var (getCounterKey s node ''timeout'') s)"

definition playResolvedPrompt :: "'w media_env \<Rightarrow> session \<Rightarrow> config \<Rightarrow> string \<Rightarrow> string \<Rightarrow> 'w \<Rightarrow> (string + unit) \<times> 'w" where
  "playResolvedPrompt md s config idField pathField w =
     (case resolveAudioMediaPath md w config idField pathField of
        Inl msg \<Rightarrow> (Inl msg, w)
      | Inr None \<Rightarrow> (Inr (), w)
      | Inr (Some p) \<Rightarrow> md_play md (getPlaybackTarget s) (''sound:'' @ p) w)"

definition max_attempts :: "rt_node \<Rightarrow> string \<Rightarrow> number" where
  "max_attempts node field = num_max (Dec 1 0) (num_or (js_number (obj_get (n_config node) field)) (Dec 3 0))"

text \<open>What the loop body does with an attempt that timed out or was invalid: retry, or give up.\<close>

datatype 'w menu_step = Retry session 'w | Return "string + string" session 'w

definition failed_attempt :: "'w media_env \<Rightarrow> rt_node \<Rightarrow> string \<Rightarrow> number \<Rightarrow> string \<Rightarrow> string \<Rightarrow> session \<Rightarrow> 'w \<Rightarrow> 'w menu_step" where
  "failed_attempt md node kind maxAttempts idField pathField s w =
     (let nextCount = num_add (getCounter s node kind) (Dec 1 0);
          s1 = setCounter node kind nextCount s in
      if num_le maxAttempts nextCount
      then (case playResolvedPrompt md s1 (n_config node) ''final_failure_audio_id'' ''final_failure_path'' w of
              (Inl msg, w1) \<Rightarrow> Return (Inl msg) s1 w1
            | (Inr _, w1) \<Rightarrow> Return (Inr ''hangup'') (clearCounters node s1) w1)
      else (case playResolvedPrompt md s1 (n_config node) idField pathField w of
              (Inl msg, w1) \<Rightarrow> Return (Inl msg) s1 w1
            | (Inr _, w1) \<Rightarrow> Retry s1 w1))"

definition menu_round :: "'w media_env \<Rightarrow> rt_node \<Rightarrow> session \<Rightarrow> 'w \<Rightarrow> 'w menu_step option" where
  "menu_round md node s w =
     map_option (\<lambda>(result, w1).
       case result of
         Inl msg \<Rightarrow> Return (Inl msg) s w1
       | Inr r \<Rightarrow>
         if r = ''hangup'' then Return (Inr ''hangup'') (clearCounters node s) w1
         else if r = ''timeout'' then failed_attempt md node ''timeout'' (max_attempts node ''max_timeout_attempts'')
                ''timeout_prompt_audio_id'' ''timeout_prompt_path'' s w1
         else if r = ''invalid'' then failed_attempt md node ''invalid'' (max_attempts node ''max_invalid_attempts'')
                ''invalid_prompt_audio_id'' ''invalid_prompt_path'' s w1
         else Return (Inr r) (clearCounters node s) w1)
       (collectMenuAttempt md node s w)"

text \<open>\<open>None\<close>: an attempt stays pending for ever, or the attempts never end.\<close>

partial_function (option) executeMenu :: "'w media_env \<Rightarrow> rt_node \<Rightarrow> session \<Rightarrow> 'w \<Rightarrow> ((string + string) \<times> session \<times> 'w) option" where
  "executeMenu md node s w =
     Option.bind (menu_round md node s w) (\<lambda>step.
       case step of Return r s' w' \<Rightarrow> Some (r, s', w') | Retry s' w' \<Rightarrow> executeMenu md node s' w')"

end
