(* ===== verification/DigitLaws.thy ===== *)
theory DigitLaws
  imports DigitCollection
begin

text \<open>
  Laws of the digit collectors: a promise settles once and for all, what it settles with, that a
  collector with an armed timer does settle, and that the retry loop of a menu ends.
\<close>

section \<open>Machines that settle once\<close>

locale one_shot =
  fixes handle :: "'e \<Rightarrow> 's \<Rightarrow> 's"
    and outcome_of :: "'s \<Rightarrow> 'r option"
  assumes settled_once: "outcome_of s = Some r \<Longrightarrow> outcome_of (handle e s) = Some r"
begin

lemma run_settled: "outcome_of s = Some r \<Longrightarrow> outcome_of (fold handle es s) = Some r"
  by (induction es arbitrary: s) (auto simp: settled_once)

lemma run_append: "outcome_of (fold handle es s) = Some r \<Longrightarrow> outcome_of (fold handle (es @ fs) s) = Some r"
  by (simp add: run_settled)

lemma run_pending: "outcome_of (fold handle (es @ fs) s) = None \<Longrightarrow> outcome_of (fold handle es s) = None"
  by (metis run_append not_None_eq)

text \<open>An event that settles whatever pending state satisfies \<open>P\<close>, an invariant while pending, settles every run it is in.\<close>

lemma run_settles:
  assumes "e \<in> set es" and "P s"
    and keep: "\<And>s e. P s \<Longrightarrow> outcome_of (handle e s) = None \<Longrightarrow> P (handle e s)"
    and last: "\<And>s. P s \<Longrightarrow> outcome_of (handle e s) \<noteq> None"
  shows "outcome_of (fold handle es s) \<noteq> None"
  using assms(1,2)
proof (induction es arbitrary: s)
  case (Cons x xs)
  show ?case
  proof (cases "outcome_of (handle x s)")
    case None
    with Cons.prems(2) last have "e \<noteq> x" by metis
    then show ?thesis using Cons None keep by simp
  qed (simp add: run_settled)
qed simp

end

lemma settle_promise_once: "col_promise c = Some r \<Longrightarrow> col_promise (settle_promise x c) = Some r"
  by (simp add: settle_promise_def)

lemma settle_promise_fields [simp]:
  "col_finished (settle_promise x c) = col_finished c" "col_session (settle_promise x c) = col_session c"
  "col_timer (settle_promise x c) = col_timer c" "col_inter (settle_promise x c) = col_inter c"
  "col_digits (settle_promise x c) = col_digits c" "col_promise (settle_promise x c) \<noteq> None"
  by (simp_all add: settle_promise_def split: option.split)

lemma cleanup_fields [simp]:
  "col_finished (cleanup c)" "\<not> col_timer (cleanup c)" "\<not> col_inter (cleanup c)"
  "col_promise (cleanup c) = col_promise c" "col_session (cleanup c) = col_session c"
  by (simp_all add: cleanup_def)

lemma settle_once:
  "col_promise c = Some r \<Longrightarrow> col_promise (getDigits_settle node v c) = Some r"
  "col_promise c = Some r \<Longrightarrow> col_promise (menu_settle v c) = Some r"
  by (simp_all add: getDigits_settle_def menu_settle_def Let_def settle_promise_once)

lemma settle_settles:
  "\<not> col_finished c \<Longrightarrow> col_promise (getDigits_settle node v c) \<noteq> None"
  "\<not> col_finished c \<Longrightarrow> col_promise (menu_settle v c) \<noteq> None"
  by (simp_all add: getDigits_settle_def menu_settle_def Let_def)

lemma getDigits_once: "col_promise c = Some r \<Longrightarrow> col_promise (getDigits_event double ch node e c) = Some r"
  by (cases e) (auto simp: Let_def settle_once)

lemma menu_once: "col_promise c = Some r \<Longrightarrow> col_promise (menu_event double ch node e c) = Some r"
  by (cases e) (auto simp: Let_def settle_once armTimeout_def)

interpretation digits: one_shot "getDigits_event double ch node" col_promise for double ch node
  by unfold_locales (rule getDigits_once)

interpretation menu: one_shot "menu_event double ch node" col_promise for double ch node
  by unfold_locales (rule menu_once)

section \<open>executeGetDigits\<close>

text \<open>While the promise is pending the collector listens, its timer runs and the session is untouched.\<close>

definition waiting :: "session \<Rightarrow> collector \<Rightarrow> bool" where
  "waiting s c \<longleftrightarrow> col_promise c = None \<and> \<not> col_finished c \<and> col_timer c \<and> col_session c = s \<and> length (col_digits c) \<le> 1
     \<and> list_all is_digit (col_digits c) \<and> (col_inter c \<longrightarrow> col_digits c \<noteq> [])"

lemma waiting_new [simp]: "waiting s (new_collector True s)"
  by (simp add: waiting_def new_collector_def)

text \<open>What the executor may resolve with, and the session it leaves.\<close>

definition digits_session :: "rt_node \<Rightarrow> string \<Rightarrow> session \<Rightarrow> session" where
  "digits_session node v s =
     (let variableName = str_trim (obj_get (n_config node) ''variable_name'') in
      if variableName \<noteq> [] \<and> all_digits v then set_var variableName v s else s)"

definition collected :: "rt_node \<Rightarrow> session \<Rightarrow> collector \<Rightarrow> bool" where
  "collected node s c \<longleftrightarrow> col_finished c \<and>
     (\<exists>v. col_promise c = Some (Inr v) \<and> v \<noteq> [] \<and> col_session c = digits_session node v s)"

lemma settle_collected:
  "waiting s c \<Longrightarrow> v \<noteq> [] \<Longrightarrow> collected node s (getDigits_settle node v c)"
  by (auto simp: waiting_def collected_def getDigits_settle_def digits_session_def Let_def settle_promise_def cleanup_def)

lemma collected_event: "collected node s c \<Longrightarrow> \<not> col_timer c \<Longrightarrow> \<not> col_inter c \<Longrightarrow> getDigits_event double ch node e c = c"
  by (cases e) (auto simp: collected_def)

lemma settle_timers: "\<not> col_finished c \<Longrightarrow> \<not> col_timer (getDigits_settle node v c) \<and> \<not> col_inter (getDigits_settle node v c)"
  by (simp add: getDigits_settle_def Let_def)

lemma getDigits_event_cases:
  assumes "waiting s c"
  shows "waiting s (getDigits_event double ch node e c)
    \<or> collected node s (getDigits_event double ch node e c) \<and> \<not> col_timer (getDigits_event double ch node e c)
      \<and> \<not> col_inter (getDigits_event double ch node e c)"
proof -
  have st: "collected node s (getDigits_settle node v c') \<and> \<not> col_timer (getDigits_settle node v c') \<and> \<not> col_inter (getDigits_settle node v c')"
    if "waiting s c'" "v \<noteq> []" for v c'
    using settle_collected [OF that] settle_timers that(1) unfolding waiting_def by blast
  show ?thesis
  proof (cases e)
    case (Dtmf evc d)
    let ?d = "trim (text_or_empty d)" 
    have ev: "getDigits_event double ch node e c = (if col_finished c \<or> other_channel ch evc \<or> ?d = [] then c
        else if \<not> double \<or> \<not> one_digit ?d then getDigits_settle node ?d c
        else let c1 = c\<lparr>col_digits := col_digits c @ ?d\<rparr> in
          if 2 \<le> length (col_digits c1) then getDigits_settle node (take 2 (col_digits c1)) c1 else c1\<lparr>col_inter := True\<rparr>)"
      by (simp add: Dtmf Let_def)
    show ?thesis
    proof (cases "col_finished c \<or> other_channel ch evc \<or> ?d = []")
      case True
      then have "getDigits_event double ch node e c = c" using ev by simp
      then show ?thesis using assms by simp
    next
      case listening: False
      show ?thesis
      proof (cases "\<not> double \<or> \<not> one_digit ?d")
        case True
        then have "getDigits_event double ch node e c = getDigits_settle node ?d c" using ev listening by simp
        then show ?thesis using st [OF assms] listening by simp
      next
        case False
        then have ev': "getDigits_event double ch node e c = (let c1 = c\<lparr>col_digits := col_digits c @ ?d\<rparr> in
          if 2 \<le> length (col_digits c1) then getDigits_settle node (take 2 (col_digits c1)) c1 else c1\<lparr>col_inter := True\<rparr>)"
          using ev listening by simp
        show ?thesis
        proof (cases "col_digits c = []")
          case True
          then show ?thesis using ev' False assms listening by (simp add: waiting_def one_digit_def)
        next
          case second: False
          then have len: "2 \<le> length (col_digits c @ ?d)" using listening by (cases "col_digits c"; cases ?d) auto
          have "getDigits_settle node v (c\<lparr>col_digits := ds\<rparr>) = (getDigits_settle node v c)\<lparr>col_digits := ds\<rparr>" for v ds
            using assms by (simp add: waiting_def getDigits_settle_def Let_def cleanup_def settle_promise_def)
          then have "getDigits_event double ch node e c =
              (getDigits_settle node (take 2 (col_digits c @ ?d)) c)\<lparr>col_digits := col_digits c @ ?d\<rparr>"
            using ev' len by (simp add: Let_def)
          moreover have "take 2 (col_digits c @ ?d) \<noteq> []" using second by simp
          ultimately show ?thesis using st [OF assms] by (simp add: collected_def)
        qed
      qed
    qed
  next
    case (ChannelGone evc)
    then show ?thesis using assms st [OF assms, of "''hangup''"] by (cases "evc = Some ch") (auto simp: waiting_def)
  next
    case PromptFinished
    then show ?thesis using assms by simp
  next
    case TimerFires
    then show ?thesis using assms st [OF assms, of "''timeout''"] by (simp add: waiting_def)
  next
    case InterDigitFires
    then show ?thesis using assms st [OF assms, of "col_digits c"] by (cases "col_inter c") (auto simp: waiting_def)
  qed
qed

lemma getDigits_run:
  assumes "waiting s c"
  shows "waiting s (fold (getDigits_event double ch node) es c) \<or> collected node s (fold (getDigits_event double ch node) es c)"
proof -
  have stays: "fold (getDigits_event double ch node) xs c' = c'"
    if "collected node s c'" "\<not> col_timer c'" "\<not> col_inter c'" for xs c'
    using that by (induction xs) (simp_all add: collected_event)
  show ?thesis using assms
  proof (induction es arbitrary: c)
    case (Cons x xs)
    from getDigits_event_cases [OF Cons.prems, of double ch node x] show ?case
      using Cons.IH stays by auto
  qed simp
qed

lemma getDigits_timer_settles:
  assumes "waiting s c" and "TimerFires \<in> set es"
  shows "collected node s (fold (getDigits_event double ch node) es c)"
proof -
  have keep: "waiting s (getDigits_event double ch node e x)"
    if "waiting s x" "col_promise (getDigits_event double ch node e x) = None" for e x
    using getDigits_event_cases [OF that(1), of double ch node e] that(2) by (auto simp: collected_def)
  have "col_promise (fold (getDigits_event double ch node) es c) \<noteq> None"
    by (rule digits.run_settles [OF assms(2), of "waiting s"])
      (use assms(1) keep in \<open>auto simp: waiting_def settle_settles\<close>)
  with getDigits_run [OF assms(1), of double ch node es] show ?thesis by (auto simp: waiting_def)
qed

text \<open>
  Once the prompt has been requested, the timer fires or the promise settles before: the executor
  returns, with a timeout, a hangup or a key, and sets the configured variable to a numeric input.
\<close>

lemma executeGetDigits_returns:
  assumes prompt: "resolveAudioMediaPath md w (n_config node) ''prompt_audio_file_id'' ''prompt_path'' = Inr p"
    and play: "(case p of None \<Rightarrow> (Inr (), w) | Some q \<Rightarrow> md_play md (getPlaybackTarget s) (''sound:'' @ q) w) = (Inr u, w1)"
    and evs: "md_events md node w1 = ((before, after), w2)" and timer: "TimerFires \<in> set (before @ after)"
  shows "\<exists>v. v \<noteq> [] \<and> executeGetDigits md node s w = Some (Inr v, digits_session node v s, w2)"
  using getDigits_timer_settles [OF waiting_new timer, of node s "hasDoubleDigitCondition node s" "s_channelId s"] play evs
  by (auto simp: executeGetDigits_def prompt collected_def)

section \<open>executeMenu\<close>

subsection \<open>One attempt\<close>

text \<open>What an attempt resolves with.\<close>

definition menu_answer :: "rt_node \<Rightarrow> string \<Rightarrow> bool" where
  "menu_answer node v \<longleftrightarrow> v \<in> {''timeout'', ''hangup'', ''invalid''} \<or> v \<noteq> [] \<and> v \<in> set (configured_branches node)"

definition answers_ok :: "rt_node \<Rightarrow> collector \<Rightarrow> bool" where
  "answers_ok node c \<longleftrightarrow> (\<forall>v. col_promise c = Some (Inr v) \<longrightarrow> menu_answer node v)"

lemma resolveMenuDigit_answer: "menu_answer node (resolveMenuDigit node d)"
  by (simp add: menu_answer_def resolveMenuDigit_def)

lemma settle_answers: "answers_ok node c \<Longrightarrow> menu_answer node v \<Longrightarrow> answers_ok node (menu_settle v c)"
  by (auto simp: answers_ok_def menu_settle_def settle_promise_def cleanup_def split: option.splits)

lemma menu_event_answers: "answers_ok node c \<Longrightarrow> answers_ok node (menu_event double ch node e c)"
proof (cases e)
  case (Dtmf evc d)
  assume ok: "answers_ok node c"
  have "answers_ok node (c\<lparr>col_digits := ds\<rparr>)" "answers_ok node (c\<lparr>col_digits := ds, col_inter := b\<rparr>)" for ds b
    using ok by (simp_all add: answers_ok_def)
  then show ?thesis unfolding Dtmf using ok
    by (auto simp: Let_def intro!: settle_answers resolveMenuDigit_answer)
next
  case PromptFinished
  assume "answers_ok node c"
  then show ?thesis by (simp add: PromptFinished answers_ok_def armTimeout_def)
qed (auto simp: menu_answer_def intro!: settle_answers resolveMenuDigit_answer)

lemma collectMenuAttempt_answer:
  assumes "collectMenuAttempt md node s w = Some (Inr v, w')"
  shows "menu_answer node v"
proof -
  have fold: "answers_ok node c \<Longrightarrow> answers_ok node (fold (menu_event double ch node) es c)" for double ch es c
    by (induction es arbitrary: c) (simp_all add: menu_event_answers)
  have prompt: "answers_ok node c \<Longrightarrow> answers_ok node (fst (menu_prompt md node c x))" for c x
    by (auto simp: menu_prompt_def answers_ok_def settle_promise_def armTimeout_def split: sum.split option.splits prod.split)
  have new: "answers_ok node (new_collector False s)" by (simp add: answers_ok_def new_collector_def)
  obtain before after w1 where ev: "md_events md node w = ((before, after), w1)" by (metis prod.exhaust)
  let ?h = "menu_event (hasDoubleDigitMenuBranch node) (s_channelId s) node"
  obtain c2 w2 where c2: "menu_prompt md node (fold ?h before (new_collector False s)) w1 = (c2, w2)" by (metis prod.exhaust)
  have "answers_ok node (fold ?h after c2)" using fold prompt [OF fold [OF new], of _ _ before w1] c2 by (metis fst_conv)
  moreover have "col_promise (fold ?h after c2) = Some (Inr v)" using assms ev c2 by (simp add: collectMenuAttempt_def Let_def)
  ultimately show ?thesis by (simp add: answers_ok_def)
qed

subsection \<open>Counters\<close>

lemma counter_keys [simp]:
  "getCounterKey s node a = getCounterKey s node b \<longleftrightarrow> a = b"
  "getCounterKey (set_var k v s) node a = getCounterKey s node a"
  "getCounterKey (del_var k s) node a = getCounterKey s node a"
  "getCounterKey (setCounter node b n s) node a = getCounterKey s node a"
  by (simp_all add: getCounterKey_def set_var_def del_var_def setCounter_def)

lemma get_var_clear:
  "get_var (clearCounters node s) k =
     (if k = getCounterKey s node ''timeout'' \<or> k = getCounterKey s node ''invalid'' then None else get_var s k)"
  by (simp add: clearCounters_def vars.get_del)

lemma get_var_setCounter:
  "get_var (setCounter node kind n s) k = (if k = getCounterKey s node kind then Some (num_to_string n) else get_var s k)"
  by (simp add: setCounter_def vars.get_set)

text \<open>The counter of a kind holds the natural number \<open>n\<close>.\<close>

definition counted :: "session \<Rightarrow> rt_node \<Rightarrow> string \<Rightarrow> nat \<Rightarrow> bool" where
  "counted s node kind n \<longleftrightarrow>
     (case get_var s (getCounterKey s node kind) of None \<Rightarrow> n = 0 | Some v \<Rightarrow> v = show_nat n)"

lemma double_limit_big: "(10 :: int) ^ 21 < double_limit"
  unfolding double_limit_def by simp

lemma getCounter_counted:
  assumes "counted s node kind n" and "n < 10 ^ 21"
  shows "getCounter s node kind = num_of_int (int n)"
proof (cases "get_var s (getCounterKey s node kind)")
  case None
  then show ?thesis using assms(1) by (simp add: getCounter_def counted_def text_or_empty_def)
next
  case (Some v)
  have "int n < double_limit" using assms(2) double_limit_big by (metis of_nat_less_iff of_nat_numeral of_nat_power order_less_trans)
  then show ?thesis using assms(1) Some
    by (simp add: getCounter_def counted_def text_or_empty_def string_to_number_nat)
qed

lemma counted_next:
  assumes "counted s node kind n" and "Suc n < 10 ^ 21"
  shows "num_add (getCounter s node kind) (Dec 1 0) = num_of_int (int (Suc n))"
    and "counted (setCounter node kind (num_of_int (int (Suc n))) s) node kind (Suc n)"
    and "other \<noteq> kind \<Longrightarrow> counted (setCounter node kind x s) node other m = counted s node other m"
proof -
  have "int (Suc n) < 10 ^ 21" using assms(2) by (metis of_nat_less_iff of_nat_numeral of_nat_power)
  then have "int n + 1 < double_limit" using double_limit_big by simp
  then show "num_add (getCounter s node kind) (Dec 1 0) = num_of_int (int (Suc n))"
    using getCounter_counted [OF assms(1)] assms(2) num_add_one [of "int n"] by (simp add: add.commute)
  show "counted (setCounter node kind (num_of_int (int (Suc n))) s) node kind (Suc n)"
    using num_to_string_nat [OF assms(2)] by (simp add: counted_def get_var_setCounter)
  show "other \<noteq> kind \<Longrightarrow> counted (setCounter node kind x s) node other m = counted s node other m"
    by (simp add: counted_def get_var_setCounter)
qed

subsection \<open>The loop\<close>

definition counter_key :: "session \<Rightarrow> rt_node \<Rightarrow> string \<Rightarrow> bool" where
  "counter_key s node k \<longleftrightarrow> k = getCounterKey s node ''timeout'' \<or> k = getCounterKey s node ''invalid''"

text \<open>Sessions that differ in the two counters of the menu only.\<close>

definition same_but_counters :: "rt_node \<Rightarrow> session \<Rightarrow> session \<Rightarrow> bool" where
  "same_but_counters node s s' \<longleftrightarrow> s'\<lparr>s_variables := []\<rparr> = s\<lparr>s_variables := []\<rparr>
     \<and> (\<forall>k. \<not> counter_key s node k \<longrightarrow> get_var s' k = get_var s k)"

lemma same_flow: "s'\<lparr>s_variables := []\<rparr> = s\<lparr>s_variables := []\<rparr> \<Longrightarrow> s_flow s' = s_flow s"
  by (metis session.select_convs(4) session.surjective session.update_convs(6))

lemma same_counter_keys: "same_but_counters node s s' \<Longrightarrow> getCounterKey s' node a = getCounterKey s node a"
  by (auto simp: same_but_counters_def getCounterKey_def dest: same_flow)

lemma same_counters_refl [simp]: "same_but_counters node s s"
  by (simp add: same_but_counters_def)

lemma same_counters_trans:
  assumes "same_but_counters node s s1" and "same_but_counters node s1 s2"
  shows "same_but_counters node s s2"
  using assms same_counter_keys [OF assms(1)] by (simp add: same_but_counters_def counter_key_def)

lemma same_counters_updates:
  "same_but_counters node s (setCounter node ''timeout'' n s)"
  "same_but_counters node s (setCounter node ''invalid'' n s)"
  "same_but_counters node s (clearCounters node s)"
  by (simp_all add: same_but_counters_def counter_key_def get_var_setCounter get_var_clear)
    (simp_all add: setCounter_def clearCounters_def set_var_def del_var_def)

text \<open>How the executor may leave the session and what it may return.\<close>

definition menu_result :: "rt_node \<Rightarrow> session \<Rightarrow> string + string \<Rightarrow> session \<Rightarrow> bool" where
  "menu_result node s r s' \<longleftrightarrow> same_but_counters node s s' \<and>
     (\<forall>v. r = Inr v \<longrightarrow> (v = ''hangup'' \<or> v \<noteq> [] \<and> v \<in> set (configured_branches node))
        \<and> get_var s' (getCounterKey s node ''timeout'') = None \<and> get_var s' (getCounterKey s node ''invalid'') = None)"

lemma menu_result_trans: "same_but_counters node s s1 \<Longrightarrow> menu_result node s1 r s' \<Longrightarrow> menu_result node s r s'"
  using same_counters_trans same_counter_keys by (auto simp: menu_result_def)

lemma cleared_result: "v = ''hangup'' \<or> v \<noteq> [] \<and> v \<in> set (configured_branches node) \<Longrightarrow>
    menu_result node s (Inr v) (clearCounters node s)"
  by (auto simp: menu_result_def same_counters_updates get_var_clear)

lemma failed_attempt_result:
  assumes kind: "kind \<in> {''timeout'', ''invalid''}"
  shows "failed_attempt md node kind m i p s w = Return r s' w' \<Longrightarrow> menu_result node s r s'"
    and "failed_attempt md node kind m i p s w = Retry s' w' \<Longrightarrow> same_but_counters node s s'"
proof -
  have same: "same_but_counters node s (setCounter node kind n s)" for n
    using kind by (auto simp: same_counters_updates)
  show "menu_result node s r s'" if "failed_attempt md node kind m i p s w = Return r s' w'"
    using that menu_result_trans [OF same cleared_result [of "''hangup''"]] same
    by (auto simp: failed_attempt_def Let_def menu_result_def split: if_splits prod.splits sum.splits)
  show "same_but_counters node s s'" if "failed_attempt md node kind m i p s w = Retry s' w'"
    using that same by (auto simp: failed_attempt_def Let_def split: if_splits prod.splits sum.splits)
qed

lemmas timeout_attempt_result = failed_attempt_result [of "''timeout''", simplified]
lemmas invalid_attempt_result = failed_attempt_result [of "''invalid''", simplified]

lemma menu_round_cases:
  assumes "menu_round md node s w = Some st"
  obtains (rejected) msg w1 where "st = Return (Inl msg) s w1"
    | (answered) v w1 where "st = Return (Inr v) (clearCounters node s) w1" "v = ''hangup'' \<or> v \<noteq> [] \<and> v \<in> set (configured_branches node)"
    | (timeout) w1 where "st = failed_attempt md node ''timeout'' (max_attempts node ''max_timeout_attempts'')
        ''timeout_prompt_audio_id'' ''timeout_prompt_path'' s w1"
    | (invalid) w1 where "st = failed_attempt md node ''invalid'' (max_attempts node ''max_invalid_attempts'')
        ''invalid_prompt_audio_id'' ''invalid_prompt_path'' s w1"
proof -
  obtain r0 w1 where a: "collectMenuAttempt md node s w = Some (r0, w1)"
    using assms unfolding menu_round_def by (cases "collectMenuAttempt md node s w") auto
  show thesis
  proof (cases r0)
    case (Inl msg)
    then show ?thesis using rejected [of msg w1] assms a by (simp add: menu_round_def)
  next
    case (Inr v)
    have "menu_answer node v" using a Inr collectMenuAttempt_answer by simp
    then show ?thesis using assms a Inr answered [of v w1] timeout [of w1] invalid [of w1]
      by (simp add: menu_round_def menu_answer_def split: if_splits)
  qed
qed

lemma menu_round_result:
  "menu_round md node s w = Some (Return r s' w') \<Longrightarrow> menu_result node s r s'"
  "menu_round md node s w = Some (Retry s' w') \<Longrightarrow> same_but_counters node s s'"
proof -
  show "menu_result node s r s'" if "menu_round md node s w = Some (Return r s' w')"
    using that
  proof (cases rule: menu_round_cases)
    case (rejected msg w1)
    then show ?thesis by (simp add: menu_result_def)
  next
    case (answered v w1)
    then show ?thesis using cleared_result by simp
  next
    case (timeout w1)
    then show ?thesis by (metis timeout_attempt_result(1))
  next
    case (invalid w1)
    then show ?thesis by (metis invalid_attempt_result(1))
  qed
  show "same_but_counters node s s'" if "menu_round md node s w = Some (Retry s' w')"
    using that
  proof (cases rule: menu_round_cases)
    case (timeout w1)
    then show ?thesis by (metis timeout_attempt_result(2))
  next
    case (invalid w1)
    then show ?thesis by (metis invalid_attempt_result(2))
  qed simp_all
qed

lemma executeMenu_result:
  "executeMenu md node s w = Some (r, s', w') \<Longrightarrow> menu_result node s r s'"
proof (induction md node s w "(r, s', w')" rule: executeMenu.raw_induct [rotated, consumes 1])
  case (1 loop md node s w)
  then obtain st where st: "menu_round md node s w = Some st"
    "(case st of Return r s' w' \<Rightarrow> Some (r, s', w') | Retry s' w' \<Rightarrow> loop md node s' w') = Some (r, s', w')"
    by (auto simp: bind_eq_Some_conv)
  show ?case
  proof (cases st)
    case (Return r1 s1 w1)
    then show ?thesis using st menu_round_result(1) by auto
  next
    case (Retry s1 w1)
    then have "loop md node s1 w1 = Some (r, s', w')" using st(2) by simp
    from menu_result_trans [OF menu_round_result(2) [OF st(1) [unfolded Retry]] 1(1) [OF this]] show ?thesis .
  qed
qed

text \<open>Every attempt settles.\<close>

definition attempts_settle :: "'w media_env \<Rightarrow> rt_node \<Rightarrow> bool" where
  "attempts_settle md node \<longleftrightarrow> (\<forall>s w. collectMenuAttempt md node s w \<noteq> None)"

lemma failed_attempt_counts:
  assumes "failed_attempt md node kind m i p s w = Retry s' w'" and n: "counted s node kind n" "n < k" "k < 10 ^ 21"
    and lim: "num_le m (num_of_int (int k))"
  shows "Suc n < k" "counted s' node kind (Suc n)" "other \<noteq> kind \<Longrightarrow> counted s node other j \<Longrightarrow> counted s' node other j"
proof -
  have small: "Suc n < 10 ^ 21" using n by linarith
  note c = counted_next [OF n(1) small]
  have s': "\<not> num_le m (num_of_int (int (Suc n)))" "s' = setCounter node kind (num_of_int (int (Suc n))) s"
    using assms(1) c(1) by (auto simp: failed_attempt_def Let_def split: if_splits prod.splits sum.splits)
  have "\<not> k \<le> Suc n"
  proof
    assume "k \<le> Suc n"
    then have "num_le (num_of_int (int k)) (num_of_int (int (Suc n)))" by (simp only: num_le_of_int of_nat_le_iff)
    with lim s'(1) show False using num_le_trans by blast
  qed
  then show "Suc n < k" by simp
  show "counted s' node kind (Suc n)" using c(2) s'(2) by simp
  show "other \<noteq> kind \<Longrightarrow> counted s node other j \<Longrightarrow> counted s' node other j" using c(3) s'(2) by simp
qed

lemma executeMenu_ends:
  assumes settle: "attempts_settle md node"
    and lim: "num_le (max_attempts node ''max_timeout_attempts'') (num_of_int (int kt))" "kt < 10 ^ 21"
      "num_le (max_attempts node ''max_invalid_attempts'') (num_of_int (int ki))" "ki < 10 ^ 21"
  shows "counted s node ''timeout'' nt \<Longrightarrow> nt < kt \<Longrightarrow> counted s node ''invalid'' ni \<Longrightarrow> ni < ki \<Longrightarrow>
    executeMenu md node s w \<noteq> None"
proof (induction "(kt - nt) + (ki - ni)" arbitrary: s w nt ni rule: less_induct)
  case less
  obtain a where "collectMenuAttempt md node s w = Some a" using settle unfolding attempts_settle_def by fastforce
  then obtain st where st: "menu_round md node s w = Some st" by (simp add: menu_round_def)
  show ?case
  proof (cases st)
    case (Return r s' w')
    then show ?thesis using st by (simp add: executeMenu.simps)
  next
    case (Retry s' w')
    obtain w1 where "failed_attempt md node ''timeout'' (max_attempts node ''max_timeout_attempts'')
          ''timeout_prompt_audio_id'' ''timeout_prompt_path'' s w1 = Retry s' w'
        \<or> failed_attempt md node ''invalid'' (max_attempts node ''max_invalid_attempts'')
          ''invalid_prompt_audio_id'' ''invalid_prompt_path'' s w1 = Retry s' w'"
      using st [unfolded Retry] by (cases rule: menu_round_cases) (metis menu_step.distinct(1))+
    then have "\<exists>nt' ni'. counted s' node ''timeout'' nt' \<and> nt' < kt \<and> counted s' node ''invalid'' ni' \<and> ni' < ki
        \<and> (kt - nt') + (ki - ni') < (kt - nt) + (ki - ni)"
    proof
      assume f: "failed_attempt md node ''timeout'' (max_attempts node ''max_timeout_attempts'')
          ''timeout_prompt_audio_id'' ''timeout_prompt_path'' s w1 = Retry s' w'"
      note c = failed_attempt_counts [OF f less.prems(1,2) lim(2,1)]
      show ?thesis using c(1,2) c(3) [OF _ less.prems(3)] less.prems(4) by (intro exI [of _ "Suc nt"] exI [of _ ni]) auto
    next
      assume f: "failed_attempt md node ''invalid'' (max_attempts node ''max_invalid_attempts'')
          ''invalid_prompt_audio_id'' ''invalid_prompt_path'' s w1 = Retry s' w'"
      note c = failed_attempt_counts [OF f less.prems(3,4) lim(4,3)]
      show ?thesis using c(1,2) c(3) [OF _ less.prems(1)] less.prems(2) by (intro exI [of _ nt] exI [of _ "Suc ni"]) auto
    qed
    then have "executeMenu md node s' w' \<noteq> None" using less.hyps by blast
    then show ?thesis using st Retry by (subst executeMenu.simps) simp
  qed
qed

end
