(* ===== verification/EndToEnd.thy ===== *)
theory EndToEnd
  imports FlowVersions RuntimeLaws DigitLaws
begin

text \<open>
  The two processes together: a flow the backend accepts is the flow the call engine loads, and the
  validator's promises hold of the graph the interpreter runs.
\<close>

section \<open>Timeouts\<close>

lemma timeouts_agree: "parseValidTimeoutMs v = parseTimeoutMs v"
proof (cases "is_blank v")
  case True
  then have "v = None \<or> v = Some JNull \<or> v = Some (JStr [])" by (simp add: is_blank_def nullish_def)
  then show ?thesis
    by (auto simp: parseValidTimeoutMs_def parseTimeoutMs_def MIN_TIMEOUT_MS_def MAX_TIMEOUT_MS_def string_to_number_def)
next
  case False
  then show ?thesis
    by (simp add: parseValidTimeoutMs_def parseTimeoutMs_def MIN_TIMEOUT_MS_def MAX_TIMEOUT_MS_def TIMEOUT_MIN_MS_def
        TIMEOUT_MAX_MS_def split: option.split)
qed

lemma parseValidTimeoutMs_bounds: "parseValidTimeoutMs v = Some t \<Longrightarrow> MIN_TIMEOUT_MS \<le> t \<and> t \<le> MAX_TIMEOUT_MS"
  by (auto simp: parseValidTimeoutMs_def split: option.splits if_splits)

lemma resolveNodeTimeoutMs_bounds:
  assumes "MIN_TIMEOUT_MS \<le> fallback" "fallback \<le> MAX_TIMEOUT_MS"
  shows "MIN_TIMEOUT_MS \<le> resolveNodeTimeoutMs node s fallback \<and> resolveNodeTimeoutMs node s fallback \<le> MAX_TIMEOUT_MS"
  using assms parseValidTimeoutMs_bounds
  by (auto simp: resolveNodeTimeoutMs_def resolveFlowDefaultTimeoutMs_def split: option.splits)

section \<open>Loading what was saved\<close>

lemma find_flow_published:
  assumes "flows_ok db" and "find_flow db i = Some g" and "cf_status g = ''published''"
  shows "List.find (\<lambda>f. cf_id f = i \<and> cf_status f = ''published'') (call_flows db) = Some g"
proof -
  have g: "g \<in> set (call_flows db)" "cf_id g = i" using find_flow_Some [OF assms(2)] by auto
  then obtain h where "List.find (\<lambda>f. cf_id f = i \<and> cf_status f = ''published'') (call_flows db) = Some h"
    "h \<in> set (call_flows db)" "cf_id h = i"
    using find_exists [of g "call_flows db" "\<lambda>f. cf_id f = i \<and> cf_status f = ''published''"] assms(3) by auto
  then show ?thesis using flow_eq_if_same_id [OF assms(1)] g by metis
qed

definition rt_node_of_dto :: "node_dto \<Rightarrow> rt_node" where
  "rt_node_of_dto n = \<lparr>n_key = nd_nodeKey n, n_type = nd_type n, n_label = text_or_empty (nd_label n),
     n_config = sanitizePersistedNodeConfig (nd_type n) (nd_config n)\<rparr>"

definition rt_edge_of_dto :: "edge_dto \<Rightarrow> rt_edge" where
  "rt_edge_of_dto e = \<lparr>e_source = ed_sourceNodeKey e, e_target = ed_targetNodeKey e,
     e_branch = (let b = (case ed_branchKey e of Some b \<Rightarrow> b | None \<Rightarrow> text_or (ed_condition e) ''default'') in
       if b = [] then ''default'' else b),
     e_condition = ed_condition e\<rparr>"

lemma rt_rows_of_dtos:
  "map rt_node_of_row (number_nodes i (map (node_entity v) ns)) = map rt_node_of_dto ns"
  "map rt_edge_of_row (number_edges j (map (edge_entity v) es)) = map rt_edge_of_dto es"
proof -
  have "rt_node_of_row (n\<lparr>fn_id := k\<rparr>) = rt_node_of_row n" "rt_edge_of_row (e\<lparr>fe_id := k\<rparr>) = rt_edge_of_row e" for n e k
    by (simp_all add: rt_node_of_row_def rt_edge_of_row_def)
  then have "map rt_node_of_row (number_nodes i (map (node_entity v) ns)) = map rt_node_of_row (map (node_entity v) ns)"
    "map rt_edge_of_row (number_edges j (map (edge_entity v) es)) = map rt_edge_of_row (map (edge_entity v) es)"
    by (simp_all only: number_nodes_map number_edges_map)
  then show "map rt_node_of_row (number_nodes i (map (node_entity v) ns)) = map rt_node_of_dto ns"
    "map rt_edge_of_row (number_edges j (map (edge_entity v) es)) = map rt_edge_of_dto es"
    by (simp_all add: rt_node_of_row_def rt_node_of_dto_def node_entity_def rt_edge_of_row_def rt_edge_of_dto_def
        edge_entity_def text_or_empty_def text_or_def Let_def split: option.split)
qed

text \<open>The graph an accepted request becomes.\<close>

definition accepted :: "(string \<Rightarrow> string option) \<Rightarrow> node_dto list \<Rightarrow> edge_dto list \<Rightarrow> bool \<Rightarrow> node_dto list \<Rightarrow> bool" where
  "accepted urlProtocol ns es isSubflow nodes \<longleftrightarrow>
     validateNodesConfig urlProtocol (normalizeNodesForSave ns) isSubflow = Inr nodes \<and> validateEdgesConfig es nodes = Inr ()"

definition graph_of :: "node_dto list \<Rightarrow> edge_dto list \<Rightarrow> flow \<Rightarrow> bool" where
  "graph_of nodes es fl \<longleftrightarrow> f_nodes fl = map rt_node_of_dto nodes \<and> f_edges fl = map rt_edge_of_dto es"

lemma find_dto_node: "n \<in> set nodes \<Longrightarrow> graph_of nodes es fl \<Longrightarrow> find_node fl (nd_nodeKey n) \<noteq> None"
  unfolding find_node_def find_None_iff' by (auto simp: graph_of_def rt_node_of_dto_def)

lemma accepted_closed:
  assumes "accepted up ns es sub nodes" and "graph_of nodes es fl"
  shows "closed_flow fl"
proof -
  have "find_node fl (ed_targetNodeKey e) \<noteq> None" if "e \<in> set es" for e
  proof -
    have "validateEdge nodes e = Inr ()" using assms(1) that by (simp add: accepted_def validateEdgesConfig_def)
    then obtain n where "n \<in> set nodes" "nd_nodeKey n = ed_targetNodeKey e"
      unfolding validateEdge_ok_iff by (metis nodeTypeMap_Some)
    then show ?thesis using find_dto_node [OF _ assms(2)] by metis
  qed
  then show ?thesis using assms(2) by (simp add: closed_flow_def graph_of_def list_all_iff rt_edge_of_dto_def)
qed

lemma accepted_start:
  assumes "accepted up ns es sub nodes" and "graph_of nodes es fl"
  shows "\<exists>s. List.find (\<lambda>n. nd_type n = ''start'') nodes = Some s \<and>
    List.find (\<lambda>n. n_type n = ''start'') (f_nodes fl) = Some (rt_node_of_dto s)"
proof -
  obtain s where "List.find (\<lambda>n. nd_type n = ''start'') nodes = Some s"
    using validateNodesConfig_okD(2) assms(1) unfolding accepted_def by blast
  then show ?thesis using assms(2) by (simp add: graph_of_def find_map comp_def rt_node_of_dto_def)
qed

lemma accepted_timeout:
  assumes "accepted up ns es False nodes" and "graph_of nodes es fl"
  shows "\<exists>t. resolveFlowDefaultTimeoutMs fl = Some t \<and> 1000 \<le> t \<and> t \<le> 120000"
proof -
  obtain t where t: "getFlowDefaultTimeoutMs nodes = Some t"
    using validateNodesConfig_okD(4) assms(1) unfolding accepted_def by blast
  obtain s where s: "List.find (\<lambda>n. nd_type n = ''start'') nodes = Some s"
    "List.find (\<lambda>n. n_type n = ''start'') (f_nodes fl) = Some (rt_node_of_dto s)"
    using accepted_start [OF assms] by blast
  have "nd_type s = ''start''" using find_Some_iff' [OF s(1)] by simp
  then have "n_config (rt_node_of_dto s) = (case nd_config s of None \<Rightarrow> [] | Some c \<Rightarrow> c)"
    by (simp add: rt_node_of_dto_def sanitizePersistedNodeConfig_def)
  then have "resolveFlowDefaultTimeoutMs fl = getFlowDefaultTimeoutMs nodes"
    using s by (simp add: resolveFlowDefaultTimeoutMs_def getFlowDefaultTimeoutMs_def timeouts_agree cfg_def obj_get_def split: option.split)
  with t getFlowDefaultTimeoutMs_bounds [OF t] show ?thesis by simp
qed

lemma created_flow_loads:
  assumes inv: "db_inv db" and cr: "create lc up now dto db = Inr (d, db')"
  obtains fl nodes where "loadFlowById db' (fd_id d) = Some fl" "f_id fl = fd_id d" "f_name fl = d_name dto" "f_versionId fl = fd_versionId d"
    "accepted up (d_nodes dto) (d_edges dto) (nonzero (d_parentFlowId dto) \<noteq> None) nodes" "graph_of nodes (d_edges dto) fl"
proof -
  from create_effect [OF inv cr] obtain nodes g w where c:
    "validateNodesConfig up (normalizeNodesForSave (d_nodes dto)) (nonzero (d_parentFlowId dto) \<noteq> None) = Inr nodes"
    "validateEdgesConfig (d_edges dto) nodes = Inr ()" "fd_id d = next_flow_id db" "find_flow db' (fd_id d) = Some g"
    "cf_status g = ''published''" "cf_name g = d_name dto" "cf_currentVersionId g = Some (fd_versionId d)"
    "fd_versionId d = next_version_id db"
    "version_nodes db' (fd_versionId d) = number_nodes (next_node_id db) (map (node_entity (fd_versionId d)) nodes)"
    "version_edges db' (fd_versionId d) = number_edges (next_edge_id db) (map (edge_entity (fd_versionId d)) (d_edges dto))"
    by metis
  have acc: "accepted up (d_nodes dto) (d_edges dto) (nonzero (d_parentFlowId dto) \<noteq> None) nodes"
    using c(1,2) by (simp add: accepted_def)
  define fl where "fl = \<lparr>f_id = fd_id d, f_name = d_name dto, f_versionId = fd_versionId d,
    f_nodes = map rt_node_of_dto nodes, f_edges = map rt_edge_of_dto (d_edges dto)\<rparr>"
  have gr: "graph_of nodes (d_edges dto) fl" by (simp add: graph_of_def fl_def)
  have "flows_ok db'" using create_inv [OF inv cr] by (simp add: db_inv_def)
  then have "List.find (\<lambda>f. cf_id f = fd_id d \<and> cf_status f = ''published'') (call_flows db') = Some g"
    using c(4,5) find_flow_published by blast
  moreover have "fd_versionId d \<noteq> 0" using c(8) inv by (auto simp: db_inv_def versions_ok_def ids_ok_def)
  moreover have "list_ex (\<lambda>n. n_type n = ''start'') (map rt_node_of_dto nodes)"
    using accepted_start [OF acc gr] by (auto simp: fl_def list_ex_iff dest: find_Some_iff')
  ultimately have "loadFlowById db' (fd_id d) = Some fl"
    using c(6,7,9,10) find_flow_Some [OF c(4)] by (simp add: loadFlowById_def buildFlowFromRow_def rt_rows_of_dtos fl_def Let_def)
  then show thesis by (rule that) (use acc gr in \<open>simp_all add: fl_def\<close>)
qed

end
