(* ===== verification/Examples.thy ===== *)
theory Examples
  imports FlowForest EndToEnd
begin

text \<open>
  Concrete inputs: a main flow with a menu, its subflow for branch 1, the tables after saving them,
  a call and an environment.  The theorems are instantiated on them.
\<close>

section \<open>Requests\<close>

definition text_order :: "string comparator" where
  "text_order = default"

definition demo_url :: "string \<Rightarrow> string option" where
  "demo_url u = (if starts_with ''https:'' u then Some ''https:'' else None)"

definition demo_node :: "string \<Rightarrow> string \<Rightarrow> config \<Rightarrow> node_dto" where
  "demo_node k t c = \<lparr>nd_nodeKey = k, nd_type = t, nd_label = None, nd_positionX = None, nd_positionY = None,
     nd_config = Some c, nd_groupId = None, nd_subflowId = None\<rparr>"

definition demo_edge :: "string \<Rightarrow> string \<Rightarrow> string option \<Rightarrow> edge_dto" where
  "demo_edge a b c = \<lparr>ed_sourceNodeKey = a, ed_targetNodeKey = b, ed_branchKey = None, ed_condition = c,
     ed_sourceHandle = None, ed_targetHandle = None\<rparr>"

definition menu_config :: config where
  "menu_config = [(''prompt_audio_file_id'', JNum (Dec 5 0)), (''branches'', JArr [JStr ''1'', JStr ''2''])]"

definition main_dto :: create_flow_dto where
  "main_dto = \<lparr>d_name = ''Main line'', d_description = None, d_slug = None, d_versionMessage = None, d_parentFlowId = None,
     d_parentNodeKey = None, d_parentBranchKey = None,
     d_nodes = [demo_node ''start'' ''start'' [], demo_node ''menu'' ''menu'' menu_config, demo_node ''bye'' ''hangup'' []],
     d_edges = [demo_edge ''start'' ''menu'' None, demo_edge ''menu'' ''bye'' (Some ''2'')]\<rparr>"

definition sales_dto :: create_flow_dto where
  "sales_dto = \<lparr>d_name = ''Sales'', d_description = None, d_slug = None, d_versionMessage = None, d_parentFlowId = Some 1,
     d_parentNodeKey = Some ''menu'', d_parentBranchKey = Some ''1'',
     d_nodes = [demo_node ''start'' ''start'' [], demo_node ''bye'' ''hangup'' []],
     d_edges = [demo_edge ''start'' ''bye'' None]\<rparr>"

definition edit_dto :: update_flow_dto where
  "edit_dto = \<lparr>d_name = ''Main line'', d_description = None, d_slug = None, d_versionMessage = None, d_parentFlowId = None,
     d_parentNodeKey = None, d_parentBranchKey = None,
     d_nodes = [demo_node ''start'' ''start'' [], demo_node ''bye'' ''hangup'' []],
     d_edges = [demo_edge ''start'' ''bye'' None], d_autoSave = None\<rparr>"

section \<open>Tables\<close>

definition new_db :: "('a \<times> flow_db) result \<Rightarrow> flow_db" where
  "new_db r = (case r of Inr (a, db) \<Rightarrow> db | Inl e \<Rightarrow> empty_db)"

definition answer :: "('a \<times> flow_db) result \<Rightarrow> 'a option" where
  "answer r = (case r of Inr (a, db) \<Rightarrow> Some a | Inl e \<Rightarrow> None)"

lemma result_parts:
  assumes "answer r = Some a"
  shows "r = Inr (a, new_db r)"
proof (cases r)
  case (Inr p)
  with assms show ?thesis by (cases p) (simp add: answer_def new_db_def)
qed (use assms in \<open>simp add: answer_def\<close>)

lemma result_ok: "answer r \<noteq> None \<Longrightarrow> \<exists>a. r = Inr (a, new_db r)"
  by (auto dest: result_parts)

definition main_db :: flow_db where
  "main_db = new_db (create text_order demo_url 3 main_dto empty_db)"

definition tree_db :: flow_db where
  "tree_db = new_db (create text_order demo_url 5 sales_dto main_db)"

lemma main_created: "\<exists>d. create text_order demo_url 3 main_dto empty_db = Inr (d, main_db)"
  unfolding main_db_def by (rule result_ok) code_simp

text \<open>The rows of these tables, for the evaluations below.\<close>

definition demo_row :: "int \<Rightarrow> int \<Rightarrow> string \<Rightarrow> string \<Rightarrow> config \<Rightarrow> flow_node" where
  "demo_row i v k t c = \<lparr>fn_id = i, fn_flowVersionId = Some v, fn_nodeKey = k, fn_type = t, fn_label = None, fn_positionX = Dec 0 0,
     fn_positionY = Dec 0 0, fn_configJson = c, fn_groupId = None, fn_subflowId = None\<rparr>"

definition demo_edge_row :: "int \<Rightarrow> int \<Rightarrow> string \<Rightarrow> string \<Rightarrow> string \<Rightarrow> string option \<Rightarrow> flow_edge" where
  "demo_edge_row i v a b k c = \<lparr>fe_id = i, fe_flowVersionId = Some v, fe_sourceNodeKey = a, fe_targetNodeKey = b, fe_branchKey = k,
     fe_condition = c, fe_sourceHandle = None, fe_targetHandle = None\<rparr>"

definition demo_snap :: "string \<Rightarrow> string \<Rightarrow> config \<Rightarrow> snap_node" where
  "demo_snap k t c = \<lparr>sn_nodeKey = k, sn_type = t, sn_label = None, sn_positionX = Dec 0 0, sn_positionY = Dec 0 0, sn_config = c,
     sn_groupId = None, sn_subflowId = None\<rparr>"

definition demo_snap_edge :: "string \<Rightarrow> string \<Rightarrow> string option \<Rightarrow> snap_edge" where
  "demo_snap_edge a b c = \<lparr>se_sourceNodeKey = a, se_targetNodeKey = b, se_branchKey = ''default'', se_condition = c,
     se_sourceHandle = None, se_targetHandle = None\<rparr>"

definition stored_start :: config where
  "stored_start = [(''flow_default_timeout_ms'', JNum (Dec 12 4))]"

definition stored_menu :: config where
  "stored_menu = menu_config @ [(''submenu_branch_names'', JObj [])]"

definition demo_version :: "int \<Rightarrow> nat \<Rightarrow> snapshot \<Rightarrow> int \<Rightarrow> flow_version" where
  "demo_version i t sn k = \<lparr>fv_id = i, fv_flowId = Some i, fv_versionNumber = 1, fv_isPublished = True, fv_publishedAt = Some t,
     fv_message = Some ''Saved from editor'', fv_snapshot = Some sn, fv_nodeCount = Some k, fv_createdAt = t\<rparr>"

definition main_version :: flow_version where
  "main_version = demo_version 1 3 (Snapshot (Some 1) (Some ''Main line'')
     [demo_snap ''start'' ''start'' stored_start, demo_snap ''menu'' ''menu'' stored_menu, demo_snap ''bye'' ''hangup'' []]
     [demo_snap_edge ''start'' ''menu'' None, demo_snap_edge ''menu'' ''bye'' (Some ''2'')] None) 3"

definition sales_version :: flow_version where
  "sales_version = demo_version 2 5 (Snapshot None None [demo_snap ''start'' ''start'' [], demo_snap ''bye'' ''hangup'' []]
     [demo_snap_edge ''start'' ''bye'' None] None) 2"

definition main_flow :: call_flow where
  "main_flow = \<lparr>cf_id = 1, cf_name = ''Main line'', cf_slug = ''main-line'', cf_description = None, cf_status = ''published'',
     cf_entryType = ''default'', cf_entryValue = None, cf_currentVersionId = Some 1, cf_parentFlowId = None, cf_parentNodeKey = None,
     cf_parentBranchKey = None, cf_isTemplate = False, cf_templateDescription = None, cf_templateCategory = None,
     cf_createdAt = 3, cf_updatedAt = 3\<rparr>"

definition sales_flow :: call_flow where
  "sales_flow = \<lparr>cf_id = 2, cf_name = ''Sales'', cf_slug = ''sales'', cf_description = None, cf_status = ''published'',
     cf_entryType = ''subflow'', cf_entryValue = None, cf_currentVersionId = Some 2, cf_parentFlowId = Some 1,
     cf_parentNodeKey = Some ''menu'', cf_parentBranchKey = Some ''1'', cf_isTemplate = False, cf_templateDescription = None,
     cf_templateCategory = None, cf_createdAt = 5, cf_updatedAt = 5\<rparr>"

lemma main_db_saved [code]:
  "main_db = \<lparr>call_flows = [main_flow], flow_versions = [main_version],
     flow_nodes = [demo_row 1 1 ''start'' ''start'' stored_start, demo_row 2 1 ''menu'' ''menu'' stored_menu, demo_row 3 1 ''bye'' ''hangup'' []],
     flow_edges = [demo_edge_row 1 1 ''start'' ''menu'' ''default'' None, demo_edge_row 2 1 ''menu'' ''bye'' ''2'' (Some ''2'')],
     call_node_logs = [], next_flow_id = 2, next_version_id = 2, next_node_id = 4, next_edge_id = 3\<rparr>"
  by code_simp

lemma sales_created: "\<exists>d. create text_order demo_url 5 sales_dto main_db = Inr (d, tree_db)"
  unfolding tree_db_def by (rule result_ok) code_simp

lemma tree_db_saved [code]:
  "tree_db = \<lparr>call_flows = [main_flow, sales_flow], flow_versions = [main_version, sales_version],
     flow_nodes = flow_nodes main_db @ [demo_row 4 2 ''start'' ''start'' [], demo_row 5 2 ''bye'' ''hangup'' []],
     flow_edges = flow_edges main_db @ [demo_edge_row 3 2 ''start'' ''bye'' ''default'' None],
     call_node_logs = [], next_flow_id = 3, next_version_id = 3, next_node_id = 6, next_edge_id = 4\<rparr>"
  by code_simp

lemma main_reachable: "reachable main_db"
proof -
  obtain d where d: "create text_order demo_url 3 main_dto empty_db = Inr (d, main_db)" using main_created by blast
  show ?thesis by (rule reach_step [OF reach_empty step_create [OF d]]) (simp add: main_dto_def)
qed

lemma tree_reachable: "reachable tree_db"
proof -
  obtain d where d: "create text_order demo_url 5 sales_dto main_db = Inr (d, tree_db)" using sales_created by blast
  have "d_parentFlowId sales_dto \<noteq> Some (next_flow_id main_db)" by code_simp
  from reach_step [OF main_reachable step_create [OF d this]] show ?thesis .
qed

lemma tree_db_inv: "db_inv tree_db" "flows_ok tree_db" "db_inv main_db"
  using reachable_flow_inv [OF tree_reachable] reachable_flow_inv [OF main_reachable] by (simp_all add: flow_inv_def db_inv_def)

text \<open>Marking flows as templates, which the service has no operation for.\<close>

lemma db_inv_marked:
  assumes "db_inv db"
  shows "db_inv (db\<lparr>call_flows := map (\<lambda>f. f\<lparr>cf_isTemplate := b\<rparr>) (call_flows db)\<rparr>)"
proof -
  let ?db = "db\<lparr>call_flows := map (\<lambda>f. f\<lparr>cf_isTemplate := b\<rparr>) (call_flows db)\<rparr>"
  have ids: "cf_id ` set (call_flows ?db) = cf_id ` set (call_flows db)" by (simp add: image_image)
  have "flows_ok ?db" using assms by (simp add: db_inv_def flows_ok_def o_def image_image)
  moreover have "versions_ok ?db" using assms ids by (simp add: db_inv_def versions_ok_def)
  moreover have "current_ok ?db" using assms by (simp add: db_inv_def current_ok_def)
  moreover have "rows_ok ?db" using assms by (simp add: db_inv_def rows_ok_def)
  ultimately show ?thesis by (simp add: db_inv_def)
qed

section \<open>Calls\<close>

definition demo_flow :: flow where
  "demo_flow = \<lparr>f_id = 1, f_name = ''Main line'', f_versionId = 1,
     f_nodes = [\<lparr>n_key = ''start'', n_type = ''start'', n_label = [], n_config = []\<rparr>,
                \<lparr>n_key = ''hold'', n_type = ''play_audio'', n_label = [], n_config = []\<rparr>,
                \<lparr>n_key = ''bye'', n_type = ''hangup'', n_label = [], n_config = []\<rparr>],
     f_edges = [\<lparr>e_source = ''start'', e_target = ''hold'', e_branch = ''default'', e_condition = None\<rparr>,
                \<lparr>e_source = ''hold'', e_target = ''bye'', e_branch = ''default'', e_condition = None\<rparr>]\<rparr>"

definition demo_rank :: "string \<Rightarrow> nat" where
  "demo_rank k = (if k = ''start'' then 2 else if k = ''hold'' then 1 else 0)"

definition demo_session :: "flow \<Rightarrow> session" where
  "demo_session fl = createSession 0 ''chan-1'' ''+4912345'' fl ''start''"

definition demo_env :: "unit env" where
  "demo_env = \<lparr>env_query = (\<lambda>w. Some tree_db), env_log_ok = (\<lambda>w. (True, w)),
     env_exec = (\<lambda>n s w. (Inr (if n_type n = ''hangup'' then ''done'' else ''default''), s, w)),
     env_hangup = (\<lambda>w. (Some 9, w)), env_events = True, env_now = (\<lambda>w. 7), env_toISO = (\<lambda>t. show_nat t)\<rparr>"

lemma demo_env_facts:
  "logging_works demo_env" "exec_frame demo_env" "no_jumps demo_env" "ranked demo_rank demo_flow"
  by (auto simp: logging_works_def exec_frame_def no_jumps_def demo_env_def starts_with_def)
    (simp add: ranked_def demo_flow_def demo_rank_def)

definition silent_media :: "collect_event list \<Rightarrow> unit media_env" where
  "silent_media es = \<lparr>md_audio = (\<lambda>w i. Inr None), md_play = (\<lambda>t p w. (Inr (), w)), md_events = (\<lambda>n w. ((es, []), w))\<rparr>"

definition menu_node :: rt_node where
  "menu_node = \<lparr>n_key = ''menu'', n_type = ''menu'', n_label = [], n_config = [(''branches'', JArr [JStr ''1''])]\<rparr>"

lemma menu_attempts_settle: "attempts_settle (silent_media [Dtmf None (Some k)]) menu_node"
proof -
  have single: "\<not> hasDoubleDigitMenuBranch menu_node" by code_simp
  show ?thesis
    by (simp add: attempts_settle_def collectMenuAttempt_def silent_media_def single)
     (simp add: menu_node_def obj_get_def other_channel_def text_or_empty_def new_collector_def menu_settle_def
      menu_prompt_def resolveAudioMediaPath_def num_or_zero_def armTimeout_def settle_promise_def cleanup_def Let_def)
qed

end
