(* ===== verification/Executors.thy ===== *)
theory Executors
  imports Runtime DigitLaws
begin

text \<open>
  \<open>executeNode\<close> of \<open>nodes/index.ts\<close> with the executors it dispatches to: start, branch, hangup,
  set\_variable, play\_audio, get\_digits, menu and \<open>executors/business_hours.executor.ts\<close>.  The
  executors that drive bridges, queues and recordings (transfer, hunt, voicemail, queue, queue\_login,
  conference, callback) are a parameter here.
\<close>

section \<open>Business hours\<close>

definition DAY_KEYS :: "string list" where
  "DAY_KEYS = [''sunday'', ''monday'', ''tuesday'', ''wednesday'', ''thursday'', ''friday'', ''saturday'']"

text \<open>\<open>/^(\d\{2\}):(\d\{2\})\$/\<close> on the trimmed text, and the range of a time of day.\<close>

definition toMinutes :: "string \<Rightarrow> nat option" where
  "toMinutes v =
     (case trim v of
        [a, b, c, d, e] \<Rightarrow>
          if list_all is_digit [a, b, d, e] \<and> c = CHR '':''
          then (let hours = read_nat [a, b]; minutes = read_nat [d, e] in
                if 23 < hours \<or> 59 < minutes then None else Some (hours * 60 + minutes))
          else None
      | _ \<Rightarrow> None)"

record now_parts =
  np_weekday :: string
  np_hour :: int
  np_minute :: int

text \<open>
  \<open>intl tz now\<close> are the weekday, hour and minute parts of \<open>Intl.DateTimeFormat\<close> in the time zone,
  \<open>None\<close> when it throws a \<open>RangeError\<close>.
\<close>

type_synonym intl = "string \<Rightarrow> nat \<Rightarrow> (string option \<times> string option \<times> string option) option"

definition resolveNowParts :: "intl \<Rightarrow> string \<Rightarrow> nat \<Rightarrow> now_parts option" where
  "resolveNowParts intl timezone now =
     (case intl timezone now of
        None \<Rightarrow> None
      | Some (wd, h, m) \<Rightarrow>
        (let weekday = map to_lower (text_or_empty wd) in
         case (num_int (string_to_number (text_or_empty h)), num_int (string_to_number (text_or_empty m))) of
           (Some hour, Some minute) \<Rightarrow>
             if weekday \<notin> set DAY_KEYS then None
             else Some \<lparr>np_weekday = weekday, np_hour = hour, np_minute = minute\<rparr>
         | _ \<Rightarrow> None))"

definition obj_or_empty :: "json option \<Rightarrow> json" where
  "obj_or_empty v = (if truthy v then the v else JObj [])"

definition evaluateBusinessHours :: "intl \<Rightarrow> nat \<Rightarrow> config \<Rightarrow> string" where
  "evaluateBusinessHours intl now config =
     (let timezone = str_trim (obj_get config ''timezone'');
          schedule = obj_or_empty (obj_get config ''schedule'') in
      if timezone = [] then ''closed''
      else case resolveNowParts intl timezone now of
        None \<Rightarrow> ''closed''
      | Some parts \<Rightarrow>
        (let dayConfig = obj_or_empty (entry_get schedule (np_weekday parts)) in
         if \<not> truthy (entry_get dayConfig ''enabled'') then ''closed''
         else case (toMinutes (str_or_empty (entry_get dayConfig ''open'')), toMinutes (str_or_empty (entry_get dayConfig ''close''))) of
           (Some openMinutes, Some closeMinutes) \<Rightarrow>
             if closeMinutes \<le> openMinutes then ''closed''
             else let currentMinutes = np_hour parts * 60 + np_minute parts in
               if int openMinutes \<le> currentMinutes \<and> currentMinutes \<le> int closeMinutes then ''open'' else ''closed''
         | _ \<Rightarrow> ''closed''))"

section \<open>The simple executors\<close>

datatype playback_event = PlaybackDone "string option" | PlaybackGone "string option"

text \<open>The promise of \<open>waitForPlaybackFinished\<close> after an event; the first match settles it.\<close>

definition waitForPlaybackFinished :: "string \<Rightarrow> string \<Rightarrow> playback_event \<Rightarrow> (string + unit) option \<Rightarrow> (string + unit) option" where
  "waitForPlaybackFinished playbackId channelId e p =
     (case p of
        Some r \<Rightarrow> Some r
      | None \<Rightarrow> (case e of
            PlaybackDone i \<Rightarrow> if i = Some playbackId then Some (Inr ()) else None
          | PlaybackGone c \<Rightarrow> if c = Some channelId then Some (Inl ''hangup'') else None))"

datatype telemetry_status = Started | CompletedWith string | ErrorWith string

type_synonym 'w executor = "rt_node \<Rightarrow> session \<Rightarrow> 'w \<Rightarrow> ((string + string) \<times> session \<times> 'w) option"

record 'w executors =
  ex_media :: "'w media_env"
  ex_playback :: "'w \<Rightarrow> (string \<times> playback_event list) \<times> 'w"
  ex_intl :: intl
  ex_now :: "'w \<Rightarrow> nat"
  ex_hangup :: "'w \<Rightarrow> 'w"
  ex_telemetry :: "session \<Rightarrow> rt_node \<Rightarrow> telemetry_status \<Rightarrow> 'w \<Rightarrow> 'w"
  ex_bridge :: "string \<Rightarrow> 'w executor"

definition executeStart :: string where "executeStart = ''default''"

definition executeBranch :: string where "executeBranch = ''default''"

definition executePlayAudio :: "'w executors \<Rightarrow> 'w executor" where
  "executePlayAudio ex node s w =
     (case resolveAudioMediaPath (ex_media ex) w (n_config node) ''audio_file_id'' ''audio_file_path'' of
        Inl msg \<Rightarrow> Some (Inl msg, s, w)
      | Inr None \<Rightarrow> Some (Inr ''default'', s, w)
      | Inr (Some path) \<Rightarrow>
        (case md_play (ex_media ex) (getPlaybackTarget s) (''sound:'' @ path) w of
           (Inl msg, w1) \<Rightarrow> Some (Inl msg, s, w1)
         | (Inr _, w1) \<Rightarrow>
           (case ex_playback ex w1 of ((playbackId, events), w2) \<Rightarrow>
              map_option (\<lambda>r. (case r of Inl msg \<Rightarrow> Inl msg | Inr _ \<Rightarrow> Inr ''default'', s, w2))
                (fold (waitForPlaybackFinished playbackId (s_channelId s)) events None))))"

definition executeHangup :: "'w executors \<Rightarrow> 'w \<Rightarrow> string \<times> 'w" where
  "executeHangup ex w = (''done'', ex_hangup ex w)"

definition executeSetVariable :: "rt_node \<Rightarrow> session \<Rightarrow> string \<times> session" where
  "executeSetVariable node s =
     (let variableName = str_or_empty (obj_get (n_config node) ''variable_name'');
          variableValue = str_or_empty (obj_get (n_config node) ''variable_value'') in
      (''default'', if variableName = [] then s else set_var variableName variableValue s))"

section \<open>Dispatch\<close>

definition BRIDGE_TYPES :: "string list" where
  "BRIDGE_TYPES = [''transfer'', ''hunt'', ''voicemail'', ''queue_login'', ''queue'', ''conference'', ''callback'']"

definition executorMap :: "'w executors \<Rightarrow> string \<Rightarrow> 'w executor option" where
  "executorMap ex t =
     (if t = ''start'' then Some (\<lambda>n s w. Some (Inr executeStart, s, w))
      else if t = ''play_audio'' then Some (executePlayAudio ex)
      else if t = ''get_digits'' then Some (executeGetDigits (ex_media ex))
      else if t = ''menu'' then Some (executeMenu (ex_media ex))
      else if t = ''business_hours'' then Some (\<lambda>n s w. Some (Inr (evaluateBusinessHours (ex_intl ex) (ex_now ex w) (n_config n)), s, w))
      else if t = ''branch'' then Some (\<lambda>n s w. Some (Inr executeBranch, s, w))
      else if t = ''hangup'' then Some (\<lambda>n s w. case executeHangup ex w of (r, w') \<Rightarrow> Some (Inr r, s, w'))
      else if t = ''set_variable'' then Some (\<lambda>n s w. case executeSetVariable n s of (r, s') \<Rightarrow> Some (Inr r, s', w))
      else if t \<in> set BRIDGE_TYPES then Some (ex_bridge ex t)
      else None)"

text \<open>A rejected executor becomes the result \<open>hangup\<close>; telemetry swallows its own errors.\<close>

definition executeNode :: "'w executors \<Rightarrow> rt_node \<Rightarrow> session \<Rightarrow> 'w \<Rightarrow> (string \<times> session \<times> 'w) option" where
  "executeNode ex node s w =
     (let w1 = ex_telemetry ex s node Started w in
      if n_type node = ''group'' then Some (''default'', s, w1)
      else case executorMap ex (n_type node) of
        None \<Rightarrow> Some (''default'', s, ex_telemetry ex s node (CompletedWith ''default'') w1)
      | Some executor \<Rightarrow>
        map_option (\<lambda>(result, s', w').
          case result of
            Inr r \<Rightarrow> (r, s', ex_telemetry ex s' node (CompletedWith r) w')
          | Inl message \<Rightarrow>
              (let s'' = set_var ''__last_node_error__'' message s' in
               (''hangup'', s'', ex_telemetry ex s'' node (ErrorWith message) w')))
          (executor node s w1))"

section \<open>Laws: business hours\<close>

lemma toMinutes_range: "toMinutes v = Some m \<Longrightarrow> m < 24 * 60"
  by (auto simp: toMinutes_def Let_def split: list.splits if_splits)

text \<open>The interval of the day, as the configuration states it.\<close>

definition opening_hours :: "config \<Rightarrow> string \<Rightarrow> (nat \<times> nat) option" where
  "opening_hours config weekday =
     (let dayConfig = obj_or_empty (entry_get (obj_or_empty (obj_get config ''schedule'')) weekday) in
      if \<not> truthy (entry_get dayConfig ''enabled'') then None
      else case (toMinutes (str_or_empty (entry_get dayConfig ''open'')), toMinutes (str_or_empty (entry_get dayConfig ''close''))) of
        (Some a, Some b) \<Rightarrow> if a < b then Some (a, b) else None
      | _ \<Rightarrow> None)"

lemma business_hours_open_iff:
  "evaluateBusinessHours intl now config = ''open'' \<longleftrightarrow>
     (\<exists>parts a b. str_trim (obj_get config ''timezone'') \<noteq> []
        \<and> resolveNowParts intl (str_trim (obj_get config ''timezone'')) now = Some parts
        \<and> opening_hours config (np_weekday parts) = Some (a, b)
        \<and> int a \<le> np_hour parts * 60 + np_minute parts \<and> np_hour parts * 60 + np_minute parts \<le> int b)"
  by (auto simp: evaluateBusinessHours_def opening_hours_def Let_def split: option.splits if_splits prod.splits)

lemma business_hours_cases: "evaluateBusinessHours intl now config \<in> {''open'', ''closed''}"
  by (simp add: evaluateBusinessHours_def Let_def split: option.split)

lemma opening_hours_range: "opening_hours config d = Some (a, b) \<Longrightarrow> a < b \<and> b < 24 * 60"
  by (auto simp: opening_hours_def Let_def split: if_splits option.splits dest: toMinutes_range)

text \<open>\<open>Intl.DateTimeFormat\<close> with \<open>hour12: false\<close> writes the hour of midnight as 24: no schedule is open then.\<close>

lemma hour_24_closed:
  assumes "intl (str_trim (obj_get config ''timezone'')) now = Some (wd, Some ''24'', Some m)" and "num_int (string_to_number m) = Some k" "0 \<le> k"
  shows "evaluateBusinessHours intl now config = ''closed''"
proof -
  have h: "num_int (string_to_number ''24'') = Some 24" by code_simp
  have "evaluateBusinessHours intl now config \<noteq> ''open''"
    unfolding business_hours_open_iff
  proof (intro notI, elim exE conjE)
    fix parts a b
    assume p: "resolveNowParts intl (str_trim (obj_get config ''timezone'')) now = Some parts"
      and b: "opening_hours config (np_weekday parts) = Some (a, b)" "np_hour parts * 60 + np_minute parts \<le> int b"
    have "np_hour parts = 24" "np_minute parts = k"
      using p assms(1,2) h by (auto simp: resolveNowParts_def Let_def split: if_splits)
    then show False using b(2) opening_hours_range [OF b(1)] assms(3) by simp
  qed
  then show ?thesis using business_hours_cases [of intl now config] by blast
qed

end
