(* ===== verification/ExecutorLaws.thy ===== *)
theory ExecutorLaws
  imports Executors RuntimeLaws
begin

text \<open>
  What the runtime relies on of \<open>executeNode\<close>: an executor leaves the call's identity, its flow and
  its position alone, and a failing executor never rejects the promise the runtime awaits.  The
  runtime's reaction to a failing executor follows.
\<close>

section \<open>The session is kept\<close>

definition same_position :: "session \<Rightarrow> session \<Rightarrow> bool" where
  "same_position s s' \<longleftrightarrow> s_callUuid s' = s_callUuid s \<and> s_flow s' = s_flow s \<and> s_currentNodeKey s' = s_currentNodeKey s"

lemma same_position_refl [simp]: "same_position s s"
  by (simp add: same_position_def)

lemma same_position_vars [simp]:
  "same_position s (set_var k v s') = same_position s s'" "same_position s (del_var k s') = same_position s s'"
  by (simp_all add: same_position_def set_var_def del_var_def)

lemma same_position_variables: "s'\<lparr>s_variables := []\<rparr> = s\<lparr>s_variables := []\<rparr> \<Longrightarrow> same_position s s'"
  by (cases s; cases s') (simp add: same_position_def)

lemma executePlayAudio_session:
  "executePlayAudio ex node s w = Some (r, s', w') \<Longrightarrow> s' = s"
  by (auto simp: executePlayAudio_def map_option_case split: sum.splits option.splits prod.splits)

lemma executeSetVariable_position: "executeSetVariable node s = (r, s') \<Longrightarrow> same_position s s'"
  by (auto simp: executeSetVariable_def Let_def split: if_splits)

lemma getDigits_settle_position:
  "same_position s (col_session c) \<Longrightarrow> same_position s (col_session (getDigits_settle node v c))"
  by (simp add: getDigits_settle_def Let_def)

lemma getDigits_event_position:
  "same_position s (col_session c) \<Longrightarrow> same_position s (col_session (getDigits_event double ch node e c))"
  by (cases e) (simp_all add: getDigits_settle_position Let_def)

lemma getDigits_fold_position:
  "same_position s (col_session c) \<Longrightarrow> same_position s (col_session (fold (getDigits_event double ch node) es c))"
  by (induction es arbitrary: c) (simp_all add: getDigits_event_position)

lemma executeGetDigits_position:
  assumes "executeGetDigits md node s w = Some (r, s', w')"
  shows "same_position s s'"
proof -
  have start: "col_session (settle_promise x (new_collector True s)) = s" "col_session (new_collector True s) = s" for x
    by (simp_all add: new_collector_def)
  show ?thesis
    using assms
    by (auto simp: executeGetDigits_def Let_def start split: sum.splits option.splits prod.splits intro!: getDigits_fold_position)
qed

lemma executeMenu_position: "executeMenu md node s w = Some (r, s', w') \<Longrightarrow> same_position s s'"
  using executeMenu_result by (fastforce simp: menu_result_def same_but_counters_def intro: same_position_variables)

text \<open>The executors that are parameters of the model keep the position too.\<close>

definition bridges_keep_position :: "'w executors \<Rightarrow> bool" where
  "bridges_keep_position ex \<longleftrightarrow> (\<forall>t \<in> set BRIDGE_TYPES. \<forall>n s w r s' w'.
     ex_bridge ex t n s w = Some (r, s', w') \<longrightarrow> same_position s s')"

lemma bridge_position:
  "bridges_keep_position ex \<Longrightarrow> t \<in> set BRIDGE_TYPES \<Longrightarrow> ex_bridge ex t n s w = Some (r, s', w') \<Longrightarrow> same_position s s'"
  unfolding bridges_keep_position_def by blast

lemma executorMap_position:
  assumes "bridges_keep_position ex" and "executorMap ex t = Some executor" and "executor n s w = Some (r, s', w')"
  shows "same_position s s'"
  using assms(2,3) bridge_position [OF assms(1)]
  by (auto simp: executorMap_def executeHangup_def split: if_splits prod.splits
      dest: executePlayAudio_session executeGetDigits_position executeMenu_position executeSetVariable_position)

lemma executeNode_position:
  assumes "bridges_keep_position ex" and "executeNode ex node s w = Some (r, s', w')"
  shows "same_position s s'"
proof (cases "n_type node = ''group'' \<or> executorMap ex (n_type node) = None")
  case True
  then show ?thesis using assms(2) by (auto simp: executeNode_def Let_def split: if_splits)
next
  case False
  then obtain executor res s1 w1 where x: "executorMap ex (n_type node) = Some executor"
    "executor node s (ex_telemetry ex s node Started w) = Some (res, s1, w1)"
    using assms(2) by (auto simp: executeNode_def Let_def)
  then have "s' = s1 \<or> (\<exists>m. s' = set_var ''__last_node_error__'' m s1)"
    using assms(2) False by (auto simp: executeNode_def Let_def split: sum.splits)
  then show ?thesis using executorMap_position [OF assms(1) x] by auto
qed

section \<open>The environment of the runtime\<close>

text \<open>
  The call engine runs the nodes with \<open>executeNode\<close>.  Where an executor never settles the call hangs;
  the environment may then give any answer that is no rejection, so that it has at least the runs of
  the program.
\<close>

definition runs_nodes :: "'w executors \<Rightarrow> 'w env \<Rightarrow> bool" where
  "runs_nodes ex env \<longleftrightarrow> (\<forall>n s w. \<exists>r s' w'. env_exec env n s w = (Inr r, s', w') \<and>
     (executeNode ex n s w = Some (r, s', w') \<or> executeNode ex n s w = None \<and> same_position s s'))"

lemma runs_nodesE:
  assumes "runs_nodes ex env"
  obtains r s' w' where "env_exec env n s w = (Inr r, s', w')"
    "executeNode ex n s w = Some (r, s', w') \<or> executeNode ex n s w = None \<and> same_position s s'"
  using assms unfolding runs_nodes_def by blast

lemma runs_nodes_rejects: "runs_nodes ex env \<Longrightarrow> never_rejects env"
  unfolding runs_nodes_def never_rejects_def by blast

lemma runs_nodes_frame:
  assumes "runs_nodes ex env" and "bridges_keep_position ex"
  shows "exec_frame env"
  unfolding exec_frame_def
proof (intro allI impI)
  fix n s w r s' w'
  assume e: "env_exec env n s w = (r, s', w')"
  obtain r1 s1 w1 where x: "env_exec env n s w = (Inr r1, s1, w1)"
    "executeNode ex n s w = Some (r1, s1, w1) \<or> executeNode ex n s w = None \<and> same_position s s1"
    using assms(1) by (rule runs_nodesE)
  then have "same_position s s'" using e executeNode_position [OF assms(2)] by auto
  then show "s_callUuid s' = s_callUuid s \<and> s_flow s' = s_flow s \<and> s_currentNodeKey s' = s_currentNodeKey s"
    by (simp add: same_position_def)
qed

section \<open>A failed call\<close>

lemma run_loop_reason:
  assumes "never_rejects env" and "run_loop env st = Some out" and "reason_ok st"
  shows "reason_ok (case out of Inl st' \<Rightarrow> st' | Inr st' \<Rightarrow> st')"
  using runs_invariant [of env st out reason_ok] assms step_reason
  by (cases out) (auto simp: run_loop_iff)

lemma failed_run_reason:
  assumes "never_rejects env" and "runFlow env s logs w = Some (Inr res)" and "rr_status res = Failed"
  shows "rr_events res = [FailedEvent (s_channelId s) (s_callerNumber s) (f_id (s_flow s)) None ''No entry node found in flow'']
    \<or> (\<exists>ch c f k r. rr_events res = [FailedEvent ch c f (Some k) r] \<and> routing_failure r)"
proof (cases "findEntryNode (s_flow s)")
  case None
  then show ?thesis using assms(2) by (auto simp: runFlow_def)
next
  case (Some k)
  have init: "reason_ok (initial_state s k logs w)" by (simp add: reason_ok_def initial_state_def)
  obtain out where out: "run_loop env (initial_state s k logs w) = Some out" using assms(2) Some by (auto simp: runFlow_def)
  then obtain st where run: "run_loop env (initial_state s k logs w) = Some (Inr st)"
    and res: "res = \<lparr>rr_status = r_status st, rr_events = [final_event env st], rr_state = st\<rparr>"
    using assms(2) Some by (cases out) (auto simp: runFlow_def)
  have "reason_ok st" using run_loop_reason [OF assms(1) run init] by simp
  then obtain r where r: "r_reason st = Some r" "routing_failure r" using assms(3) res by (auto simp: reason_ok_def)
  moreover from r(2) have "r \<noteq> []" by (auto simp: routing_failure_def starts_with_def)
  ultimately show ?thesis using res assms(3) by (auto simp: final_event_def text_or_empty_def Let_def)
qed

section \<open>A failing executor\<close>

text \<open>How \<open>executeNode\<close> reports a rejected executor.\<close>

definition rejects :: "'w executors \<Rightarrow> rt_node \<Rightarrow> session \<Rightarrow> 'w \<Rightarrow> string \<Rightarrow> bool" where
  "rejects ex node s w m \<longleftrightarrow> n_type node \<noteq> ''group''
     \<and> (case executorMap ex (n_type node) of
          None \<Rightarrow> False
        | Some executor \<Rightarrow> (case executor node s (ex_telemetry ex s node Started w) of
              Some (Inl message, _) \<Rightarrow> message = m
            | _ \<Rightarrow> False))"

lemma rejects_result:
  assumes "rejects ex node s w m"
  shows "\<exists>s' w'. executeNode ex node s w = Some (''hangup'', set_var ''__last_node_error__'' m s', w')"
proof -
  obtain executor s' w' where "executorMap ex (n_type node) = Some executor" "n_type node \<noteq> ''group''"
    "executor node s (ex_telemetry ex s node Started w) = Some (Inl m, s', w')"
    using assms by (auto simp: rejects_def split: option.splits sum.splits)
  then show ?thesis by (auto simp: executeNode_def Let_def)
qed

lemma consume_recorded: "consumeNodeError (set_var ''__last_node_error__'' m s) =
    (if trim m = [] then (None, set_var ''__last_node_error__'' m s)
     else (Some (trim m), del_var ''__last_node_error__'' (set_var ''__last_node_error__'' m s)))"
  by (simp add: consumeNodeError_def text_or_empty_def)

lemma rejected_logged:
  assumes run: "runs_nodes ex env" and log: "logging_works env" and pos: "bridges_keep_position ex"
    and rej: "\<And>w. rejects ex node (r_session st) w m"
  shows "\<exists>st'. execute_logged env node st = (''hangup'', st') \<and> r_status st' = r_status st \<and> r_stack st' = r_stack st
    \<and> r_hangups st' = r_hangups st
    \<and> r_logs st' = r_logs st @ [closed_entry (r_session st) node ''hangup'' (if trim m = [] then None else Some (trim m))]"
proof -
  let ?st1 = "insertNodeLog env node st"
  have same: "r_session ?st1 = r_session st" "r_status ?st1 = r_status st" "r_stack ?st1 = r_stack st" "r_hangups ?st1 = r_hangups st"
    by (simp_all add: insertNodeLog_def Let_def split: prod.split)
  obtain s' w' where x: "env_exec env node (r_session st) (r_world ?st1) = (Inr ''hangup'', set_var ''__last_node_error__'' m s', w')"
  proof -
    obtain s' w' where a: "executeNode ex node (r_session st) (r_world ?st1) = Some (''hangup'', set_var ''__last_node_error__'' m s', w')"
      using rejects_result [OF rej] by blast
    from run obtain r s2 w2 where b: "env_exec env node (r_session st) (r_world ?st1) = (Inr r, s2, w2)"
      "executeNode ex node (r_session st) (r_world ?st1) = Some (r, s2, w2) \<or>
       executeNode ex node (r_session st) (r_world ?st1) = None \<and> same_position (r_session st) s2"
      by (rule runs_nodesE)
    from a b show ?thesis by (intro that [of s' w']) simp
  qed
  note fr = exec_frameD [OF runs_nodes_frame [OF run pos] x]
  obtain e s2 where c: "consumeNodeError (set_var ''__last_node_error__'' m s') = (e, s2)" by (metis prod.exhaust)
  let ?st2 = "?st1\<lparr>r_session := s2, r_world := w'\<rparr>"
  have e: "e = (if trim m = [] then None else Some (trim m))" using c by (simp add: consume_recorded split: if_splits)
  have "r_logs (updateNodeLog env node ''hangup'' e ?st2) = r_logs st @ [closed_entry (r_session st) node ''hangup'' e]"
    by (rule log_pair [OF log]) (use fr consume_frame [OF c] in simp_all)
  moreover have "r_stack (updateNodeLog env node b x s1) = r_stack s1" "r_hangups (updateNodeLog env node b x s1) = r_hangups s1" for b x s1
    by (auto simp: updateNodeLog_def Let_def split: prod.split)
  ultimately show ?thesis using same x c e by (simp add: execute_logged_def Let_def status_updates)
qed

text \<open>Outside a subflow the call ends there, with the status it had: the failure is in the log only.\<close>

lemma rejected_step:
  assumes run: "runs_nodes ex env" and log: "logging_works env" and pos: "bridges_keep_position ex"
    and cur: "current_node st = Some node" and top: "r_stack st = []"
    and rej: "\<And>w. rejects ex node (r_session st) w m"
  shows "\<exists>st'. step env st = Break st' \<and> r_status st' = r_status st \<and> r_hangups st' = Suc (r_hangups st)
    \<and> r_logs st' = r_logs st @ [closed_entry (r_session st) node ''hangup'' (if trim m = [] then None else Some (trim m))]"
proof -
  let ?st = "st\<lparr>r_lastNodeKey := s_currentNodeKey (r_session st)\<rparr>"
  have rej': "\<And>w. rejects ex node (r_session ?st) w m" using rej by simp
  from rejected_logged [OF run log pos rej'] obtain st' where x: "execute_logged env node ?st = (''hangup'', st')"
    "r_status st' = r_status st" "r_stack st' = []" "r_hangups st' = r_hangups st"
    "r_logs st' = r_logs st @ [closed_entry (r_session st) node ''hangup'' (if trim m = [] then None else Some (trim m))]"
    using top by auto
  have "step env st = finish_call env st'"
    using cur x(1) by (simp add: step_def current_node_def route_result_def Let_def)
  then show ?thesis using x
    by (auto simp: finish_call_def hangup_channel_def Let_def split: prod.split)
qed

end
