(* ===== verification/AsyncPrograms.thy ===== *)
theory AsyncPrograms
  imports Prelude
begin

text \<open>
  Asynchronous operations on a shared store.  An \<open>async\<close> function runs undisturbed up to its next
  \<open>await\<close>; there other operations may run.  A program is the sequence of its atomic actions, each of
  which may depend on the store it finds; \<open>pool\<close> executions interleave the actions of any number of
  running operations and may stop one of them at any point with an exception.
\<close>

section \<open>Programs\<close>

datatype ('s, 'a) prog = Ret 'a | Fail string | Act "'s \<Rightarrow> ('s, 'a) prog \<times> 's"

definition atomic :: "('s \<Rightarrow> 'a \<times> 's) \<Rightarrow> ('s, 'a) prog" where
  "atomic f = Act (\<lambda>s. map_prod Ret id (f s))"

text \<open>An action whose promise may reject.\<close>

definition attempt :: "('s \<Rightarrow> (string + 'a) \<times> 's) \<Rightarrow> ('s, 'a) prog" where
  "attempt f = Act (\<lambda>s. map_prod (case_sum Fail Ret) id (f s))"

text \<open>Sequencing, and \<open>try ... catch\<close>.\<close>

primrec andThen :: "('s, 'a) prog \<Rightarrow> ('a \<Rightarrow> ('s, 'b) prog) \<Rightarrow> ('s, 'b) prog" where
  "andThen (Ret a) k = k a"
| "andThen (Fail m) k = Fail m"
| "andThen (Act f) k = Act (map_prod (\<lambda>p. andThen p k) id \<circ> f)"

primrec tryCatch :: "('s, 'a) prog \<Rightarrow> (string \<Rightarrow> ('s, 'a) prog) \<Rightarrow> ('s, 'a) prog" where
  "tryCatch (Ret a) h = Ret a"
| "tryCatch (Fail m) h = h m"
| "tryCatch (Act f) h = Act (map_prod (\<lambda>p. tryCatch p h) id \<circ> f)"

text \<open>The operation alone, from start to end.\<close>

primrec run :: "('s, 'a) prog \<Rightarrow> 's \<Rightarrow> (string + 'a) \<times> 's" where
  "run (Ret a) = Pair (Inr a)"
| "run (Fail m) = Pair (Inl m)"
| "run (Act f) = (\<lambda>s. case (map_prod run id \<circ> f) s of (g, s') \<Rightarrow> g s')"

lemma run_atomic [simp]: "run (atomic f) s = (case f s of (a, s') \<Rightarrow> (Inr a, s'))"
  by (simp add: atomic_def split: prod.split)

lemma run_attempt [simp]: "run (attempt f) s = f s"
  by (cases "f s"; cases "fst (f s)") (auto simp: attempt_def)

lemma run_andThen [simp]:
  "run (andThen p k) s = (case run p s of (Inl m, s') \<Rightarrow> (Inl m, s') | (Inr a, s') \<Rightarrow> run (k a) s')"
proof (induction p arbitrary: s)
  case (Act f)
  obtain p' s' where x: "f s = (p', s')" by (metis prod.exhaust)
  have "f s \<in> range f" "p' \<in> Basic_BNFs.fsts (f s)" by (rule rangeI) (simp add: x fsts.intros)
  from Act [OF this, of s'] x show ?case by simp
qed simp_all

lemma run_tryCatch [simp]:
  "run (tryCatch p h) s = (case run p s of (Inl m, s') \<Rightarrow> run (h m) s' | (Inr a, s') \<Rightarrow> (Inr a, s'))"
proof (induction p arbitrary: s)
  case (Act f)
  obtain p' s' where x: "f s = (p', s')" by (metis prod.exhaust)
  have "f s \<in> range f" "p' \<in> Basic_BNFs.fsts (f s)" by (rule rangeI) (simp add: x fsts.intros)
  from Act [OF this, of s'] x show ?case by simp
qed simp_all

section \<open>Interleaving\<close>

type_synonym ('s, 'a) pool = "('s, 'a) prog list \<times> 's"

text \<open>An operation starts, performs its next action, or is stopped by an exception.\<close>

inductive pool_step :: "('s, 'a) prog set \<Rightarrow> ('s, 'a) pool \<Rightarrow> ('s, 'a) pool \<Rightarrow> bool" for ops where
  pool_start: "p \<in> ops \<Longrightarrow> pool_step ops (ps, s) (ps @ [p], s)"
| pool_act: "i < length ps \<Longrightarrow> ps ! i = Act f \<Longrightarrow> f s = (p', s') \<Longrightarrow> pool_step ops (ps, s) (ps[i := p'], s')"
| pool_stop: "i < length ps \<Longrightarrow> pool_step ops (ps, s) (ps[i := Fail m], s)"

definition pool_runs :: "('s, 'a) prog set \<Rightarrow> ('s, 'a) pool \<Rightarrow> ('s, 'a) pool \<Rightarrow> bool" where
  "pool_runs ops = (pool_step ops)\<^sup>*\<^sup>*"

lemma pool_runs_refl [simp]: "pool_runs ops c c"
  by (simp add: pool_runs_def)

lemma pool_runs_step: "pool_step ops c c' \<Longrightarrow> pool_runs ops c' c'' \<Longrightarrow> pool_runs ops c c''"
  unfolding pool_runs_def by (rule converse_rtranclp_into_rtranclp)

definition finished :: "('s, 'a) prog \<Rightarrow> bool" where
  "finished p = (case p of Act _ \<Rightarrow> False | _ \<Rightarrow> True)"

text \<open>An execution given by its schedule: the next action of the operation at each index.\<close>

definition act_at :: "nat \<Rightarrow> ('s, 'a) pool \<Rightarrow> ('s, 'a) pool" where
  "act_at i c = (case c of (ps, s) \<Rightarrow>
     if i < length ps
     then (case ps ! i of Act f \<Rightarrow> (case f s of (p', s') \<Rightarrow> (ps[i := p'], s')) | _ \<Rightarrow> c)
     else c)"

lemma schedule_runs: "pool_runs ops c (fold act_at is c)"
proof (induction "is" arbitrary: c)
  case (Cons i xs)
  have "act_at i c = c \<or> pool_step ops c (act_at i c)"
  proof (cases "\<exists>f. i < length (fst c) \<and> fst c ! i = Act f")
    case True
    then obtain f p' s' where "i < length (fst c)" "fst c ! i = Act f" "f (snd c) = (p', s')" by (metis prod.exhaust)
    then show ?thesis using pool_act [of i "fst c" f "snd c" p' s' ops] by (cases c) (simp add: act_at_def)
  next
    case False
    then show ?thesis by (cases c) (auto simp: act_at_def split: prog.split)
  qed
  then show ?case
  proof
    assume "act_at i c = c"
    then show ?thesis using Cons.IH [of c] by simp
  next
    assume "pool_step ops c (act_at i c)"
    from pool_runs_step [OF this Cons.IH] show ?thesis by simp
  qed
qed simp

lemma pool_runs_start: "set ps \<subseteq> ops \<Longrightarrow> pool_runs ops (qs @ ps, s) c \<Longrightarrow> pool_runs ops (qs, s) c"
proof (induction ps arbitrary: qs)
  case (Cons p ps)
  have "pool_runs ops (qs @ [p], s) c" by (rule Cons.IH) (use Cons.prems in simp_all)
  moreover have "pool_step ops (qs, s) (qs @ [p], s)" by (rule pool_start) (use Cons.prems(1) in simp)
  ultimately show ?case by (rule pool_runs_step [rotated])
qed simp

section \<open>Guarantees\<close>

text \<open>Every action of the program, in whatever store it runs, changes the store as \<open>G\<close> allows.\<close>

inductive guarantees :: "('s \<Rightarrow> 's \<Rightarrow> bool) \<Rightarrow> ('s, 'a) prog \<Rightarrow> bool" for G where
  guarantees_Ret [intro, simp]: "guarantees G (Ret a)"
| guarantees_Fail [intro, simp]: "guarantees G (Fail m)"
| guarantees_Act: "(\<And>s. G s (snd (f s))) \<Longrightarrow> (\<And>s. guarantees G (fst (f s))) \<Longrightarrow> guarantees G (Act f)"

inductive_cases guarantees_ActE: "guarantees G (Act f)"

lemma guarantees_atomic: "(\<And>s. G s (snd (f s))) \<Longrightarrow> guarantees G (atomic f)"
  by (auto simp: atomic_def intro!: guarantees_Act)

lemma guarantees_attempt: "(\<And>s. G s (snd (f s))) \<Longrightarrow> guarantees G (attempt f)"
  by (auto simp: attempt_def intro!: guarantees_Act split: prod.split sum.split)

lemma guarantees_andThen:
  "guarantees G p \<Longrightarrow> (\<And>a. guarantees G (k a)) \<Longrightarrow> guarantees G (andThen p k)"
  by (induction rule: guarantees.induct) (auto intro!: guarantees_Act)

lemma guarantees_tryCatch:
  "guarantees G p \<Longrightarrow> (\<And>m. guarantees G (h m)) \<Longrightarrow> guarantees G (tryCatch p h)"
  by (induction rule: guarantees.induct) (auto intro!: guarantees_Act)

text \<open>A relation on stores that composes: what every operation guarantees holds of a whole execution.\<close>

locale store_order =
  fixes G :: "'s \<Rightarrow> 's \<Rightarrow> bool"
  assumes refl: "G s s" and trans: "G s t \<Longrightarrow> G t u \<Longrightarrow> G s u"
begin

lemma step_guarantee:
  assumes "pool_step ops (ps, s) (ps', s')" and "\<forall>p \<in> ops. guarantees G p" and "\<forall>p \<in> set ps. guarantees G p"
  shows "G s s' \<and> (\<forall>p \<in> set ps'. guarantees G p)"
  using assms(1)
proof (cases rule: pool_step.cases)
  case (pool_start p)
  then show ?thesis using assms(2,3) refl by auto
next
  case (pool_act i f p')
  then have "guarantees G (Act f)" using assms(3) nth_mem by metis
  then have "G s s'" "guarantees G p'" using pool_act(4) by (elim guarantees_ActE; metis fst_conv snd_conv)+
  then show ?thesis using pool_act assms(3) set_update_subset_insert [of ps i p'] by blast
next
  case (pool_stop i m)
  then show ?thesis using assms(3) refl set_update_subset_insert [of ps i "Fail m"] by auto
qed

lemma runs_guarantee:
  assumes "pool_runs ops (ps, s) (ps', s')" and "\<forall>p \<in> ops. guarantees G p" and "\<forall>p \<in> set ps. guarantees G p"
  shows "G s s'"
proof -
  have "G s (snd c) \<and> (\<forall>p \<in> set (fst c). guarantees G p)" if "pool_runs ops (ps, s) c" for c
    using that unfolding pool_runs_def
  proof (induction rule: rtranclp_induct)
    case base
    then show ?case using assms(3) refl by simp
  next
    case (step c d)
    then show ?case using step_guarantee [of ops "fst c" "snd c" "fst d" "snd d"] assms(2) trans by force
  qed
  from this [OF assms(1)] show ?thesis by simp
qed

lemma run_guarantee: "guarantees G p \<Longrightarrow> G s (snd (run p s))"
proof (induction arbitrary: s rule: guarantees.induct)
  case (guarantees_Act f)
  obtain p s' where "f s = (p, s')" by (metis prod.exhaust)
  then show ?case using trans [OF guarantees_Act(1) [of s] guarantees_Act(3) [of "snd (f s)" s]] by simp
qed (simp_all add: refl)

end

section \<open>Invariants\<close>

text \<open>In stores where \<open>I\<close> holds, every action of the program keeps it, and what the program returns satisfies \<open>Q\<close>.\<close>

inductive ensures :: "('s \<Rightarrow> bool) \<Rightarrow> ('a \<Rightarrow> bool) \<Rightarrow> ('s, 'a) prog \<Rightarrow> bool" for I Q where
  ensures_Ret [intro, simp]: "Q a \<Longrightarrow> ensures I Q (Ret a)"
| ensures_Fail [intro, simp]: "ensures I Q (Fail m)"
| ensures_Act: "(\<And>s. I s \<Longrightarrow> I (snd (f s)) \<and> ensures I Q (fst (f s))) \<Longrightarrow> ensures I Q (Act f)"

inductive_cases ensures_ActE: "ensures I Q (Act f)"

lemma ensures_atomic: "(\<And>s. I s \<Longrightarrow> I (snd (f s)) \<and> Q (fst (f s))) \<Longrightarrow> ensures I Q (atomic f)"
  by (auto simp: atomic_def intro!: ensures_Act)

lemma ensures_attempt:
  "(\<And>s. I s \<Longrightarrow> I (snd (f s)) \<and> (\<forall>a. fst (f s) = Inr a \<longrightarrow> Q a)) \<Longrightarrow> ensures I Q (attempt f)"
  by (auto simp: attempt_def intro!: ensures_Act split: sum.split)

lemma ensures_andThen:
  "ensures I Q p \<Longrightarrow> (\<And>a. Q a \<Longrightarrow> ensures I R (k a)) \<Longrightarrow> ensures I R (andThen p k)"
  by (induction rule: ensures.induct) (auto intro!: ensures_Act)

lemma ensures_tryCatch:
  "ensures I Q p \<Longrightarrow> (\<And>m. ensures I Q (h m)) \<Longrightarrow> ensures I Q (tryCatch p h)"
  by (induction rule: ensures.induct) (auto intro!: ensures_Act)

abbreviation keeps :: "('s \<Rightarrow> bool) \<Rightarrow> ('s, 'a) prog \<Rightarrow> bool" where
  "keeps I \<equiv> ensures I (\<lambda>_. True)"

lemma step_keeps:
  assumes "pool_step ops c c'" and "\<forall>p \<in> ops. keeps I p" and "I (snd c)" "\<forall>p \<in> set (fst c). keeps I p"
  shows "I (snd c') \<and> (\<forall>p \<in> set (fst c'). keeps I p)"
  using assms(1)
proof (cases rule: pool_step.cases)
  case (pool_start p ps s)
  then show ?thesis using assms(2-4) by auto
next
  case (pool_act i ps f s p' s')
  then have "keeps I (Act f)" using assms(4) nth_mem by (metis fst_conv)
  moreover have "I s" using assms(3) pool_act by simp
  ultimately have "I s' \<and> keeps I p'" using pool_act(5) by (elim ensures_ActE) (metis fst_conv snd_conv)
  then show ?thesis using pool_act assms(4) set_update_subset_insert [of ps i p'] by auto
next
  case (pool_stop i ps s m)
  then show ?thesis using assms(3,4) set_update_subset_insert [of ps i "Fail m"] by auto
qed

lemma pool_keeps:
  assumes "pool_runs ops (ps, s) (ps', s')" and "\<forall>p \<in> ops. keeps I p" and "I s" "\<forall>p \<in> set ps. keeps I p"
  shows "I s'"
proof -
  have "I (snd c) \<and> (\<forall>p \<in> set (fst c). keeps I p)" if "pool_runs ops (ps, s) c" for c
    using that unfolding pool_runs_def
  proof (induction rule: rtranclp_induct)
    case base
    then show ?case using assms(3,4) by simp
  next
    case (step c d)
    then show ?case using step_keeps assms(2) by blast
  qed
  from this [OF assms(1)] show ?thesis by simp
qed

end
