(* ===== verification/QueueManager.thy ===== *)
theory QueueManager
  imports AsyncPrograms JsArith "HOL-Library.Sublist"
begin

text \<open>
  \<open>engine/queueManager.ts\<close>: operators and waiting customers of the call queues, kept in Redis.  Each
  Redis command and each ARI request is one atomic action of the operation that awaits it.
\<close>

section \<open>The Redis keys and the store\<close>

text \<open>The keys, by the templates that build them.\<close>

datatype redis_key =
    OperatorQueue string
  | OperatorChannel string
  | Waiting string
  | Operators string
  | Busy string
  | CustomerChannel string string

fun key_name :: "redis_key \<Rightarrow> string" where
  "key_name (OperatorQueue op) = ''operator:'' @ op @ '':queue''"
| "key_name (OperatorChannel op) = ''operator:'' @ op @ '':channel''"
| "key_name (Waiting q) = ''queue:'' @ q @ '':waiting''"
| "key_name (Operators q) = ''queue:'' @ q @ '':operators''"
| "key_name (Busy q) = ''queue:'' @ q @ '':busy''"
| "key_name (CustomerChannel q c) = ''queue:'' @ q @ '':customer:'' @ c @ '':channel''"

datatype ari_call =
    StopMoh string
  | StartMoh string
  | CreateBridge string
  | AddChannel string string
  | BridgeStartMoh string
  | BridgeStopMoh string

text \<open>
  Besides the Redis values and the ARI requests sent, the store has the history of what was appended to
  each list, which the program does not read.
\<close>

record queue_store =
  q_str :: "redis_key \<Rightarrow> string option"
  q_list :: "redis_key \<Rightarrow> string list"
  q_set :: "redis_key \<Rightarrow> string set"
  q_ari :: "ari_call list"
  q_arrivals :: "redis_key \<Rightarrow> string list"

text \<open>
  Redis chooses the member \<open>SPOP\<close> returns; Asterisk answers a bridge request with an id and may reject
  it or the adding of a channel.
\<close>

record queue_env =
  qe_pick :: "string set \<Rightarrow> string"
  qe_bridge :: "queue_store \<Rightarrow> string + string"
  qe_add :: "string \<Rightarrow> string \<Rightarrow> queue_store \<Rightarrow> string + unit"

type_synonym 'a queue_op = "(queue_store, 'a) prog"

section \<open>Redis commands and ARI requests\<close>

definition redis_get :: "redis_key \<Rightarrow> string option queue_op" where
  "redis_get k = atomic (\<lambda>s. (q_str s k, s))"

definition redis_set :: "redis_key \<Rightarrow> string \<Rightarrow> unit queue_op" where
  "redis_set k v = atomic (\<lambda>s. ((), s\<lparr>q_str := (q_str s)(k := Some v)\<rparr>))"

definition redis_del :: "redis_key \<Rightarrow> unit queue_op" where
  "redis_del k = atomic (\<lambda>s. ((), s\<lparr>q_str := (q_str s)(k := None)\<rparr>))"

definition redis_lLen :: "redis_key \<Rightarrow> nat queue_op" where
  "redis_lLen k = atomic (\<lambda>s. (length (q_list s k), s))"

definition redis_rPush :: "redis_key \<Rightarrow> string \<Rightarrow> unit queue_op" where
  "redis_rPush k v = atomic (\<lambda>s. ((), s\<lparr>q_list := (q_list s)(k := q_list s k @ [v]),
     q_arrivals := (q_arrivals s)(k := q_arrivals s k @ [v])\<rparr>))"

definition redis_lPop :: "redis_key \<Rightarrow> string option queue_op" where
  "redis_lPop k = atomic (\<lambda>s. case q_list s k of
     [] \<Rightarrow> (None, s)
   | c # cs \<Rightarrow> (Some c, s\<lparr>q_list := (q_list s)(k := cs)\<rparr>))"

text \<open>\<open>LREM key 1 v\<close>: the first occurrence.\<close>

definition redis_lRem :: "redis_key \<Rightarrow> string \<Rightarrow> unit queue_op" where
  "redis_lRem k v = atomic (\<lambda>s. ((), s\<lparr>q_list := (q_list s)(k := remove1 v (q_list s k))\<rparr>))"

definition redis_sCard :: "redis_key \<Rightarrow> nat queue_op" where
  "redis_sCard k = atomic (\<lambda>s. (card (q_set s k), s))"

definition redis_sAdd :: "redis_key \<Rightarrow> string \<Rightarrow> unit queue_op" where
  "redis_sAdd k v = atomic (\<lambda>s. ((), s\<lparr>q_set := (q_set s)(k := insert v (q_set s k))\<rparr>))"

definition redis_sRem :: "redis_key \<Rightarrow> string \<Rightarrow> unit queue_op" where
  "redis_sRem k v = atomic (\<lambda>s. ((), s\<lparr>q_set := (q_set s)(k := q_set s k - {v})\<rparr>))"

definition redis_sPop :: "queue_env \<Rightarrow> redis_key \<Rightarrow> string option queue_op" where
  "redis_sPop env k = atomic (\<lambda>s.
     if q_set s k = {} then (None, s)
     else let m = qe_pick env (q_set s k) in (Some m, s\<lparr>q_set := (q_set s)(k := q_set s k - {m})\<rparr>))"

definition ari_request :: "ari_call \<Rightarrow> unit queue_op" where
  "ari_request r = atomic (\<lambda>s. ((), s\<lparr>q_ari := q_ari s @ [r]\<rparr>))"

definition bridges_create :: "queue_env \<Rightarrow> string queue_op" where
  "bridges_create env = attempt (\<lambda>s. case qe_bridge env s of
     Inl m \<Rightarrow> (Inl m, s)
   | Inr b \<Rightarrow> (Inr b, s\<lparr>q_ari := q_ari s @ [CreateBridge b]\<rparr>))"

definition bridges_addChannel :: "queue_env \<Rightarrow> string \<Rightarrow> string \<Rightarrow> unit queue_op" where
  "bridges_addChannel env b ch = attempt (\<lambda>s. case qe_add env b ch s of
     Inl m \<Rightarrow> (Inl m, s)
   | Inr _ \<Rightarrow> (Inr (), s\<lparr>q_ari := q_ari s @ [AddChannel b ch]\<rparr>))"

section \<open>The queue manager\<close>

text \<open>Rejected requests to stop the music are swallowed; so is every error of bridging.\<close>

definition bridgeChannels :: "queue_env \<Rightarrow> string \<Rightarrow> string \<Rightarrow> unit queue_op" where
  "bridgeChannels env operatorChannelId customerChannelId =
     tryCatch
       (andThen (ari_request (StopMoh operatorChannelId)) (\<lambda>_.
        andThen (bridges_create env) (\<lambda>bridge.
        andThen (bridges_addChannel env bridge operatorChannelId) (\<lambda>_.
        bridges_addChannel env bridge customerChannelId))))
       (\<lambda>_. Ret ())"

definition loginOperator :: "queue_env \<Rightarrow> number \<Rightarrow> number \<Rightarrow> string \<Rightarrow> unit queue_op" where
  "loginOperator env queueId operatorId channelId =
     (let queueStr = num_to_string queueId; opStr = num_to_string operatorId;
          free = redis_sAdd (Operators queueStr) opStr in
      andThen (redis_set (OperatorQueue opStr) queueStr) (\<lambda>_.
      andThen (redis_set (OperatorChannel opStr) channelId) (\<lambda>_.
      andThen (redis_lLen (Waiting queueStr)) (\<lambda>waitingLen.
      if 0 < waitingLen
      then andThen (redis_lPop (Waiting queueStr)) (\<lambda>customer.
             if text_or_empty customer \<noteq> []
             then andThen (bridgeChannels env channelId (text_or_empty customer)) (\<lambda>_.
                  andThen (redis_sAdd (Busy queueStr) opStr) (\<lambda>_.
                  redis_set (CustomerChannel queueStr (text_or_empty customer)) channelId))
             else free)
      else free))))"

definition logoutOperator :: "number \<Rightarrow> number \<Rightarrow> unit queue_op" where
  "logoutOperator operatorId queueId =
     (let opStr = num_to_string operatorId; queueStr = num_to_string queueId in
      andThen (redis_sRem (Operators queueStr) opStr) (\<lambda>_.
      andThen (redis_sRem (Busy queueStr) opStr) (\<lambda>_.
      andThen (redis_del (OperatorQueue opStr)) (\<lambda>_.
      redis_del (OperatorChannel opStr)))))"

definition connectNextCustomer :: "queue_env \<Rightarrow> number \<Rightarrow> unit queue_op" where
  "connectNextCustomer env queueId =
     (let queueStr = num_to_string queueId in
      andThen (redis_sPop env (Operators queueStr)) (\<lambda>operatorId.
      if text_or_empty operatorId = [] then Ret ()
      else let op = text_or_empty operatorId in
        andThen (redis_lPop (Waiting queueStr)) (\<lambda>customer.
        if text_or_empty customer = [] then redis_sAdd (Operators queueStr) op
        else andThen (redis_get (OperatorChannel op)) (\<lambda>operatorChannel.
          if text_or_empty operatorChannel = [] then redis_sAdd (Operators queueStr) op
          else andThen (redis_sAdd (Busy queueStr) op) (\<lambda>_.
               bridgeChannels env (text_or_empty operatorChannel) (text_or_empty customer))))))"

definition onCustomerHangup :: "queue_env \<Rightarrow> number \<Rightarrow> number \<Rightarrow> unit queue_op" where
  "onCustomerHangup env operatorId queueId =
     (let queueStr = num_to_string queueId; opStr = num_to_string operatorId in
      andThen (redis_sRem (Busy queueStr) opStr) (\<lambda>_.
      andThen (redis_sAdd (Operators queueStr) opStr) (\<lambda>_.
      andThen (redis_get (OperatorChannel opStr)) (\<lambda>operatorChannel.
      andThen (if text_or_empty operatorChannel = [] then Ret ()
               else ari_request (StartMoh (text_or_empty operatorChannel))) (\<lambda>_.
      connectNextCustomer env queueId)))))"

end
