(* ===== verification/QueueExecutor.thy ===== *)
theory QueueExecutor
  imports QueueManager DigitCollection
begin

text \<open>
  \<open>executors/queue.executor.ts\<close>: a customer enters a queue, is connected to a free operator or waits.
  The long waits of the executor (for the end of a connected call; for an operator, a hangup or the
  maximum waiting time) receive their events as a list; the other operations of the queue run between
  any two actions.
\<close>

text \<open>The duration of the maximum wait is abstract: the timer is the event \<open>MaxWait\<close>.\<close>

record queue_row =
  qr_name :: string

datatype wait_event = CustomerGone "string option" | MaxWait | CheckConnected

text \<open>
  What the executor asks of the database, the backend, the clock, the recorder and Asterisk;
  \<open>qx_trunk\<close> is the \<open>dialFormat\<close> of the trunk, \<open>None\<close> when the request fails.
\<close>

record queue_exec_env = queue_env +
  qx_row :: "number \<Rightarrow> string + queue_row option"
  qx_member :: "number \<Rightarrow> string + (string option \<times> number option) option"
  qx_trunk :: "number \<Rightarrow> string option"
  qx_originate :: "(string \<Rightarrow> string \<Rightarrow> queue_store \<Rightarrow> string + string option) option"
  qx_now :: "queue_store \<Rightarrow> nat"
  qx_media :: "queue_store media_env"
  qx_record :: "session \<Rightarrow> string \<Rightarrow> queue_store \<Rightarrow> (string + unit) \<times> session"
  qx_callEnds :: "wait_event list"
  qx_wait :: "wait_event list"

definition base :: "queue_exec_env \<Rightarrow> queue_env" where
  "base env = queue_env.truncate env"

section \<open>Queue members on the public network\<close>

definition resolveQueuePstnMember :: "queue_exec_env \<Rightarrow> number \<Rightarrow> (string \<times> number) option queue_op" where
  "resolveQueuePstnMember env operatorId =
     andThen (attempt (\<lambda>s. (qx_member env operatorId, s))) (\<lambda>row.
       let number = trim (text_or_empty (Option.bind row fst));
           trunkId = (case Option.bind row snd of None \<Rightarrow> Dec 0 0 | Some n \<Rightarrow> if num_truthy n then n else Dec 0 0) in
       Ret (if number = [] \<or> \<not> num_truthy trunkId then None else Some (number, trunkId)))"

definition originateQueuePstnMember :: "queue_exec_env \<Rightarrow> number \<Rightarrow> number \<Rightarrow> string option queue_op" where
  "originateQueuePstnMember env operatorId queueId =
     andThen (resolveQueuePstnMember env operatorId) (\<lambda>member.
       case member of
         None \<Rightarrow> Ret None
       | Some (number, trunkId) \<Rightarrow>
         (case formatDialNumber number (fetchTrunkDialFormat (qx_trunk env) trunkId) of
            None \<Rightarrow> Ret None
          | Some formattedNumber \<Rightarrow>
            if formattedNumber = [] then Ret None
            else (case qx_originate env of
              None \<Rightarrow> Ret None
            | Some originate \<Rightarrow>
              andThen (attempt (\<lambda>s. (originate
                  (''PJSIP/'' @ formattedNumber @ ''@trunk-'' @ num_to_string trunkId)
                  (''queue-outbound,'' @ num_to_string queueId @ '','' @ num_to_string operatorId) s, s))) (\<lambda>result.
                let channelId = trim (text_or_empty result) in
                Ret (if channelId = [] then None else Some channelId)))))"

section \<open>The payload\<close>

definition queue_payload :: "number \<Rightarrow> string \<Rightarrow> int \<Rightarrow> string option \<Rightarrow> bool \<Rightarrow> string \<Rightarrow> session \<Rightarrow> session" where
  "queue_payload queueId queueName waitSeconds agentExtension abandoned outcome s =
     s\<lparr>s_webhookPayload := (s_webhookPayload s)
        \<lparr>wp_queue := Some (JObj [(''queue_id'', JNum queueId), (''queue_name'', JStr queueName),
            (''wait_seconds'', JNum (num_of_int waitSeconds)),
            (''agent_extension'', case agentExtension of None \<Rightarrow> JNull | Some a \<Rightarrow> JStr a),
            (''abandoned'', JBool abandoned)]),
         wp_outcome := Some (JObj [(''status'', JStr outcome)])\<rparr>\<rparr>"

definition writeQueuePayload ::
  "queue_exec_env \<Rightarrow> number \<Rightarrow> string \<Rightarrow> nat \<Rightarrow> string option \<Rightarrow> bool \<Rightarrow> string \<Rightarrow> session \<Rightarrow> session queue_op" where
  "writeQueuePayload env queueId queueName queueEnteredAt agentExtension abandoned outcome s =
     atomic (\<lambda>st. (queue_payload queueId queueName ((int (qx_now env st) - int queueEnteredAt + 500) div 1000)
       agentExtension abandoned outcome s, st))"

definition playQueuePrompt :: "queue_exec_env \<Rightarrow> config \<Rightarrow> session \<Rightarrow> unit queue_op" where
  "playQueuePrompt env config s =
     attempt (\<lambda>st. case resolveAudioMediaPath (qx_media env) st config ''prompt_audio_file_id'' ''prompt_path'' of
       Inl m \<Rightarrow> (Inl m, st)
     | Inr None \<Rightarrow> (Inr (), st)
     | Inr (Some p) \<Rightarrow> md_play (qx_media env) (getPlaybackTarget s) (''sound:'' @ p) st)"

section \<open>Connecting to a free operator\<close>

definition safe_name :: "string \<Rightarrow> string" where
  "safe_name = map (\<lambda>c. if is_alnum c \<or> c = CHR ''_'' \<or> c = CHR ''-'' then c else CHR ''_'')"

text \<open>
  From the check for a free operator to the bridge.  \<open>None\<close>: the customer has to wait.  The session is
  returned with the rejection of a failed recording, too.
\<close>

definition claim_operator :: "queue_exec_env \<Rightarrow> number \<Rightarrow> (string \<times> string) option queue_op" where
  "claim_operator env queueId =
     (let queueStr = num_to_string queueId in
      andThen (redis_sCard (Operators queueStr)) (\<lambda>freeCount.
      if 0 < freeCount
      then andThen (redis_sPop (base env) (Operators queueStr)) (\<lambda>operatorId.
        if text_or_empty operatorId = [] then Ret None
        else let op = text_or_empty operatorId in
          andThen (redis_get (OperatorChannel op)) (\<lambda>channel.
          andThen (if text_or_empty channel = []
                   then originateQueuePstnMember env (string_to_number op) queueId else Ret channel) (\<lambda>operatorChannel.
          if text_or_empty operatorChannel = []
          then andThen (redis_sAdd (Operators queueStr) op) (\<lambda>_. Ret None)
          else andThen (redis_sAdd (Busy queueStr) op) (\<lambda>_. Ret (Some (op, text_or_empty operatorChannel))))))
      else Ret None))"

definition bridge_operator :: "queue_exec_env \<Rightarrow> config \<Rightarrow> string \<Rightarrow> string \<Rightarrow> session \<Rightarrow> ((string + unit) \<times> session) queue_op" where
  "bridge_operator env config queueName operatorChannelId s =
     andThen (ari_request (StopMoh operatorChannelId)) (\<lambda>_.
     andThen (bridges_create (base env)) (\<lambda>bridge.
     andThen (bridges_addChannel (base env) bridge (s_channelId s)) (\<lambda>_.
     andThen (bridges_addChannel (base env) bridge operatorChannelId) (\<lambda>_.
     if truthy (obj_get config ''record_call'')
     then atomic (\<lambda>st. (qx_record env s
            (s_callUuid s @ ''-queue-'' @ safe_name queueName @ ''-'' @ show_int (int (qx_now env st))) st, st))
     else Ret (Inr (), s)))))"

text \<open>The end of the connected call is awaited without a timeout.\<close>

definition call_ended :: "string \<Rightarrow> wait_event list \<Rightarrow> bool" where
  "call_ended channelId events \<longleftrightarrow> CustomerGone (Some channelId) \<in> set events"

section \<open>Waiting\<close>

text \<open>The three listeners of the wait; \<open>None\<close>: still waiting when the events end.\<close>

primrec await_operator :: "number \<Rightarrow> string \<Rightarrow> wait_event list \<Rightarrow> string option queue_op" where
  "await_operator queueId channelId [] = Ret None"
| "await_operator queueId channelId (e # es) =
     (let queueStr = num_to_string queueId in
      case e of
        CustomerGone c \<Rightarrow>
          if c \<noteq> Some channelId then await_operator queueId channelId es
          else andThen (redis_lRem (Waiting queueStr) channelId) (\<lambda>_. Ret (Some ''abandoned''))
      | MaxWait \<Rightarrow> andThen (redis_lRem (Waiting queueStr) channelId) (\<lambda>_. Ret (Some ''timeout''))
      | CheckConnected \<Rightarrow>
          andThen (redis_get (CustomerChannel queueStr channelId)) (\<lambda>operatorChannel.
            if text_or_empty operatorChannel \<noteq> [] then Ret (Some ''connected'')
            else await_operator queueId channelId es))"

definition enqueue_customer :: "number \<Rightarrow> string \<Rightarrow> unit queue_op" where
  "enqueue_customer queueId channelId = redis_rPush (Waiting (num_to_string queueId)) channelId"

definition waited :: "queue_exec_env \<Rightarrow> number \<Rightarrow> string \<Rightarrow> nat \<Rightarrow> string \<Rightarrow> session \<Rightarrow> (string \<times> session) queue_op" where
  "waited env queueId queueName enteredAt result s =
     andThen
       (if result = ''connected''
        then andThen (redis_get (CustomerChannel (num_to_string queueId) (s_channelId s))) (\<lambda>agentExtension.
               writeQueuePayload env queueId queueName enteredAt agentExtension False ''completed'' s)
        else if result = ''abandoned'' then writeQueuePayload env queueId queueName enteredAt None True ''abandoned'' s
        else writeQueuePayload env queueId queueName enteredAt None False ''timeout'' s)
       (\<lambda>s'. Ret (result, s'))"

section \<open>The executor\<close>

text \<open>\<open>Ret None\<close>: the promise is still pending when the events end.\<close>

definition connected_call ::
  "queue_exec_env \<Rightarrow> config \<Rightarrow> number \<Rightarrow> string \<Rightarrow> nat \<Rightarrow> string \<Rightarrow> string \<Rightarrow> session
    \<Rightarrow> ((string + string) \<times> session) option queue_op" where
  "connected_call env config queueId queueName enteredAt op operatorChannelId s =
     andThen (bridge_operator env config queueName operatorChannelId s) (\<lambda>(recorded, s1).
       case recorded of
         Inl m \<Rightarrow> Ret (Some (Inl m, s1))
       | Inr _ \<Rightarrow>
         if \<not> call_ended (s_channelId s) (qx_callEnds env) then Ret None
         else andThen (onCustomerHangup (base env) (string_to_number op) queueId) (\<lambda>_.
              andThen (writeQueuePayload env queueId queueName enteredAt (Some op) False ''completed'' s1) (\<lambda>s2.
              Ret (Some (Inr ''connected'', s2)))))"

definition queue_call ::
  "queue_exec_env \<Rightarrow> config \<Rightarrow> number \<Rightarrow> queue_row \<Rightarrow> session \<Rightarrow> ((string + string) \<times> session) option queue_op" where
  "queue_call env config queueId row s =
     (let queueName = (if qr_name row = [] then num_to_string queueId else qr_name row) in
      andThen (atomic (\<lambda>st. (qx_now env st, st))) (\<lambda>enteredAt.
      andThen (tryCatch (playQueuePrompt env config s) (\<lambda>_. Ret ())) (\<lambda>_.
      andThen (claim_operator env queueId) (\<lambda>claimed.
      case claimed of
        Some (op, operatorChannelId) \<Rightarrow> connected_call env config queueId queueName enteredAt op operatorChannelId s
      | None \<Rightarrow>
        andThen (enqueue_customer queueId (s_channelId s)) (\<lambda>_.
        andThen (await_operator queueId (s_channelId s) (qx_wait env)) (\<lambda>result.
          case result of
            None \<Rightarrow> Ret None
          | Some r \<Rightarrow> andThen (waited env queueId queueName enteredAt r s) (\<lambda>(r', s'). Ret (Some (Inr r', s')))))))))"

definition executeQueue :: "queue_exec_env \<Rightarrow> rt_node \<Rightarrow> session \<Rightarrow> ((string + string) \<times> session) option queue_op" where
  "executeQueue env node s =
     (let config = n_config node; queueId = num_or_zero (obj_get config ''queue_id'');
          abandon = Ret (Some (Inr ''abandoned'', queue_payload queueId [] 0 None True ''abandoned'' s)) in
      if \<not> num_truthy queueId then abandon
      else andThen (attempt (\<lambda>st. (qx_row env queueId, st))) (\<lambda>row.
        case row of None \<Rightarrow> abandon | Some row \<Rightarrow> queue_call env config queueId row s))"

end
