(* ===== verification/QueueLaws.thy ===== *)
theory QueueLaws
  imports QueueExecutor
begin

text \<open>
  Laws of the call queues: the Redis keys do not collide, no waiting customer overtakes another under
  any interleaving, and when operations do not overlap no operator is idle while a customer waits.
\<close>

section \<open>Redis keys\<close>

definition plain_key :: "redis_key \<Rightarrow> bool" where
  "plain_key k = (case k of
     OperatorQueue _ \<Rightarrow> True | OperatorChannel _ \<Rightarrow> True
   | Waiting q \<Rightarrow> CHR '':'' \<notin> set q | Operators q \<Rightarrow> CHR '':'' \<notin> set q | Busy q \<Rightarrow> CHR '':'' \<notin> set q
   | CustomerChannel q _ \<Rightarrow> CHR '':'' \<notin> set q)"

lemma split_at_colon:
  "CHR '':'' \<notin> set a \<Longrightarrow> CHR '':'' \<notin> set b \<Longrightarrow> a @ CHR '':'' # x = b @ CHR '':'' # y \<longleftrightarrow> a = b \<and> x = y"
proof (induction a arbitrary: b)
  case Nil
  then show ?case by (cases b) auto
next
  case (Cons c a)
  then show ?case by (cases b) auto
qed

lemma ends_differ: "a @ '':queue'' \<noteq> b @ '':channel''"
  by (rule notI, drule arg_cong [where f = last]) simp

lemma key_name_inj: "plain_key k \<Longrightarrow> plain_key k' \<Longrightarrow> key_name k = key_name k' \<Longrightarrow> k = k'"
  using ends_differ ends_differ [symmetric]
  by (cases k; cases k') (auto simp: plain_key_def split_at_colon)

section \<open>No overtaking\<close>

text \<open>Between two stores every list has lost entries and got arrivals at its end, in their order.\<close>

definition fifo :: "queue_store \<Rightarrow> queue_store \<Rightarrow> bool" where
  "fifo s s' \<longleftrightarrow> (\<forall>k. \<exists>new. q_arrivals s' k = q_arrivals s k @ new \<and> subseq (q_list s' k) (q_list s k @ new))"

lemma fifo_same: "q_list s' = q_list s \<Longrightarrow> q_arrivals s' = q_arrivals s \<Longrightarrow> fifo s s'"
  by (simp add: fifo_def)

lemma fifo_shrink: "(\<And>k. subseq (q_list s' k) (q_list s k)) \<Longrightarrow> q_arrivals s' = q_arrivals s \<Longrightarrow> fifo s s'"
  by (simp add: fifo_def)

lemma subseq_remove1: "subseq (remove1 x xs) xs"
  by (induction xs) auto

interpretation queue_order: store_order fifo
proof
  show "fifo s s" for s by (rule fifo_same) simp_all
next
  fix s t u
  assume st: "fifo s t" and tu: "fifo t u"
  show "fifo s u" unfolding fifo_def
  proof
    fix k
    obtain new where new: "q_arrivals t k = q_arrivals s k @ new" "subseq (q_list t k) (q_list s k @ new)"
      using st unfolding fifo_def by blast
    obtain newer where newer: "q_arrivals u k = q_arrivals t k @ newer" "subseq (q_list u k) (q_list t k @ newer)"
      using tu unfolding fifo_def by blast
    have "subseq (q_list t k @ newer) ((q_list s k @ new) @ newer)" using new(2) by (simp only: subseq_append)
    with newer(2) have "subseq (q_list u k) (q_list s k @ new @ newer)" using subseq_order.trans by (metis append_assoc)
    with new(1) newer(1) show "\<exists>new. q_arrivals u k = q_arrivals s k @ new \<and> subseq (q_list u k) (q_list s k @ new)"
      by (intro exI [of _ "new @ newer"]) simp
  qed
qed

named_theorems redis_fifo

lemma redis_commands_fifo [redis_fifo]:
  "guarantees fifo (redis_get k)" "guarantees fifo (redis_set k v)" "guarantees fifo (redis_del k)"
  "guarantees fifo (redis_lLen k)" "guarantees fifo (redis_sCard k)" "guarantees fifo (redis_sAdd k v)"
  "guarantees fifo (redis_sRem k v)" "guarantees fifo (redis_sPop env k)" "guarantees fifo (ari_request r)"
  by (auto simp: redis_get_def redis_set_def redis_del_def redis_lLen_def redis_sCard_def redis_sAdd_def redis_sRem_def
      redis_sPop_def ari_request_def Let_def intro!: guarantees_atomic fifo_same)

lemma redis_lists_fifo [redis_fifo]:
  "guarantees fifo (redis_rPush k v)" "guarantees fifo (redis_lPop k)" "guarantees fifo (redis_lRem k v)"
proof -
  show "guarantees fifo (redis_rPush k v)"
    unfolding redis_rPush_def by (rule guarantees_atomic) (simp add: fifo_def)
  show "guarantees fifo (redis_lRem k v)"
    unfolding redis_lRem_def by (rule guarantees_atomic, rule fifo_shrink) (simp_all add: subseq_remove1)
  have "fifo s (snd (case q_list s k of [] \<Rightarrow> (None, s) | c # cs \<Rightarrow> (Some c, s\<lparr>q_list := (q_list s)(k := cs)\<rparr>)))" for s
    by (rule fifo_shrink) (auto split: list.split)
  then show "guarantees fifo (redis_lPop k)" unfolding redis_lPop_def by (rule guarantees_atomic)
qed

lemma bridge_requests_fifo [redis_fifo]:
  "guarantees fifo (bridges_create env)" "guarantees fifo (bridges_addChannel env b ch)"
  by (auto simp: bridges_create_def bridges_addChannel_def intro!: guarantees_attempt fifo_same split: sum.split)

lemmas fifo_rules = redis_fifo guarantees_andThen guarantees_tryCatch guarantees_Ret guarantees_Fail

lemma manager_fifo [redis_fifo]:
  "guarantees fifo (bridgeChannels env a b)" "guarantees fifo (loginOperator env q op ch)" "guarantees fifo (logoutOperator op q)"
  "guarantees fifo (connectNextCustomer env q)" "guarantees fifo (onCustomerHangup env op q)"
  by (auto simp: bridgeChannels_def loginOperator_def logoutOperator_def connectNextCustomer_def onCustomerHangup_def Let_def
      intro!: fifo_rules)

lemma wait_fifo: "guarantees fifo (await_operator q ch es)"
  by (induction es) (auto simp: Let_def intro!: fifo_rules split: wait_event.split)

text \<open>The media requests of the prompt do not touch the lists or their history.\<close>

definition media_keeps_lists :: "queue_exec_env \<Rightarrow> bool" where
  "media_keeps_lists env \<longleftrightarrow> (\<forall>t m s. q_list (snd (md_play (qx_media env) t m s)) = q_list s
     \<and> q_arrivals (snd (md_play (qx_media env) t m s)) = q_arrivals s)"

lemma prompt_fifo: "media_keeps_lists env \<Longrightarrow> guarantees fifo (playQueuePrompt env config s)"
  unfolding playQueuePrompt_def media_keeps_lists_def
  by (rule guarantees_attempt, rule fifo_same) (simp_all split: sum.split option.split)

lemma reads_fifo:
  "guarantees fifo (atomic (\<lambda>s. (f s, s)))" "guarantees fifo (attempt (\<lambda>s. (g s, s)))"
  by (auto intro!: guarantees_atomic guarantees_attempt fifo_same)

lemma executeQueue_fifo:
  assumes "media_keeps_lists env"
  shows "guarantees fifo (executeQueue env node s)"
proof -
  have member: "guarantees fifo (originateQueuePstnMember env op q)" for op q
    by (auto simp: originateQueuePstnMember_def resolveQueuePstnMember_def Let_def
        intro!: fifo_rules reads_fifo split: option.split prod.split)
  have payload: "guarantees fifo (writeQueuePayload env q n t a b out s')" for q n t a b out s'
    by (simp add: writeQueuePayload_def reads_fifo)
  have claim: "guarantees fifo (claim_operator env q)" for q
    by (auto simp: claim_operator_def Let_def intro!: fifo_rules member)
  have connected: "guarantees fifo (connected_call env config q n t op ch s)" for config q n t op ch
    by (auto simp: connected_call_def bridge_operator_def intro!: fifo_rules manager_fifo reads_fifo payload split: prod.split sum.split)
  have waited: "guarantees fifo (waited env q n t r s)" for q n t r
    by (auto simp: waited_def intro!: fifo_rules payload)
  show ?thesis
    by (auto simp: executeQueue_def queue_call_def enqueue_customer_def Let_def
        intro!: fifo_rules reads_fifo prompt_fifo assms claim connected waited wait_fifo split: option.split prod.split)
qed

text \<open>The operations of the queues, all running concurrently.\<close>

definition queue_ops :: "queue_exec_env set \<Rightarrow> unit queue_op set" where
  "queue_ops envs =
     range (\<lambda>(env, q, op, ch). loginOperator env q op ch) \<union> range (\<lambda>(op, q). logoutOperator op q)
     \<union> {andThen (executeQueue env node s) (\<lambda>_. Ret ()) | env node s. env \<in> envs}"

lemma queue_ops_fifo:
  "(\<And>env. env \<in> envs \<Longrightarrow> media_keeps_lists env) \<Longrightarrow> \<forall>p \<in> queue_ops envs. guarantees fifo p"
  by (auto simp: queue_ops_def intro!: fifo_rules manager_fifo executeQueue_fifo)

section \<open>Operations that do not overlap\<close>

subsection \<open>Effects\<close>

lemmas redis_defs = redis_get_def redis_set_def redis_del_def redis_lLen_def redis_rPush_def redis_lPop_def redis_lRem_def
  redis_sCard_def redis_sAdd_def redis_sRem_def redis_sPop_def ari_request_def bridges_create_def bridges_addChannel_def

text \<open>\<open>SPOP\<close> returns a member.\<close>

definition pops_member :: "queue_env \<Rightarrow> bool" where
  "pops_member env \<longleftrightarrow> (\<forall>S. finite S \<longrightarrow> S \<noteq> {} \<longrightarrow> qe_pick env S \<in> S)"

lemma bridgeChannels_effect: "\<exists>calls. run (bridgeChannels env a b) s = (Inr (), s\<lparr>q_ari := q_ari s @ calls\<rparr>)"
  by (auto simp: bridgeChannels_def redis_defs split: sum.split prod.split)

definition bridged :: "queue_env \<Rightarrow> string \<Rightarrow> string \<Rightarrow> queue_store \<Rightarrow> queue_store" where
  "bridged env a b s = snd (run (bridgeChannels env a b) s)"

lemma run_bridgeChannels [simp]: "run (bridgeChannels env a b) s = (Inr (), bridged env a b s)"
  unfolding bridged_def using bridgeChannels_effect [of env a b s] by auto

lemma bridged_fields [simp]:
  "q_str (bridged env a b s) = q_str s" "q_list (bridged env a b s) = q_list s" "q_set (bridged env a b s) = q_set s"
  unfolding bridged_def using bridgeChannels_effect [of env a b s] by auto

lemma connectNextCustomer_effect:
  assumes pick: "pops_member env" and q: "q = num_to_string queueId" and fin: "finite (q_set s (Operators q))"
    and ops: "\<forall>op \<in> q_set s (Operators q). op \<noteq> [] \<and> text_or_empty (q_str s (OperatorChannel op)) \<noteq> []"
    and waiting: "\<forall>c \<in> set (q_list s (Waiting q)). c \<noteq> []"
  shows "q_set s (Operators q) = {} \<or> q_list s (Waiting q) = [] \<Longrightarrow> run (connectNextCustomer env queueId) s = (Inr (), s)"
    and "q_set s (Operators q) \<noteq> {} \<Longrightarrow> q_list s (Waiting q) = c # cs \<Longrightarrow>
      (\<exists>op \<in> q_set s (Operators q). run (connectNextCustomer env queueId) s =
        (Inr (), bridged env (text_or_empty (q_str s (OperatorChannel op))) c
          (s\<lparr>q_list := (q_list s)(Waiting q := cs),
             q_set := (q_set s)(Operators q := q_set s (Operators q) - {op}, Busy q := insert op (q_set s (Busy q)))\<rparr>)))"
proof -
  have mem: "q_set s (Operators q) \<noteq> {} \<Longrightarrow> qe_pick env (q_set s (Operators q)) \<in> q_set s (Operators q)"
    using pick fin by (simp add: pops_member_def)
  show "run (connectNextCustomer env queueId) s = (Inr (), s)" if "q_set s (Operators q) = {} \<or> q_list s (Waiting q) = []"
    using that ops mem
    by (cases "q_set s (Operators q) = {}")
      (auto simp: connectNextCustomer_def redis_defs q [symmetric] Let_def insert_absorb)
  show "\<exists>op \<in> q_set s (Operators q). run (connectNextCustomer env queueId) s =
        (Inr (), bridged env (text_or_empty (q_str s (OperatorChannel op))) c
          (s\<lparr>q_list := (q_list s)(Waiting q := cs),
             q_set := (q_set s)(Operators q := q_set s (Operators q) - {op}, Busy q := insert op (q_set s (Busy q)))\<rparr>))"
    if "q_set s (Operators q) \<noteq> {}" "q_list s (Waiting q) = c # cs"
    using that ops mem waiting
    by (intro bexI [of _ "qe_pick env (q_set s (Operators q))"])
      (auto simp: connectNextCustomer_def redis_defs q [symmetric] Let_def fun_upd_twist)
qed

subsection \<open>The invariant\<close>

text \<open>
  Free and busy operators are disjoint; an operator of a queue is logged in to that queue only and has
  a channel; and no operator is free while a customer waits.
\<close>

definition queue_ok :: "queue_store \<Rightarrow> string \<Rightarrow> bool" where
  "queue_ok st q \<longleftrightarrow>
     q_set st (Operators q) \<inter> q_set st (Busy q) = {} \<and> finite (q_set st (Operators q))
     \<and> (\<forall>op \<in> q_set st (Operators q) \<union> q_set st (Busy q).
          op \<noteq> [] \<and> q_str st (OperatorQueue op) = Some q \<and> text_or_empty (q_str st (OperatorChannel op)) \<noteq> [])
     \<and> (\<forall>c \<in> set (q_list st (Waiting q)). c \<noteq> [])
     \<and> (q_set st (Operators q) = {} \<or> q_list st (Waiting q) = [])"

definition queue_inv :: "queue_store \<Rightarrow> bool" where
  "queue_inv st \<longleftrightarrow> (\<forall>q. queue_ok st q)"

definition empty_queues :: queue_store where
  "empty_queues = \<lparr>q_str = (\<lambda>_. None), q_list = (\<lambda>_. []), q_set = (\<lambda>_. {}), q_ari = [], q_arrivals = (\<lambda>_. [])\<rparr>"

text \<open>
  One operation after the other.  An operator who logs in is logged in nowhere, one who logs out is
  logged in to that queue, and a customer's hangup frees an operator who is busy in the queue.
\<close>

inductive queue_step :: "queue_exec_env \<Rightarrow> queue_store \<Rightarrow> queue_store \<Rightarrow> bool" for env where
  step_login: "text_or_empty (q_str st (OperatorChannel (num_to_string operatorId))) = [] \<Longrightarrow> channelId \<noteq> [] \<Longrightarrow>
    queue_step env st (snd (run (loginOperator (base env) queueId operatorId channelId) st))"
| step_logout: "q_str st (OperatorQueue (num_to_string operatorId)) = Some (num_to_string queueId) \<Longrightarrow>
    queue_step env st (snd (run (logoutOperator operatorId queueId) st))"
| step_hangup: "num_to_string operatorId \<in> q_set st (Busy (num_to_string queueId)) \<Longrightarrow>
    queue_step env st (snd (run (onCustomerHangup (base env) operatorId queueId) st))"
| step_claim: "run (claim_operator env queueId) st = (Inr (Some claimed), st') \<Longrightarrow> queue_step env st st'"
| step_wait: "run (claim_operator env queueId) st = (Inr None, st') \<Longrightarrow> customer \<noteq> [] \<Longrightarrow>
    queue_step env st (snd (run (enqueue_customer queueId customer) st'))"
| step_leave: "queue_step env st (snd (run (redis_lRem (Waiting q) customer) st))"

lemma norm_dec_Dec: "\<exists>a b. norm_dec m e = Dec a b"
  by (induction m e rule: norm_dec.induct) (metis norm_dec.simps)

lemma dec_digits_not_Nil: "s \<noteq> [] \<Longrightarrow> dec_digits s e \<noteq> []"
  by (auto simp: dec_digits_def Let_def)

lemma num_to_string_not_Nil [simp]: "num_to_string x \<noteq> []"
proof (cases x)
  case (Dec m e)
  then show ?thesis using norm_dec_Dec [of m e] by (auto simp: dec_digits_not_Nil split: if_splits)
qed simp_all


text \<open>An operation on one queue leaves the others alone.\<close>

lemma queue_inv_change:
  assumes "queue_inv st" and "queue_ok st' q"
    and "\<And>p. p \<noteq> q \<Longrightarrow> q_set st' (Operators p) = q_set st (Operators p) \<and> q_set st' (Busy p) = q_set st (Busy p)
      \<and> q_list st' (Waiting p) = q_list st (Waiting p)"
    and "\<And>p op. p \<noteq> q \<Longrightarrow> op \<in> q_set st (Operators p) \<union> q_set st (Busy p) \<Longrightarrow>
      q_str st' (OperatorQueue op) = q_str st (OperatorQueue op) \<and> q_str st' (OperatorChannel op) = q_str st (OperatorChannel op)"
  shows "queue_inv st'"
  unfolding queue_inv_def
proof
  fix p
  show "queue_ok st' p"
  proof (cases "p = q")
    case False
    then show ?thesis using assms(1) assms(3,4) [OF False] by (simp add: queue_inv_def queue_ok_def)
  qed (simp add: assms(2))
qed

lemma queue_okD:
  assumes "queue_ok st q"
  shows "q_set st (Operators q) \<inter> q_set st (Busy q) = {}" "finite (q_set st (Operators q))"
    "op \<in> q_set st (Operators q) \<union> q_set st (Busy q) \<Longrightarrow>
       op \<noteq> [] \<and> q_str st (OperatorQueue op) = Some q \<and> text_or_empty (q_str st (OperatorChannel op)) \<noteq> []"
    "c \<in> set (q_list st (Waiting q)) \<Longrightarrow> c \<noteq> []" "q_set st (Operators q) = {} \<or> q_list st (Waiting q) = []"
  using assms unfolding queue_ok_def by blast+

lemma login_inv:
  assumes inv: "queue_inv st" and out: "text_or_empty (q_str st (OperatorChannel (num_to_string operatorId))) = []"
    and ch: "channelId \<noteq> []"
  shows "queue_inv (snd (run (loginOperator env queueId operatorId channelId) st))"
proof -
  let ?q = "num_to_string queueId" and ?op = "num_to_string operatorId"
  have ok: "queue_ok st q" for q using inv by (simp add: queue_inv_def)
  have absent: "?op \<notin> q_set st (Operators q) \<union> q_set st (Busy q)" for q using queue_okD(3) [OF ok, of ?op] out by blast
  show ?thesis
  proof (cases "q_list st (Waiting ?q)")
    case Nil
    show ?thesis
    proof (rule queue_inv_change [OF inv, of _ ?q])
      show "queue_ok (snd (run (loginOperator env queueId operatorId channelId) st)) ?q"
        using ok [of ?q] absent [of ?q] ch Nil by (auto simp: queue_ok_def loginOperator_def redis_defs Let_def)
    qed (use absent Nil in \<open>auto simp: loginOperator_def redis_defs Let_def\<close>)
  next
    case (Cons c cs)
    have c: "c \<noteq> []" "q_set st (Operators ?q) = {}" using queue_okD(4,5) [OF ok [of ?q]] Cons by auto
    show ?thesis
    proof (rule queue_inv_change [OF inv, of _ ?q])
      show "queue_ok (snd (run (loginOperator env queueId operatorId channelId) st)) ?q"
        using ok [of ?q] absent [of ?q] ch Cons c by (auto simp: queue_ok_def loginOperator_def redis_defs Let_def)
    qed (use absent Cons c in \<open>auto simp: loginOperator_def redis_defs Let_def\<close>)
  qed
qed

lemma logout_inv:
  assumes inv: "queue_inv st" and log: "q_str st (OperatorQueue (num_to_string operatorId)) = Some (num_to_string queueId)"
  shows "queue_inv (snd (run (logoutOperator operatorId queueId) st))"
proof (rule queue_inv_change [OF inv, of _ "num_to_string queueId"])
  have ok: "queue_ok st q" for q using inv by (simp add: queue_inv_def)
  then show "queue_ok (snd (run (logoutOperator operatorId queueId) st)) (num_to_string queueId)"
    using ok [of "num_to_string queueId"] by (auto simp: queue_ok_def logoutOperator_def redis_defs Let_def)
  fix p op
  assume "p \<noteq> num_to_string queueId" "op \<in> q_set st (Operators p) \<union> q_set st (Busy p)"
  then have "op \<noteq> num_to_string operatorId" using queue_okD(3) [OF ok, of op p] log by auto
  then show "q_str (snd (run (logoutOperator operatorId queueId) st)) (OperatorQueue op) = q_str st (OperatorQueue op)
      \<and> q_str (snd (run (logoutOperator operatorId queueId) st)) (OperatorChannel op) = q_str st (OperatorChannel op)"
    by (simp add: logoutOperator_def redis_defs Let_def)
qed (simp add: logoutOperator_def redis_defs Let_def)

text \<open>The operator a customer has left, free again and listening to music.\<close>

definition freed :: "string \<Rightarrow> string \<Rightarrow> queue_store \<Rightarrow> queue_store" where
  "freed q op st = st\<lparr>
     q_set := (q_set st)(Busy q := q_set st (Busy q) - {op}, Operators q := insert op (q_set st (Operators q))),
     q_ari := q_ari st @ (let ch = text_or_empty (q_str st (OperatorChannel op)) in if ch = [] then [] else [StartMoh ch])\<rparr>"

lemma run_onCustomerHangup:
  "run (onCustomerHangup env operatorId queueId) st =
     run (connectNextCustomer env queueId) (freed (num_to_string queueId) (num_to_string operatorId) st)"
  by (cases st) (simp add: onCustomerHangup_def redis_defs freed_def Let_def fun_upd_twist)

lemma hangup_inv:
  assumes inv: "queue_inv st" and pick: "pops_member env"
    and busy: "num_to_string operatorId \<in> q_set st (Busy (num_to_string queueId))"
  shows "queue_inv (snd (run (onCustomerHangup env operatorId queueId) st))"
proof -
  let ?q = "num_to_string queueId" and ?op = "num_to_string operatorId"
  let ?st = "freed ?q ?op st"
  have ok: "queue_ok st q" for q using inv by (simp add: queue_inv_def)
  have ops: "\<forall>op \<in> q_set ?st (Operators ?q). op \<noteq> [] \<and> text_or_empty (q_str ?st (OperatorChannel op)) \<noteq> []"
    using queue_okD(3) [OF ok] busy by (auto simp: freed_def)
  have waiting: "\<forall>c \<in> set (q_list ?st (Waiting ?q)). c \<noteq> []" using queue_okD(4) [OF ok] by (auto simp: freed_def)
  have fin: "finite (q_set ?st (Operators ?q))" using queue_okD(2) [OF ok] by (simp add: freed_def)
  note effect = connectNextCustomer_effect [OF pick refl fin ops waiting]
  show ?thesis
  proof (cases "q_list st (Waiting ?q)")
    case Nil
    then have run: "snd (run (onCustomerHangup env operatorId queueId) st) = ?st"
      using effect(1) by (simp add: run_onCustomerHangup freed_def)
    show ?thesis unfolding run
    proof (rule queue_inv_change [OF inv, of _ ?q])
      show "queue_ok ?st ?q" using ok [of ?q] busy Nil by (auto simp: queue_ok_def freed_def)
    qed (simp_all add: freed_def)
  next
    case (Cons c cs)
    then have none: "q_set st (Operators ?q) = {}" using queue_okD(5) [OF ok [of ?q]] by simp
    have "q_set ?st (Operators ?q) \<noteq> {}" "q_list ?st (Waiting ?q) = c # cs" using Cons by (simp_all add: freed_def)
    from effect(2) [OF this] obtain op where op: "op \<in> q_set ?st (Operators ?q)"
      "snd (run (onCustomerHangup env operatorId queueId) st) =
        bridged env (text_or_empty (q_str ?st (OperatorChannel op))) c
          (?st\<lparr>q_list := (q_list ?st)(Waiting ?q := cs),
             q_set := (q_set ?st)(Operators ?q := q_set ?st (Operators ?q) - {op}, Busy ?q := insert op (q_set ?st (Busy ?q)))\<rparr>)"
      by (auto simp: run_onCustomerHangup)
    from op(1) none have "op = ?op" by (simp add: freed_def)
    with op(2) have set: "q_set (snd (run (onCustomerHangup env operatorId queueId) st)) = q_set st"
      "q_str (snd (run (onCustomerHangup env operatorId queueId) st)) = q_str st"
      "q_list (snd (run (onCustomerHangup env operatorId queueId) st)) = (q_list st)(Waiting ?q := cs)"
      using none busy by (auto simp: freed_def fun_eq_iff)
    show ?thesis
    proof (rule queue_inv_change [OF inv, of _ ?q])
      show "queue_ok (snd (run (onCustomerHangup env operatorId queueId) st)) ?q"
        using ok [of ?q] none Cons set by (simp add: queue_ok_def)
    qed (simp_all add: set)
  qed
qed

text \<open>Claiming an operator takes one out of the free set, when there is one.\<close>

lemma claim_effect:
  assumes ok: "queue_ok st q" and pick: "pops_member (base env)" and q: "q = num_to_string queueId"
  shows "q_set st (Operators q) = {} \<Longrightarrow> run (claim_operator env queueId) st = (Inr None, st)"
    and "q_set st (Operators q) \<noteq> {} \<Longrightarrow> \<exists>op \<in> q_set st (Operators q). run (claim_operator env queueId) st =
      (Inr (Some (op, text_or_empty (q_str st (OperatorChannel op)))),
       st\<lparr>q_set := (q_set st)(Operators q := q_set st (Operators q) - {op}, Busy q := insert op (q_set st (Busy q)))\<rparr>)"
proof -
  show "run (claim_operator env queueId) st = (Inr None, st)" if "q_set st (Operators q) = {}"
    using that by (simp add: claim_operator_def redis_defs q [symmetric] Let_def)
  assume ne: "q_set st (Operators q) \<noteq> {}"
  let ?op = "qe_pick (base env) (q_set st (Operators q))"
  have mem: "?op \<in> q_set st (Operators q)" using pick ne queue_okD(2) [OF ok] by (simp add: pops_member_def)
  have "0 < card (q_set st (Operators q))" using queue_okD(2) [OF ok] ne by (simp add: card_gt_0_iff)
  with ne mem queue_okD(3) [OF ok, of ?op]
  show "\<exists>op \<in> q_set st (Operators q). run (claim_operator env queueId) st =
      (Inr (Some (op, text_or_empty (q_str st (OperatorChannel op)))),
       st\<lparr>q_set := (q_set st)(Operators q := q_set st (Operators q) - {op}, Busy q := insert op (q_set st (Busy q)))\<rparr>)"
    by (intro bexI [of _ ?op]) (simp_all add: claim_operator_def redis_defs q [symmetric] Let_def)
qed

lemma claim_inv:
  assumes inv: "queue_inv st" and pick: "pops_member (base env)" and run: "run (claim_operator env queueId) st = (Inr r, st')"
  shows "queue_inv st'" and "r = None \<Longrightarrow> st' = st \<and> q_set st (Operators (num_to_string queueId)) = {}"
proof -
  let ?q = "num_to_string queueId"
  have ok: "queue_ok st ?q" using inv by (simp add: queue_inv_def)
  note effect = claim_effect [OF ok pick refl]
  show "r = None \<Longrightarrow> st' = st \<and> q_set st (Operators ?q) = {}"
    using effect run by (cases "q_set st (Operators ?q) = {}") auto
  show "queue_inv st'"
  proof (cases "q_set st (Operators ?q) = {}")
    case True
    then show ?thesis using effect(1) run inv by simp
  next
    case False
    then obtain op where op: "op \<in> q_set st (Operators ?q)"
      "st' = st\<lparr>q_set := (q_set st)(Operators ?q := q_set st (Operators ?q) - {op}, Busy ?q := insert op (q_set st (Busy ?q)))\<rparr>"
      using effect(2) run by auto
    show ?thesis unfolding op(2)
      by (rule queue_inv_change [OF inv, of _ ?q]) (use op(1) ok False in \<open>auto simp: queue_ok_def\<close>)
  qed
qed

lemma wait_inv:
  assumes inv: "queue_inv st" and "q_set st (Operators (num_to_string queueId)) = {}" "customer \<noteq> []"
  shows "queue_inv (snd (run (enqueue_customer queueId customer) st))"
  by (rule queue_inv_change [OF inv, of _ "num_to_string queueId"])
    (use assms in \<open>auto simp: queue_inv_def queue_ok_def enqueue_customer_def redis_defs\<close>)

lemma leave_inv: "queue_inv st \<Longrightarrow> queue_inv (snd (run (redis_lRem (Waiting q) customer) st))"
  by (rule queue_inv_change [of st _ q]) (auto simp: queue_inv_def queue_ok_def redis_defs dest: notin_set_remove1)

lemma queue_step_inv:
  assumes "queue_step env st st'" and "pops_member (base env)" and "queue_inv st"
  shows "queue_inv st'"
  using assms(1)
proof cases
  case (step_wait queueId st1 customer)
  then show ?thesis using claim_inv(2) [OF assms(3,2) step_wait(2)] wait_inv [OF assms(3)] by auto
qed (use assms login_inv logout_inv hangup_inv claim_inv(1) leave_inv in auto)

section \<open>Operators without a channel, customers without a key\<close>

lemma connect_without_channel:
  assumes "q = num_to_string queueId" and "q_set st (Operators q) = {op}" "pops_member env" "op \<noteq> []"
    and "q_list st (Waiting q) = c # cs" "c \<noteq> []" and "text_or_empty (q_str st (OperatorChannel op)) = []"
  shows "run (connectNextCustomer env queueId) st = (Inr (), st\<lparr>q_list := (q_list st)(Waiting q := cs)\<rparr>)"
proof -
  have "qe_pick env {op} = op" using assms(3) unfolding pops_member_def by blast
  moreover have "(q_set st)(Operators q := {op}) = q_set st" by (simp only: assms(2) [symmetric] fun_upd_triv)
  ultimately show ?thesis using assms
    by (simp add: connectNextCustomer_def redis_defs Let_def)
qed

text \<open>Only \<open>loginOperator\<close> writes the key the waiting customer polls.\<close>

lemma hangup_keeps_keys: "q_str (snd (run (onCustomerHangup env operatorId queueId) st)) = q_str st"
proof -
  have "q_str (snd (run (connectNextCustomer env queueId) s)) = q_str s" for s
    by (auto simp: connectNextCustomer_def redis_defs Let_def split: list.splits option.splits)
  then show ?thesis by (simp add: run_onCustomerHangup freed_def)
qed

lemma await_polls:
  "q_str st (CustomerChannel (num_to_string queueId) c) = None \<Longrightarrow>
   run (await_operator queueId c (replicate n CheckConnected @ [MaxWait])) st =
     (Inr (Some ''timeout''), snd (run (redis_lRem (Waiting (num_to_string queueId)) c) st))"
  by (induction n) (simp_all add: redis_defs Let_def)

lemma login_connects_first:
  assumes "q_list st (Waiting (num_to_string queueId)) = c # cs" "c \<noteq> []"
  shows "\<exists>calls. run (loginOperator env queueId operatorId channelId) st = (Inr (), st\<lparr>
      q_str := (q_str st)(OperatorQueue (num_to_string operatorId) := Some (num_to_string queueId),
        OperatorChannel (num_to_string operatorId) := Some channelId,
        CustomerChannel (num_to_string queueId) c := Some channelId),
      q_list := (q_list st)(Waiting (num_to_string queueId) := cs),
      q_set := (q_set st)(Busy (num_to_string queueId) := insert (num_to_string operatorId) (q_set st (Busy (num_to_string queueId)))),
      q_ari := q_ari st @ calls\<rparr>)"
proof -
  let ?st = "st\<lparr>q_str := (q_str st)(OperatorQueue (num_to_string operatorId) := Some (num_to_string queueId),
        OperatorChannel (num_to_string operatorId) := Some channelId), q_list := (q_list st)(Waiting (num_to_string queueId) := cs)\<rparr>"
  from bridgeChannels_effect [of env channelId c ?st] obtain calls
    where "bridged env channelId c ?st = ?st\<lparr>q_ari := q_ari st @ calls\<rparr>" unfolding bridged_def by auto
  then show ?thesis using assms by (intro exI [of _ calls]) (simp add: loginOperator_def redis_defs Let_def)
qed

end
