(* ===== verification/Waiters.thy ===== *)
theory Waiters
  imports JsArith "HOL-Library.AList"
begin

text \<open>
  The registries of calls that are being dialled: \<open>callbackManager.ts\<close>, \<open>huntManager.ts\<close>,
  \<open>directOutboundManager.ts\<close> and \<open>transferManager.ts\<close>.  Each keeps a \<open>Map\<close> from a key to the
  resolver of a promise; the promises a registry has handed out are numbered in order.
\<close>

section \<open>Registries\<close>

record 'r waiters =
  wt_map :: "(string \<times> nat) list"
  wt_promises :: "'r option list"

definition no_waiters :: "'r waiters" where
  "no_waiters = \<lparr>wt_map = [], wt_promises = []\<rparr>"

text \<open>\<open>new Promise((resolve) => waiters.set(key, \{ resolve \}))\<close> returns the promise.\<close>

definition add_waiter :: "string \<Rightarrow> 'r waiters \<Rightarrow> nat \<times> 'r waiters" where
  "add_waiter k w = (let p = length (wt_promises w) in
     (p, \<lparr>wt_map = AList.update k p (wt_map w), wt_promises = wt_promises w @ [None]\<rparr>))"

text \<open>Resolving a promise that is settled has no effect.\<close>

definition settle_waiter :: "string \<Rightarrow> 'r \<Rightarrow> 'r waiters \<Rightarrow> 'r waiters" where
  "settle_waiter k r w =
     (case map_of (wt_map w) k of
        None \<Rightarrow> w
      | Some p \<Rightarrow> \<lparr>wt_map = AList.delete k (wt_map w),
          wt_promises = (if wt_promises w ! p = None then (wt_promises w)[p := Some r] else wt_promises w)\<rparr>)"

section \<open>The four managers\<close>

datatype ('c, 'why) dial_result = Answered 'c | Unanswered 'why

datatype leg = OperatorLeg | CustomerLeg
datatype callback_reason = CallbackFailed | CallbackDestroyed | CallbackTimeout
datatype hunt_reason = HuntFailed | HuntDestroyed
datatype dial_reason = DialFailed | DialDestroyed | DialTimeout | CallerDisconnected

type_synonym 'c callback_waiters = "('c, callback_reason) dial_result waiters"
type_synonym 'c hunt_waiters = "('c, hunt_reason) dial_result waiters"
type_synonym 'c dial_waiters = "('c, dial_reason) dial_result waiters"

definition leg_name :: "leg \<Rightarrow> string" where
  "leg_name l = (case l of OperatorLeg \<Rightarrow> ''operator'' | CustomerLeg \<Rightarrow> ''customer'')"

definition callback_key :: "int \<Rightarrow> leg \<Rightarrow> string" where
  "callback_key callbackId l = show_int callbackId @ '':'' @ leg_name l"

definition hasCallbackWaiter :: "int \<Rightarrow> leg \<Rightarrow> 'c callback_waiters \<Rightarrow> bool" where
  "hasCallbackWaiter callbackId l w = (map_of (wt_map w) (callback_key callbackId l) \<noteq> None)"

definition registerCallbackWaiter :: "int \<times> leg \<Rightarrow> 'c callback_waiters \<Rightarrow> nat \<times> 'c callback_waiters" where
  "registerCallbackWaiter k = add_waiter (callback_key (fst k) (snd k))"

definition resolveCallbackWaiter :: "int \<times> leg \<Rightarrow> 'c \<Rightarrow> 'c callback_waiters \<Rightarrow> 'c callback_waiters" where
  "resolveCallbackWaiter k channel = settle_waiter (callback_key (fst k) (snd k)) (Answered channel)"

definition rejectCallbackWaiter :: "int \<times> leg \<Rightarrow> callback_reason \<Rightarrow> 'c callback_waiters \<Rightarrow> 'c callback_waiters" where
  "rejectCallbackWaiter k reason = settle_waiter (callback_key (fst k) (snd k)) (Unanswered reason)"

definition hasHuntWaiter :: "string \<Rightarrow> 'c hunt_waiters \<Rightarrow> bool" where
  "hasHuntWaiter token w = (map_of (wt_map w) token \<noteq> None)"

definition registerHuntWaiter :: "string \<Rightarrow> 'c hunt_waiters \<Rightarrow> nat \<times> 'c hunt_waiters" where
  "registerHuntWaiter token = add_waiter token"

definition resolveHuntWaiter :: "string \<Rightarrow> 'c \<Rightarrow> 'c hunt_waiters \<Rightarrow> 'c hunt_waiters" where
  "resolveHuntWaiter token channel = settle_waiter token (Answered channel)"

definition rejectHuntWaiter :: "string \<Rightarrow> hunt_reason \<Rightarrow> 'c hunt_waiters \<Rightarrow> 'c hunt_waiters" where
  "rejectHuntWaiter token reason = settle_waiter token (Unanswered reason)"

definition hasDirectOutboundWaiter :: "string \<Rightarrow> 'c dial_waiters \<Rightarrow> bool" where
  "hasDirectOutboundWaiter token w = (map_of (wt_map w) token \<noteq> None)"

definition registerDirectOutboundWaiter :: "string \<Rightarrow> 'c dial_waiters \<Rightarrow> nat \<times> 'c dial_waiters" where
  "registerDirectOutboundWaiter token = add_waiter token"

definition resolveDirectOutboundWaiter :: "string \<Rightarrow> 'c \<Rightarrow> 'c dial_waiters \<Rightarrow> 'c dial_waiters" where
  "resolveDirectOutboundWaiter token channel = settle_waiter token (Answered channel)"

definition rejectDirectOutboundWaiter :: "string \<Rightarrow> dial_reason \<Rightarrow> 'c dial_waiters \<Rightarrow> 'c dial_waiters" where
  "rejectDirectOutboundWaiter token reason = settle_waiter token (Unanswered reason)"

definition registerTransferWaiter :: "string \<Rightarrow> 'c dial_waiters \<Rightarrow> nat \<times> 'c dial_waiters" where
  "registerTransferWaiter inboundChannelId = add_waiter inboundChannelId"

definition resolveTransferWaiter :: "string \<Rightarrow> 'c \<Rightarrow> 'c dial_waiters \<Rightarrow> 'c dial_waiters" where
  "resolveTransferWaiter inboundChannelId channel = settle_waiter inboundChannelId (Answered channel)"

definition rejectTransferWaiter :: "string \<Rightarrow> dial_reason \<Rightarrow> 'c dial_waiters \<Rightarrow> 'c dial_waiters" where
  "rejectTransferWaiter inboundChannelId reason = settle_waiter inboundChannelId (Unanswered reason)"

section \<open>The contract\<close>

text \<open>The promise a key leads to, and what a promise has been settled with.\<close>

definition pending :: "('k \<Rightarrow> string) \<Rightarrow> 'r waiters \<Rightarrow> 'k \<Rightarrow> nat option" where
  "pending key w k = map_of (wt_map w) (key k)"

definition outcome :: "'r waiters \<Rightarrow> nat \<Rightarrow> 'r option" where
  "outcome w p = (if p < length (wt_promises w) then wt_promises w ! p else None)"

text \<open>Every key leads to a promise of its own that is not settled.\<close>

definition waiters_ok :: "'r waiters \<Rightarrow> bool" where
  "waiters_ok w \<longleftrightarrow> (\<forall>k p. map_of (wt_map w) k = Some p \<longrightarrow> p < length (wt_promises w) \<and> wt_promises w ! p = None
     \<and> (\<forall>k'. map_of (wt_map w) k' = Some p \<longrightarrow> k' = k))"

datatype ('k, 'r) waiter_call = Register 'k | Settle 'k 'r

locale waiter_registry =
  fixes key :: "'k \<Rightarrow> string"
    and reg :: "'k \<Rightarrow> 'r waiters \<Rightarrow> nat \<times> 'r waiters"
    and settle :: "'k \<Rightarrow> 'r \<Rightarrow> 'r waiters \<Rightarrow> 'r waiters"
  assumes key_inj: "inj key"
    and reg_new: "waiters_ok w \<Longrightarrow> reg k w = (p, w') \<Longrightarrow>
      waiters_ok w' \<and> pending key w' = (pending key w)(k \<mapsto> p) \<and> outcome w' = outcome w \<and> p = length (wt_promises w)
      \<and> length (wt_promises w') = Suc p"
    and settle_none: "pending key w k = None \<Longrightarrow> settle k r w = w"
    and settle_some: "waiters_ok w \<Longrightarrow> pending key w k = Some p \<Longrightarrow>
      waiters_ok (settle k r w) \<and> pending key (settle k r w) = (pending key w)(k := None)
      \<and> outcome (settle k r w) = (outcome w)(p \<mapsto> r) \<and> length (wt_promises (settle k r w)) = length (wt_promises w)"
begin

fun call :: "('k, 'r) waiter_call \<Rightarrow> 'r waiters \<Rightarrow> 'r waiters" where
  "call (Register k) w = snd (reg k w)"
| "call (Settle k r) w = settle k r w"

lemma call_cases:
  assumes "waiters_ok w"
  obtains (new) k p where "c = Register k" "p = length (wt_promises w)" "pending key (call c w) = (pending key w)(k \<mapsto> p)"
      "outcome (call c w) = outcome w" "length (wt_promises (call c w)) = Suc p" "waiters_ok (call c w)"
  | (idle) k r where "c = Settle k r" "pending key w k = None" "call c w = w"
  | (settled) k r p where "c = Settle k r" "pending key w k = Some p" "pending key (call c w) = (pending key w)(k := None)"
      "outcome (call c w) = (outcome w)(p \<mapsto> r)" "length (wt_promises (call c w)) = length (wt_promises w)" "waiters_ok (call c w)"
proof (cases c)
  case (Register k)
  then show ?thesis using reg_new [OF assms, of k "fst (reg k w)" "snd (reg k w)"] by (intro new) simp_all
next
  case (Settle k r)
  then show ?thesis using settle_none settle_some [OF assms] idle settled by (cases "pending key w k") simp_all
qed

lemma call_ok: "waiters_ok w \<Longrightarrow> waiters_ok (call c w)"
  by (rule call_cases [of w c]) simp_all

lemma calls_ok: "waiters_ok w \<Longrightarrow> waiters_ok (fold call cs w)"
  by (induction cs arbitrary: w) (simp_all add: call_ok)

lemma pending_open: "waiters_ok w \<Longrightarrow> pending key w k = Some p \<Longrightarrow> outcome w p = None \<and> p < length (wt_promises w)"
  by (auto simp: waiters_ok_def pending_def outcome_def)

lemma pending_inj: "waiters_ok w \<Longrightarrow> pending key w k = Some p \<Longrightarrow> pending key w k' = Some p \<Longrightarrow> k = k'"
  using key_inj by (auto simp: waiters_ok_def pending_def dest: injD)

text \<open>A promise is settled at most once.\<close>

lemma settled_once: "waiters_ok w \<Longrightarrow> outcome w p = Some r \<Longrightarrow> outcome (fold call cs w) p = Some r"
proof (induction cs arbitrary: w)
  case (Cons c cs)
  have "outcome (call c w) p = Some r"
    using Cons.prems by (cases rule: call_cases [OF Cons.prems(1), of c]) (auto dest: pending_open)
  then show ?case using Cons.IH [OF call_ok [OF Cons.prems(1)]] by simp
qed simp

text \<open>A key leads to its promise until a call names the key.\<close>

fun names :: "('k, 'r) waiter_call \<Rightarrow> 'k" where
  "names (Register k) = k"
| "names (Settle k r) = k"

lemma still_pending:
  "waiters_ok w \<Longrightarrow> pending key w k = Some p \<Longrightarrow> \<forall>c \<in> set cs. names c \<noteq> k \<Longrightarrow> pending key (fold call cs w) k = Some p"
proof (induction cs arbitrary: w)
  case (Cons c cs)
  have "pending key (call c w) k = Some p"
    using Cons.prems by (cases rule: call_cases [OF Cons.prems(1), of c]) auto
  then show ?case using Cons.IH [OF call_ok [OF Cons.prems(1)]] Cons.prems(3) by simp
qed simp

lemma first_settle:
  assumes ok: "waiters_ok w" and reg: "reg k w = (p, w')" and others: "\<forall>c \<in> set before. names c \<noteq> k"
  shows "outcome (fold call (before @ Settle k r # after) w') p = Some r"
proof -
  have w': "waiters_ok w'" "pending key w' k = Some p" using reg_new [OF ok reg] by auto
  let ?w = "fold call before w'"
  have "pending key ?w k = Some p" using still_pending [OF w' others] .
  with settle_some [OF calls_ok [OF w'(1)], of before k p r]
  have "outcome (settle k r ?w) p = Some r" "waiters_ok (settle k r ?w)" by simp_all
  then show ?thesis using settled_once by simp
qed

text \<open>A promise whose key was registered again is never settled.\<close>

lemma orphaned:
  assumes "waiters_ok w" and "pending key w k = Some p"
  shows "outcome (fold call (Register k # cs) w) p = None"
proof -
  have never: "outcome (fold call cs w1) p = None"
    if "waiters_ok w1" "outcome w1 p = None" "p < length (wt_promises w1)" "\<forall>k'. pending key w1 k' \<noteq> Some p" for w1
    using that
  proof (induction cs arbitrary: w1)
    case (Cons c cs)
    have "outcome (call c w1) p = None \<and> p < length (wt_promises (call c w1)) \<and> (\<forall>k'. pending key (call c w1) k' \<noteq> Some p)"
      using Cons.prems by (cases rule: call_cases [OF Cons.prems(1), of c]) auto
    then show ?case using Cons.IH [OF call_ok [OF Cons.prems(1)]] by simp
  qed simp
  note op = pending_open [OF assms]
  have "reg k w = (fst (reg k w), snd (reg k w))" by simp
  note new = reg_new [OF assms(1) this]
  have "pending key (snd (reg k w)) k' \<noteq> Some p" for k'
    using new op pending_inj [OF assms(1,2), of k'] by auto
  then show ?thesis using never [of "snd (reg k w)"] new op by simp
qed

end

section \<open>The managers keep it\<close>

lemma add_waiter_laws:
  assumes "inj key" and "waiters_ok w" and "add_waiter (key k) w = (p, w')"
  shows "waiters_ok w' \<and> pending key w' = (pending key w)(k \<mapsto> p) \<and> outcome w' = outcome w \<and> p = length (wt_promises w)
      \<and> length (wt_promises w') = Suc p"
proof -
  have w': "p = length (wt_promises w)" "w' = \<lparr>wt_map = AList.update (key k) p (wt_map w), wt_promises = wt_promises w @ [None]\<rparr>"
    using assms(3) by (auto simp: add_waiter_def Let_def)
  have "waiters_ok w'" using assms(2) unfolding w' waiters_ok_def
    by (auto simp: update_conv' nth_append split: if_splits) (metis less_irrefl less_Suc_eq)+
  moreover have "pending key w' = (pending key w)(k \<mapsto> p)"
    using assms(1) by (auto simp: w' pending_def update_conv' fun_eq_iff dest: injD)
  ultimately show ?thesis by (auto simp: w' outcome_def fun_eq_iff nth_append)
qed

lemma settle_waiter_laws:
  assumes "inj key" and "waiters_ok w" and "pending key w k = Some p"
  shows "waiters_ok (settle_waiter (key k) r w) \<and> pending key (settle_waiter (key k) r w) = (pending key w)(k := None)
      \<and> outcome (settle_waiter (key k) r w) = (outcome w)(p \<mapsto> r)
      \<and> length (wt_promises (settle_waiter (key k) r w)) = length (wt_promises w)"
proof -
  have p: "p < length (wt_promises w)" "wt_promises w ! p = None" "map_of (wt_map w) (key k) = Some p"
    using assms(2,3) by (auto simp: waiters_ok_def pending_def)
  have w': "settle_waiter (key k) r w = \<lparr>wt_map = AList.delete (key k) (wt_map w), wt_promises = (wt_promises w)[p := Some r]\<rparr>"
    using p by (simp add: settle_waiter_def)
  have "waiters_ok (settle_waiter (key k) r w)" using assms(2) p unfolding w' waiters_ok_def
    by (auto simp: delete_conv' nth_list_update split: if_splits)
  moreover have "pending key (settle_waiter (key k) r w) = (pending key w)(k := None)"
    using assms(1) by (auto simp: w' pending_def delete_conv' fun_eq_iff dest: injD)
  ultimately show ?thesis using p by (auto simp: w' outcome_def fun_eq_iff nth_list_update)
qed

lemma settle_waiter_none: "pending key w k = None \<Longrightarrow> settle_waiter (key k) r w = w"
  by (simp add: settle_waiter_def pending_def)

lemma registry_intro:
  "inj key \<Longrightarrow> waiter_registry key (\<lambda>k. add_waiter (key k)) (\<lambda>k. settle_waiter (key k))"
  by unfold_locales (simp_all add: add_waiter_laws settle_waiter_laws settle_waiter_none)

lemma callback_key_inj: "inj (\<lambda>k. callback_key (fst k) (snd k))"
proof (rule injI)
  fix a b :: "int \<times> leg"
  assume eq: "callback_key (fst a) (snd a) = callback_key (fst b) (snd b)"
  then have "leg_name (snd a) = leg_name (snd b)"
    by (cases "snd a"; cases "snd b") (auto simp: callback_key_def leg_name_def dest: arg_cong [where f = "\<lambda>s. rev (take 8 (rev s))"])
  with eq show "a = b"
    by (cases a; cases b; cases "snd a"; cases "snd b") (auto simp: callback_key_def leg_name_def)
qed

definition settleCallbackWaiter :: "int \<times> leg \<Rightarrow> ('c, callback_reason) dial_result \<Rightarrow> 'c callback_waiters \<Rightarrow> 'c callback_waiters" where
  "settleCallbackWaiter k r = (case r of Answered c \<Rightarrow> resolveCallbackWaiter k c | Unanswered why \<Rightarrow> rejectCallbackWaiter k why)"

definition settleHuntWaiter :: "string \<Rightarrow> ('c, hunt_reason) dial_result \<Rightarrow> 'c hunt_waiters \<Rightarrow> 'c hunt_waiters" where
  "settleHuntWaiter k r = (case r of Answered c \<Rightarrow> resolveHuntWaiter k c | Unanswered why \<Rightarrow> rejectHuntWaiter k why)"

definition settleDirectOutboundWaiter :: "string \<Rightarrow> ('c, dial_reason) dial_result \<Rightarrow> 'c dial_waiters \<Rightarrow> 'c dial_waiters" where
  "settleDirectOutboundWaiter k r =
     (case r of Answered c \<Rightarrow> resolveDirectOutboundWaiter k c | Unanswered why \<Rightarrow> rejectDirectOutboundWaiter k why)"

definition settleTransferWaiter :: "string \<Rightarrow> ('c, dial_reason) dial_result \<Rightarrow> 'c dial_waiters \<Rightarrow> 'c dial_waiters" where
  "settleTransferWaiter k r = (case r of Answered c \<Rightarrow> resolveTransferWaiter k c | Unanswered why \<Rightarrow> rejectTransferWaiter k why)"

lemma manager_operations:
  "registerCallbackWaiter = (\<lambda>k. add_waiter (callback_key (fst k) (snd k)))"
  "settleCallbackWaiter = (\<lambda>k. settle_waiter (callback_key (fst k) (snd k)))"
  "registerHuntWaiter = (\<lambda>k. add_waiter (id k))" "settleHuntWaiter = (\<lambda>k. settle_waiter (id k))"
  "registerDirectOutboundWaiter = (\<lambda>k. add_waiter (id k))" "settleDirectOutboundWaiter = (\<lambda>k. settle_waiter (id k))"
  "registerTransferWaiter = (\<lambda>k. add_waiter (id k))" "settleTransferWaiter = (\<lambda>k. settle_waiter (id k))"
  by (auto simp: fun_eq_iff registerCallbackWaiter_def settleCallbackWaiter_def resolveCallbackWaiter_def rejectCallbackWaiter_def
      registerHuntWaiter_def settleHuntWaiter_def resolveHuntWaiter_def rejectHuntWaiter_def
      registerDirectOutboundWaiter_def settleDirectOutboundWaiter_def resolveDirectOutboundWaiter_def rejectDirectOutboundWaiter_def
      registerTransferWaiter_def settleTransferWaiter_def resolveTransferWaiter_def rejectTransferWaiter_def split: dial_result.split)

interpretation callbacks: waiter_registry "\<lambda>k. callback_key (fst k) (snd k)" registerCallbackWaiter settleCallbackWaiter
  unfolding manager_operations by (rule registry_intro [OF callback_key_inj])

interpretation hunts: waiter_registry id registerHuntWaiter settleHuntWaiter
  unfolding manager_operations by (rule registry_intro) simp

interpretation direct_calls: waiter_registry id registerDirectOutboundWaiter settleDirectOutboundWaiter
  unfolding manager_operations by (rule registry_intro) simp

interpretation transfers: waiter_registry id registerTransferWaiter settleTransferWaiter
  unfolding manager_operations by (rule registry_intro) simp

lemma no_waiters_ok: "waiters_ok no_waiters"
  by (simp add: waiters_ok_def no_waiters_def)

end
