(* ===== verification/Recordings.thy ===== *)
theory Recordings
  imports AsyncPrograms CallModel JsArith FlowValidation
begin

text \<open>
  \<open>bridgeRecording.ts\<close>: the live recording of a call's bridge.  Asterisk and the backend answer HTTP
  requests; a request that gets no answer rejects.
\<close>

datatype http_request =
    StopRecording string
  | StartRecording string string
  | PersistRecording string string int recording_state int nat

record http_response =
  hr_status :: int
  hr_text :: string
  hr_json :: "string + json"

definition hr_ok :: "http_response \<Rightarrow> bool" where
  "hr_ok r \<longleftrightarrow> 200 \<le> hr_status r \<and> hr_status r \<le> 299"

text \<open>The requests sent so far are part of the store.\<close>

record recorder =
  rd_fetch :: "http_request list \<Rightarrow> http_request \<Rightarrow> string + http_response"
  rd_now :: "http_request list \<Rightarrow> nat"

type_synonym 'a recording_op = "(http_request list, 'a) prog"

definition fetch :: "recorder \<Rightarrow> http_request \<Rightarrow> http_response recording_op" where
  "fetch env r = attempt (\<lambda>sent. (rd_fetch env sent r, sent @ [r]))"

definition date_now :: "recorder \<Rightarrow> nat recording_op" where
  "date_now env = atomic (\<lambda>sent. (rd_now env sent, sent))"

definition failed_request :: "string \<Rightarrow> http_response \<Rightarrow> string" where
  "failed_request what r = what @ '' status='' @ show_int (hr_status r) @ '' body='' @ hr_text r"

definition stopLiveRecording :: "recorder \<Rightarrow> string \<Rightarrow> unit recording_op" where
  "stopLiveRecording env name =
     andThen (fetch env (StopRecording name)) (\<lambda>r.
       if hr_status r = 404 then Ret ()
       else if \<not> hr_ok r then Fail (failed_request ''record_stop_failed'' r)
       else Ret ())"

definition startLiveBridgeRecording :: "recorder \<Rightarrow> string \<Rightarrow> string \<Rightarrow> recording_state recording_op" where
  "startLiveBridgeRecording env bridgeId name =
     andThen (date_now env) (\<lambda>startedAt.
     andThen (fetch env (StartRecording bridgeId name)) (\<lambda>r.
       if \<not> hr_ok r then Fail (failed_request ''record_start_failed'' r)
       else Ret \<lparr>rc_name = name, rc_fileName = name @ ''.wav'',
                 rc_filePath = ''/var/lib/asterisk/recording/'' @ name @ ''.wav'', rc_format = ''wav'',
                 rc_startedAt = startedAt, rc_endedAt = None\<rparr>))"

text \<open>
  The recording object is shared with the session: what was written to it stays when a later request
  rejects, so the operations return the session in both cases.
\<close>

definition beginNodeRecording :: "recorder \<Rightarrow> session \<Rightarrow> string \<Rightarrow> string \<Rightarrow> ((string + unit) \<times> session) recording_op" where
  "beginNodeRecording env s bridgeId name =
     andThen
       (case s_recording s of
          None \<Rightarrow> Ret s
        | Some rec \<Rightarrow> if rc_endedAt rec \<noteq> None then Ret s
            else tryCatch
              (andThen (stopLiveRecording env (rc_name rec)) (\<lambda>_.
               andThen (date_now env) (\<lambda>now. Ret (s\<lparr>s_recording := Some (rec\<lparr>rc_endedAt := Some now\<rparr>)\<rparr>))))
              (\<lambda>_. Ret s))
       (\<lambda>s1. tryCatch
          (andThen (startLiveBridgeRecording env bridgeId name) (\<lambda>rec. Ret (Inr (), s1\<lparr>s_recording := Some rec\<rparr>)))
          (\<lambda>m. Ret (Inl m, s1)))"

definition persisted_id :: "http_response \<Rightarrow> string + number" where
  "persisted_id r = (case hr_json r of
     Inl m \<Rightarrow> Inl m
   | Inr payload \<Rightarrow> if payload = JNull then Inl ''TypeError''
       else Inr (num_or_zero (Option.bind (entry_get payload ''data'') (\<lambda>d. entry_get d ''id''))))"

text \<open>\<open>recording.endedAt\<close> is set before it is tested: the request to stop is guarded by a condition that is false.\<close>

definition persistSessionRecording :: "recorder \<Rightarrow> session \<Rightarrow> ((string + (number \<times> int) option) \<times> session) recording_op" where
  "persistSessionRecording env s =
     (case s_recording s of
        None \<Rightarrow> Ret (Inr None, s)
      | Some recording \<Rightarrow>
        andThen (case rc_endedAt recording of Some t \<Rightarrow> Ret t | None \<Rightarrow> date_now env) (\<lambda>endedAt.
          let rec = recording\<lparr>rc_endedAt := Some endedAt\<rparr>;
              durationSeconds = max 0 ((int endedAt - int (rc_startedAt rec) + 500) div 1000) in
          tryCatch
            (andThen (if rc_endedAt rec = None then stopLiveRecording env (rc_name rec) else Ret ()) (\<lambda>_.
             andThen (fetch env (PersistRecording (s_callUuid s) (s_channelId s) (f_id (s_flow s)) rec durationSeconds endedAt)) (\<lambda>r.
               if \<not> hr_ok r then Fail (failed_request ''record_persist_failed'' r)
               else case persisted_id r of
                 Inl m \<Rightarrow> Fail m
               | Inr recordingId \<Rightarrow>
                 if num_finite recordingId \<and> num_pos recordingId
                 then Ret (Inr (Some (recordingId, durationSeconds)), s\<lparr>s_recording := None\<rparr>)
                 else Fail (''record_persist_missing_id file='' @ rc_fileName rec))))
            (\<lambda>m. Ret (Inl m, s\<lparr>s_recording := Some rec\<rparr>))))"

section \<open>Laws\<close>

lemmas recording_defs = beginNodeRecording_def persistSessionRecording_def startLiveBridgeRecording_def
  stopLiveRecording_def fetch_def date_now_def Let_def

text \<open>
  Persisting never rejects and sends at most one request, never the one that stops the live recording;
  the session keeps the recording, marked as ended, exactly when the backend did not store it.
\<close>

lemma persist_requests:
  assumes "s_recording s = Some rec"
  shows "\<exists>t secs r sent'. 0 \<le> secs \<and> (rc_endedAt rec = None \<or> rc_endedAt rec = Some t)
    \<and> run (persistSessionRecording env s) sent = (Inr r, sent')
    \<and> sent' = sent @ [PersistRecording (s_callUuid s) (s_channelId s) (f_id (s_flow s)) (rec\<lparr>rc_endedAt := Some t\<rparr>) secs t]
    \<and> ((\<exists>m. r = (Inl m, s\<lparr>s_recording := Some (rec\<lparr>rc_endedAt := Some t\<rparr>)\<rparr>))
       \<or> (\<exists>i. num_pos i \<and> r = (Inr (Some (i, secs)), s\<lparr>s_recording := None\<rparr>)))"
  using assms
  by (cases "rc_endedAt rec") (simp_all add: recording_defs split: prod.split sum.split)

text \<open>Starting a recording: the previous one is asked to stop first, and the session holds a live one.\<close>

lemma begin_result:
  assumes "run (beginNodeRecording env s bridgeId name) sent = (Inr (Inr (), s'), sent')"
  shows "\<exists>rec. s' = s\<lparr>s_recording := Some rec\<rparr> \<and> rc_name rec = name \<and> rc_endedAt rec = None"
    and "(case s_recording s of
        Some old \<Rightarrow> if rc_endedAt old = None then sent' = sent @ [StopRecording (rc_name old), StartRecording bridgeId name]
          else sent' = sent @ [StartRecording bridgeId name]
      | None \<Rightarrow> sent' = sent @ [StartRecording bridgeId name])"
  using assms by (auto simp: recording_defs split: option.splits prod.splits sum.splits if_splits)

end
