(* ===== verification/QueueProperties.thy ===== *)
theory QueueProperties
  imports QueueLaws Waiters Recordings "HOL-Library.List_Lexorder" "HOL-Library.Char_ord"
begin

text \<open>
  The properties of the call queues, of the registries of dialled calls and of the recordings, each
  with a concrete instance.
\<close>

section \<open>A queue with one operator\<close>

definition silent :: "queue_store media_env" where
  "silent = \<lparr>md_audio = (\<lambda>w i. Inr None), md_play = (\<lambda>t p w. (Inr (), w)), md_events = (\<lambda>n w. (([], []), w))\<rparr>"

definition one_queue :: queue_exec_env where
  "one_queue = \<lparr>qe_pick = Min, qe_bridge = (\<lambda>s. Inr ''bridge''), qe_add = (\<lambda>b ch s. Inr ()),
     qx_row = (\<lambda>q. Inr (Some \<lparr>qr_name = ''Support''\<rparr>)), qx_member = (\<lambda>op. Inr None), qx_trunk = (\<lambda>t. None),
     qx_originate = None, qx_now = (\<lambda>s. 0), qx_media = silent, qx_record = (\<lambda>s n st. (Inr (), s)),
     qx_callEnds = [], qx_wait = []\<rparr>"

definition queue_node :: rt_node where
  "queue_node = \<lparr>n_key = ''q'', n_type = ''queue'', n_label = [], n_config = [(''queue_id'', JNum (Dec 1 0))]\<rparr>"

definition caller :: "string \<Rightarrow> session" where
  "caller ch = createSession 0 ch ''+49'' \<lparr>f_id = 1, f_name = ''Main'', f_versionId = 1, f_nodes = [queue_node], f_edges = []\<rparr> ''q''"

definition login42 :: "unit queue_op" where
  "login42 = loginOperator (base one_queue) (Dec 1 0) (Dec 42 0) ''agent''"

definition enters :: "string \<Rightarrow> unit queue_op" where
  "enters ch = andThen (executeQueue one_queue queue_node (caller ch)) (\<lambda>_. Ret ())"



section \<open>Call queues\<close>


definition two_enter :: "(queue_store, unit) pool" where
  "two_enter = fold act_at (replicate 6 1 @ replicate 6 0) ([enters ''a'', enters ''b''], empty_queues)"



lemma one_queue_pops: "pops_member (base one_queue)"
  by (simp add: pops_member_def base_def queue_env.defs one_queue_def)

definition served :: queue_store where
  "served = snd (run login42 empty_queues)"




text \<open>Logging in serves the customer who has waited longest: the customer leaves the list, the operator
  is busy and not free, and the key the customer's executor polls names the operator's channel.\<close>

theorem login_serves_first:
  assumes "q_list st (Waiting (num_to_string queueId)) = c # cs" and "c \<noteq> []"
  shows "\<exists>st'. run (loginOperator env queueId operatorId channelId) st = (Inr (), st')
    \<and> q_list st' = (q_list st)(Waiting (num_to_string queueId) := cs)
    \<and> q_set st' = (q_set st)(Busy (num_to_string queueId) := insert (num_to_string operatorId) (q_set st (Busy (num_to_string queueId))))
    \<and> q_str st' (CustomerChannel (num_to_string queueId) c) = Some channelId"
  using login_connects_first [OF assms, of env operatorId channelId] by (elim exE) (intro exI conjI, assumption, simp_all)

theorem login_serves_first_witness:
  "\<exists>st'. run login42 (snd two_enter) = (Inr (), st') \<and> q_list st' (Waiting ''1'') = [''a'']
    \<and> q_str st' (CustomerChannel ''1'' ''b'') = Some ''agent''"
proof -
  have q: "num_to_string (Dec 1 0) = ''1''" by code_simp
  have "q_list (snd two_enter) (Waiting ''1'') = [''b'', ''a'']" by code_simp
  then show ?thesis
    using login_serves_first [of "snd two_enter" "Dec 1 0" "''b''" "[''a'']" "base one_queue" "Dec 42 0" "''agent''"]
    unfolding q login42_def by auto
qed

text \<open>An operator without a channel in the free set, such as one who has logged out during a call and
  is put back when the customer hangs up, costs a waiting customer the place in the queue: the first
  customer is taken from the list and connected to nobody.\<close>

theorem customer_dropped:
  assumes "q = num_to_string queueId" and "q_set st (Operators q) = {op}" "pops_member env" "op \<noteq> []"
    and "q_list st (Waiting q) = c # cs" "c \<noteq> []" and "text_or_empty (q_str st (OperatorChannel op)) = []"
  shows "run (connectNextCustomer env queueId) st = (Inr (), st\<lparr>q_list := (q_list st)(Waiting q := cs)\<rparr>)"
  by (rule connect_without_channel [OF assms])

text \<open>Operator 42 is connected to a customer, logs out, and another customer enters; then the first one hangs up.\<close>

definition logged_out :: queue_store where
  "logged_out = snd (run (enters ''b'') (snd (run (logoutOperator (Dec 42 0) (Dec 1 0)) (snd (run (enters ''a'') served)))))"

definition put_back :: queue_store where
  "put_back = freed ''1'' ''42'' logged_out"

theorem customer_dropped_witness:
  "q_list logged_out (Waiting ''1'') = [''b'']
   \<and> run (onCustomerHangup (base one_queue) (Dec 42 0) (Dec 1 0)) logged_out = (Inr (), put_back\<lparr>q_list := (q_list put_back)(Waiting ''1'' := [])\<rparr>)"
proof
  show "q_list logged_out (Waiting ''1'') = [''b'']" by code_simp
  have str: "num_to_string (Dec 1 0) = ''1''" "num_to_string (Dec 42 0) = ''42''" by code_simp+
  have st: "q_set put_back (Operators ''1'') = {''42''}" "q_list put_back (Waiting ''1'') = [''b'']"
    "text_or_empty (q_str put_back (OperatorChannel ''42'')) = []" by code_simp+
  have "run (connectNextCustomer (base one_queue) (Dec 1 0)) put_back = (Inr (), put_back\<lparr>q_list := (q_list put_back)(Waiting ''1'' := [])\<rparr>)"
    using customer_dropped [OF str(1) [symmetric] st(1) one_queue_pops _ st(2) _ st(3)] by simp
  then show "run (onCustomerHangup (base one_queue) (Dec 42 0) (Dec 1 0)) logged_out = (Inr (), put_back\<lparr>q_list := (q_list put_back)(Waiting ''1'' := [])\<rparr>)"
    by (simp only: run_onCustomerHangup str put_back_def [symmetric])
qed

text \<open>A customer who is connected when another customer hangs up is not told so: the key the
  customer's executor polls stays unset, and however often it polls, it ends with a timeout.\<close>

theorem connected_but_timed_out:
  assumes "q_str st (CustomerChannel (num_to_string queueId) c) = None"
  shows "fst (run (await_operator queueId c (replicate n CheckConnected @ [MaxWait]))
      (snd (run (onCustomerHangup env operatorId queueId) st))) = Inr (Some ''timeout'')"
  using await_polls [of "snd (run (onCustomerHangup env operatorId queueId) st)" queueId c n] assms
  by (simp add: hangup_keeps_keys)

definition busy_store :: queue_store where
  "busy_store = snd (run (enters ''b'') (snd (run (enters ''a'') served)))"

theorem connected_but_timed_out_witness:
  "AddChannel ''bridge'' ''b'' \<in> set (q_ari (snd (run (onCustomerHangup (base one_queue) (Dec 42 0) (Dec 1 0)) busy_store)))
   \<and> fst (run (await_operator (Dec 1 0) ''b'' (replicate 3 CheckConnected @ [MaxWait]))
        (snd (run (onCustomerHangup (base one_queue) (Dec 42 0) (Dec 1 0)) busy_store))) = Inr (Some ''timeout'')"
proof
  show "AddChannel ''bridge'' ''b'' \<in> set (q_ari (snd (run (onCustomerHangup (base one_queue) (Dec 42 0) (Dec 1 0)) busy_store)))"
    by code_simp
  have "q_str busy_store (CustomerChannel (num_to_string (Dec 1 0)) ''b'') = None" by code_simp
  from connected_but_timed_out [OF this] show "fst (run (await_operator (Dec 1 0) ''b'' (replicate 3 CheckConnected @ [MaxWait]))
        (snd (run (onCustomerHangup (base one_queue) (Dec 42 0) (Dec 1 0)) busy_store))) = Inr (Some ''timeout'')" .
qed

section \<open>Dialled calls\<close>

text \<open>The promise a callback leg waits on is settled by the first answer or failure for that callback
  and leg, whatever happens to other calls before and to any call afterwards.\<close>

theorem callback_first_answer:
  assumes "waiters_ok w" and "registerCallbackWaiter (i, l) w = (p, w')" and "\<forall>c \<in> set before. callbacks.names c \<noteq> (i, l)"
  shows "outcome (fold callbacks.call (before @ Settle (i, l) r # after) w') p = Some r"
  by (rule callbacks.first_settle [OF assms])

theorem callback_first_answer_witness:
  "outcome (fold callbacks.call [Settle (7, CustomerLeg) (Unanswered CallbackTimeout), Settle (7, OperatorLeg) (Answered ''chan'')]
     (snd (registerCallbackWaiter (7, OperatorLeg) no_waiters))) 0 = Some (Answered ''chan'')"
proof -
  have reg: "registerCallbackWaiter (7, OperatorLeg) no_waiters = (0, snd (registerCallbackWaiter (7, OperatorLeg) (no_waiters :: string callback_waiters)))"
    by (simp add: registerCallbackWaiter_def add_waiter_def no_waiters_def)
  show ?thesis
    using callback_first_answer [OF no_waiters_ok reg, of "[Settle (7, CustomerLeg) (Unanswered CallbackTimeout)]" "Answered ''chan''" "[]"] by simp
qed

text \<open>Registering a transfer a second time for the same inbound channel before the first has been settled
  orphans the first promise: no later call of the registry settles it.\<close>

theorem transfer_orphaned:
  assumes "waiters_ok w" and "pending id w ch = Some p"
  shows "outcome (fold transfers.call (Register ch # calls) w) p = None"
  by (rule transfers.orphaned [OF assms])

theorem transfer_orphaned_witness:
  "outcome (fold transfers.call [Register ''in'', Settle ''in'' (Answered ''out'')]
     (snd (registerTransferWaiter ''in'' (no_waiters :: string dial_waiters)))) 0 = None"
proof -
  let ?w = "snd (registerTransferWaiter ''in'' (no_waiters :: string dial_waiters))"
  have "registerTransferWaiter ''in'' (no_waiters :: string dial_waiters) = (0, ?w)"
    by (simp add: registerTransferWaiter_def add_waiter_def no_waiters_def)
  from transfers.reg_new [OF no_waiters_ok this] have "waiters_ok ?w" "pending id ?w ''in'' = Some 0" by simp_all
  from transfer_orphaned [OF this] show ?thesis .
qed

section \<open>Recordings\<close>

text \<open>Persisting a recording sends one request to the backend and never asks Asterisk to stop the live
  recording; the session gives the recording up exactly when the backend has stored it, and keeps it,
  marked as ended, otherwise.\<close>

theorem persist_never_stops:
  assumes "s_recording s = Some rec"
  shows "\<exists>t secs r. 0 \<le> secs \<and> run (persistSessionRecording env s) sent = (Inr r,
      sent @ [PersistRecording (s_callUuid s) (s_channelId s) (f_id (s_flow s)) (rec\<lparr>rc_endedAt := Some t\<rparr>) secs t])
    \<and> ((\<exists>m. r = (Inl m, s\<lparr>s_recording := Some (rec\<lparr>rc_endedAt := Some t\<rparr>)\<rparr>))
       \<or> (\<exists>i. num_pos i \<and> r = (Inr (Some (i, secs)), s\<lparr>s_recording := None\<rparr>)))"
  using persist_requests [OF assms, of env sent] by blast

definition live :: session where
  "live = (caller ''a'')\<lparr>s_recording := Some \<lparr>rc_name = ''r'', rc_fileName = ''r.wav'', rc_filePath = ''/r.wav'', rc_format = ''wav'',
     rc_startedAt = 0, rc_endedAt = None\<rparr>\<rparr>"

definition stores :: recorder where
  "stores = \<lparr>rd_fetch = (\<lambda>sent r. Inr \<lparr>hr_status = 200, hr_text = [], hr_json = Inr (JObj [(''data'', JObj [(''id'', JNum (Dec 3 0))])])\<rparr>),
     rd_now = (\<lambda>sent. 1600)\<rparr>"

theorem persist_never_stops_witness:
  "StopRecording ''r'' \<notin> set (snd (run (persistSessionRecording stores live) []))
   \<and> fst (run (persistSessionRecording stores live) []) = Inr (Inr (Some (Dec 3 0, 2)), live\<lparr>s_recording := None\<rparr>)"
proof
  have "s_recording live = Some (the (s_recording live))" by (simp add: live_def)
  from persist_never_stops [OF this, of stores "[]"] show "StopRecording ''r'' \<notin> set (snd (run (persistSessionRecording stores live) []))" by auto
  show "fst (run (persistSessionRecording stores live) []) = Inr (Inr (Some (Dec 3 0, 2)), live\<lparr>s_recording := None\<rparr>)" by code_simp
qed

end
