(* ===== verification/CsvImport.thy ===== *)
theory CsvImport
  imports Prelude "HOL-Library.AList"
begin

text \<open>
  The CSV reader of \<open>campaigns.service.ts\<close>: \<open>parseCsv\<close> and \<open>parseCsvLine\<close>.  A line ends at a newline
  even inside quotes.  The byte order mark the reader strips is no character of the model.
\<close>

section \<open>Reading\<close>

text \<open>The loop of \<open>parseCsvLine\<close>: the rest of the line, the value so far, and whether a quote is open.\<close>

fun csv_chars :: "string \<Rightarrow> string \<Rightarrow> bool \<Rightarrow> string list" where
  "csv_chars [] val inQuotes = [trim val]"
| "csv_chars [c] val inQuotes =
     (if c = CHR 0x22 then csv_chars [] val (\<not> inQuotes)
      else if c = CHR '','' \<and> \<not> inQuotes then trim val # csv_chars [] [] inQuotes
      else csv_chars [] (val @ [c]) inQuotes)"
| "csv_chars (c # d # cs) val inQuotes =
     (if c = CHR 0x22 then
        if inQuotes \<and> d = CHR 0x22 then csv_chars cs (val @ [CHR 0x22]) inQuotes
        else csv_chars (d # cs) val (\<not> inQuotes)
      else if c = CHR '','' \<and> \<not> inQuotes then trim val # csv_chars (d # cs) [] inQuotes
      else csv_chars (d # cs) (val @ [c]) inQuotes)"

definition parseCsvLine :: "string \<Rightarrow> string list" where
  "parseCsvLine line = csv_chars line [] False"

text \<open>\<open>split(/\r?\n/)\<close>.\<close>

fun split_lines :: "string \<Rightarrow> string list" where
  "split_lines [] = [[]]"
| "split_lines (c # cs) =
     (if c = CHR 0x0A then [] # split_lines cs
      else if c = CHR 0x0D \<and> cs \<noteq> [] \<and> hd cs = CHR 0x0A then split_lines cs
      else (case split_lines cs of [] \<Rightarrow> [[c]] | l # ls \<Rightarrow> (c # l) # ls))"

record csv_row =
  cr_rowNumber :: nat
  cr_values :: "(string \<times> string) list"

text \<open>\<open>row[headers[i]] = values[i] || ''\<close> for every header; a repeated header is overwritten.\<close>

definition csv_values :: "string list \<Rightarrow> string list \<Rightarrow> (string \<times> string) list" where
  "csv_values headers vals =
     fold (\<lambda>(i, h) row. AList.update h (if i < length vals then vals ! i else []) row) (enumerate 0 headers) []"

definition parseCsv :: "string \<Rightarrow> string list \<times> csv_row list" where
  "parseCsv input =
     (case filter (\<lambda>l. l \<noteq> []) (map trim (split_lines input)) of
        [] \<Rightarrow> ([], [])
      | header # ls \<Rightarrow>
        (let headers = map trim (parseCsvLine header) in
         (headers, map (\<lambda>(i, l). \<lparr>cr_rowNumber = i + 2, cr_values = csv_values headers (parseCsvLine l)\<rparr>) (enumerate 0 ls))))"

definition row_value :: "csv_row \<Rightarrow> string \<Rightarrow> string" where
  "row_value r h = text_or_empty (map_of (cr_values r) h)"

section \<open>Writing\<close>

text \<open>The usual way to write a field: in quotes, with every quote doubled.\<close>

definition csv_field :: "string \<Rightarrow> string" where
  "csv_field f = CHR 0x22 # concat (map (\<lambda>c. if c = CHR 0x22 then [CHR 0x22, CHR 0x22] else [c]) f) @ [CHR 0x22]"

fun csv_line :: "string list \<Rightarrow> string" where
  "csv_line [] = []"
| "csv_line [f] = csv_field f"
| "csv_line (f # fs) = csv_field f @ CHR '','' # csv_line fs"

section \<open>Reading what was written\<close>

text \<open>The clauses of the loop, by the next character.\<close>

lemma csv_char: "c \<noteq> CHR 0x22 \<Longrightarrow> csv_chars (c # cs) v True = csv_chars cs (v @ [c]) True"
  by (cases cs) simp_all

lemma csv_comma: "csv_chars (CHR '','' # cs) v False = trim v # csv_chars cs [] False"
  by (cases cs) simp_all

lemma csv_open: "csv_chars (CHR 0x22 # cs) v False = csv_chars cs v True"
  by (cases cs) simp_all

lemma csv_close: "cs = [] \<or> hd cs \<noteq> CHR 0x22 \<Longrightarrow> csv_chars (CHR 0x22 # cs) v True = csv_chars cs v False"
  by (cases cs) simp_all

lemma csv_escaped: "csv_chars (CHR 0x22 # CHR 0x22 # cs) v True = csv_chars cs (v @ [CHR 0x22]) True"
  by simp

lemma csv_field_body:
  assumes "rest = [] \<or> hd rest \<noteq> CHR 0x22"
  shows "csv_chars (concat (map (\<lambda>c. if c = CHR 0x22 then [CHR 0x22, CHR 0x22] else [c]) f) @ CHR 0x22 # rest) v True
    = csv_chars rest (v @ f) False"
proof (induction f arbitrary: v)
  case Nil
  then show ?case using csv_close [OF assms] by simp
next
  case (Cons c f)
  show ?case
  proof (cases "c = CHR 0x22")
    case True
    then show ?thesis using Cons [of "v @ [c]"] csv_escaped by simp
  next
    case False
    then show ?thesis using Cons [of "v @ [c]"] csv_char [OF False] by simp
  qed
qed

lemma csv_field_read:
  "rest = [] \<or> hd rest \<noteq> CHR 0x22 \<Longrightarrow> csv_chars (csv_field f @ rest) [] False = csv_chars rest f False"
  using csv_field_body [of rest f "[]"] by (simp add: csv_field_def csv_open)

lemma csv_roundtrip: "fs \<noteq> [] \<Longrightarrow> parseCsvLine (csv_line fs) = map trim fs"
proof (induction fs rule: csv_line.induct)
  case (2 f)
  then show ?case using csv_field_read [of "[]" f] by (simp add: parseCsvLine_def)
next
  case (3 f g fs)
  then show ?case
    using csv_field_read [of "CHR '','' # csv_line (g # fs)" f] by (simp add: parseCsvLine_def csv_comma)
qed simp

text \<open>A line without quotes is split at its commas.\<close>

lemma csv_plain:
  "CHR 0x22 \<notin> set l \<Longrightarrow> CHR '','' \<notin> set l \<Longrightarrow> csv_chars l v False = [trim (v @ l)]"
proof (induction l arbitrary: v)
  case (Cons c l)
  then have "csv_chars (c # l) v False = csv_chars l (v @ [c]) False" by (cases l) auto
  then show ?case using Cons.IH [of "v @ [c]"] Cons.prems by simp
qed simp


section \<open>Whole files\<close>

definition csv_file :: "string list \<Rightarrow> string list list \<Rightarrow> string" where
  "csv_file headers rows = csv_line headers @ concat (map (\<lambda>r. CHR 0x0A # csv_line r) rows)"

lemma split_lines_line:
  assumes "CHR 0x0A \<notin> set l" "l = [] \<or> last l \<noteq> CHR 0x0D"
  shows "split_lines (l @ CHR 0x0A # rest) = l # split_lines rest" "split_lines l = [l]"
  using assms by (induction l) (auto split: if_splits dest: hd_in_set)

text \<open>A written line begins and ends with a quote and holds the newlines of its fields only.\<close>

lemma csv_field_ends: "\<exists>m. csv_field f = CHR 0x22 # m @ [CHR 0x22]"
  by (simp add: csv_field_def)

lemma csv_line_ends: "fs \<noteq> [] \<Longrightarrow> \<exists>m. csv_line fs = CHR 0x22 # m @ [CHR 0x22]"
proof (induction fs rule: csv_line.induct)
  case (2 f)
  then show ?case using csv_field_ends [of f] by simp
next
  case (3 f g fs)
  then obtain m where "csv_line (g # fs) = CHR 0x22 # m @ [CHR 0x22]" by auto
  moreover obtain k where "csv_field f = CHR 0x22 # k" using csv_field_ends by blast
  ultimately have "csv_line (f # g # fs) = CHR 0x22 # (k @ CHR '','' # CHR 0x22 # m) @ [CHR 0x22]" by simp
  then show ?case by blast
qed simp

lemma csv_line_newline: "(\<forall>f \<in> set fs. CHR 0x0A \<notin> set f) \<Longrightarrow> CHR 0x0A \<notin> set (csv_line fs)"
  by (induction fs rule: csv_line.induct) (auto simp: csv_field_def)

lemma csv_line_trim:
  assumes "fs \<noteq> []"
  shows "trim (csv_line fs) = csv_line fs" "csv_line fs \<noteq> []" "last (csv_line fs) \<noteq> CHR 0x0D"
proof -
  have q: "\<not> is_space (CHR 0x22)" by (simp add: is_space_def)
  obtain m where m: "csv_line fs = CHR 0x22 # m @ [CHR 0x22]" using csv_line_ends [OF assms] by auto
  show "trim (csv_line fs) = csv_line fs" unfolding trim_def m using q by simp
  show "csv_line fs \<noteq> []" "last (csv_line fs) \<noteq> CHR 0x0D" using m by simp_all
qed

lemma split_csv_file:
  assumes "\<forall>r \<in> set (headers # rows). r \<noteq> [] \<and> (\<forall>f \<in> set r. CHR 0x0A \<notin> set f)"
  shows "split_lines (csv_file headers rows) = map csv_line (headers # rows)"
  using assms
proof (induction rows arbitrary: headers)
  case Nil
  then show ?case using split_lines_line(2) csv_line_newline csv_line_trim(3) by (simp add: csv_file_def)
next
  case (Cons r rows)
  have "csv_file headers (r # rows) = csv_line headers @ CHR 0x0A # csv_file r rows" by (simp add: csv_file_def)
  moreover have "split_lines (csv_file r rows) = map csv_line (r # rows)" using Cons by simp
  ultimately show ?case using split_lines_line(1) csv_line_newline csv_line_trim(3) Cons.prems by simp
qed

lemma csv_values_other:
  "h \<notin> set hs \<Longrightarrow> map_of (fold (\<lambda>(i, h) row. AList.update h (g i) row) (enumerate n hs) r) h = map_of r h"
  by (induction hs arbitrary: n r) (auto simp: update_conv')

lemma csv_values_at:
  "distinct hs \<Longrightarrow> j < length hs \<Longrightarrow>
    map_of (fold (\<lambda>(i, h) row. AList.update h (g i) row) (enumerate n hs) r) (hs ! j) = Some (g (n + j))"
proof (induction hs arbitrary: n r j)
  case (Cons h hs)
  show ?case
  proof (cases j)
    case 0
    then show ?thesis using Cons.prems csv_values_other [of h hs g "Suc n"] by (simp add: update_conv')
  next
    case (Suc k)
    then show ?thesis using Cons.IH [of k "Suc n"] Cons.prems by simp
  qed
qed simp

lemma row_value_at:
  assumes "distinct hs" "length vals = length hs"
  shows "map (row_value \<lparr>cr_rowNumber = n, cr_values = csv_values hs vals\<rparr>) hs = vals"
proof (rule nth_equalityI)
  fix j assume "j < length (map (row_value \<lparr>cr_rowNumber = n, cr_values = csv_values hs vals\<rparr>) hs)"
  then have "j < length hs" by simp
  then show "map (row_value \<lparr>cr_rowNumber = n, cr_values = csv_values hs vals\<rparr>) hs ! j = vals ! j"
    using csv_values_at [OF assms(1), of j "\<lambda>i. if i < length vals then vals ! i else []" 0] assms(2)
    by (simp add: row_value_def csv_values_def)
qed (simp add: assms(2))

text \<open>A file of quoted fields is read back: header, row numbers and cells.\<close>

lemma csv_file_roundtrip:
  assumes "headers \<noteq> []" "distinct headers" "\<forall>r \<in> set rows. length r = length headers"
    and "\<forall>r \<in> set (headers # rows). \<forall>f \<in> set r. trim f = f \<and> CHR 0x0A \<notin> set f"
  shows "fst (parseCsv (csv_file headers rows)) = headers"
    and "map cr_rowNumber (snd (parseCsv (csv_file headers rows))) = map (\<lambda>i. i + 2) [0..<length rows]"
    and "map (\<lambda>r. map (row_value r) headers) (snd (parseCsv (csv_file headers rows))) = rows"
proof -
  have ne: "\<forall>r \<in> set (headers # rows). r \<noteq> []" using assms(1,3) by auto
  have trim_all: "map trim r = r" if "r \<in> set (headers # rows)" for r using assms(4) that by (intro map_idI) blast
  have lines: "filter (\<lambda>l. l \<noteq> []) (map trim (split_lines (csv_file headers rows))) = map csv_line (headers # rows)"
    using assms(4) ne by (subst split_csv_file) (auto simp: csv_line_trim intro!: map_cong filter_True)
  have read: "parseCsvLine (csv_line r) = r" if "r \<in> set (headers # rows)" for r
    using csv_roundtrip [of r] ne trim_all [OF that] that by auto
  have p: "parseCsv (csv_file headers rows) = (headers,
      map (\<lambda>(i, l). \<lparr>cr_rowNumber = i + 2, cr_values = csv_values headers (parseCsvLine l)\<rparr>) (enumerate 0 (map csv_line rows)))"
    unfolding parseCsv_def lines using read [of headers] trim_all [of headers] by simp
  show "fst (parseCsv (csv_file headers rows)) = headers" unfolding p by simp
  show "map cr_rowNumber (snd (parseCsv (csv_file headers rows))) = map (\<lambda>i. i + 2) [0..<length rows]"
    unfolding p by (rule nth_equalityI) (simp_all add: nth_enumerate_eq)
  show "map (\<lambda>r. map (row_value r) headers) (snd (parseCsv (csv_file headers rows))) = rows"
    unfolding p using read row_value_at [OF assms(2)] assms(3) by (intro nth_equalityI) (simp_all add: nth_enumerate_eq)
qed

end
