(* ===== verification/CampaignService.thy ===== *)
theory CampaignService
  imports CsvImport JsArith
begin

text \<open>
  \<open>campaigns/campaigns.service.ts\<close> and its controller: outbound campaigns, their contacts and attempts,
  and the messages exchanged with the call engine over Redis.  Instants are in milliseconds; the texts the
  service answers instants with are left out.
\<close>

section \<open>Tables\<close>

record campaign =
  ca_id :: int
  ca_name :: string
  ca_status :: string
  ca_flowId :: "int option"
  ca_trunkId :: "int option"
  ca_callerId :: "string option"
  ca_defaultCountry :: string
  ca_scheduledAt :: "int option"
  ca_maxConcurrent :: int
  ca_maxRetries :: int
  ca_retryIntervalMinutes :: int
  ca_totalContacts :: int
  ca_dialedCount :: int
  ca_answeredCount :: int
  ca_failedCount :: int
  ca_createdAt :: int

record contact_row =
  cc_id :: int
  cc_campaignId :: int
  cc_phoneNumber :: string
  cc_name :: "string option"
  cc_status :: string
  cc_attempts :: int
  cc_lastAttemptAt :: "int option"
  cc_nextRetryAt :: "int option"

record attempt_row =
  at_id :: int
  at_campaignId :: int
  at_contactId :: int
  at_phoneNumber :: string
  at_attemptNumber :: int
  at_outcome :: string
  at_callLogId :: "int option"

datatype backend_message = CampaignStart int | CampaignStop int

text \<open>
  The rows of other services the queries join with are there with the columns they read; \<open>cd_ready\<close> says
  whether the publisher is connected.
\<close>

record campaign_db =
  cd_campaigns :: "campaign list"
  cd_contacts :: "contact_row list"
  cd_attempts :: "attempt_row list"
  cd_nextCampaign :: int
  cd_nextContact :: int
  cd_nextAttempt :: int
  cd_flows :: "(int \<times> string) list"
  cd_trunks :: "(int \<times> string \<times> string option) list"
  cd_callLogs :: "(string \<times> int) list"
  cd_ready :: bool
  cd_sent :: "backend_message list"

section \<open>Requests\<close>

text \<open>\<open>CampaignPayload\<close>: the outer \<open>None\<close> is an absent field, the inner one \<open>null\<close>.\<close>

record campaign_payload =
  cp_name :: "string option"
  cp_flowId :: "number option option"
  cp_trunkId :: "number option option"
  cp_callerId :: "string option option"
  cp_defaultCountry :: "string option"
  cp_scheduledAt :: "string option option"
  cp_maxConcurrent :: "number option"
  cp_maxRetries :: "number option"
  cp_retryIntervalMinutes :: "number option"

definition body_string :: "json option \<Rightarrow> string option" where
  "body_string v = (case v of Some (JStr s) \<Rightarrow> Some s | _ \<Rightarrow> None)"

definition body_number :: "json option \<Rightarrow> number option" where
  "body_number v = (case v of Some (JNum n) \<Rightarrow> Some n | _ \<Rightarrow> None)"

definition body_nullable :: "(json option \<Rightarrow> 'a option) \<Rightarrow> json option \<Rightarrow> 'a option option" where
  "body_nullable read v = (if v = Some JNull then Some None else map_option Some (read v))"

definition payload_of_body :: "config \<Rightarrow> campaign_payload" where
  "payload_of_body body =
     \<lparr>cp_name = body_string (obj_get body ''name''), cp_flowId = body_nullable body_number (obj_get body ''flowId''),
      cp_trunkId = body_nullable body_number (obj_get body ''trunkId''),
      cp_callerId = body_nullable body_string (obj_get body ''callerId''), cp_defaultCountry = body_string (obj_get body ''defaultCountry''),
      cp_scheduledAt = body_nullable body_string (obj_get body ''scheduledAt''),
      cp_maxConcurrent = body_number (obj_get body ''maxConcurrent''), cp_maxRetries = body_number (obj_get body ''maxRetries''),
      cp_retryIntervalMinutes = body_number (obj_get body ''retryIntervalMinutes'')\<rparr>"

definition to_upper :: "char \<Rightarrow> char" where
  "to_upper c = (if (97 :: nat) \<le> of_char c \<and> of_char c \<le> (122 :: nat) then char_of (of_char c - 32 :: nat) else c)"

definition is_upper :: "char \<Rightarrow> bool" where
  "is_upper c \<longleftrightarrow> (65 :: nat) \<le> of_char c \<and> of_char c \<le> (90 :: nat)"

text \<open>\<open>/^[A-Z]\{2\}\$/\<close>.\<close>

definition country_code :: "string \<Rightarrow> bool" where
  "country_code s \<longleftrightarrow> length s = 2 \<and> list_all is_upper s"

text \<open>\<open>Math.floor\<close> of a finite number.\<close>

definition num_floor :: "number \<Rightarrow> int" where
  "num_floor n = (case n of Dec m e \<Rightarrow> if 0 \<le> e then m * 10 ^ nat e else m div 10 ^ nat (- e) | _ \<Rightarrow> 0)"

text \<open>The checked numeric fields: absent in a partial payload, or the floor of a value in range.\<close>

definition bounded_field :: "bool \<Rightarrow> number option \<Rightarrow> int \<Rightarrow> int \<Rightarrow> int option \<Rightarrow> string \<Rightarrow> int option result" where
  "bounded_field partial v fallback low high msg =
     (if partial \<and> v = None then ok None
      else let x = (case v of None \<Rightarrow> num_of_int fallback | Some n \<Rightarrow> n) in
        if num_finite x \<and> num_le (num_of_int low) x \<and> (case high of None \<Rightarrow> True | Some h \<Rightarrow> num_le x (num_of_int h))
        then ok (Some (num_floor x)) else throw (BadRequest msg))"

record normalized_payload =
  no_name :: "string option"
  no_flowId :: "number option option"
  no_trunkId :: "number option option"
  no_callerId :: "string option option"
  no_defaultCountry :: "string option"
  no_scheduledAt :: "string option option"
  no_maxConcurrent :: "int option"
  no_maxRetries :: "int option"
  no_retryIntervalMinutes :: "int option"

definition normalized_name :: "bool \<Rightarrow> string option \<Rightarrow> string option result" where
  "normalized_name partial v =
     (if partial \<and> v = None then ok None
      else let name = trim (text_or_empty v) in
        if name = [] then throw (BadRequest ''name is required'') else ok (Some name))"

definition normalized_country :: "bool \<Rightarrow> string option \<Rightarrow> string option result" where
  "normalized_country partial v =
     (if partial \<and> v = None then ok None
      else let c = map to_upper (trim (case v of None \<Rightarrow> ''US'' | Some s \<Rightarrow> s)) in
        if country_code c then ok (Some c) else throw (BadRequest ''defaultCountry must be a 2-letter ISO country code''))"

definition normalized_caller :: "string option option \<Rightarrow> string option option" where
  "normalized_caller v = map_option (\<lambda>c. let callerId = trim (text_or_empty c) in if callerId = [] then None else Some callerId) v"

definition normalizePayload :: "campaign_payload \<Rightarrow> bool \<Rightarrow> normalized_payload result" where
  "normalizePayload p partial =
     bind_result (normalized_name partial (cp_name p)) (\<lambda>name.
     bind_result (normalized_country partial (cp_defaultCountry p)) (\<lambda>country.
     bind_result (bounded_field partial (cp_maxConcurrent p) 3 1 (Some 10) ''maxConcurrent must be between 1 and 10'') (\<lambda>concurrent.
     bind_result (bounded_field partial (cp_maxRetries p) 2 0 (Some 5) ''maxRetries must be between 0 and 5'') (\<lambda>retries.
     bind_result (bounded_field partial (cp_retryIntervalMinutes p) 30 5 None ''retryIntervalMinutes must be >= 5'') (\<lambda>interval.
     ok \<lparr>no_name = name, no_flowId = cp_flowId p, no_trunkId = cp_trunkId p, no_callerId = normalized_caller (cp_callerId p),
         no_defaultCountry = country, no_scheduledAt = cp_scheduledAt p, no_maxConcurrent = concurrent,
         no_maxRetries = retries, no_retryIntervalMinutes = interval\<rparr>)))))"

section \<open>Reading campaigns\<close>

record campaign_view =
  cv_row :: campaign
  cv_flowName :: "string option"
  cv_trunkName :: "string option"
  cv_trunkCallerId :: "string option"

text \<open>\<open>x ? String(x) : null\<close>.\<close>

definition text_or_null :: "string option \<Rightarrow> string option" where
  "text_or_null v = (if text_or_empty v = [] then None else v)"

definition mapCampaignRow :: "campaign_db \<Rightarrow> campaign \<Rightarrow> campaign_view" where
  "mapCampaignRow db c =
     (let trunk = Option.bind (ca_trunkId c) (map_of (cd_trunks db)) in
      \<lparr>cv_row = c\<lparr>ca_callerId := text_or_null (ca_callerId c),
         ca_defaultCountry := map to_upper (if ca_defaultCountry c = [] then ''US'' else ca_defaultCountry c)\<rparr>,
       cv_flowName = text_or_null (Option.bind (ca_flowId c) (map_of (cd_flows db))),
       cv_trunkName = text_or_null (map_option fst trunk), cv_trunkCallerId = text_or_null (Option.bind trunk snd)\<rparr>)"

definition find_campaign :: "campaign_db \<Rightarrow> int \<Rightarrow> campaign option" where
  "find_campaign db i = List.find (\<lambda>c. ca_id c = i) (cd_campaigns db)"

definition getById :: "campaign_db \<Rightarrow> int \<Rightarrow> campaign_view result" where
  "getById db i =
     (case find_campaign db i of
        None \<Rightarrow> throw (NotFound (''Campaign '' @ show_int i @ '' not found''))
      | Some c \<Rightarrow> ok (mapCampaignRow db c))"

text \<open>\<open>LIMIT l OFFSET o\<close> with the service's limits; 0 counts as absent.\<close>

definition page :: "int \<Rightarrow> int \<Rightarrow> int \<Rightarrow> int \<Rightarrow> 'a list \<Rightarrow> 'a list" where
  "page cap fallback limit offset xs =
     (let safeLimit = min cap (max 1 (if limit = 0 then fallback else limit)); safeOffset = max 0 offset in
      take (nat safeLimit) (drop (nat safeOffset) xs))"

text \<open>The list query does not read the trunk's user.\<close>

definition list_campaigns :: "campaign_db \<Rightarrow> int \<Rightarrow> int \<Rightarrow> campaign_view list \<times> nat" where
  "list_campaigns db limit offset =
     (map (\<lambda>c. (mapCampaignRow db c)\<lparr>cv_trunkCallerId := None\<rparr>) (page 100 25 limit offset
        (sort_key (\<lambda>c. - ca_createdAt c) (rev (sort_key ca_id (cd_campaigns db))))),
      length (cd_campaigns db))"

section \<open>Writing campaigns\<close>

text \<open>A parameter bound to an integer column, and the references to flows and trunks.\<close>

definition int4 :: "int \<Rightarrow> int result" where
  "int4 i = (if - (2 ^ 31) \<le> i \<and> i < 2 ^ 31 then ok i else throw (DbConstraint ''integer''))"

definition int_column :: "number option \<Rightarrow> int option result" where
  "int_column v =
     (case v of
        None \<Rightarrow> ok None
      | Some n \<Rightarrow> (case num_int n of
            None \<Rightarrow> throw (DbConstraint ''integer'')
          | Some i \<Rightarrow> bind_result (int4 i) (\<lambda>j. ok (Some j))))"

definition reference_column :: "int list \<Rightarrow> number option \<Rightarrow> int option result" where
  "reference_column ids v =
     bind_result (int_column v) (\<lambda>i.
       bind_result (throw_if (\<exists>j \<in> set_option i. j \<notin> set ids) (DbConstraint ''foreign key'')) (\<lambda>_. ok i))"

definition timestamp_column :: "(string \<Rightarrow> int option) \<Rightarrow> string option \<Rightarrow> int option result" where
  "timestamp_column tz v =
     (case v of
        None \<Rightarrow> ok None
      | Some s \<Rightarrow> (case tz s of None \<Rightarrow> throw (DbConstraint ''timestamptz'') | Some t \<Rightarrow> ok (Some t)))"

definition set_campaign :: "int \<Rightarrow> (campaign \<Rightarrow> campaign) \<Rightarrow> campaign_db \<Rightarrow> campaign_db" where
  "set_campaign i f db = db\<lparr>cd_campaigns := map (\<lambda>c. if ca_id c = i then f c else c) (cd_campaigns db)\<rparr>"

definition set_status :: "int \<Rightarrow> string \<Rightarrow> campaign_db \<Rightarrow> campaign_db" where
  "set_status i st db = set_campaign i (\<lambda>c. c\<lparr>ca_status := st\<rparr>) db"

definition validateSchedulingRequirements :: "int \<Rightarrow> campaign \<Rightarrow> string option" where
  "validateSchedulingRequirements now c =
     (if ca_flowId c = None \<or> ca_flowId c = Some 0 then Some ''flow_id is required before scheduling''
      else if ca_trunkId c = None \<or> ca_trunkId c = Some 0 then Some ''trunk_id is required before scheduling''
      else case ca_scheduledAt c of
        None \<Rightarrow> Some ''scheduled_at is required before scheduling''
      | Some t \<Rightarrow>
        if t \<le> now then Some ''scheduled time must be in the future''
        else if ca_totalContacts c \<le> 0 then Some ''contacts are required before scheduling''
        else None)"

definition tryAutoSchedule :: "int \<Rightarrow> int \<Rightarrow> campaign_db \<Rightarrow> campaign_db result" where
  "tryAutoSchedule now i db =
     bind_result (getById db i) (\<lambda>v.
       if ca_status (cv_row v) \<noteq> ''draft'' \<or> validateSchedulingRequirements now (cv_row v) \<noteq> None then ok db
       else ok (set_campaign i (\<lambda>c. if ca_status c = ''draft'' then c\<lparr>ca_status := ''scheduled''\<rparr> else c) db))"

text \<open>The rows as they are inserted and updated; an absent value of an insert is \<open>NULL\<close>.\<close>

definition insert_campaign :: "(string \<Rightarrow> int option) \<Rightarrow> int \<Rightarrow> normalized_payload \<Rightarrow> campaign_db \<Rightarrow> (int \<times> campaign_db) result" where
  "insert_campaign tz now p db =
     bind_result (reference_column (map fst (cd_flows db)) (Option.bind (no_flowId p) id)) (\<lambda>flowId.
     bind_result (reference_column (map fst (cd_trunks db)) (Option.bind (no_trunkId p) id)) (\<lambda>trunkId.
     bind_result (timestamp_column tz (Option.bind (no_scheduledAt p) id)) (\<lambda>scheduledAt.
     bind_result (int4 (the (no_retryIntervalMinutes p))) (\<lambda>interval.
     ok (cd_nextCampaign db, db\<lparr>cd_nextCampaign := cd_nextCampaign db + 1, cd_campaigns := cd_campaigns db @
       [\<lparr>ca_id = cd_nextCampaign db, ca_name = the (no_name p), ca_status = ''draft'', ca_flowId = flowId, ca_trunkId = trunkId,
         ca_callerId = Option.bind (no_callerId p) id, ca_defaultCountry = the (no_defaultCountry p), ca_scheduledAt = scheduledAt,
         ca_maxConcurrent = the (no_maxConcurrent p), ca_maxRetries = the (no_maxRetries p), ca_retryIntervalMinutes = interval,
         ca_totalContacts = 0, ca_dialedCount = 0, ca_answeredCount = 0, ca_failedCount = 0, ca_createdAt = now\<rparr>]\<rparr>)))))"

definition create_campaign :: "(string \<Rightarrow> int option) \<Rightarrow> int \<Rightarrow> campaign_payload \<Rightarrow> campaign_db \<Rightarrow> (campaign_view \<times> campaign_db) result" where
  "create_campaign tz now payload db =
     bind_result (normalizePayload payload False) (\<lambda>p.
     bind_result (insert_campaign tz now p db) (\<lambda>(i, db1).
     bind_result (tryAutoSchedule now i db1) (\<lambda>db2.
     bind_result (getById db2 i) (\<lambda>v. ok (v, db2)))))"

text \<open>\<open>SET column = value\<close> for the fields that are present.\<close>

definition updated_row :: "(string \<Rightarrow> int option) \<Rightarrow> campaign_db \<Rightarrow> normalized_payload \<Rightarrow> campaign \<Rightarrow> campaign result" where
  "updated_row tz db p c =
     bind_result (case no_flowId p of None \<Rightarrow> ok (ca_flowId c) | Some v \<Rightarrow> reference_column (map fst (cd_flows db)) v) (\<lambda>flowId.
     bind_result (case no_trunkId p of None \<Rightarrow> ok (ca_trunkId c) | Some v \<Rightarrow> reference_column (map fst (cd_trunks db)) v) (\<lambda>trunkId.
     bind_result (case no_scheduledAt p of None \<Rightarrow> ok (ca_scheduledAt c) | Some v \<Rightarrow> timestamp_column tz v) (\<lambda>scheduledAt.
     bind_result (case no_retryIntervalMinutes p of None \<Rightarrow> ok (ca_retryIntervalMinutes c) | Some v \<Rightarrow> int4 v) (\<lambda>interval.
     ok (c\<lparr>ca_name := case_option (ca_name c) id (no_name p), ca_flowId := flowId, ca_trunkId := trunkId,
           ca_callerId := case_option (ca_callerId c) id (no_callerId p),
           ca_defaultCountry := case_option (ca_defaultCountry c) id (no_defaultCountry p), ca_scheduledAt := scheduledAt,
           ca_maxConcurrent := case_option (ca_maxConcurrent c) id (no_maxConcurrent p),
           ca_maxRetries := case_option (ca_maxRetries c) id (no_maxRetries p), ca_retryIntervalMinutes := interval\<rparr>)))))"

definition update_campaign ::
  "(string \<Rightarrow> int option) \<Rightarrow> int \<Rightarrow> int \<Rightarrow> campaign_payload \<Rightarrow> campaign_db \<Rightarrow> (campaign_view \<times> campaign_db) result" where
  "update_campaign tz now i payload db =
     bind_result (getById db i) (\<lambda>v.
     if ca_status (cv_row v) \<notin> {''draft'', ''scheduled''}
     then throw (BadRequest ''Campaign can only be edited in draft or scheduled state'')
     else bind_result (normalizePayload payload True) (\<lambda>p.
          bind_result (case find_campaign db i of None \<Rightarrow> ok db
            | Some c \<Rightarrow> bind_result (updated_row tz db p c) (\<lambda>c'. ok (set_campaign i (\<lambda>_. c') db))) (\<lambda>db1.
          bind_result (tryAutoSchedule now i db1) (\<lambda>db2.
          bind_result (getById db2 i) (\<lambda>v'. ok (v', db2))))))"

text \<open>Deleting a campaign deletes its contacts and attempts by the schema's cascades.\<close>

definition remove_campaign :: "int \<Rightarrow> campaign_db \<Rightarrow> campaign_db result" where
  "remove_campaign i db =
     bind_result (getById db i) (\<lambda>v.
     if ca_status (cv_row v) \<notin> {''draft'', ''cancelled'', ''completed''}
     then throw (BadRequest ''Campaign can only be deleted in draft, cancelled, or completed state'')
     else ok (db\<lparr>cd_campaigns := filter (\<lambda>c. ca_id c \<noteq> i) (cd_campaigns db),
                 cd_contacts := filter (\<lambda>c. cc_campaignId c \<noteq> i) (cd_contacts db),
                 cd_attempts := filter (\<lambda>a. at_campaignId a \<noteq> i
                   \<and> \<not> list_ex (\<lambda>c. cc_id c = at_contactId a \<and> cc_campaignId c = i) (cd_contacts db)) (cd_attempts db)\<rparr>))"

section \<open>Contacts\<close>

text \<open>\<open>libphonenumber-js\<close>: validity of a number, with a default country or without, and its parsed form.\<close>

record phone_lib =
  ph_valid :: "string \<Rightarrow> string option \<Rightarrow> bool"
  ph_parse :: "string \<Rightarrow> string option \<Rightarrow> (bool \<times> string) option"

definition normalizePhoneNumber :: "phone_lib \<Rightarrow> string \<Rightarrow> string \<Rightarrow> string option" where
  "normalizePhoneNumber lib raw defaultCountry =
     (let val = trim raw in
      if val = [] then None
      else let country = map to_upper (trim (if defaultCountry = [] then ''US'' else defaultCountry));
               region = (if starts_with ''+'' val then None else Some country) in
        if \<not> ph_valid lib val region then None
        else case ph_parse lib val region of
          None \<Rightarrow> None
        | Some (valid, e164) \<Rightarrow> if valid then Some e164 else None)"

text \<open>The variables of the import loop.\<close>

record import_state =
  is_db :: campaign_db
  is_seen :: "string list"
  is_imported :: nat
  is_skipped :: nat
  is_reasons :: "string list"

definition addSkipReason :: "string \<Rightarrow> import_state \<Rightarrow> import_state" where
  "addSkipReason reason st =
     st\<lparr>is_skipped := Suc (is_skipped st),
        is_reasons := (if length (is_reasons st) < 10 then is_reasons st @ [reason] else is_reasons st)\<rparr>"

definition insert_contact :: "int \<Rightarrow> string \<Rightarrow> string \<Rightarrow> campaign_db \<Rightarrow> campaign_db" where
  "insert_contact campaignId number name db =
     db\<lparr>cd_nextContact := cd_nextContact db + 1, cd_contacts := cd_contacts db @
       [\<lparr>cc_id = cd_nextContact db, cc_campaignId = campaignId, cc_phoneNumber = number,
         cc_name = (if name = [] then None else Some name), cc_status = ''pending'', cc_attempts = 0,
         cc_lastAttemptAt = None, cc_nextRetryAt = None\<rparr>]\<rparr>"

definition import_row :: "phone_lib \<Rightarrow> int \<Rightarrow> string \<Rightarrow> csv_row \<Rightarrow> import_state \<Rightarrow> import_state" where
  "import_row lib campaignId country row st =
     (let rawNumber = trim (row_value row ''phone_number''); n = show_nat (cr_rowNumber row) in
      if rawNumber = [] then addSkipReason (''row '' @ n @ '': missing phone_number'') st
      else case normalizePhoneNumber lib rawNumber country of
        None \<Rightarrow> addSkipReason (''row '' @ n @ '': cannot parse '' @ [CHR 0x22] @ rawNumber @ [CHR 0x22] @ '' as valid number for '' @ country) st
      | Some number \<Rightarrow>
        if number = [] then addSkipReason (''row '' @ n @ '': cannot parse '' @ [CHR 0x22] @ rawNumber @ [CHR 0x22] @ '' as valid number for '' @ country) st
        else if number \<in> set (is_seen st)
        then addSkipReason (''row '' @ n @ '': duplicate number in campaign '' @ [CHR 0x22] @ number @ [CHR 0x22]) st
        else st\<lparr>is_db := insert_contact campaignId number (trim (row_value row ''name'')) (is_db st),
                is_seen := number # is_seen st, is_imported := Suc (is_imported st)\<rparr>)"

definition campaign_contacts :: "campaign_db \<Rightarrow> int \<Rightarrow> contact_row list" where
  "campaign_contacts db i = filter (\<lambda>c. cc_campaignId c = i) (cd_contacts db)"

record upload_answer =
  ua_imported :: nat
  ua_skipped :: nat
  ua_total :: nat
  ua_reasons :: "string list"

definition uploadContacts :: "phone_lib \<Rightarrow> int \<Rightarrow> string \<Rightarrow> campaign_db \<Rightarrow> (upload_answer \<times> campaign_db) result" where
  "uploadContacts lib i input db =
     bind_result (getById db i) (\<lambda>v.
       case parseCsv input of (headers, rows) \<Rightarrow>
         if ''phone_number'' \<notin> set headers then throw (BadRequest ''CSV must include phone_number column'')
         else
           let seen = filter (\<lambda>n. n \<noteq> []) (map (\<lambda>c. trim (cc_phoneNumber c)) (campaign_contacts db i));
               st = fold (import_row lib i (ca_defaultCountry (cv_row v))) rows
                      \<lparr>is_db = db, is_seen = seen, is_imported = 0, is_skipped = 0, is_reasons = []\<rparr>;
               reasons = is_reasons st @ (if length (is_reasons st) < is_skipped st
                  then [''... and '' @ show_nat (is_skipped st - length (is_reasons st)) @ '' more''] else []);
               db1 = is_db st;
               db2 = set_campaign i (\<lambda>c. c\<lparr>ca_totalContacts := int (length (campaign_contacts db1 i))\<rparr>) db1
           in ok (\<lparr>ua_imported = is_imported st, ua_skipped = is_skipped st, ua_total = is_imported st + is_skipped st,
                   ua_reasons = reasons\<rparr>, db2))"

definition listContacts :: "campaign_db \<Rightarrow> int \<Rightarrow> int \<Rightarrow> int \<Rightarrow> string option \<Rightarrow> (contact_row list \<times> nat) result" where
  "listContacts db i limit offset status =
     bind_result (getById db i) (\<lambda>_.
       let wanted = trim (text_or_empty status);
           rows = filter (\<lambda>c. wanted = [] \<or> cc_status c = wanted) (campaign_contacts db i) in
       ok (page 200 50 limit offset (sort_key cc_id rows), length rows))"

definition listContactAttempts :: "campaign_db \<Rightarrow> int \<Rightarrow> int \<Rightarrow> attempt_row list result" where
  "listContactAttempts db i contactId =
     bind_result (getById db i) (\<lambda>_.
       if \<not> list_ex (\<lambda>c. cc_id c = contactId) (campaign_contacts db i)
       then throw (NotFound (''Contact '' @ show_int contactId @ '' not found in campaign '' @ show_int i))
       else ok (sort_key (\<lambda>a. - at_attemptNumber a) (rev (sort_key at_id
              (filter (\<lambda>a. at_campaignId a = i \<and> at_contactId a = contactId) (cd_attempts db))))))"

section \<open>The life of a campaign\<close>

definition publish_backend :: "backend_message \<Rightarrow> campaign_db \<Rightarrow> campaign_db" where
  "publish_backend m db = (if cd_ready db then db\<lparr>cd_sent := cd_sent db @ [m]\<rparr> else db)"

definition schedule_campaign :: "int \<Rightarrow> int \<Rightarrow> campaign_db \<Rightarrow> (campaign_view \<times> campaign_db) result" where
  "schedule_campaign now i db =
     bind_result (getById db i) (\<lambda>v.
       if ca_status (cv_row v) \<noteq> ''draft'' then throw (BadRequest ''Only draft campaigns can be scheduled'')
       else case validateSchedulingRequirements now (cv_row v) of
         Some e \<Rightarrow> throw (BadRequest e)
       | None \<Rightarrow> (let db1 = set_status i ''scheduled'' db in bind_result (getById db1 i) (\<lambda>v'. ok (v', db1))))"

definition stop_campaign :: "int \<Rightarrow> campaign_db \<Rightarrow> (campaign_view \<times> campaign_db) result" where
  "stop_campaign i db =
     bind_result (getById db i) (\<lambda>v.
       if ca_status (cv_row v) \<notin> {''running'', ''scheduled'', ''cancelling''}
       then throw (BadRequest ''Only running or scheduled campaigns can be stopped'')
       else let db1 = set_status i ''cancelling'' (publish_backend (CampaignStop i) db) in
         bind_result (getById db1 i) (\<lambda>v'. ok (v', db1)))"

text \<open>The timer \<open>stop\<close> sets, thirty seconds later.\<close>

definition stop_fallback :: "int \<Rightarrow> campaign_db \<Rightarrow> campaign_db" where
  "stop_fallback i db =
     (case find_campaign db i of
        Some c \<Rightarrow> if ca_status c = ''cancelling'' then set_status i ''cancelled'' db else db
      | None \<Rightarrow> db)"

record progress =
  pr_status :: string
  pr_totalContacts :: int
  pr_dialedCount :: int
  pr_answeredCount :: int
  pr_failedCount :: int
  pr_pendingCount :: nat
  pr_activeCallCount :: number

definition getProgress :: "string option \<Rightarrow> int \<Rightarrow> campaign_db \<Rightarrow> progress result" where
  "getProgress activeRaw i db =
     bind_result (getById db i) (\<lambda>v. let c = cv_row v in
       ok \<lparr>pr_status = ca_status c, pr_totalContacts = ca_totalContacts c, pr_dialedCount = ca_dialedCount c,
           pr_answeredCount = ca_answeredCount c, pr_failedCount = ca_failedCount c,
           pr_pendingCount = length (filter (\<lambda>x. cc_status x = ''pending'') (campaign_contacts db i)),
           pr_activeCallCount = string_to_number (if text_or_empty activeRaw = [] then ''0'' else text_or_empty activeRaw)\<rparr>)"

definition due :: "int \<Rightarrow> campaign \<Rightarrow> bool" where
  "due now c \<longleftrightarrow> ca_status c = ''scheduled'' \<and> (\<exists>t \<in> set_option (ca_scheduledAt c). t \<le> now)"

definition start_campaign_row :: "int \<Rightarrow> campaign_db \<Rightarrow> campaign_db" where
  "start_campaign_row i db =
     publish_backend (CampaignStart i)
       (set_campaign i (\<lambda>c. if ca_status c = ''scheduled'' then c\<lparr>ca_status := ''running''\<rparr> else c) db)"

definition startDueCampaigns :: "int \<Rightarrow> campaign_db \<Rightarrow> int list \<times> campaign_db" where
  "startDueCampaigns now db =
     (let ids = map ca_id (sort_key (\<lambda>c. the (ca_scheduledAt c)) (filter (due now) (cd_campaigns db))) in
      (ids, fold start_campaign_row ids db))"

section \<open>Messages of the engine\<close>

record contact_update =
  cu_campaignId :: int
  cu_contactId :: int
  cu_status :: string
  cu_outcome :: "string option"
  cu_callLogId :: "int option"
  cu_callId :: "string option"
  cu_attemptNumber :: "int option"
  cu_retryAfterMinutes :: "int option"

definition set_contact :: "int \<Rightarrow> int \<Rightarrow> (contact_row \<Rightarrow> contact_row) \<Rightarrow> campaign_db \<Rightarrow> campaign_db" where
  "set_contact contactId campaignId f db =
     db\<lparr>cd_contacts := map (\<lambda>c. if cc_id c = contactId \<and> cc_campaignId c = campaignId then f c else c) (cd_contacts db)\<rparr>"

text \<open>\<open>callLogId ?? null\<close>, or the latest log of the call when it is missing or 0.\<close>

definition attempt_log :: "campaign_db \<Rightarrow> contact_update \<Rightarrow> int option" where
  "attempt_log db p =
     (case cu_callLogId p of
        Some i \<Rightarrow> if i \<noteq> 0 then Some i else
          (if text_or_empty (cu_callId p) = [] then Some i else max_by id (map snd (filter (\<lambda>(u, _). u = text_or_empty (cu_callId p)) (cd_callLogs db))))
      | None \<Rightarrow> if text_or_empty (cu_callId p) = [] then None
          else max_by id (map snd (filter (\<lambda>(u, _). u = text_or_empty (cu_callId p)) (cd_callLogs db))))"

definition insert_attempt :: "contact_update \<Rightarrow> campaign_db \<Rightarrow> campaign_db" where
  "insert_attempt p db =
     (let contact = List.find (\<lambda>c. cc_id c = cu_contactId p \<and> cc_campaignId c = cu_campaignId p) (cd_contacts db);
          attempts = (case contact of Some c \<Rightarrow> cc_attempts c | None \<Rightarrow> 0);
          number = (if attempts \<noteq> 0 then attempts else case cu_attemptNumber p of Some k \<Rightarrow> if k \<noteq> 0 then k else 1 | None \<Rightarrow> 1) in
      db\<lparr>cd_nextAttempt := cd_nextAttempt db + 1, cd_attempts := cd_attempts db @
        [\<lparr>at_id = cd_nextAttempt db, at_campaignId = cu_campaignId p, at_contactId = cu_contactId p,
          at_phoneNumber = (case contact of Some c \<Rightarrow> cc_phoneNumber c | None \<Rightarrow> []), at_attemptNumber = number,
          at_outcome = text_or_empty (cu_outcome p), at_callLogId = attempt_log db p\<rparr>]\<rparr>)"

text \<open>An attempt whose campaign, contact or log is gone is rejected by the database, and the rejection logged.\<close>

definition handleCampaignContactUpdate :: "int \<Rightarrow> contact_update \<Rightarrow> campaign_db \<Rightarrow> campaign_db" where
  "handleCampaignContactUpdate now p db =
     (let status = trim (cu_status p); set_row = set_contact (cu_contactId p) (cu_campaignId p) in
      if cu_campaignId p = 0 \<or> cu_contactId p = 0 \<or> status = [] then db
      else if status = ''dialing''
      then set_row (\<lambda>c. c\<lparr>cc_status := ''dialing'', cc_attempts := cc_attempts c + 1, cc_lastAttemptAt := Some now, cc_nextRetryAt := None\<rparr>) db
      else if status = ''pending''
      then let minutes = (case cu_retryAfterMinutes p of Some m \<Rightarrow> if m \<noteq> 0 then m else 30 | None \<Rightarrow> 30) in
        set_row (\<lambda>c. c\<lparr>cc_status := ''pending'', cc_nextRetryAt := Some (now + minutes * 60000)\<rparr>) db
      else
        let db1 = set_row (\<lambda>c. c\<lparr>cc_status := status, cc_nextRetryAt := None\<rparr>) db in
        if text_or_empty (cu_outcome p) = [] then db1
        else if list_ex (\<lambda>c. ca_id c = cu_campaignId p) (cd_campaigns db1) \<and> list_ex (\<lambda>c. cc_id c = cu_contactId p) (cd_contacts db1)
          \<and> (\<forall>l \<in> set_option (attempt_log db1 p). l \<in> snd ` set (cd_callLogs db1))
        then insert_attempt p db1 else db1)"

definition handleCampaignStats :: "int \<Rightarrow> int \<Rightarrow> int \<Rightarrow> int \<Rightarrow> campaign_db \<Rightarrow> campaign_db" where
  "handleCampaignStats i dialed answered failed db =
     set_campaign i (\<lambda>c. c\<lparr>ca_dialedCount := dialed, ca_answeredCount := answered, ca_failedCount := failed\<rparr>) db"

definition handleCampaignCompleted :: "int \<Rightarrow> campaign_db \<Rightarrow> campaign_db" where
  "handleCampaignCompleted i db = set_status i ''completed'' db"

definition handleCampaignCancelled :: "int \<Rightarrow> campaign_db \<Rightarrow> campaign_db" where
  "handleCampaignCancelled i db = set_status i ''cancelled'' db"

end
