(* ===== verification/CampaignEngine.thy ===== *)
theory CampaignEngine
  imports AsyncPrograms CampaignService CallModel
begin

text \<open>
  \<open>stasis/src/campaign-executor.ts\<close>: the engine's side of a campaign, which keeps a window of outbound
  calls open until the contacts are used up.  Its methods are asynchronous programs over the store of the
  class; each request, each query, each Redis command and each stretch of code between two of them that
  reads or writes the store is one action.
\<close>

section \<open>Objects\<close>

record campaign_record =
  ck_id :: int
  ck_name :: string
  ck_status :: string
  ck_flowId :: "int option"
  ck_trunkId :: "int option"
  ck_callerId :: "string option"
  ck_trunkName :: "string option"
  ck_trunkCallerId :: "string option"
  ck_maxConcurrent :: int
  ck_maxRetries :: int
  ck_retryIntervalMinutes :: int

record contact =
  co_id :: int
  co_phoneNumber :: string
  co_name :: "string option"
  co_attempts :: int

record active_call =
  ac_campaignId :: int
  ac_contact :: contact
  ac_phoneNumber :: string
  ac_startedAt :: nat
  ac_attemptNumber :: int
  ac_flowRan :: bool

text \<open>A runtime's calls by channel; retries and running methods share the call objects, so they are references.\<close>

record campaign_runtime =
  ru_campaign :: campaign_record
  ru_queue :: "contact list"
  ru_activeByChannel :: "(string \<times> nat) list"
  ru_stopRequested :: bool
  ru_dialedCount :: int
  ru_answeredCount :: int
  ru_failedCount :: int

section \<open>Messages and requests\<close>

record dialled_event =
  ev_callId :: string
  ev_type :: string
  ev_caller :: string
  ev_destination :: string
  ev_flowId :: "int option"
  ev_flowVersionId :: "int option"
  ev_entryNodeKey :: "string option"
  ev_failureReason :: "string option"

datatype engine_message =
    ContactUpdate contact_update
  | StatsUpdate int int int int
  | CampaignCompleted int
  | CampaignCancelled int
  | CallEvent dialled_event

record originate_request =
  or_endpoint :: string
  or_appArgs :: string
  or_callerId :: "string option"

datatype channel_request = AnswerChannel string | HangupChannel string

section \<open>The store and its surroundings\<close>

text \<open>
  \<open>k_runtimes\<close> is the map of the class, in insertion order; \<open>k_heap\<close> and \<open>k_calls\<close> are the runtime and
  call objects, the timers hold a runtime, the contact to push and the delay, \<open>k_active\<close> is the counter
  \<open>campaign:active:i\<close> of Redis; the last three record what was sent.
\<close>

record campaign_store =
  k_runtimes :: "(int \<times> nat) list"
  k_heap :: "nat \<Rightarrow> campaign_runtime option"
  k_calls :: "nat \<Rightarrow> active_call option"
  k_next :: nat
  k_timers :: "(nat \<times> contact \<times> int) list"
  k_active :: "int \<Rightarrow> int option"
  k_sessions :: active_sessions
  k_sent :: "engine_message list"
  k_dialled :: "originate_request list"
  k_channel :: "channel_request list"

text \<open>
  The backend's answers (\<open>None\<close>: not ok), the dial formats of the trunks, Asterisk, the publisher's
  connection and the Redis commands (a rejection, if any), the published flows, the call logs, the
  running of a flow and the clock.
\<close>

record campaign_env =
  ce_campaign :: "int \<Rightarrow> campaign_store \<Rightarrow> string + campaign_view option"
  ce_contacts :: "int \<Rightarrow> campaign_store \<Rightarrow> string + contact_row list option"
  ce_trunk :: "number \<Rightarrow> string option"
  ce_originate :: "originate_request \<Rightarrow> campaign_store \<Rightarrow> string + string option"
  ce_publisher :: "campaign_store \<Rightarrow> string option"
  ce_redis :: "campaign_store \<Rightarrow> string option"
  ce_flow :: "int \<Rightarrow> campaign_store \<Rightarrow> string + flow option"
  ce_callLog :: "string \<Rightarrow> campaign_store \<Rightarrow> string + int option"
  ce_answer :: "string \<Rightarrow> campaign_store \<Rightarrow> string + unit"
  ce_hangup :: "string \<Rightarrow> campaign_store \<Rightarrow> string + unit"
  ce_runFlow :: "session \<Rightarrow> campaign_store \<Rightarrow> string + unit"
  ce_now :: "campaign_store \<Rightarrow> nat"

type_synonym 'a campaign_op = "(campaign_store, 'a) prog"

definition set_runtime :: "nat \<Rightarrow> (campaign_runtime \<Rightarrow> campaign_runtime) \<Rightarrow> campaign_store \<Rightarrow> campaign_store" where
  "set_runtime r f s = s\<lparr>k_heap := (k_heap s)(r := map_option f (k_heap s r))\<rparr>"

definition set_call :: "nat \<Rightarrow> (active_call \<Rightarrow> active_call) \<Rightarrow> campaign_store \<Rightarrow> campaign_store" where
  "set_call a f s = s\<lparr>k_calls := (k_calls s)(a := map_option f (k_calls s a))\<rparr>"

section \<open>Redis and the channels\<close>

definition getPublisher :: "campaign_env \<Rightarrow> unit campaign_op" where
  "getPublisher env = attempt (\<lambda>s. (case ce_publisher env s of Some m \<Rightarrow> Inl m | None \<Rightarrow> Inr (), s))"

definition publish :: "campaign_env \<Rightarrow> engine_message \<Rightarrow> unit campaign_op" where
  "publish env m =
     andThen (getPublisher env) (\<lambda>_. attempt (\<lambda>s. case ce_redis env s of
       Some e \<Rightarrow> (Inl e, s)
     | None \<Rightarrow> (Inr (), s\<lparr>k_sent := k_sent s @ [m]\<rparr>)))"

definition publishCallEvent :: "campaign_env \<Rightarrow> dialled_event \<Rightarrow> unit campaign_op" where
  "publishCallEvent env ev = tryCatch (publish env (CallEvent ev)) (\<lambda>_. Ret ())"

text \<open>A command on the counter of active calls whose rejection is swallowed.\<close>

definition active_command :: "campaign_env \<Rightarrow> int \<Rightarrow> (int option \<Rightarrow> int option) \<Rightarrow> unit campaign_op" where
  "active_command env i f =
     andThen (getPublisher env) (\<lambda>_. atomic (\<lambda>s. ((), case ce_redis env s of
       Some _ \<Rightarrow> s
     | None \<Rightarrow> s\<lparr>k_active := (k_active s)(i := f (k_active s i))\<rparr>)))"

definition incrementActive :: "campaign_env \<Rightarrow> int \<Rightarrow> unit campaign_op" where
  "incrementActive env i = active_command env i (\<lambda>n. Some (case_option 0 id n + 1))"

definition decrementActive :: "campaign_env \<Rightarrow> int \<Rightarrow> unit campaign_op" where
  "decrementActive env i = active_command env i (\<lambda>n. Some (case_option 0 id n - 1))"

definition request_hangup :: "campaign_env \<Rightarrow> string \<Rightarrow> unit campaign_op" where
  "request_hangup env ch =
     tryCatch (attempt (\<lambda>s. (ce_hangup env ch s, s\<lparr>k_channel := k_channel s @ [HangupChannel ch]\<rparr>))) (\<lambda>_. Ret ())"

section \<open>Requests to the backend\<close>

text \<open>\<open>x || d\<close> on numbers.\<close>

definition int_or :: "int \<Rightarrow> int \<Rightarrow> int" where
  "int_or i d = (if i = 0 then d else i)"

definition campaign_of_view :: "campaign_view \<Rightarrow> campaign_record" where
  "campaign_of_view v = (let c = cv_row v in
     \<lparr>ck_id = ca_id c, ck_name = ca_name c, ck_status = ca_status c, ck_flowId = ca_flowId c, ck_trunkId = ca_trunkId c,
      ck_callerId = text_or_null (ca_callerId c), ck_trunkName = text_or_null (cv_trunkName v),
      ck_trunkCallerId = text_or_null (cv_trunkCallerId v), ck_maxConcurrent = int_or (ca_maxConcurrent c) 1,
      ck_maxRetries = ca_maxRetries c, ck_retryIntervalMinutes = int_or (ca_retryIntervalMinutes c) 30\<rparr>)"

definition fetchCampaign :: "campaign_env \<Rightarrow> int \<Rightarrow> campaign_record option campaign_op" where
  "fetchCampaign env i =
     andThen (attempt (\<lambda>s. (ce_campaign env i s, s))) (\<lambda>v. Ret (map_option campaign_of_view v))"

definition contact_of_row :: "contact_row \<Rightarrow> contact" where
  "contact_of_row c =
     \<lparr>co_id = cc_id c, co_phoneNumber = cc_phoneNumber c, co_name = text_or_null (cc_name c), co_attempts = cc_attempts c\<rparr>"

definition fetchPendingContacts :: "campaign_env \<Rightarrow> int \<Rightarrow> contact list campaign_op" where
  "fetchPendingContacts env i =
     andThen (attempt (\<lambda>s. (ce_contacts env i s, s))) (\<lambda>cs. Ret (case cs of None \<Rightarrow> [] | Some cs \<Rightarrow> map contact_of_row cs))"

text \<open>What the backend of \<open>CampaignService\<close> answers, with the engine's query \<open>status=pending&limit=1000&offset=0\<close>.\<close>

definition backend_campaign :: "campaign_db \<Rightarrow> int \<Rightarrow> campaign_view option" where
  "backend_campaign db i = (case getById db i of Inl _ \<Rightarrow> None | Inr v \<Rightarrow> Some v)"

definition backend_contacts :: "campaign_db \<Rightarrow> int \<Rightarrow> contact_row list option" where
  "backend_contacts db i = (case listContacts db i 1000 0 (Some ''pending'') of Inl _ \<Rightarrow> None | Inr (cs, _) \<Rightarrow> Some cs)"

text \<open>Three tries, half a second apart.\<close>

fun call_log_tries :: "campaign_env \<Rightarrow> string \<Rightarrow> nat \<Rightarrow> int option campaign_op" where
  "call_log_tries env ch 0 = Ret None"
| "call_log_tries env ch (Suc n) =
     andThen (attempt (\<lambda>s. (ce_callLog env ch s, s))) (\<lambda>i.
       if i \<noteq> None \<and> i \<noteq> Some 0 then Ret i else call_log_tries env ch n)"

definition findCallLogId :: "campaign_env \<Rightarrow> string \<Rightarrow> int option campaign_op" where
  "findCallLogId env ch = call_log_tries env ch 3"

section \<open>Dialling\<close>

text \<open>The campaign of a runtime object, which never changes.\<close>

definition campaign_of :: "nat \<Rightarrow> campaign_record option campaign_op" where
  "campaign_of r = atomic (\<lambda>s. (map_option ru_campaign (k_heap s r), s))"

definition publishStats :: "campaign_env \<Rightarrow> nat \<Rightarrow> int \<Rightarrow> unit campaign_op" where
  "publishStats env r i =
     andThen (atomic (\<lambda>s. (k_heap s r, s))) (\<lambda>ru. case ru of
       None \<Rightarrow> Ret ()
     | Some ru \<Rightarrow> publish env (StatsUpdate i (ru_dialedCount ru) (ru_answeredCount ru) (ru_failedCount ru)))"

definition plain_update :: "int \<Rightarrow> int \<Rightarrow> string \<Rightarrow> string option \<Rightarrow> contact_update" where
  "plain_update campaignId contactId status outcome =
     \<lparr>cu_campaignId = campaignId, cu_contactId = contactId, cu_status = status, cu_outcome = outcome, cu_callLogId = None,
      cu_callId = None, cu_attemptNumber = None, cu_retryAfterMinutes = None\<rparr>"

definition dial_failed :: "campaign_env \<Rightarrow> nat \<Rightarrow> campaign_record \<Rightarrow> contact \<Rightarrow> unit campaign_op" where
  "dial_failed env r k c =
     andThen (atomic (\<lambda>s. ((), set_runtime r (\<lambda>ru. ru\<lparr>ru_failedCount := ru_failedCount ru + 1\<rparr>) s))) (\<lambda>_.
       publish env (ContactUpdate (plain_update (ck_id k) (co_id c) ''failed'' (Some ''failed''))))"

definition originate_call :: "campaign_env \<Rightarrow> originate_request \<Rightarrow> string option campaign_op" where
  "originate_call env q = attempt (\<lambda>s. (ce_originate env q s, s\<lparr>k_dialled := k_dialled s @ [q]\<rparr>))"

definition register_call :: "campaign_env \<Rightarrow> nat \<Rightarrow> campaign_record \<Rightarrow> contact \<Rightarrow> string \<Rightarrow> campaign_store \<Rightarrow> campaign_store" where
  "register_call env r k c ch s =
     (let a = k_next s in
      set_runtime r (\<lambda>ru. ru\<lparr>ru_dialedCount := ru_dialedCount ru + 1,
          ru_activeByChannel := AList.update ch a (ru_activeByChannel ru)\<rparr>)
        (s\<lparr>k_next := Suc a, k_calls := (k_calls s)(a \<mapsto>
          \<lparr>ac_campaignId = ck_id k, ac_contact = c, ac_phoneNumber = co_phoneNumber c, ac_startedAt = ce_now env s,
           ac_attemptNumber = co_attempts c + 1, ac_flowRan = False\<rparr>)\<rparr>))"

definition dial_request :: "campaign_record \<Rightarrow> contact \<Rightarrow> string \<Rightarrow> originate_request" where
  "dial_request k c number =
     \<lparr>or_endpoint = ''PJSIP/'' @ number @ ''@trunk-'' @ (case ck_trunkId k of None \<Rightarrow> ''null'' | Some t \<Rightarrow> show_int t),
      or_appArgs = ''campaign,'' @ show_int (ck_id k) @ '','' @ show_int (co_id c),
      or_callerId = (case text_or_null (ck_callerId k) of Some x \<Rightarrow> Some x | None \<Rightarrow> text_or_null (ck_trunkCallerId k))\<rparr>"

definition place_call :: "campaign_env \<Rightarrow> nat \<Rightarrow> campaign_record \<Rightarrow> contact \<Rightarrow> string \<Rightarrow> unit campaign_op" where
  "place_call env r k c number =
     andThen (originate_call env (dial_request k c number)) (\<lambda>answer.
       let ch = text_or_empty answer in
       if ch = [] then Fail ''originate did not return channel id''
       else andThen (atomic (\<lambda>s. ((), register_call env r k c ch s))) (\<lambda>_.
         andThen (incrementActive env (ck_id k)) (\<lambda>_.
         andThen (publish env (ContactUpdate (plain_update (ck_id k) (co_id c) ''dialing'' None))) (\<lambda>_.
         publishStats env r (ck_id k)))))"

definition dialContact :: "campaign_env \<Rightarrow> nat \<Rightarrow> contact \<Rightarrow> unit campaign_op" where
  "dialContact env r c =
     andThen (campaign_of r) (\<lambda>k. case k of
       None \<Rightarrow> Ret ()
     | Some k \<Rightarrow>
       (let dialFormat = fetchTrunkDialFormat (ce_trunk env) (num_of_int (case_option 0 id (ck_trunkId k)));
            number = text_or_empty (formatDialNumber (co_phoneNumber c) dialFormat) in
        if number = [] then dial_failed env r k c
        else tryCatch (place_call env r k c number) (\<lambda>_. dial_failed env r k c)))"

text \<open>The loop's condition and \<open>queue.shift()\<close>.\<close>

definition window_open :: "campaign_runtime \<Rightarrow> bool" where
  "window_open ru \<longleftrightarrow> \<not> ru_stopRequested ru
     \<and> int (length (ru_activeByChannel ru)) < ck_maxConcurrent (ru_campaign ru) \<and> ru_queue ru \<noteq> []"

definition next_contact :: "nat \<Rightarrow> contact option campaign_op" where
  "next_contact r = atomic (\<lambda>s. case k_heap s r of
     None \<Rightarrow> (None, s)
   | Some ru \<Rightarrow> if window_open ru
       then (Some (hd (ru_queue ru)), set_runtime r (\<lambda>ru. ru\<lparr>ru_queue := tl (ru_queue ru)\<rparr>) s) else (None, s))"

text \<open>
  Retries may push contacts while the loop runs, so it may take any number of rounds; the fuel bounds them.
\<close>

fun fillWindow :: "campaign_env \<Rightarrow> nat \<Rightarrow> nat \<Rightarrow> unit campaign_op" where
  "fillWindow env 0 r = Fail ''out of fuel''"
| "fillWindow env (Suc n) r =
     andThen (next_contact r) (\<lambda>c. case c of
       None \<Rightarrow> Ret ()
     | Some c \<Rightarrow> andThen (dialContact env r c) (\<lambda>_. fillWindow env n r))"

section \<open>Starting and stopping\<close>

definition new_runtime :: "campaign_record \<Rightarrow> contact list \<Rightarrow> campaign_runtime" where
  "new_runtime k contacts =
     \<lparr>ru_campaign = k, ru_queue = contacts, ru_activeByChannel = [], ru_stopRequested = False,
      ru_dialedCount = 0, ru_answeredCount = 0, ru_failedCount = 0\<rparr>"

definition startCampaign :: "campaign_env \<Rightarrow> nat \<Rightarrow> int \<Rightarrow> unit campaign_op" where
  "startCampaign env fuel i =
     andThen (fetchCampaign env i) (\<lambda>k. case k of
       None \<Rightarrow> Ret ()
     | Some k \<Rightarrow>
       if case_option 0 id (ck_flowId k) = 0 \<or> case_option 0 id (ck_trunkId k) = 0 then Ret ()
       else andThen (fetchPendingContacts env i) (\<lambda>contacts.
         andThen (atomic (\<lambda>s. (k_next s, s\<lparr>k_next := Suc (k_next s), k_heap := (k_heap s)(k_next s \<mapsto> new_runtime k contacts),
             k_runtimes := AList.update i (k_next s) (k_runtimes s)\<rparr>))) (\<lambda>r.
         andThen (getPublisher env) (\<lambda>_.
         andThen (attempt (\<lambda>s. case ce_redis env s of
             Some m \<Rightarrow> (Inl m, s)
           | None \<Rightarrow> (Inr (), s\<lparr>k_active := (k_active s)(i \<mapsto> 0)\<rparr>))) (\<lambda>_.
         fillWindow env fuel r)))))"

definition drop_runtime :: "int \<Rightarrow> unit campaign_op" where
  "drop_runtime i = atomic (\<lambda>s. ((), s\<lparr>k_runtimes := AList.delete i (k_runtimes s)\<rparr>))"

definition stopCampaign :: "campaign_env \<Rightarrow> int \<Rightarrow> unit campaign_op" where
  "stopCampaign env i =
     andThen (atomic (\<lambda>s. case map_of (k_runtimes s) i of
       None \<Rightarrow> (False, s)
     | Some r \<Rightarrow> (case k_heap s r of
         None \<Rightarrow> (False, s)
       | Some ru \<Rightarrow> (ru_activeByChannel ru = [], set_runtime r (\<lambda>ru. ru\<lparr>ru_stopRequested := True\<rparr>) s)))) (\<lambda>idle.
     if idle then andThen (publish env (CampaignCancelled i)) (\<lambda>_. drop_runtime i) else Ret ())"

definition on_backend_message :: "campaign_env \<Rightarrow> nat \<Rightarrow> backend_message \<Rightarrow> unit campaign_op" where
  "on_backend_message env fuel m =
     (case m of
        CampaignStart i \<Rightarrow> if 0 < i then startCampaign env fuel i else Ret ()
      | CampaignStop i \<Rightarrow> if 0 < i then stopCampaign env i else Ret ())"

section \<open>A call enters the application\<close>

text \<open>\<open>Number(args[i] || 0)\<close>; an argument that is no integer, which \<open>dialContact\<close> never writes, counts as missing.\<close>

definition id_argument :: "string list \<Rightarrow> nat \<Rightarrow> int" where
  "id_argument args i =
     (if i < length args \<and> args ! i \<noteq> [] then case_option 0 id (num_int (string_to_number (args ! i))) else 0)"

definition failed_event :: "string \<Rightarrow> campaign_record \<Rightarrow> active_call \<Rightarrow> (int \<times> int option) option \<Rightarrow> string \<Rightarrow> dialled_event" where
  "failed_event ch k a flow reason =
     \<lparr>ev_callId = ch, ev_type = ''failed'', ev_caller = text_or_empty (ck_trunkCallerId k), ev_destination = ac_phoneNumber a,
      ev_flowId = map_option fst flow, ev_flowVersionId = Option.bind flow snd, ev_entryNodeKey = None, ev_failureReason = Some reason\<rparr>"

definition started_event :: "string \<Rightarrow> campaign_record \<Rightarrow> active_call \<Rightarrow> flow \<Rightarrow> string \<Rightarrow> dialled_event" where
  "started_event ch k a fl entry =
     \<lparr>ev_callId = ch, ev_type = ''started'', ev_caller = text_or_empty (ck_trunkCallerId k), ev_destination = ac_phoneNumber a,
      ev_flowId = Some (f_id fl), ev_flowVersionId = Some (f_versionId fl), ev_entryNodeKey = Some entry, ev_failureReason = None\<rparr>"

definition entry_node :: "flow \<Rightarrow> rt_node option" where
  "entry_node fl = (case List.find (\<lambda>n. n_type n = ''start'') (f_nodes fl) of
     Some n \<Rightarrow> Some n
   | None \<Rightarrow> (case f_nodes fl of [] \<Rightarrow> None | n # _ \<Rightarrow> Some n))"

text \<open>The \<open>try\<close> block: announce, answer, run the flow.\<close>

definition run_campaign_flow :: "campaign_env \<Rightarrow> string \<Rightarrow> campaign_record \<Rightarrow> nat \<Rightarrow> active_call \<Rightarrow> flow \<Rightarrow> rt_node \<Rightarrow> session \<Rightarrow> unit campaign_op" where
  "run_campaign_flow env ch k a call fl entry session =
     andThen (publishCallEvent env (started_event ch k call fl (n_key entry))) (\<lambda>_.
     andThen (attempt (\<lambda>s. (ce_answer env ch s, s\<lparr>k_channel := k_channel s @ [AnswerChannel ch]\<rparr>))) (\<lambda>_.
     andThen (atomic (\<lambda>s. ((), set_call a (\<lambda>c. c\<lparr>ac_flowRan := True\<rparr>) s))) (\<lambda>_.
     tryCatch (attempt (\<lambda>s. (ce_runFlow env session s, s)))
       (\<lambda>e. publishCallEvent env (failed_event ch k call (Some (f_id fl, Some (f_versionId fl))) e)))))"

definition enter_flow :: "campaign_env \<Rightarrow> string \<Rightarrow> campaign_record \<Rightarrow> nat \<Rightarrow> active_call \<Rightarrow> bool campaign_op" where
  "enter_flow env ch k a call =
     (let flowId = case_option 0 id (ck_flowId k) in
      if flowId = 0
      then andThen (publishCallEvent env (failed_event ch k call None ''campaign flow missing'')) (\<lambda>_.
           andThen (request_hangup env ch) (\<lambda>_. Ret True))
      else andThen (attempt (\<lambda>s. (ce_flow env flowId s, s))) (\<lambda>fl. case fl of
        None \<Rightarrow> andThen (publishCallEvent env (failed_event ch k call (Some (flowId, None)) ''campaign flow not found'')) (\<lambda>_.
          andThen (request_hangup env ch) (\<lambda>_. Ret True))
      | Some fl \<Rightarrow> (case entry_node fl of
          None \<Rightarrow> Fail ''TypeError''
        | Some entry \<Rightarrow>
          andThen (atomic (\<lambda>s. let session = set_var ''direction'' ''outbound''
               (createSession (ce_now env s) ch (ac_phoneNumber call) fl (n_key entry)) in
             (session, s\<lparr>k_sessions := addSession session (k_sessions s)\<rparr>))) (\<lambda>session.
          andThen (tryCatch (run_campaign_flow env ch k a call fl entry session) (\<lambda>_. Ret ())) (\<lambda>_. Ret True)))))"

text \<open>What the handler finds: no runtime, no call of the channel, or the call.\<close>

datatype found_call = NoRuntime | NoCall | FoundCall campaign_record nat active_call

definition lookup_call :: "int \<Rightarrow> string \<Rightarrow> campaign_store \<Rightarrow> found_call" where
  "lookup_call i ch s =
     (case Option.bind (map_of (k_runtimes s) i) (k_heap s) of
        None \<Rightarrow> NoRuntime
      | Some ru \<Rightarrow> (case map_of (ru_activeByChannel ru) ch of
          None \<Rightarrow> NoCall
        | Some a \<Rightarrow> (case k_calls s a of None \<Rightarrow> NoCall | Some call \<Rightarrow> FoundCall (ru_campaign ru) a call)))"

definition handleStasisStart :: "campaign_env \<Rightarrow> string list \<Rightarrow> string \<Rightarrow> bool campaign_op" where
  "handleStasisStart env args ch =
     (if args = [] \<or> hd args \<noteq> ''campaign'' then Ret False
      else let campaignId = id_argument args 1; contactId = id_argument args 2 in
        if campaignId = 0 \<or> contactId = 0 then Ret False
        else andThen (atomic (\<lambda>s. (lookup_call campaignId ch s, s))) (\<lambda>found. case found of
          NoRuntime \<Rightarrow> andThen (request_hangup env ch) (\<lambda>_. Ret True)
        | NoCall \<Rightarrow> Ret True
        | FoundCall k a call \<Rightarrow>
          andThen (publish env (ContactUpdate (plain_update campaignId contactId ''dialing'' None))) (\<lambda>_.
          enter_flow env ch k a call)))"

section \<open>A call ends\<close>

definition determineOutcome :: "active_call \<Rightarrow> string option \<Rightarrow> string" where
  "determineOutcome a causeText =
     (let cause = map to_lower (text_or_empty causeText) in
      if ac_flowRan a then ''answered''
      else if has_text ''busy'' cause then ''busy''
      else if has_text ''no answer'' cause \<or> has_text ''no_answer'' cause \<or> has_text ''cancel'' cause then ''no_answer''
      else ''failed'')"

definition shouldRetry :: "campaign_runtime \<Rightarrow> active_call \<Rightarrow> string \<Rightarrow> bool" where
  "shouldRetry ru a outcome \<longleftrightarrow> outcome \<in> {''busy'', ''no_answer''} \<and> ac_attemptNumber a \<le> ck_maxRetries (ru_campaign ru)"

text \<open>The first runtime with the channel, and the removal of the call.\<close>

definition take_call :: "string \<Rightarrow> campaign_store \<Rightarrow> (int \<times> nat \<times> nat) option \<times> campaign_store" where
  "take_call ch s =
     (case List.find (\<lambda>(i, r). \<exists>ru \<in> set_option (k_heap s r). map_of (ru_activeByChannel ru) ch \<noteq> None) (k_runtimes s) of
        None \<Rightarrow> (None, s)
      | Some (i, r) \<Rightarrow>
        if i = 0 then (None, s)
        else (Some (i, r, the (map_of (ru_activeByChannel (the (k_heap s r))) ch)),
              set_runtime r (\<lambda>ru. ru\<lparr>ru_activeByChannel := AList.delete ch (ru_activeByChannel ru)\<rparr>) s))"

text \<open>The outcome, the counters and the retry timer.\<close>

definition settle_call :: "nat \<Rightarrow> nat \<Rightarrow> string option \<Rightarrow> campaign_store \<Rightarrow> (campaign_runtime \<times> active_call \<times> string) option \<times> campaign_store" where
  "settle_call r a causeText s =
     (case (k_heap s r, k_calls s a) of
        (Some ru, Some call) \<Rightarrow>
          (let outcome = determineOutcome call causeText;
               s1 = (if outcome = ''answered'' then set_runtime r (\<lambda>ru. ru\<lparr>ru_answeredCount := ru_answeredCount ru + 1\<rparr>) s else s);
               s2 = (if shouldRetry ru call outcome
                  then s1\<lparr>k_timers := k_timers s1 @ [(r, (ac_contact call)\<lparr>co_attempts := ac_attemptNumber call\<rparr>,
                         ck_retryIntervalMinutes (ru_campaign ru) * 60000)]\<rparr>
                  else if outcome \<in> {''busy'', ''no_answer'', ''failed''}
                  then set_runtime r (\<lambda>ru. ru\<lparr>ru_failedCount := ru_failedCount ru + 1\<rparr>) s1 else s1) in
           (Some (ru, call, outcome), s2))
      | _ \<Rightarrow> (None, s))"

definition end_update :: "int \<Rightarrow> string \<Rightarrow> campaign_runtime \<Rightarrow> active_call \<Rightarrow> string \<Rightarrow> int option \<Rightarrow> contact_update" where
  "end_update i ch ru a outcome callLogId =
     \<lparr>cu_campaignId = i, cu_contactId = co_id (ac_contact a), cu_status = (if shouldRetry ru a outcome then ''pending'' else outcome),
      cu_outcome = Some outcome, cu_callLogId = callLogId, cu_callId = Some ch, cu_attemptNumber = Some (ac_attemptNumber a),
      cu_retryAfterMinutes = Some (ck_retryIntervalMinutes (ru_campaign ru))\<rparr>"

text \<open>The end of the handler: nothing active and nothing queued ends the campaign.\<close>

definition finish_campaign :: "campaign_env \<Rightarrow> int \<Rightarrow> nat \<Rightarrow> bool campaign_op" where
  "finish_campaign env i r =
     andThen (atomic (\<lambda>s. (k_heap s r, s))) (\<lambda>ru. case ru of
       None \<Rightarrow> Ret True
     | Some ru \<Rightarrow>
       if ru_activeByChannel ru = [] \<and> ru_queue ru = []
       then andThen (publish env (if ru_stopRequested ru then CampaignCancelled i else CampaignCompleted i)) (\<lambda>_.
         andThen (drop_runtime i) (\<lambda>_.
         andThen (active_command env i (\<lambda>_. None)) (\<lambda>_. Ret True)))
       else Ret True)"

definition handleChannelEnd :: "campaign_env \<Rightarrow> nat \<Rightarrow> string \<Rightarrow> string option \<Rightarrow> bool campaign_op" where
  "handleChannelEnd env fuel ch causeText =
     andThen (atomic (take_call ch)) (\<lambda>found. case found of
       None \<Rightarrow> Ret False
     | Some (i, r, a) \<Rightarrow>
       andThen (decrementActive env i) (\<lambda>_.
       andThen (atomic (settle_call r a causeText)) (\<lambda>settled. case settled of
         None \<Rightarrow> Ret True
       | Some (ru, call, outcome) \<Rightarrow>
         andThen (findCallLogId env ch) (\<lambda>callLogId.
         andThen (publish env (ContactUpdate (end_update i ch ru call outcome callLogId))) (\<lambda>_.
         andThen (publishStats env r i) (\<lambda>_.
         andThen (atomic (\<lambda>s. (\<exists>ru \<in> set_option (k_heap s r). ru_stopRequested ru,
             s\<lparr>k_sessions := removeSession ch (k_sessions s)\<rparr>))) (\<lambda>stopped.
         andThen (if stopped then Ret () else fillWindow env fuel r) (\<lambda>_.
         finish_campaign env i r))))))))"

text \<open>A retry timer fires.\<close>

definition retry_fires :: "campaign_env \<Rightarrow> nat \<Rightarrow> nat \<Rightarrow> unit campaign_op" where
  "retry_fires env fuel t =
     andThen (atomic (\<lambda>s.
       if t < length (k_timers s)
       then (case k_timers s ! t of (r, c, _) \<Rightarrow>
         (Some r, set_runtime r (\<lambda>ru. ru\<lparr>ru_queue := ru_queue ru @ [c]\<rparr>)
            (s\<lparr>k_timers := take t (k_timers s) @ drop (Suc t) (k_timers s)\<rparr>)))
       else (None, s))) (\<lambda>r. case r of None \<Rightarrow> Ret () | Some r \<Rightarrow> fillWindow env fuel r)"

end
