(* ===== verification/CampaignLaws.thy ===== *)
theory CampaignLaws
  imports CampaignService
begin

text \<open>
  Laws of the campaign service: what every request, every timer and every message of the engine keeps of
  the tables, and how the status of a campaign can change.
\<close>

section \<open>Requests, timers and messages as steps\<close>

definition campaign_statuses :: "string set" where
  "campaign_statuses = {''draft'', ''scheduled'', ''running'', ''cancelling'', ''completed'', ''cancelled''}"

inductive campaign_step :: "phone_lib \<Rightarrow> campaign_db \<Rightarrow> campaign_db \<Rightarrow> bool" for lib where
  step_create: "create_campaign tz now p db = ok (v, db') \<Longrightarrow> campaign_step lib db db'"
| step_update: "update_campaign tz now i p db = ok (v, db') \<Longrightarrow> campaign_step lib db db'"
| step_remove: "remove_campaign i db = ok db' \<Longrightarrow> campaign_step lib db db'"
| step_upload: "uploadContacts lib i input db = ok (ans, db') \<Longrightarrow> campaign_step lib db db'"
| step_schedule: "schedule_campaign now i db = ok (v, db') \<Longrightarrow> campaign_step lib db db'"
| step_stop: "stop_campaign i db = ok (v, db') \<Longrightarrow> campaign_step lib db db'"
| step_fallback: "campaign_step lib db (stop_fallback i db)"
| step_due: "startDueCampaigns now db = (ids, db') \<Longrightarrow> campaign_step lib db db'"
| step_contact: "campaign_step lib db (handleCampaignContactUpdate now u db)"
| step_stats: "campaign_step lib db (handleCampaignStats i dialed answered failed db)"
| step_completed: "campaign_step lib db (handleCampaignCompleted i db)"
| step_cancelled: "campaign_step lib db (handleCampaignCancelled i db)"

text \<open>What is assumed of the phone number library: a number in E.164 form has no space around it.\<close>

definition e164 :: "phone_lib \<Rightarrow> bool" where
  "e164 lib \<longleftrightarrow> (\<forall>v region number. ph_parse lib v region = Some (True, number) \<longrightarrow> trim number = number)"

section \<open>Well-formed tables\<close>

definition campaign_row_ok :: "campaign \<Rightarrow> bool" where
  "campaign_row_ok c \<longleftrightarrow> 0 < ca_id c \<and> ca_status c \<in> campaign_statuses \<and> ca_name c \<noteq> [] \<and> country_code (ca_defaultCountry c)
     \<and> 1 \<le> ca_maxConcurrent c \<and> ca_maxConcurrent c \<le> 10 \<and> 0 \<le> ca_maxRetries c \<and> ca_maxRetries c \<le> 5
     \<and> 5 \<le> ca_retryIntervalMinutes c \<and> ca_retryIntervalMinutes c < 2 ^ 31"

definition campaigns_ok :: "campaign_db \<Rightarrow> bool" where
  "campaigns_ok db \<longleftrightarrow> 0 < cd_nextCampaign db \<and> distinct (map ca_id (cd_campaigns db))
     \<and> (\<forall>c \<in> set (cd_campaigns db). campaign_row_ok c \<and> ca_id c < cd_nextCampaign db
          \<and> set_option (ca_flowId c) \<subseteq> fst ` set (cd_flows db) \<and> set_option (ca_trunkId c) \<subseteq> fst ` set (cd_trunks db))"

definition contacts_ok :: "campaign_db \<Rightarrow> bool" where
  "contacts_ok db \<longleftrightarrow> distinct (map cc_id (cd_contacts db))
     \<and> (\<forall>x \<in> set (cd_contacts db). cc_id x < cd_nextContact db \<and> cc_campaignId x \<in> ca_id ` set (cd_campaigns db)
          \<and> cc_phoneNumber x \<noteq> [] \<and> trim (cc_phoneNumber x) = cc_phoneNumber x)
     \<and> (\<forall>i. distinct (map cc_phoneNumber (campaign_contacts db i)))"

definition totals_ok :: "campaign_db \<Rightarrow> bool" where
  "totals_ok db \<longleftrightarrow> (\<forall>c \<in> set (cd_campaigns db). ca_totalContacts c = int (length (campaign_contacts db (ca_id c))))"

definition attempts_ok :: "campaign_db \<Rightarrow> bool" where
  "attempts_ok db \<longleftrightarrow> distinct (map at_id (cd_attempts db))
     \<and> (\<forall>a \<in> set (cd_attempts db). at_id a < cd_nextAttempt db
          \<and> at_campaignId a \<in> ca_id ` set (cd_campaigns db) \<and> at_contactId a \<in> cc_id ` set (cd_contacts db))"

definition campaign_inv :: "campaign_db \<Rightarrow> bool" where
  "campaign_inv db \<longleftrightarrow> campaigns_ok db \<and> contacts_ok db \<and> totals_ok db \<and> attempts_ok db"

section \<open>Reading and updating rows\<close>

lemma find_campaign_Some: "find_campaign db i = Some c \<Longrightarrow> c \<in> set (cd_campaigns db) \<and> ca_id c = i"
  by (auto simp: find_campaign_def find_Some_iff)

lemma find_campaign_None: "find_campaign db i = None \<longleftrightarrow> i \<notin> ca_id ` set (cd_campaigns db)"
  by (auto simp: find_campaign_def find_None_iff)

lemma getById_ok: "getById db i = ok v \<longleftrightarrow> (\<exists>c. find_campaign db i = Some c \<and> v = mapCampaignRow db c)"
  by (auto simp: getById_def split: option.splits)

lemma view_row [simp]:
  "ca_id (cv_row (mapCampaignRow db c)) = ca_id c" "ca_status (cv_row (mapCampaignRow db c)) = ca_status c"
  "ca_flowId (cv_row (mapCampaignRow db c)) = ca_flowId c" "ca_trunkId (cv_row (mapCampaignRow db c)) = ca_trunkId c"
  "ca_scheduledAt (cv_row (mapCampaignRow db c)) = ca_scheduledAt c"
  "ca_totalContacts (cv_row (mapCampaignRow db c)) = ca_totalContacts c"
  "ca_maxConcurrent (cv_row (mapCampaignRow db c)) = ca_maxConcurrent c"
  "ca_maxRetries (cv_row (mapCampaignRow db c)) = ca_maxRetries c"
  "ca_retryIntervalMinutes (cv_row (mapCampaignRow db c)) = ca_retryIntervalMinutes c"
  by (simp_all add: mapCampaignRow_def Let_def)

lemma set_campaign_simps [simp]:
  "cd_contacts (set_campaign i f db) = cd_contacts db" "cd_attempts (set_campaign i f db) = cd_attempts db"
  "cd_flows (set_campaign i f db) = cd_flows db" "cd_trunks (set_campaign i f db) = cd_trunks db"
  "cd_nextCampaign (set_campaign i f db) = cd_nextCampaign db" "cd_nextContact (set_campaign i f db) = cd_nextContact db"
  "cd_nextAttempt (set_campaign i f db) = cd_nextAttempt db" "cd_sent (set_campaign i f db) = cd_sent db"
  "campaign_contacts (set_campaign i f db) j = campaign_contacts db j"
  by (simp_all add: set_campaign_def campaign_contacts_def)

text \<open>The view writes the country in capitals, as it is stored.\<close>

lemma view_country: "country_code (ca_defaultCountry c) \<Longrightarrow> ca_defaultCountry (cv_row (mapCampaignRow db c)) = ca_defaultCountry c"
  by (auto simp: mapCampaignRow_def Let_def country_code_def list_all_iff is_upper_def to_upper_def intro!: map_idI)

text \<open>An update of one campaign that keeps its identity and its number of contacts.\<close>

definition keeps_row :: "campaign_db \<Rightarrow> campaign \<Rightarrow> campaign \<Rightarrow> bool" where
  "keeps_row db c c' \<longleftrightarrow> ca_id c' = ca_id c \<and> ca_totalContacts c' = ca_totalContacts c \<and> (campaign_row_ok c \<longrightarrow> campaign_row_ok c')
     \<and> (set_option (ca_flowId c) \<subseteq> fst ` set (cd_flows db) \<longrightarrow> set_option (ca_flowId c') \<subseteq> fst ` set (cd_flows db))
     \<and> (set_option (ca_trunkId c) \<subseteq> fst ` set (cd_trunks db) \<longrightarrow> set_option (ca_trunkId c') \<subseteq> fst ` set (cd_trunks db))"

lemma set_campaign_ids:
  assumes "\<And>c. c \<in> set (cd_campaigns db) \<Longrightarrow> ca_id c = i \<Longrightarrow> ca_id (f c) = i"
  shows "map ca_id (cd_campaigns (set_campaign i f db)) = map ca_id (cd_campaigns db)"
  using assms by (auto simp: set_campaign_def)

lemma set_campaign_inv:
  assumes "campaign_inv db" and k: "\<And>c. c \<in> set (cd_campaigns db) \<Longrightarrow> ca_id c = i \<Longrightarrow> keeps_row db c (f c)"
  shows "campaign_inv (set_campaign i f db)"
proof -
  have ids: "map ca_id (cd_campaigns (set_campaign i f db)) = map ca_id (cd_campaigns db)"
    by (rule set_campaign_ids) (use k in \<open>auto simp: keeps_row_def\<close>)
  then have ids': "ca_id ` set (cd_campaigns (set_campaign i f db)) = ca_id ` set (cd_campaigns db)"
    by (metis set_map)
  have rows: "\<exists>c \<in> set (cd_campaigns db). c' = c \<or> keeps_row db c c'" if "c' \<in> set (cd_campaigns (set_campaign i f db))" for c'
    using that k by (force simp: set_campaign_def)
  have "campaigns_ok (set_campaign i f db)"
    using assms(1) ids rows unfolding campaign_inv_def campaigns_ok_def by (fastforce simp: keeps_row_def)
  moreover have "contacts_ok (set_campaign i f db)"
    using assms(1) ids' by (simp add: campaign_inv_def contacts_ok_def)
  moreover have "totals_ok (set_campaign i f db)"
    using assms(1) rows unfolding campaign_inv_def totals_ok_def by (fastforce simp: keeps_row_def)
  moreover have "attempts_ok (set_campaign i f db)"
    using assms(1) ids' by (simp add: campaign_inv_def attempts_ok_def)
  ultimately show ?thesis by (simp add: campaign_inv_def)
qed

lemma keeps_status: "st \<in> campaign_statuses \<Longrightarrow> keeps_row db c (c\<lparr>ca_status := st\<rparr>)"
  by (simp add: keeps_row_def campaign_row_ok_def)

lemma set_status_inv: "campaign_inv db \<Longrightarrow> st \<in> campaign_statuses \<Longrightarrow> campaign_inv (set_status i st db)"
  unfolding set_status_def by (rule set_campaign_inv) (simp_all add: keeps_status)

lemma publish_inv: "campaign_inv (publish_backend m db) \<longleftrightarrow> campaign_inv db"
  by (simp add: campaign_inv_def campaigns_ok_def contacts_ok_def totals_ok_def attempts_ok_def campaign_contacts_def publish_backend_def)

section \<open>Normalized payloads\<close>

lemma num_of_int_exponent:
  obtains m e where "num_of_int i = Dec m e" "0 \<le> e" "i = m * 10 ^ nat e"
  using norm_dec_form [of i 0] by (auto simp: num_of_int_def)

text \<open>A common exponent does not change a comparison.\<close>

lemma scaled_le:
  assumes "0 \<le> k" "k \<le> b" "k \<le> e"
  shows "a * 10 ^ nat (b - k) \<le> m * 10 ^ nat (e - k) \<longleftrightarrow> a * 10 ^ nat b \<le> (m :: int) * 10 ^ nat e"
proof -
  have "nat b = nat (b - k) + nat k" "nat e = nat (e - k) + nat k" using assms by auto
  then have "a * 10 ^ nat b = (a * 10 ^ nat (b - k)) * 10 ^ nat k" "m * 10 ^ nat e = (m * 10 ^ nat (e - k)) * 10 ^ nat k"
    by (simp_all add: power_add)
  moreover have "(0 :: int) < 10 ^ nat k" by simp
  ultimately show ?thesis by (metis mult_le_cancel_right_pos)
qed

lemma le_quotient:
  assumes "0 < (q :: int)"
  shows "x \<le> m div q \<longleftrightarrow> x * q \<le> m"
proof
  assume "x \<le> m div q"
  then have "x * q \<le> (m div q) * q" using assms by simp
  also have "\<dots> \<le> m" using assms by (simp add: minus_mod_eq_div_mult [symmetric])
  finally show "x * q \<le> m" .
next
  assume "x * q \<le> m"
  then show "x \<le> m div q" using zdiv_mono1 [of "x * q" m q] assms by simp
qed

lemma num_floor_bounds:
  assumes "num_finite x"
  shows "num_le (num_of_int low) x \<longleftrightarrow> low \<le> num_floor x" and "num_le x (num_of_int high) \<Longrightarrow> num_floor x \<le> high"
proof -
  obtain m e where x: "x = Dec m e" using assms by (cases x) auto
  obtain a b where l: "num_of_int low = Dec a b" "0 \<le> b" "low = a * 10 ^ nat b" by (rule num_of_int_exponent)
  obtain c d where h: "num_of_int high = Dec c d" "0 \<le> d" "high = c * 10 ^ nat d" by (rule num_of_int_exponent)
  have "(num_le (Dec a b) x \<longleftrightarrow> low \<le> num_floor x) \<and> (num_le x (Dec c d) \<longrightarrow> num_floor x \<le> high)"
  proof (cases "0 \<le> e")
    case True
    then show ?thesis using scaled_le [of "min b e" b e a m] scaled_le [of "min e d" e d m c] l h
      by (simp add: x num_floor_def Let_def)
  next
    case False
    have split: "(10 :: int) ^ nat (f - e) = 10 ^ nat f * 10 ^ nat (- e)" if "0 \<le> f" for f
      using that False by (simp add: power_add [symmetric] nat_add_distrib [symmetric])
    have "(0 :: int) < 10 ^ nat (- e)" by simp
    then have "low * 10 ^ nat (- e) \<le> m \<longleftrightarrow> low \<le> m div 10 ^ nat (- e)"
      "m \<le> high * 10 ^ nat (- e) \<longrightarrow> m div 10 ^ nat (- e) \<le> high"
      using zdiv_mono1 [of m "high * 10 ^ nat (- e)" "10 ^ nat (- e)"] by (simp_all add: le_quotient)
    moreover have "min b e = e" "min e d = e" using False l(2) h(2) by simp_all
    ultimately show ?thesis using False l h split [of b] split [of d] by (simp add: x num_floor_def Let_def mult.assoc)
  qed
  then show "num_le (num_of_int low) x \<longleftrightarrow> low \<le> num_floor x" "num_le x (num_of_int high) \<Longrightarrow> num_floor x \<le> high"
    using l(1) h(1) by simp_all
qed


lemma bounded_field_range:
  assumes "bounded_field partial v fallback low high msg = ok r"
  shows "r = None \<and> partial \<or> (\<exists>i. r = Some i \<and> low \<le> i \<and> (\<forall>h \<in> set_option high. i \<le> h))"
  using assms num_floor_bounds
  by (cases high) (auto simp: bounded_field_def Let_def split: if_splits)

text \<open>The fields that \<open>normalizePayload\<close> checks, where it lets them be absent.\<close>

definition payload_ok :: "bool \<Rightarrow> normalized_payload \<Rightarrow> bool" where
  "payload_ok partial q \<longleftrightarrow> (partial \<or> None \<notin> {no_name q, no_defaultCountry q}
       \<and> None \<notin> {no_maxConcurrent q, no_maxRetries q, no_retryIntervalMinutes q})
     \<and> (\<forall>n \<in> set_option (no_name q). n \<noteq> []) \<and> (\<forall>c \<in> set_option (no_defaultCountry q). country_code c)
     \<and> (\<forall>i \<in> set_option (no_maxConcurrent q). 1 \<le> i \<and> i \<le> 10) \<and> (\<forall>i \<in> set_option (no_maxRetries q). 0 \<le> i \<and> i \<le> 5)
     \<and> (\<forall>i \<in> set_option (no_retryIntervalMinutes q). 5 \<le> i)"

lemma normalized_name_ok: "normalized_name partial v = ok r \<Longrightarrow> r = None \<and> partial \<or> (\<exists>n. r = Some n \<and> n \<noteq> [])"
  by (auto simp: normalized_name_def Let_def split: if_splits)

lemma normalized_country_ok: "normalized_country partial v = ok r \<Longrightarrow> r = None \<and> partial \<or> (\<exists>c. r = Some c \<and> country_code c)"
  by (auto simp: normalized_country_def Let_def split: if_splits)

lemma normalizePayload_ok: "normalizePayload p partial = ok q \<Longrightarrow> payload_ok partial q"
  unfolding normalizePayload_def
  by (auto simp: payload_ok_def dest!: bounded_field_range normalized_name_ok normalized_country_ok)

section \<open>Creating and updating\<close>

lemma int4_ok [simp]: "int4 i = ok j \<longleftrightarrow> j = i \<and> - (2 ^ 31) \<le> i \<and> i < 2 ^ 31"
  by (auto simp: int4_def)

lemma reference_column_ok: "reference_column ids v = ok i \<Longrightarrow> set_option i \<subseteq> set ids"
  by (auto simp: reference_column_def throw_if_def split: if_splits)

lemma insert_campaign_inv:
  assumes "campaign_inv db" "payload_ok False q" "insert_campaign tz now q db = ok (i, db')"
  shows "campaign_inv db' \<and> i = cd_nextCampaign db \<and> cd_nextCampaign db' = i + 1
    \<and> (\<exists>c. cd_campaigns db' = cd_campaigns db @ [c] \<and> ca_id c = i \<and> ca_status c = ''draft'') \<and> cd_sent db' = cd_sent db"
proof -
  obtain c where c: "db' = db\<lparr>cd_nextCampaign := cd_nextCampaign db + 1, cd_campaigns := cd_campaigns db @ [c]\<rparr>"
      "i = cd_nextCampaign db" "ca_id c = i" "ca_status c = ''draft''" "ca_totalContacts c = 0"
      "ca_name c = the (no_name q)" "ca_defaultCountry c = the (no_defaultCountry q)" "ca_maxConcurrent c = the (no_maxConcurrent q)"
      "ca_maxRetries c = the (no_maxRetries q)" "ca_retryIntervalMinutes c = the (no_retryIntervalMinutes q)"
      "ca_retryIntervalMinutes c < 2 ^ 31"
      "set_option (ca_flowId c) \<subseteq> fst ` set (cd_flows db)" "set_option (ca_trunkId c) \<subseteq> fst ` set (cd_trunks db)"
    using assms(3) unfolding insert_campaign_def by (auto dest!: reference_column_ok)
  have row: "campaign_row_ok c"
    using c assms(1,2) by (auto simp: campaign_row_ok_def payload_ok_def campaign_statuses_def campaign_inv_def campaigns_ok_def)
  have "campaigns_ok db'" using assms(1) c row by (force simp: campaign_inv_def campaigns_ok_def)
  moreover have "campaign_contacts db i = []"
    using assms(1) c(2) by (fastforce simp: campaign_inv_def contacts_ok_def campaigns_ok_def campaign_contacts_def filter_empty_conv)
  then have "totals_ok db'" using assms(1) c by (fastforce simp: campaign_inv_def totals_ok_def campaign_contacts_def)
  moreover have "contacts_ok db'" using assms(1) c by (fastforce simp: campaign_inv_def contacts_ok_def campaign_contacts_def)
  moreover have "attempts_ok db'" using assms(1) c by (fastforce simp: campaign_inv_def attempts_ok_def)
  ultimately show ?thesis using c by (auto simp: campaign_inv_def)
qed

lemma tryAutoSchedule_inv: "campaign_inv db \<Longrightarrow> tryAutoSchedule now i db = ok db' \<Longrightarrow> campaign_inv db'"
  unfolding tryAutoSchedule_def
  by (auto simp: keeps_row_def campaign_row_ok_def campaign_statuses_def intro!: set_campaign_inv split: if_splits)

lemma updated_row_keeps:
  assumes "payload_ok True q" "updated_row tz db q c = ok c'"
  shows "keeps_row db c c'"
proof -
  obtain f t n where cols: "(case no_flowId q of None \<Rightarrow> ok (ca_flowId c) | Some v \<Rightarrow> reference_column (map fst (cd_flows db)) v) = ok f"
      "(case no_trunkId q of None \<Rightarrow> ok (ca_trunkId c) | Some v \<Rightarrow> reference_column (map fst (cd_trunks db)) v) = ok t"
      "(case no_retryIntervalMinutes q of None \<Rightarrow> ok (ca_retryIntervalMinutes c) | Some v \<Rightarrow> int4 v) = ok n"
    and c': "ca_id c' = ca_id c" "ca_status c' = ca_status c" "ca_totalContacts c' = ca_totalContacts c" "ca_flowId c' = f" "ca_trunkId c' = t"
      "ca_retryIntervalMinutes c' = n" "ca_name c' = case_option (ca_name c) id (no_name q)"
      "ca_defaultCountry c' = case_option (ca_defaultCountry c) id (no_defaultCountry q)"
      "ca_maxConcurrent c' = case_option (ca_maxConcurrent c) id (no_maxConcurrent q)"
      "ca_maxRetries c' = case_option (ca_maxRetries c) id (no_maxRetries q)"
    using assms(2) unfolding updated_row_def by (simp only: bind_result_eq_Inr sum.inject) force
  have "f = ca_flowId c \<or> set_option f \<subseteq> fst ` set (cd_flows db)"
    using cols(1) by (cases "no_flowId q") (auto dest!: reference_column_ok)
  moreover have "t = ca_trunkId c \<or> set_option t \<subseteq> fst ` set (cd_trunks db)"
    using cols(2) by (cases "no_trunkId q") (auto dest!: reference_column_ok)
  moreover have interval: "n = ca_retryIntervalMinutes c \<or> 5 \<le> n \<and> n < 2 ^ 31"
    using cols(3) assms(1) by (cases "no_retryIntervalMinutes q") (auto simp: payload_ok_def)
  moreover have "campaign_row_ok c'" if ok: "campaign_row_ok c"
  proof -
    have "ca_name c' \<noteq> []" using assms(1) ok by (cases "no_name q") (auto simp: c' payload_ok_def campaign_row_ok_def)
    moreover have "country_code (ca_defaultCountry c')"
      using assms(1) ok by (cases "no_defaultCountry q") (auto simp: c' payload_ok_def campaign_row_ok_def)
    moreover have "1 \<le> ca_maxConcurrent c' \<and> ca_maxConcurrent c' \<le> 10"
      using assms(1) ok by (cases "no_maxConcurrent q") (auto simp: c' payload_ok_def campaign_row_ok_def)
    moreover have "0 \<le> ca_maxRetries c' \<and> ca_maxRetries c' \<le> 5"
      using assms(1) ok by (cases "no_maxRetries q") (auto simp: c' payload_ok_def campaign_row_ok_def)
    moreover note interval
    ultimately show ?thesis using ok c' by (auto simp: campaign_row_ok_def)
  qed
  ultimately show ?thesis using c' unfolding keeps_row_def by metis
qed

lemma updated_row_same: "updated_row tz db q c = ok c' \<Longrightarrow> ca_id c' = ca_id c \<and> ca_status c' = ca_status c"
  unfolding updated_row_def by auto


lemma campaign_create_inv: "campaign_inv db \<Longrightarrow> create_campaign tz now p db = ok (v, db') \<Longrightarrow> campaign_inv db'"
  unfolding create_campaign_def
  by (auto split: prod.splits dest!: normalizePayload_ok dest: insert_campaign_inv tryAutoSchedule_inv)

lemma update_row_inv:
  assumes "campaign_inv db" "find_campaign db i = Some c" "keeps_row db c c'"
  shows "campaign_inv (set_campaign i (\<lambda>_. c') db)"
proof (rule set_campaign_inv [OF assms(1)])
  fix d assume "d \<in> set (cd_campaigns db)" "ca_id d = i"
  moreover have "inj_on ca_id (set (cd_campaigns db))" using assms(1) by (simp add: campaign_inv_def campaigns_ok_def distinct_map)
  ultimately have "d = c" using find_campaign_Some [OF assms(2)] by (auto dest: inj_onD)
  then show "keeps_row db d c'" using assms(3) by simp
qed

lemma campaign_update_inv:
  assumes "campaign_inv db" "update_campaign tz now i p db = ok (v, db')"
  shows "campaign_inv db'"
proof -
  obtain c q c' where c: "find_campaign db i = Some c" "normalizePayload p True = ok q" "updated_row tz db q c = ok c'"
      and "tryAutoSchedule now i (set_campaign i (\<lambda>_. c') db) = ok db'"
    using assms(2) unfolding update_campaign_def by (auto simp: getById_ok split: if_splits option.splits)
  moreover have "campaign_inv (set_campaign i (\<lambda>_. c') db)"
    using update_row_inv [OF assms(1) c(1)] updated_row_keeps [OF normalizePayload_ok [OF c(2)] c(3)] by blast
  ultimately show ?thesis using tryAutoSchedule_inv by blast
qed

lemma campaign_remove_inv:
  assumes "campaign_inv db" "remove_campaign i db = ok db'"
  shows "campaign_inv db'"
proof -
  have d: "db' = db\<lparr>cd_campaigns := filter (\<lambda>c. ca_id c \<noteq> i) (cd_campaigns db),
       cd_contacts := filter (\<lambda>c. cc_campaignId c \<noteq> i) (cd_contacts db),
       cd_attempts := filter (\<lambda>a. at_campaignId a \<noteq> i
         \<and> \<not> list_ex (\<lambda>c. cc_id c = at_contactId a \<and> cc_campaignId c = i) (cd_contacts db)) (cd_attempts db)\<rparr>"
    using assms(2) by (auto simp: remove_campaign_def split: if_splits)
  have cc: "campaign_contacts db' j = (if j = i then [] else campaign_contacts db j)" for j
    by (auto simp: d campaign_contacts_def filter_empty_conv intro: filter_cong)
  have "campaigns_ok db'" using assms(1) by (auto simp: campaign_inv_def campaigns_ok_def d distinct_map inj_on_def)
  moreover have "contacts_ok db'"
    using assms(1) by (auto simp: campaign_inv_def contacts_ok_def cc) (auto simp: d distinct_map inj_on_def)
  moreover have "totals_ok db'" using assms(1) by (auto simp: campaign_inv_def totals_ok_def cc) (auto simp: d)
  moreover have "attempts_ok db'"
    using assms(1) by (auto simp: campaign_inv_def attempts_ok_def d distinct_map inj_on_def list_ex_iff)
  ultimately show ?thesis by (simp add: campaign_inv_def)
qed


section \<open>Importing contacts\<close>

definition row_number :: "phone_lib \<Rightarrow> string \<Rightarrow> csv_row \<Rightarrow> string option" where
  "row_number lib country row = normalizePhoneNumber lib (trim (row_value row ''phone_number'')) country"

lemma normalizePhoneNumber_trimmed: "e164 lib \<Longrightarrow> normalizePhoneNumber lib raw country = Some n \<Longrightarrow> trim n = n"
  by (auto simp: normalizePhoneNumber_def Let_def e164_def split: if_splits option.splits)

lemma addSkipReason_simps [simp]:
  "is_db (addSkipReason r st) = is_db st" "is_seen (addSkipReason r st) = is_seen st"
  "is_imported (addSkipReason r st) = is_imported st" "is_skipped (addSkipReason r st) = Suc (is_skipped st)"
  by (simp_all add: addSkipReason_def)

text \<open>A row is skipped, when it has no number or a number seen before, or its contact is inserted.\<close>

lemma import_row_cases:
  obtains (skip) r where "import_row lib i country row st = addSkipReason r st"
      "\<And>n. row_number lib country row = Some n \<Longrightarrow> n = [] \<or> n \<in> set (is_seen st)"
  | (insert) n where "row_number lib country row = Some n" "n \<noteq> []" "n \<notin> set (is_seen st)"
      "import_row lib i country row st = st\<lparr>is_db := insert_contact i n (trim (row_value row ''name'')) (is_db st),
         is_seen := n # is_seen st, is_imported := Suc (is_imported st)\<rparr>"
proof (cases "trim (row_value row ''phone_number'') = []")
  case True
  moreover have "trim [] = []" by (simp add: trim_def)
  ultimately have "row_number lib country row = None" by (simp add: row_number_def normalizePhoneNumber_def)
  with True show thesis by (intro skip) (auto simp: import_row_def Let_def)
next
  case False
  show thesis
  proof (cases "row_number lib country row")
    case None
    with False show thesis by (intro skip) (auto simp: import_row_def Let_def row_number_def)
  next
    case (Some n)
    show thesis
    proof (cases "n = [] \<or> n \<in> set (is_seen st)")
      case True
      with Some False show thesis
        by (cases "n = []") (auto intro!: skip simp: import_row_def Let_def row_number_def)
    next
      case n: False
      with Some False show thesis by (intro insert [OF Some]) (auto simp: import_row_def Let_def row_number_def)
    qed
  qed
qed

lemma insert_contact_simps [simp]:
  "cd_campaigns (insert_contact i n name db) = cd_campaigns db" "cd_attempts (insert_contact i n name db) = cd_attempts db"
  "cd_flows (insert_contact i n name db) = cd_flows db" "cd_trunks (insert_contact i n name db) = cd_trunks db"
  "cd_nextCampaign (insert_contact i n name db) = cd_nextCampaign db" "cd_sent (insert_contact i n name db) = cd_sent db"
  "cd_nextAttempt (insert_contact i n name db) = cd_nextAttempt db"
  by (simp_all add: insert_contact_def)

lemma insert_contact_contacts:
  "cc_phoneNumber ` set (campaign_contacts (insert_contact i n name db) j)
     = (if j = i then {n} else {}) \<union> cc_phoneNumber ` set (campaign_contacts db j)"
  by (auto simp: insert_contact_def campaign_contacts_def)

text \<open>What holds between the rows of the loop.\<close>

definition import_inv :: "int \<Rightarrow> campaign_db \<Rightarrow> import_state \<Rightarrow> bool" where
  "import_inv i db st \<longleftrightarrow> contacts_ok (is_db st) \<and> attempts_ok (is_db st) \<and> cd_campaigns (is_db st) = cd_campaigns db
     \<and> cd_flows (is_db st) = cd_flows db \<and> cd_trunks (is_db st) = cd_trunks db
     \<and> cd_nextCampaign (is_db st) = cd_nextCampaign db \<and> cd_sent (is_db st) = cd_sent db
     \<and> (\<exists>new. cd_contacts (is_db st) = cd_contacts db @ new \<and> length new = is_imported st
          \<and> (\<forall>x \<in> set new. cc_campaignId x = i \<and> cc_status x = ''pending'' \<and> cc_attempts x = 0))
     \<and> set (is_seen st) = cc_phoneNumber ` set (campaign_contacts (is_db st) i)"

lemma insert_contact_ok:
  assumes "contacts_ok db" "i \<in> ca_id ` set (cd_campaigns db)" "n \<noteq> []" "trim n = n"
    "n \<notin> cc_phoneNumber ` set (campaign_contacts db i)"
  shows "contacts_ok (insert_contact i n name db)"
  using assms by (fastforce simp: contacts_ok_def insert_contact_def campaign_contacts_def)

lemma import_row_inv:
  assumes "e164 lib" "i \<in> ca_id ` set (cd_campaigns db)" "import_inv i db st"
  shows "import_inv i db (import_row lib i country row st)"
proof (cases rule: import_row_cases [of lib i country row st])
  case (skip r)
  then show ?thesis using assms(3) by (simp add: import_inv_def)
next
  case (insert n)
  have "contacts_ok (insert_contact i n (trim (row_value row ''name'')) (is_db st))"
    by (rule insert_contact_ok) (use assms insert normalizePhoneNumber_trimmed in \<open>auto simp: import_inv_def row_number_def\<close>)
  moreover have "attempts_ok (insert_contact i n (trim (row_value row ''name'')) (is_db st))"
    using assms(3) by (fastforce simp: import_inv_def attempts_ok_def insert_contact_def)
  ultimately show ?thesis using assms(3) unfolding insert(4) import_inv_def
    by (auto simp: insert_contact_contacts) (auto simp: insert_contact_def)
qed

lemma import_row_seen:
  "(\<forall>n. row_number lib country row = Some n \<longrightarrow> n \<noteq> [] \<longrightarrow> n \<in> set (is_seen (import_row lib i country row st)))
    \<and> set (is_seen st) \<subseteq> set (is_seen (import_row lib i country row st))
    \<and> is_imported (import_row lib i country row st) + is_skipped (import_row lib i country row st) = Suc (is_imported st + is_skipped st)"
  by (cases rule: import_row_cases [of lib i country row st]) auto

lemma import_rows:
  assumes "e164 lib" "i \<in> ca_id ` set (cd_campaigns db)" "import_inv i db st" "fold (import_row lib i country) rows st = fin"
  shows "import_inv i db fin \<and> is_imported fin + is_skipped fin = is_imported st + is_skipped st + length rows
    \<and> set (is_seen st) \<subseteq> set (is_seen fin)
    \<and> (\<forall>row \<in> set rows. \<forall>n. row_number lib country row = Some n \<longrightarrow> n \<noteq> [] \<longrightarrow> n \<in> set (is_seen fin))"
  using assms(3,4)
proof (induction rows arbitrary: st)
  case (Cons row rows)
  from Cons.IH [OF import_row_inv [OF assms(1,2) Cons.prems(1), of country row]] Cons.prems(2)
  show ?case using import_row_seen [of lib country row i st] by (auto 4 3)
qed simp

text \<open>The list of reasons: at most ten, and one that counts the others.\<close>

lemma import_row_reasons:
  "length (is_reasons st) = min 10 (is_skipped st) \<Longrightarrow>
    length (is_reasons (import_row lib i country row st)) = min 10 (is_skipped (import_row lib i country row st))"
  by (cases rule: import_row_cases [of lib i country row st]) (auto simp: addSkipReason_def)

lemma import_rows_reasons:
  "length (is_reasons st) = min 10 (is_skipped st) \<Longrightarrow>
    length (is_reasons (fold (import_row lib i country) rows st)) = min 10 (is_skipped (fold (import_row lib i country) rows st))"
  by (induction rows arbitrary: st) (simp_all add: import_row_reasons)

definition first_import :: "int \<Rightarrow> campaign_db \<Rightarrow> import_state" where
  "first_import i db =
     \<lparr>is_db = db, is_seen = filter (\<lambda>n. n \<noteq> []) (map (\<lambda>c. trim (cc_phoneNumber c)) (campaign_contacts db i)),
      is_imported = 0, is_skipped = 0, is_reasons = []\<rparr>"

lemma first_import_inv:
  assumes "campaign_inv db"
  shows "import_inv i db (first_import i db)"
proof -
  have "trim (cc_phoneNumber c) = cc_phoneNumber c \<and> cc_phoneNumber c \<noteq> []" if "c \<in> set (campaign_contacts db i)" for c
    using assms that by (simp add: campaign_inv_def contacts_ok_def campaign_contacts_def)
  then have "set (is_seen (first_import i db)) = cc_phoneNumber ` set (campaign_contacts db i)"
    by (force simp: first_import_def)
  then show ?thesis using assms by (simp add: import_inv_def campaign_inv_def first_import_def)
qed

lemma upload_cases:
  assumes "uploadContacts lib i input db = ok (ans, db')"
  obtains c fin where "find_campaign db i = Some c"
    "fold (import_row lib i (ca_defaultCountry (cv_row (mapCampaignRow db c)))) (snd (parseCsv input)) (first_import i db) = fin"
    "''phone_number'' \<in> set (fst (parseCsv input))"
    "ua_imported ans = is_imported fin" "ua_skipped ans = is_skipped fin" "ua_total ans = is_imported fin + is_skipped fin"
    "ua_reasons ans = is_reasons fin @ (if length (is_reasons fin) < is_skipped fin
       then [''... and '' @ show_nat (is_skipped fin - length (is_reasons fin)) @ '' more''] else [])"
    "db' = set_campaign i (\<lambda>c. c\<lparr>ca_totalContacts := int (length (campaign_contacts (is_db fin) i))\<rparr>) (is_db fin)"
proof -
  obtain v where v: "getById db i = ok v" using assms by (auto simp: uploadContacts_def)
  then obtain c where c: "find_campaign db i = Some c" "v = mapCampaignRow db c" by (auto simp: getById_ok)
  obtain headers rows where h: "parseCsv input = (headers, rows)" by (metis prod.exhaust)
  show thesis
    by (rule that [OF c(1) refl]) (use assms v c(2) h in \<open>auto simp: uploadContacts_def Let_def first_import_def split: if_splits\<close>)
qed

lemma total_inv:
  assumes "campaign_inv db" "contacts_ok db1" "attempts_ok db1" "cd_campaigns db1 = cd_campaigns db" "cd_flows db1 = cd_flows db"
    "cd_trunks db1 = cd_trunks db" "cd_nextCampaign db1 = cd_nextCampaign db"
    "\<And>j. j \<noteq> i \<Longrightarrow> campaign_contacts db1 j = campaign_contacts db j"
  shows "campaign_inv (set_campaign i (\<lambda>c. c\<lparr>ca_totalContacts := int (length (campaign_contacts db1 i))\<rparr>) db1)"
    (is "campaign_inv (set_campaign i ?f db1)")
proof -
  have ids: "map ca_id (cd_campaigns (set_campaign i ?f db1)) = map ca_id (cd_campaigns db1)" by (rule set_campaign_ids) simp
  then have ids': "ca_id ` set (cd_campaigns (set_campaign i ?f db1)) = ca_id ` set (cd_campaigns db1)" by (metis set_map)
  have rows: "cd_campaigns (set_campaign i ?f db1) = map (\<lambda>c. if ca_id c = i then ?f c else c) (cd_campaigns db)"
    using assms(4) by (simp add: set_campaign_def)
  have row: "campaign_row_ok (?f c) = campaign_row_ok c" for c by (simp add: campaign_row_ok_def)
  have "distinct (map ca_id (cd_campaigns (set_campaign i ?f db1)))"
    using ids assms(1,4) by (simp add: campaign_inv_def campaigns_ok_def)
  moreover have "\<forall>c \<in> set (cd_campaigns (set_campaign i ?f db1)). campaign_row_ok c \<and> ca_id c < cd_nextCampaign db
      \<and> set_option (ca_flowId c) \<subseteq> fst ` set (cd_flows db) \<and> set_option (ca_trunkId c) \<subseteq> fst ` set (cd_trunks db)"
    unfolding rows using assms(1) row by (auto simp: campaign_inv_def campaigns_ok_def)
  ultimately have "campaigns_ok (set_campaign i ?f db1)"
    using assms(1,5-7) by (simp add: campaign_inv_def campaigns_ok_def)
  moreover have "contacts_ok (set_campaign i ?f db1)" using assms(2) ids' by (simp add: contacts_ok_def)
  moreover have "attempts_ok (set_campaign i ?f db1)" using assms(3) ids' by (simp add: attempts_ok_def)
  moreover have "totals_ok (set_campaign i ?f db1)"
    using assms(1,8) unfolding campaign_inv_def totals_ok_def rows by auto
  ultimately show ?thesis by (simp add: campaign_inv_def)
qed

lemma upload_inv:
  assumes "campaign_inv db" "e164 lib" "uploadContacts lib i input db = ok (ans, db')"
  shows "campaign_inv db'"
  using assms(3)
proof (rule upload_cases)
  fix c fin assume c: "find_campaign db i = Some c"
    "fold (import_row lib i (ca_defaultCountry (cv_row (mapCampaignRow db c)))) (snd (parseCsv input)) (first_import i db) = fin"
    and db': "db' = set_campaign i (\<lambda>c. c\<lparr>ca_totalContacts := int (length (campaign_contacts (is_db fin) i))\<rparr>) (is_db fin)"
  have "i \<in> ca_id ` set (cd_campaigns db)" using find_campaign_Some [OF c(1)] by force
  from import_rows [OF assms(2) this first_import_inv [OF assms(1)] c(2)] have "import_inv i db fin" by simp
  then obtain new where inv: "contacts_ok (is_db fin)" "attempts_ok (is_db fin)" "cd_campaigns (is_db fin) = cd_campaigns db"
      "cd_flows (is_db fin) = cd_flows db" "cd_trunks (is_db fin) = cd_trunks db" "cd_nextCampaign (is_db fin) = cd_nextCampaign db"
      and new: "cd_contacts (is_db fin) = cd_contacts db @ new" "\<forall>x \<in> set new. cc_campaignId x = i"
    unfolding import_inv_def by blast
  have "campaign_contacts (is_db fin) j = campaign_contacts db j" if "j \<noteq> i" for j
    using new that by (simp add: campaign_contacts_def filter_empty_conv)
  from total_inv [OF assms(1) inv this] show ?thesis unfolding db' .
qed


section \<open>Schedules and messages\<close>

lemma schedule_inv: "campaign_inv db \<Longrightarrow> schedule_campaign now i db = ok (v, db') \<Longrightarrow> campaign_inv db'"
  by (auto simp: schedule_campaign_def Let_def set_status_inv campaign_statuses_def split: if_splits option.splits)

lemma stop_inv: "campaign_inv db \<Longrightarrow> stop_campaign i db = ok (v, db') \<Longrightarrow> campaign_inv db'"
  by (auto simp: stop_campaign_def Let_def set_status_inv publish_inv campaign_statuses_def split: if_splits)

lemma stop_fallback_inv: "campaign_inv db \<Longrightarrow> campaign_inv (stop_fallback i db)"
  by (auto simp: stop_fallback_def set_status_inv campaign_statuses_def split: option.split)

lemma start_campaign_row_inv: "campaign_inv db \<Longrightarrow> campaign_inv (start_campaign_row i db)"
  unfolding start_campaign_row_def publish_inv
  by (rule set_campaign_inv) (auto simp: keeps_row_def campaign_row_ok_def campaign_statuses_def)

lemma start_rows_inv: "campaign_inv db \<Longrightarrow> campaign_inv (fold start_campaign_row ids db)"
  by (induction ids arbitrary: db) (simp_all add: start_campaign_row_inv)

lemma stats_inv: "campaign_inv db \<Longrightarrow> campaign_inv (handleCampaignStats i d a f db)"
  unfolding handleCampaignStats_def by (rule set_campaign_inv) (simp_all add: keeps_row_def campaign_row_ok_def)

lemma set_contact_simps [simp]:
  "cd_campaigns (set_contact c i f db) = cd_campaigns db" "cd_attempts (set_contact c i f db) = cd_attempts db"
  "cd_flows (set_contact c i f db) = cd_flows db" "cd_trunks (set_contact c i f db) = cd_trunks db"
  "cd_nextCampaign (set_contact c i f db) = cd_nextCampaign db" "cd_nextContact (set_contact c i f db) = cd_nextContact db"
  "cd_nextAttempt (set_contact c i f db) = cd_nextAttempt db" "cd_sent (set_contact c i f db) = cd_sent db"
  "cd_callLogs (set_contact c i f db) = cd_callLogs db"
  by (simp_all add: set_contact_def)

lemma set_contact_inv:
  assumes "campaign_inv db" and f: "\<And>x. cc_id (f x) = cc_id x" "\<And>x. cc_campaignId (f x) = cc_campaignId x" "\<And>x. cc_phoneNumber (f x) = cc_phoneNumber x"
  shows "campaign_inv (set_contact c i f db)"
proof -
  let ?g = "\<lambda>x. if cc_id x = c \<and> cc_campaignId x = i then f x else x"
  have rows: "cd_contacts (set_contact c i f db) = map ?g (cd_contacts db)" by (simp add: set_contact_def)
  have same: "cc_id (?g x) = cc_id x" "cc_campaignId (?g x) = cc_campaignId x" "cc_phoneNumber (?g x) = cc_phoneNumber x" for x
    using f by simp_all
  have ids: "map cc_id (cd_contacts (set_contact c i f db)) = map cc_id (cd_contacts db)" unfolding rows using same by simp
  then have ids': "cc_id ` set (cd_contacts (set_contact c i f db)) = cc_id ` set (cd_contacts db)" by (metis set_map)
  have cc: "campaign_contacts (set_contact c i f db) j = map ?g (campaign_contacts db j)" for j
    unfolding campaign_contacts_def rows filter_map using same(2) by (simp add: comp_def)
  have numbers: "map cc_phoneNumber (campaign_contacts (set_contact c i f db) j) = map cc_phoneNumber (campaign_contacts db j)" for j
    unfolding cc using same(3) by simp
  have "distinct (map cc_id (cd_contacts (set_contact c i f db)))"
    using assms(1) ids by (simp add: campaign_inv_def contacts_ok_def)
  moreover have "\<forall>x \<in> set (cd_contacts (set_contact c i f db)). cc_id x < cd_nextContact db \<and> cc_campaignId x \<in> ca_id ` set (cd_campaigns db)
      \<and> cc_phoneNumber x \<noteq> [] \<and> trim (cc_phoneNumber x) = cc_phoneNumber x"
    unfolding rows using assms(1) f by (auto simp: campaign_inv_def contacts_ok_def)
  ultimately have "contacts_ok (set_contact c i f db)"
    using assms(1) numbers by (simp add: campaign_inv_def contacts_ok_def)
  moreover have "campaigns_ok (set_contact c i f db)" using assms(1) by (simp add: campaign_inv_def campaigns_ok_def)
  moreover have "totals_ok (set_contact c i f db)" using assms(1) by (simp add: campaign_inv_def totals_ok_def cc)
  moreover have "attempts_ok (set_contact c i f db)" using assms(1) ids' by (simp add: campaign_inv_def attempts_ok_def)
  ultimately show ?thesis by (simp add: campaign_inv_def)
qed

lemma insert_attempt_inv:
  assumes "campaign_inv db" "list_ex (\<lambda>c. ca_id c = cu_campaignId p) (cd_campaigns db)" "list_ex (\<lambda>c. cc_id c = cu_contactId p) (cd_contacts db)"
  shows "campaign_inv (insert_attempt p db)"
proof -
  obtain a where a: "insert_attempt p db = db\<lparr>cd_nextAttempt := cd_nextAttempt db + 1, cd_attempts := cd_attempts db @ [a]\<rparr>"
      "at_id a = cd_nextAttempt db" "at_campaignId a = cu_campaignId p" "at_contactId a = cu_contactId p"
    by (auto simp: insert_attempt_def Let_def)
  have "attempts_ok (insert_attempt p db)"
    using assms unfolding a(1) by (auto simp: campaign_inv_def attempts_ok_def a(2-4) list_ex_iff image_iff eq_commute)
  moreover have "campaigns_ok (insert_attempt p db) \<and> contacts_ok (insert_attempt p db) \<and> totals_ok (insert_attempt p db)"
    using assms(1) unfolding a(1) by (simp add: campaign_inv_def campaigns_ok_def contacts_ok_def totals_ok_def campaign_contacts_def)
  ultimately show ?thesis by (simp add: campaign_inv_def)
qed

lemma contact_update_inv: "campaign_inv db \<Longrightarrow> campaign_inv (handleCampaignContactUpdate now p db)"
  unfolding handleCampaignContactUpdate_def Let_def
  by (auto intro!: set_contact_inv insert_attempt_inv)

theorem campaign_step_inv: "campaign_step lib db db' \<Longrightarrow> e164 lib \<Longrightarrow> campaign_inv db \<Longrightarrow> campaign_inv db'"
proof (induction rule: campaign_step.induct)
  case (step_due now db ids db')
  then show ?case using start_rows_inv by (auto simp: startDueCampaigns_def Let_def)
qed (fact campaign_create_inv campaign_update_inv campaign_remove_inv upload_inv schedule_inv stop_inv
  | simp add: stop_fallback_inv contact_update_inv stats_inv handleCampaignCompleted_def handleCampaignCancelled_def set_status_inv
      campaign_statuses_def
  | blast intro: campaign_create_inv campaign_update_inv campaign_remove_inv upload_inv schedule_inv stop_inv)+

definition campaign_runs :: "phone_lib \<Rightarrow> campaign_db \<Rightarrow> campaign_db \<Rightarrow> bool" where
  "campaign_runs lib = (campaign_step lib)\<^sup>*\<^sup>*"

lemma campaign_runs_inv:
  assumes "campaign_runs lib db db'" "e164 lib" "campaign_inv db"
  shows "campaign_inv db'"
  using assms(1) unfolding campaign_runs_def
  by (induction rule: rtranclp_induct) (use assms campaign_step_inv in blast)+


section \<open>The life of a campaign\<close>

text \<open>The states a campaign never leaves: once it is in one of them it is in one of them or deleted.\<close>

definition final_states :: "string set \<Rightarrow> bool" where
  "final_states S \<longleftrightarrow> {''completed'', ''cancelled''} \<subseteq> S \<and> ''draft'' \<notin> S \<and> ''scheduled'' \<notin> S \<and> (''running'' \<in> S \<longrightarrow> ''cancelling'' \<in> S)"

definition in_states :: "string set \<Rightarrow> int \<Rightarrow> campaign_db \<Rightarrow> bool" where
  "in_states S i db \<longleftrightarrow> i < cd_nextCampaign db \<and> (\<forall>c. find_campaign db i = Some c \<longrightarrow> ca_status c \<in> S)"

definition starts :: "int \<Rightarrow> campaign_db \<Rightarrow> nat" where
  "starts i db = length (filter (\<lambda>m. m = CampaignStart i) (cd_sent db))"

lemma find_set_campaign:
  assumes "\<And>c. ca_id c = j \<Longrightarrow> ca_id (f c) = j"
  shows "find_campaign (set_campaign j f db) i = map_option (\<lambda>c. if ca_id c = j then f c else c) (find_campaign db i)"
proof -
  have "(\<lambda>c. ca_id c = i) \<circ> (\<lambda>c. if ca_id c = j then f c else c) = (\<lambda>c. ca_id c = i)" using assms by (auto simp: fun_eq_iff)
  then show ?thesis
    unfolding find_campaign_def set_campaign_def by (simp add: find_map)
qed


lemma in_states_set_campaign:
  assumes "in_states S i db" "\<And>c. ca_id c = j \<Longrightarrow> ca_id (f c) = j"
    and "\<And>c. j = i \<Longrightarrow> find_campaign db i = Some c \<Longrightarrow> ca_status c \<in> S \<Longrightarrow> ca_status (f c) \<in> S"
  shows "in_states S i (set_campaign j f db)"
proof -
  have "find_campaign (set_campaign j f db) i = map_option (\<lambda>c. if ca_id c = j then f c else c) (find_campaign db i)"
    by (rule find_set_campaign) (rule assms(2))
  then show ?thesis using assms(1,3) find_campaign_Some [of db i] by (auto simp: in_states_def)
qed

lemma in_states_set_status: "in_states S i db \<Longrightarrow> j = i \<longrightarrow> st \<in> S \<Longrightarrow> in_states S i (set_status j st db)"
  unfolding set_status_def by (rule in_states_set_campaign) auto

lemma in_states_same:
  "cd_campaigns db' = cd_campaigns db \<Longrightarrow> cd_nextCampaign db' = cd_nextCampaign db \<Longrightarrow> in_states S i db' = in_states S i db"
  by (simp add: in_states_def find_campaign_def)

lemma starts_same: "cd_sent db' = cd_sent db \<Longrightarrow> starts i db' = starts i db"
  by (simp add: starts_def)

lemma tryAutoSchedule_states:
  assumes "tryAutoSchedule now j db = ok db'" "final_states S" "in_states S i db"
  shows "in_states S i db' \<and> cd_sent db' = cd_sent db"
proof -
  have "in_states S i (set_campaign j (\<lambda>c. if ca_status c = ''draft'' then c\<lparr>ca_status := ''scheduled''\<rparr> else c) db)"
    by (rule in_states_set_campaign [OF assms(3)]) (use assms(2) in \<open>auto simp: final_states_def\<close>)
  then show ?thesis using assms(1,3) by (auto simp: tryAutoSchedule_def split: if_splits)
qed

lemma tryAutoSchedule_sent: "tryAutoSchedule now j db = ok db' \<Longrightarrow> cd_sent db' = cd_sent db"
  by (auto simp: tryAutoSchedule_def split: if_splits)

text \<open>A request that is accepted leaves the campaigns in \<open>S\<close> there.\<close>

lemma create_states:
  assumes "create_campaign tz now p db = ok (v, db')" "campaign_inv db" "final_states S" "in_states S i db"
  shows "in_states S i db'"
proof -
  obtain q j db1 where q: "normalizePayload p False = ok q" "insert_campaign tz now q db = ok (j, db1)" "tryAutoSchedule now j db1 = ok db'"
    using assms(1) by (auto simp: create_campaign_def)
  from insert_campaign_inv [OF assms(2) normalizePayload_ok [OF q(1)] q(2)] obtain c where
    "cd_campaigns db1 = cd_campaigns db @ [c]" "ca_id c = cd_nextCampaign db" "cd_nextCampaign db1 = cd_nextCampaign db + 1" by auto
  then have "in_states S i db1"
    using assms(4) by (auto simp: in_states_def find_campaign_def find_append split: option.splits)
  then show ?thesis using tryAutoSchedule_states [OF q(3) assms(3)] by blast
qed

lemma update_states:
  assumes "update_campaign tz now j p db = ok (v, db')" "final_states S" "in_states S i db"
  shows "in_states S i db'"
proof -
  obtain c q c' where c: "find_campaign db j = Some c" "updated_row tz db q c = ok c'"
      "tryAutoSchedule now j (set_campaign j (\<lambda>_. c') db) = ok db'"
    using assms(1) unfolding update_campaign_def by (auto simp: getById_ok split: if_splits option.splits)
  have "in_states S i (set_campaign j (\<lambda>_. c') db)"
    using updated_row_same [OF c(2)] find_campaign_Some [OF c(1)] c(1)
    by (intro in_states_set_campaign [OF assms(3)]) auto
  then show ?thesis using tryAutoSchedule_states [OF c(3) assms(2)] by blast
qed

lemma remove_states: "remove_campaign j db = ok db' \<Longrightarrow> in_states S i db \<Longrightarrow> in_states S i db'"
proof -
  assume "remove_campaign j db = ok db'" and s: "in_states S i db"
  then have d: "cd_campaigns db' = filter (\<lambda>c. ca_id c \<noteq> j) (cd_campaigns db)" "cd_nextCampaign db' = cd_nextCampaign db"
    by (auto simp: remove_campaign_def split: if_splits)
  have "find_campaign db' i = (if i = j then None else find_campaign db i)"
    unfolding find_campaign_def d find_filter by (auto simp: find_None_iff intro: find_cong)
  then show ?thesis using s d by (simp add: in_states_def)
qed


lemma upload_states:
  assumes "uploadContacts lib j input db = ok (ans, db')" "campaign_inv db" "e164 lib" "in_states S i db"
  shows "in_states S i db' \<and> cd_sent db' = cd_sent db"
  using assms(1)
proof (rule upload_cases)
  fix c fin assume c: "find_campaign db j = Some c"
    "fold (import_row lib j (ca_defaultCountry (cv_row (mapCampaignRow db c)))) (snd (parseCsv input)) (first_import j db) = fin"
    and db': "db' = set_campaign j (\<lambda>c. c\<lparr>ca_totalContacts := int (length (campaign_contacts (is_db fin) j))\<rparr>) (is_db fin)"
  have "j \<in> ca_id ` set (cd_campaigns db)" using find_campaign_Some [OF c(1)] by force
  from import_rows [OF assms(3) this first_import_inv [OF assms(2)] c(2)]
  have fin: "cd_campaigns (is_db fin) = cd_campaigns db" "cd_nextCampaign (is_db fin) = cd_nextCampaign db" "cd_sent (is_db fin) = cd_sent db"
    by (simp_all add: import_inv_def)
  then have "in_states S i (is_db fin)" using assms(4) in_states_same by blast
  then show ?thesis unfolding db' by (auto intro: in_states_set_campaign simp: fin)
qed

lemma schedule_states:
  assumes "schedule_campaign now j db = ok (v, db')" "final_states S" "in_states S i db"
  shows "in_states S i db'"
proof -
  obtain c where "find_campaign db j = Some c" "ca_status c = ''draft''" "db' = set_status j ''scheduled'' db"
    using assms(1) by (auto simp: schedule_campaign_def getById_ok Let_def split: if_splits option.splits)
  moreover from this have "j \<noteq> i" using assms(2,3) by (auto simp: in_states_def final_states_def)
  ultimately show ?thesis using in_states_set_status [OF assms(3)] by blast
qed

lemma publish_states: "in_states S i (publish_backend m db) = in_states S i db"
  by (rule in_states_same) (simp_all add: publish_backend_def)

lemma stop_states:
  assumes "stop_campaign j db = ok (v, db')" "final_states S" "in_states S i db"
  shows "in_states S i db'"
proof -
  obtain c where c: "find_campaign db j = Some c" "ca_status c \<in> {''running'', ''scheduled'', ''cancelling''}"
      "db' = set_status j ''cancelling'' (publish_backend (CampaignStop j) db)"
    using assms(1) by (auto simp: stop_campaign_def getById_ok Let_def split: if_splits)
  then have "j = i \<longrightarrow> ''cancelling'' \<in> S" using assms(2,3) by (auto simp: in_states_def final_states_def)
  then show ?thesis unfolding c(3) by (intro in_states_set_status) (simp_all add: publish_states assms(3))
qed

lemma stop_fallback_states: "final_states S \<Longrightarrow> in_states S i db \<Longrightarrow> in_states S i (stop_fallback j db)"
  by (auto simp: stop_fallback_def final_states_def in_states_set_status split: option.split)

lemma start_row_states: "final_states S \<Longrightarrow> in_states S i db \<Longrightarrow> in_states S i (start_campaign_row j db)"
  unfolding start_campaign_row_def publish_states by (rule in_states_set_campaign) (auto simp: final_states_def)

lemma start_rows_states: "final_states S \<Longrightarrow> in_states S i db \<Longrightarrow> in_states S i (fold start_campaign_row ids db)"
  by (induction ids arbitrary: db) (simp_all add: start_row_states)

lemma contact_update_frame:
  "cd_campaigns (handleCampaignContactUpdate now p db) = cd_campaigns db"
  "cd_nextCampaign (handleCampaignContactUpdate now p db) = cd_nextCampaign db"
  "cd_sent (handleCampaignContactUpdate now p db) = cd_sent db"
  by (simp_all add: handleCampaignContactUpdate_def insert_attempt_def Let_def)

lemma campaign_step_states:
  assumes "campaign_step lib db db'" "e164 lib" "campaign_inv db" "final_states S" "in_states S i db"
  shows "in_states S i db'"
  using assms(1,3,5)
proof (induction rule: campaign_step.induct)
  case (step_upload j input db ans db')
  then show ?case using upload_states assms(2) by blast
next
  case (step_due now db ids db')
  then show ?case using start_rows_states [OF assms(4)] by (auto simp: startDueCampaigns_def Let_def)
next
  case (step_contact db now u)
  then show ?case using in_states_same [OF contact_update_frame(1,2)] by blast
next
  case (step_stats db j d a f)
  then show ?case by (auto simp: handleCampaignStats_def intro: in_states_set_campaign)
qed (use assms(4) in \<open>auto simp: handleCampaignCompleted_def handleCampaignCancelled_def final_states_def intro!: in_states_set_status
    intro: create_states update_states remove_states schedule_states stop_states stop_fallback_states [OF assms(4)]\<close>)


section \<open>How often a campaign is started\<close>

definition begun_states :: "string set" where
  "begun_states = {''running'', ''cancelling'', ''completed'', ''cancelled''}"

lemma begun_final [simp]: "final_states begun_states"
  by (simp add: final_states_def begun_states_def)

lemma set_campaign_ready [simp]: "cd_ready (set_campaign i f db) = cd_ready db"
  by (simp add: set_campaign_def)

lemma start_rows_find:
  "find_campaign (fold start_campaign_row ids db) i
     = map_option (\<lambda>c. if i \<in> set ids \<and> ca_status c = ''scheduled'' then c\<lparr>ca_status := ''running''\<rparr> else c) (find_campaign db i)"
proof (induction ids arbitrary: db)
  case Nil
  then show ?case by (cases "find_campaign db i") simp_all
next
  case (Cons j ids)
  have "find_campaign (start_campaign_row j db) i
      = map_option (\<lambda>c. if ca_id c = j then if ca_status c = ''scheduled'' then c\<lparr>ca_status := ''running''\<rparr> else c else c) (find_campaign db i)"
    by (subst find_set_campaign [symmetric]) (auto simp: start_campaign_row_def publish_backend_def find_campaign_def)
  then show ?case using Cons [of "start_campaign_row j db"] find_campaign_Some [of db i]
    by (cases "find_campaign db i") auto
qed

lemma start_rows_starts:
  "starts i (fold start_campaign_row ids db) = starts i db + (if cd_ready db then count_list ids i else 0)"
proof (induction ids arbitrary: db)
  case (Cons j ids)
  have "starts i (start_campaign_row j db) = starts i db + (if cd_ready db \<and> j = i then 1 else 0)"
    "cd_ready (start_campaign_row j db) = cd_ready db"
    by (simp_all add: start_campaign_row_def publish_backend_def starts_def)
  then show ?case using Cons [of "start_campaign_row j db"] by simp
qed simp

lemma distinct_count: "distinct xs \<Longrightarrow> x \<in> set xs \<Longrightarrow> count_list xs x = 1"
  by (induction xs) auto

lemma due_starts:
  assumes "startDueCampaigns now db = (ids, db')" "campaign_inv db"
  shows "starts i db' = starts i db \<or> starts i db' = Suc (starts i db) \<and> \<not> in_states begun_states i db \<and> in_states begun_states i db'"
proof (cases "i \<in> set ids")
  case False
  then have "count_list ids i = 0" by (simp add: count_list_0_iff)
  moreover have "db' = fold start_campaign_row ids db" using assms(1) by (simp add: startDueCampaigns_def Let_def) blast
  ultimately show ?thesis using start_rows_starts [of i ids db] by simp
next
  case True
  have ids: "ids = map ca_id (sort_key (\<lambda>c. the (ca_scheduledAt c)) (filter (due now) (cd_campaigns db)))"
    using assms(1) by (simp add: startDueCampaigns_def Let_def)
  have db': "db' = fold start_campaign_row ids db" using assms(1) by (simp add: startDueCampaigns_def Let_def) blast
  have dist: "distinct (map ca_id (cd_campaigns db))" using assms(2) by (simp add: campaign_inv_def campaigns_ok_def)
  then have "distinct ids" unfolding ids by (auto simp: distinct_map inj_on_def)
  then have one: "count_list ids i = 1" using True by (simp add: distinct_count)
  obtain c where c: "c \<in> set (cd_campaigns db)" "due now c" "ca_id c = i" using True unfolding ids by auto
  then have f: "find_campaign db i = Some c" using find_unique [OF dist c(1)] by (simp add: find_campaign_def)
  have "cd_nextCampaign db' = cd_nextCampaign db"
    unfolding db' by (induction ids arbitrary: db) (simp_all add: start_campaign_row_def publish_backend_def)
  moreover have "i < cd_nextCampaign db" using assms(2) c by (auto simp: campaign_inv_def campaigns_ok_def)
  ultimately have "in_states begun_states i db'"
    using start_rows_find [of ids db i] f True c(2) by (simp add: in_states_def db' begun_states_def due_def)
  moreover have "\<not> in_states begun_states i db" using f c(2) by (auto simp: in_states_def begun_states_def due_def)
  ultimately show ?thesis using start_rows_starts [of i ids db] one by (simp add: db')
qed

lemma step_sent:
  assumes "campaign_step lib db db'" "e164 lib" "campaign_inv db"
  shows "starts i db' = starts i db \<or> starts i db' = Suc (starts i db) \<and> \<not> in_states begun_states i db \<and> in_states begun_states i db'"
  using assms(1,3)
proof (induction rule: campaign_step.induct)
  case (step_create tz now p db v db')
  then have "cd_sent db' = cd_sent db"
    by (auto simp: create_campaign_def dest!: normalizePayload_ok tryAutoSchedule_sent dest: insert_campaign_inv)
  then show ?case using starts_same by blast
next
  case (step_update tz now j p db v db')
  then have "cd_sent db' = cd_sent db"
    by (auto simp: update_campaign_def split: if_splits option.splits dest!: tryAutoSchedule_sent)
  then show ?case using starts_same by blast
next
  case (step_remove j db db')
  then show ?case by (auto simp: remove_campaign_def starts_def split: if_splits)
next
  case (step_upload j input db ans db')
  have "in_states UNIV (cd_nextCampaign db - 1) db" by (simp add: in_states_def)
  then have "cd_sent db' = cd_sent db" using step_upload upload_states assms(2) by blast
  then show ?case using starts_same by blast
next
  case (step_due now db ids db')
  then show ?case using due_starts by blast
next
  case (step_contact db now u)
  then show ?case using starts_same [OF contact_update_frame(3)] by blast
qed (auto simp: schedule_campaign_def stop_campaign_def stop_fallback_def handleCampaignStats_def handleCampaignCompleted_def
    handleCampaignCancelled_def set_status_def starts_def publish_backend_def Let_def split: if_splits option.splits)

text \<open>Started at most once, and never while it waits.\<close>

definition started_once :: "campaign_db \<Rightarrow> bool" where
  "started_once db \<longleftrightarrow> (\<forall>i. starts i db = 0 \<or> starts i db = 1 \<and> in_states begun_states i db)"

lemma step_started_once:
  assumes "campaign_step lib db db'" "e164 lib" "campaign_inv db" "started_once db"
  shows "started_once db'"
  unfolding started_once_def
proof
  fix i
  have "in_states begun_states i db \<Longrightarrow> in_states begun_states i db'" using campaign_step_states assms(1-3) begun_final by blast
  then show "starts i db' = 0 \<or> starts i db' = 1 \<and> in_states begun_states i db'"
    using step_sent [OF assms(1-3), of i] assms(4) [unfolded started_once_def, THEN spec, of i] by auto
qed

lemma runs_keep:
  assumes "campaign_runs lib db db'" "e164 lib" "campaign_inv db"
  shows "started_once db \<Longrightarrow> started_once db'" and "final_states S \<Longrightarrow> in_states S i db \<Longrightarrow> in_states S i db'"
proof -
  have "campaign_inv db' \<and> (started_once db \<longrightarrow> started_once db') \<and> (final_states S \<longrightarrow> in_states S i db \<longrightarrow> in_states S i db')"
    using assms(1) unfolding campaign_runs_def
  proof (induction rule: rtranclp_induct)
    case (step d e)
    then show ?case using campaign_step_inv step_started_once campaign_step_states assms(2) by blast
  qed (simp add: assms(3))
  then show "started_once db \<Longrightarrow> started_once db'" "final_states S \<Longrightarrow> in_states S i db \<Longrightarrow> in_states S i db'" by blast+
qed


lemma runs_begun_starts:
  assumes "campaign_runs lib db db'" "e164 lib" "campaign_inv db" "in_states begun_states i db"
  shows "starts i db' = starts i db"
proof -
  have "campaign_inv db' \<and> in_states begun_states i db' \<and> starts i db' = starts i db"
    using assms(1) unfolding campaign_runs_def
  proof (induction rule: rtranclp_induct)
    case (step d e)
    then show ?case
      using campaign_step_inv [OF step(2) assms(2)] campaign_step_states [OF step(2) assms(2), of begun_states i] step_sent [OF step(2) assms(2), of i]
      by auto
  qed (simp add: assms(3,4))
  then show ?thesis by blast
qed

text \<open>The states by the rows.\<close>

lemma in_states_row:
  assumes "campaign_inv db" "c \<in> set (cd_campaigns db)" "ca_id c = i"
  shows "in_states S i db \<longleftrightarrow> ca_status c \<in> S"
proof -
  have "distinct (map ca_id (cd_campaigns db))" "i < cd_nextCampaign db" using assms by (auto simp: campaign_inv_def campaigns_ok_def)
  then show ?thesis using find_unique [of ca_id "cd_campaigns db" c] assms(2,3) by (simp add: in_states_def find_campaign_def)
qed

text \<open>A filter that selects one value is determined by its length.\<close>

lemma filter_replicate: "filter (\<lambda>m. m = x) xs = replicate (length (filter (\<lambda>m. m = x) xs)) x"
  by (induction xs) auto

lemma filter_same_length:
  assumes "length (filter (\<lambda>m. m = x) xs) = length (filter (\<lambda>m. m = x) ys)"
  shows "filter (\<lambda>m. m = x) xs = filter (\<lambda>m. m = x) ys"
  by (subst (1 2) filter_replicate) (simp only: assms)

end
