(* ===== verification/CampaignEngineLaws.thy ===== *)
theory CampaignEngineLaws
  imports CampaignEngine CampaignLaws
begin

text \<open>
  Laws of the engine's side of a campaign: a bound on the attempts that holds in every interleaving of its
  handlers, and the effect of \<open>fillWindow\<close>, \<open>startCampaign\<close> and \<open>handleChannelEnd\<close> when they run alone.
\<close>

section \<open>Attempts, in every interleaving\<close>

definition campaign_ops :: "campaign_env \<Rightarrow> unit campaign_op set" where
  "campaign_ops env =
     {on_backend_message env fuel m | fuel m. True}
     \<union> {andThen (handleStasisStart env args ch) (\<lambda>_. Ret ()) | args ch. True}
     \<union> {andThen (handleChannelEnd env fuel ch cause) (\<lambda>_. Ret ()) | fuel ch cause. True}
     \<union> {retry_fires env fuel t | fuel t. True}"

text \<open>No contact waits with more than \<open>M\<close> attempts, and no call is attempt number \<open>M + 2\<close>.\<close>

definition attempts_bounded :: "int \<Rightarrow> campaign_store \<Rightarrow> bool" where
  "attempts_bounded M s \<longleftrightarrow>
     (\<forall>r ru. k_heap s r = Some ru \<longrightarrow> ck_maxRetries (ru_campaign ru) \<le> M \<and> (\<forall>c \<in> set (ru_queue ru). co_attempts c \<le> M))
     \<and> (\<forall>a call. k_calls s a = Some call \<longrightarrow> ac_attemptNumber call \<le> M + 1)
     \<and> (\<forall>(r, c, d) \<in> set (k_timers s). co_attempts c \<le> M)"

definition answers_bounded :: "int \<Rightarrow> campaign_env \<Rightarrow> bool" where
  "answers_bounded M env \<longleftrightarrow>
     (\<forall>i s v. ce_campaign env i s = Inr (Some v) \<longrightarrow> ca_maxRetries (cv_row v) \<le> M)
     \<and> (\<forall>i s cs. ce_contacts env i s = Inr (Some cs) \<longrightarrow> (\<forall>c \<in> set cs. cc_attempts c \<le> M))"

text \<open>Actions that leave runtimes, calls and timers alone.\<close>

lemma bounded_frame [simp]:
  "attempts_bounded M (s\<lparr>k_sent := x0\<rparr>) = attempts_bounded M s"
  "attempts_bounded M (s\<lparr>k_active := x1\<rparr>) = attempts_bounded M s"
  "attempts_bounded M (s\<lparr>k_sessions := x2\<rparr>) = attempts_bounded M s"
  "attempts_bounded M (s\<lparr>k_dialled := x3\<rparr>) = attempts_bounded M s"
  "attempts_bounded M (s\<lparr>k_channel := x4\<rparr>) = attempts_bounded M s"
  "attempts_bounded M (s\<lparr>k_runtimes := x5\<rparr>) = attempts_bounded M s"
  by (simp_all add: attempts_bounded_def)

lemma getPublisher_keeps: "keeps (attempts_bounded M) (getPublisher env)"
  unfolding getPublisher_def by (rule ensures_attempt) simp

lemma publish_keeps: "keeps (attempts_bounded M) (publish env m)"
  unfolding publish_def
  by (rule ensures_andThen [OF getPublisher_keeps], rule ensures_attempt) (auto split: option.split)

lemma publishCallEvent_keeps: "keeps (attempts_bounded M) (publishCallEvent env ev)"
  unfolding publishCallEvent_def by (rule ensures_tryCatch [OF publish_keeps]) simp

lemma active_command_keeps: "keeps (attempts_bounded M) (active_command env i f)"
  unfolding active_command_def
  by (rule ensures_andThen [OF getPublisher_keeps], rule ensures_atomic) (auto split: option.split)

lemma hangup_keeps: "keeps (attempts_bounded M) (request_hangup env ch)"
  unfolding request_hangup_def
  by (rule ensures_tryCatch) (auto intro!: ensures_attempt)

lemma set_runtime_bounded:
  assumes "attempts_bounded M s"
    and "\<And>ru. k_heap s r = Some ru \<Longrightarrow> ru_campaign (f ru) = ru_campaign ru \<and> (\<forall>c \<in> set (ru_queue (f ru)). co_attempts c \<le> M)"
  shows "attempts_bounded M (set_runtime r f s)"
  using assms by (auto simp: attempts_bounded_def set_runtime_def split: if_splits)

lemma set_runtime_same_queue:
  "attempts_bounded M s \<Longrightarrow> (\<And>ru. ru_campaign (f ru) = ru_campaign ru \<and> ru_queue (f ru) = ru_queue ru) \<Longrightarrow> attempts_bounded M (set_runtime r f s)"
  by (rule set_runtime_bounded) (auto simp: attempts_bounded_def)

lemma publishStats_keeps: "keeps (attempts_bounded M) (publishStats env r i)"
  unfolding publishStats_def
  by (rule ensures_andThen [where Q = "\<lambda>_. True"], rule ensures_atomic) (auto simp: publish_keeps split: option.split)

lemma dial_failed_keeps: "keeps (attempts_bounded M) (dial_failed env r k c)"
  unfolding dial_failed_def
  by (rule ensures_andThen [where Q = "\<lambda>_. True"], rule ensures_atomic) (auto intro: set_runtime_same_queue publish_keeps)

lemma register_call_bounded: "attempts_bounded M s \<Longrightarrow> co_attempts c \<le> M \<Longrightarrow> attempts_bounded M (register_call env r k c ch s)"
  unfolding register_call_def Let_def
  by (rule set_runtime_same_queue) (auto simp: attempts_bounded_def split: if_splits)

lemma place_call_keeps:
  assumes "co_attempts c \<le> M"
  shows "keeps (attempts_bounded M) (place_call env r k c number)"
proof -
  have "keeps (attempts_bounded M) (originate_call env (dial_request k c number))"
    unfolding originate_call_def by (rule ensures_attempt) simp
  moreover have "keeps (attempts_bounded M) (atomic (\<lambda>s. ((), register_call env r k c ch s)))" for ch
    by (rule ensures_atomic) (simp add: register_call_bounded assms)
  ultimately show ?thesis unfolding place_call_def Let_def incrementActive_def
    by (auto intro!: ensures_andThen [where Q = "\<lambda>_. True"] publish_keeps publishStats_keeps active_command_keeps)
qed

lemma dialContact_keeps:
  assumes "co_attempts c \<le> M"
  shows "keeps (attempts_bounded M) (dialContact env r c)"
proof -
  have "keeps (attempts_bounded M) (campaign_of r)" unfolding campaign_of_def by (rule ensures_atomic) simp
  then show ?thesis unfolding dialContact_def Let_def
    by (rule ensures_andThen) (auto intro!: ensures_tryCatch place_call_keeps [OF assms] dial_failed_keeps split: option.split)
qed

lemma next_contact_ensures: "ensures (attempts_bounded M) (\<lambda>c. \<forall>x \<in> set_option c. co_attempts x \<le> M) (next_contact r)"
  unfolding next_contact_def
proof (rule ensures_atomic)
  fix s assume b: "attempts_bounded M s"
  have "ru_queue ru \<noteq> [] \<Longrightarrow> k_heap s r = Some ru \<Longrightarrow> co_attempts (hd (ru_queue ru)) \<le> M \<and> (\<forall>c \<in> set (tl (ru_queue ru)). co_attempts c \<le> M)" for ru
    using b by (auto simp: attempts_bounded_def dest: list.set_sel(2))
  then show "attempts_bounded M (snd (case k_heap s r of None \<Rightarrow> (None, s)
      | Some ru \<Rightarrow> if window_open ru then (Some (hd (ru_queue ru)), set_runtime r (\<lambda>ru. ru\<lparr>ru_queue := tl (ru_queue ru)\<rparr>) s) else (None, s)))
    \<and> (\<forall>x \<in> set_option (fst (case k_heap s r of None \<Rightarrow> (None, s)
      | Some ru \<Rightarrow> if window_open ru then (Some (hd (ru_queue ru)), set_runtime r (\<lambda>ru. ru\<lparr>ru_queue := tl (ru_queue ru)\<rparr>) s) else (None, s))).
        co_attempts x \<le> M)"
    using b by (auto simp: window_open_def intro!: set_runtime_bounded split: option.split)
qed

lemma fillWindow_keeps: "keeps (attempts_bounded M) (fillWindow env n r)"
proof (induction n)
  case (Suc n)
  show ?case unfolding fillWindow.simps
    by (rule ensures_andThen [OF next_contact_ensures])
      (auto intro!: ensures_andThen [OF dialContact_keeps] Suc split: option.split)
qed simp


lemma startCampaign_keeps:
  assumes "answers_bounded M env"
  shows "keeps (attempts_bounded M) (startCampaign env fuel i)"
proof -
  have fetch: "ensures (attempts_bounded M) (\<lambda>k. \<forall>k \<in> set_option k. ck_maxRetries k \<le> M) (fetchCampaign env i)"
    unfolding fetchCampaign_def
    by (rule ensures_andThen [where Q = "\<lambda>v. \<forall>v \<in> set_option v. ca_maxRetries (cv_row v) \<le> M"], rule ensures_attempt)
      (use assms in \<open>auto simp: answers_bounded_def campaign_of_view_def Let_def\<close>)
  have contacts: "ensures (attempts_bounded M) (\<lambda>cs. \<forall>c \<in> set cs. co_attempts c \<le> M) (fetchPendingContacts env i)"
    unfolding fetchPendingContacts_def
    by (rule ensures_andThen [where Q = "\<lambda>v. \<forall>cs \<in> set_option v. \<forall>c \<in> set cs. cc_attempts c \<le> M"], rule ensures_attempt)
      (use assms in \<open>auto simp: answers_bounded_def contact_of_row_def split: option.split\<close>)
  have alloc: "keeps (attempts_bounded M) (atomic (\<lambda>s. (k_next s, s\<lparr>k_next := Suc (k_next s),
      k_heap := (k_heap s)(k_next s \<mapsto> new_runtime k cs), k_runtimes := AList.update i (k_next s) (k_runtimes s)\<rparr>)))"
    if "ck_maxRetries k \<le> M" "\<forall>c \<in> set cs. co_attempts c \<le> M" for k cs
    by (rule ensures_atomic) (use that in \<open>auto simp: attempts_bounded_def new_runtime_def\<close>)
  have counter: "keeps (attempts_bounded M) (attempt (\<lambda>s. case ce_redis env s of
      Some m \<Rightarrow> (Inl m, s) | None \<Rightarrow> (Inr (), s\<lparr>k_active := (k_active s)(i \<mapsto> 0)\<rparr>)))"
    by (rule ensures_attempt) (auto split: option.split)
  show ?thesis unfolding startCampaign_def
    by (rule ensures_andThen [OF fetch])
      (auto split: option.split intro!: ensures_andThen [OF contacts] ensures_andThen [OF alloc]
        ensures_andThen [OF getPublisher_keeps] ensures_andThen [OF counter] fillWindow_keeps)
qed

lemma drop_runtime_keeps: "keeps (attempts_bounded M) (drop_runtime i)"
  unfolding drop_runtime_def by (rule ensures_atomic) simp

lemma stopCampaign_keeps: "keeps (attempts_bounded M) (stopCampaign env i)"
proof -
  have "keeps (attempts_bounded M) (atomic (\<lambda>s. case map_of (k_runtimes s) i of None \<Rightarrow> (False, s)
     | Some r \<Rightarrow> (case k_heap s r of None \<Rightarrow> (False, s)
       | Some ru \<Rightarrow> (ru_activeByChannel ru = [], set_runtime r (\<lambda>ru. ru\<lparr>ru_stopRequested := True\<rparr>) s))))"
    by (rule ensures_atomic) (auto split: option.split intro!: set_runtime_same_queue)
  then show ?thesis unfolding stopCampaign_def
    by (rule ensures_andThen) (auto intro!: ensures_andThen [OF publish_keeps] drop_runtime_keeps)
qed

lemma set_call_bounded:
  "attempts_bounded M s \<Longrightarrow> (\<And>c. ac_attemptNumber (f c) = ac_attemptNumber c) \<Longrightarrow> attempts_bounded M (set_call a f s)"
  by (auto simp: attempts_bounded_def set_call_def split: if_splits)

lemma run_campaign_flow_keeps: "keeps (attempts_bounded M) (run_campaign_flow env ch k a call fl entry session)"
proof -
  have "keeps (attempts_bounded M) (attempt (\<lambda>s. (ce_answer env ch s, s\<lparr>k_channel := k_channel s @ [AnswerChannel ch]\<rparr>)))"
    by (rule ensures_attempt) simp
  moreover have "keeps (attempts_bounded M) (atomic (\<lambda>s. ((), set_call a (\<lambda>c. c\<lparr>ac_flowRan := True\<rparr>) s)))"
    by (rule ensures_atomic) (simp add: set_call_bounded)
  moreover have "keeps (attempts_bounded M) (attempt (\<lambda>s. (ce_runFlow env session s, s)))" by (rule ensures_attempt) simp
  ultimately show ?thesis unfolding run_campaign_flow_def
    by (auto intro!: ensures_andThen [where Q = "\<lambda>_. True"] ensures_tryCatch publishCallEvent_keeps)
qed

lemma enter_flow_keeps: "keeps (attempts_bounded M) (enter_flow env ch k a call)"
proof -
  have "keeps (attempts_bounded M) (attempt (\<lambda>s. (ce_flow env i s, s)))" for i by (rule ensures_attempt) simp
  moreover have "keeps (attempts_bounded M) (atomic (\<lambda>s. let session = set_var ''direction'' ''outbound''
      (createSession (ce_now env s) ch (ac_phoneNumber call) fl (n_key entry)) in
      (session, s\<lparr>k_sessions := addSession session (k_sessions s)\<rparr>)))" for fl entry
    by (rule ensures_atomic) (simp add: Let_def)
  ultimately show ?thesis unfolding enter_flow_def Let_def
    by (auto intro!: ensures_andThen [where Q = "\<lambda>_. True"] ensures_tryCatch publishCallEvent_keeps hangup_keeps run_campaign_flow_keeps
        split: option.split)
qed

lemma handleStasisStart_keeps: "keeps (attempts_bounded M) (handleStasisStart env args ch)"
proof -
  have "keeps (attempts_bounded M) (atomic (\<lambda>s. (lookup_call i ch s, s)))" for i by (rule ensures_atomic) simp
  then show ?thesis unfolding handleStasisStart_def Let_def
    by (auto intro!: ensures_andThen [where Q = "\<lambda>_. True"] publish_keeps hangup_keeps enter_flow_keeps split: found_call.split)
qed

lemma call_log_keeps: "keeps (attempts_bounded M) (call_log_tries env ch n)"
proof (induction n)
  case (Suc n)
  show ?case unfolding call_log_tries.simps
    by (rule ensures_andThen [where Q = "\<lambda>_. True"], rule ensures_attempt) (auto simp: Suc)
qed simp

lemma take_call_bounded: "attempts_bounded M s \<Longrightarrow> attempts_bounded M (snd (take_call ch s))"
  unfolding take_call_def by (auto split: option.split intro!: set_runtime_same_queue)

text \<open>A retry is only set up for an attempt within the campaign's limit.\<close>

lemma settle_call_bounded:
  assumes "attempts_bounded M s"
  shows "attempts_bounded M (snd (settle_call r a cause s))"
proof (cases "k_heap s r")
  case (Some ru)
  show ?thesis
  proof (cases "k_calls s a")
    case call: (Some call)
    let ?o = "determineOutcome call cause"
    let ?s = "if ?o = ''answered'' then set_runtime r (\<lambda>ru. ru\<lparr>ru_answeredCount := ru_answeredCount ru + 1\<rparr>) s else s"
    have s: "attempts_bounded M ?s" using assms by (auto intro: set_runtime_same_queue)
    have "ac_attemptNumber call \<le> M" if "shouldRetry ru call ?o"
      using assms that Some by (force simp: attempts_bounded_def shouldRetry_def)
    then have "shouldRetry ru call ?o \<Longrightarrow> attempts_bounded M (?s\<lparr>k_timers := k_timers ?s
        @ [(r, (ac_contact call)\<lparr>co_attempts := ac_attemptNumber call\<rparr>, ck_retryIntervalMinutes (ru_campaign ru) * 60000)]\<rparr>)"
      using s unfolding attempts_bounded_def by auto
    moreover have "attempts_bounded M (set_runtime r (\<lambda>ru. ru\<lparr>ru_failedCount := ru_failedCount ru + 1\<rparr>) ?s)"
      using s by (auto intro: set_runtime_same_queue)
    ultimately show ?thesis using s Some call by (simp add: settle_call_def Let_def)
  qed (simp add: settle_call_def Some assms)
qed (simp add: settle_call_def assms)

lemma finish_campaign_keeps: "keeps (attempts_bounded M) (finish_campaign env i r)"
proof -
  have "keeps (attempts_bounded M) (atomic (\<lambda>s. (k_heap s r, s)))" by (rule ensures_atomic) simp
  then show ?thesis unfolding finish_campaign_def
    by (auto intro!: ensures_andThen [where Q = "\<lambda>_. True"] publish_keeps drop_runtime_keeps active_command_keeps split: option.split)
qed

lemma handleChannelEnd_keeps: "keeps (attempts_bounded M) (handleChannelEnd env fuel ch cause)"
proof -
  have "keeps (attempts_bounded M) (atomic (take_call ch))" by (rule ensures_atomic) (simp add: take_call_bounded)
  moreover have "keeps (attempts_bounded M) (atomic (settle_call r a cause))" for r a by (rule ensures_atomic) (simp add: settle_call_bounded)
  moreover have "keeps (attempts_bounded M) (atomic (\<lambda>s. (\<exists>ru \<in> set_option (k_heap s r). ru_stopRequested ru,
      s\<lparr>k_sessions := removeSession ch (k_sessions s)\<rparr>)))" for r
    by (rule ensures_atomic) simp
  ultimately show ?thesis unfolding handleChannelEnd_def decrementActive_def findCallLogId_def
    by (auto intro!: ensures_andThen [where Q = "\<lambda>_. True"] active_command_keeps call_log_keeps publish_keeps publishStats_keeps
        fillWindow_keeps finish_campaign_keeps split: option.split)
qed

lemma retry_fires_keeps: "keeps (attempts_bounded M) (retry_fires env fuel t)"
proof -
  have push: "attempts_bounded M (set_runtime r (\<lambda>ru. ru\<lparr>ru_queue := ru_queue ru @ [c]\<rparr>) (s\<lparr>k_timers := take t (k_timers s) @ drop (Suc t) (k_timers s)\<rparr>))"
    if "attempts_bounded M s" "t < length (k_timers s)" "k_timers s ! t = (r, c, d)" for s r c d
  proof (rule set_runtime_bounded)
    have "(r, c, d) \<in> set (k_timers s)" using that(2,3) by (metis nth_mem)
    then have "co_attempts c \<le> M" using that(1) by (auto simp: attempts_bounded_def)
    then show "ru_campaign (ru\<lparr>ru_queue := ru_queue ru @ [c]\<rparr>) = ru_campaign ru
        \<and> (\<forall>c \<in> set (ru_queue (ru\<lparr>ru_queue := ru_queue ru @ [c]\<rparr>)). co_attempts c \<le> M)"
      if "k_heap (s\<lparr>k_timers := take t (k_timers s) @ drop (Suc t) (k_timers s)\<rparr>) r = Some ru" for ru
      using that \<open>attempts_bounded M s\<close> by (auto simp: attempts_bounded_def)
    show "attempts_bounded M (s\<lparr>k_timers := take t (k_timers s) @ drop (Suc t) (k_timers s)\<rparr>)"
      using that(1) by (auto simp: attempts_bounded_def dest: in_set_takeD in_set_dropD)
  qed
  have "keeps (attempts_bounded M) (atomic (\<lambda>s. if t < length (k_timers s)
       then (case k_timers s ! t of (r, c, _) \<Rightarrow>
         (Some r, set_runtime r (\<lambda>ru. ru\<lparr>ru_queue := ru_queue ru @ [c]\<rparr>)
            (s\<lparr>k_timers := take t (k_timers s) @ drop (Suc t) (k_timers s)\<rparr>)))
       else (None, s)))"
    by (rule ensures_atomic) (auto intro: push split: prod.split)
  then show ?thesis unfolding retry_fires_def
    by (rule ensures_andThen) (auto intro!: fillWindow_keeps split: option.split)
qed

lemma campaign_ops_keep: "answers_bounded M env \<Longrightarrow> p \<in> campaign_ops env \<Longrightarrow> keeps (attempts_bounded M) p"
  by (auto simp: campaign_ops_def on_backend_message_def startCampaign_keeps stopCampaign_keeps retry_fires_keeps split: backend_message.split
      intro!: ensures_andThen [OF handleStasisStart_keeps] ensures_andThen [OF handleChannelEnd_keeps])


section \<open>Dialling alone\<close>

definition redis_up :: "campaign_env \<Rightarrow> bool" where
  "redis_up env \<longleftrightarrow> (\<forall>s. ce_publisher env s = None \<and> ce_redis env s = None)"

lemma run_getPublisher: "redis_up env \<Longrightarrow> run (getPublisher env) s = (Inr (), s)"
  by (simp add: getPublisher_def redis_up_def)

lemma run_publish: "redis_up env \<Longrightarrow> run (publish env m) s = (Inr (), s\<lparr>k_sent := k_sent s @ [m]\<rparr>)"
  by (simp add: publish_def run_getPublisher) (simp add: redis_up_def)

lemma run_active_command:
  "redis_up env \<Longrightarrow> run (active_command env i f) s = (Inr (), s\<lparr>k_active := (k_active s)(i := f (k_active s i))\<rparr>)"
  by (simp add: active_command_def run_getPublisher) (simp add: redis_up_def)

lemma run_publishStats:
  "redis_up env \<Longrightarrow> k_heap s r = Some ru \<Longrightarrow> run (publishStats env r i) s
    = (Inr (), s\<lparr>k_sent := k_sent s @ [StatsUpdate i (ru_dialedCount ru) (ru_answeredCount ru) (ru_failedCount ru)]\<rparr>)"
  by (simp add: publishStats_def run_publish)

definition active_count :: "campaign_store \<Rightarrow> int \<Rightarrow> int" where
  "active_count s i = case_option 0 id (k_active s i)"

text \<open>\<open>n\<close> contacts of the queue of \<open>r\<close> have been used up: each is a call placed or a failure, and nothing else changed.\<close>

definition dial_progress :: "nat \<Rightarrow> nat \<Rightarrow> campaign_store \<Rightarrow> campaign_store \<Rightarrow> bool" where
  "dial_progress r n s s' \<longleftrightarrow> (\<exists>ru ru'. k_heap s r = Some ru \<and> k_heap s' r = Some ru'
     \<and> n \<le> length (ru_queue ru) \<and> ru_queue ru' = drop n (ru_queue ru)
     \<and> ru_campaign ru' = ru_campaign ru \<and> ru_stopRequested ru' = ru_stopRequested ru \<and> ru_answeredCount ru' = ru_answeredCount ru
     \<and> ru_dialedCount ru \<le> ru_dialedCount ru' \<and> ru_failedCount ru \<le> ru_failedCount ru'
     \<and> ru_dialedCount ru' + ru_failedCount ru' = ru_dialedCount ru + ru_failedCount ru + int n
     \<and> (ru_dialedCount ru' = ru_dialedCount ru \<longrightarrow> ru_activeByChannel ru' = ru_activeByChannel ru)
     \<and> active_count s' (ck_id (ru_campaign ru)) = active_count s (ck_id (ru_campaign ru)) + (ru_dialedCount ru' - ru_dialedCount ru)
     \<and> k_runtimes s' = k_runtimes s \<and> k_timers s' = k_timers s)"

lemma dial_progress_refl: "k_heap s r = Some ru \<Longrightarrow> dial_progress r 0 s s"
  by (simp add: dial_progress_def)

lemma dial_progress_trans: "dial_progress r m s t \<Longrightarrow> dial_progress r n t u \<Longrightarrow> dial_progress r (m + n) s u"
  unfolding dial_progress_def by (auto simp: add.commute)

lemma run_dial_failed:
  assumes "redis_up env"
  shows "run (dial_failed env r k c) s = (Inr (), (set_runtime r (\<lambda>ru. ru\<lparr>ru_failedCount := ru_failedCount ru + 1\<rparr>) s)
    \<lparr>k_sent := k_sent s @ [ContactUpdate (plain_update (ck_id k) (co_id c) ''failed'' (Some ''failed''))]\<rparr>)"
  using assms by (simp add: dial_failed_def run_publish) (simp add: set_runtime_def)

text \<open>A call is placed, or the attempt fails after the request.\<close>

lemma run_place_call:
  assumes "redis_up env" "k_heap s r = Some ru" "ru_campaign ru = k"
    and s1_def: "s1 = s\<lparr>k_dialled := k_dialled s @ [dial_request k c number]\<rparr>"
  shows "(\<exists>m. run (place_call env r k c number) s = (Inl m, s1))
    \<or> (\<exists>ch sent. run (place_call env r k c number) s = (Inr (), (register_call env r k c ch s1)
         \<lparr>k_active := (k_active s)(ck_id k \<mapsto> active_count s (ck_id k) + 1), k_sent := sent\<rparr>) \<and> ch \<noteq> [])"
proof (cases "ce_originate env (dial_request k c number) s")
  case (Inl m)
  then show ?thesis by (simp add: place_call_def originate_call_def s1_def)
next
  case (Inr answer)
  show ?thesis
  proof (cases "text_or_empty answer = []")
    case True
    then show ?thesis using Inr by (simp add: place_call_def originate_call_def s1_def Let_def)
  next
    case False
    let ?s2 = "register_call env r k c (text_or_empty answer) s1"
    have "k_active ?s2 = k_active s" by (simp add: register_call_def set_runtime_def s1_def Let_def)
    moreover obtain ru2 where "k_heap ?s2 r = Some ru2" using assms(2) by (simp add: register_call_def set_runtime_def s1_def Let_def)
    ultimately show ?thesis using Inr False
      by (auto simp: place_call_def originate_call_def incrementActive_def run_active_command [OF assms(1)] run_publish [OF assms(1)]
        run_publishStats [OF assms(1)] active_count_def s1_def Let_def)
  qed
qed


definition one_dialled :: "nat \<Rightarrow> campaign_store \<Rightarrow> campaign_store \<Rightarrow> bool" where
  "one_dialled r s s' \<longleftrightarrow> (\<exists>ru ru'. k_heap s r = Some ru \<and> k_heap s' r = Some ru' \<and> ru_queue ru' = ru_queue ru
     \<and> ru_campaign ru' = ru_campaign ru \<and> ru_stopRequested ru' = ru_stopRequested ru \<and> ru_answeredCount ru' = ru_answeredCount ru
     \<and> k_runtimes s' = k_runtimes s \<and> k_timers s' = k_timers s
     \<and> (ru_dialedCount ru' = ru_dialedCount ru + 1 \<and> ru_failedCount ru' = ru_failedCount ru
          \<and> (\<exists>ch a. ru_activeByChannel ru' = AList.update ch a (ru_activeByChannel ru))
          \<and> active_count s' (ck_id (ru_campaign ru)) = active_count s (ck_id (ru_campaign ru)) + 1
        \<or> ru_dialedCount ru' = ru_dialedCount ru \<and> ru_failedCount ru' = ru_failedCount ru + 1
          \<and> ru_activeByChannel ru' = ru_activeByChannel ru
          \<and> active_count s' (ck_id (ru_campaign ru)) = active_count s (ck_id (ru_campaign ru))))"

lemma run_dialContact:
  assumes "redis_up env" "k_heap s r = Some ru"
  shows "\<exists>s'. run (dialContact env r c) s = (Inr (), s') \<and> one_dialled r s s'"
proof -
  let ?k = "ru_campaign ru"
  define number where "number = text_or_empty (formatDialNumber (co_phoneNumber c)
    (fetchTrunkDialFormat (ce_trunk env) (num_of_int (case_option 0 id (ck_trunkId ?k)))))"
  have failed: "one_dialled r s (snd (run (dial_failed env r ?k c) t))"
    if "k_heap t = k_heap s" "k_runtimes t = k_runtimes s" "k_timers t = k_timers s" "k_active t = k_active s" for t
    using assms(2) that unfolding run_dial_failed [OF assms(1)]
    by (simp add: one_dialled_def set_runtime_def active_count_def)
  show ?thesis
  proof (cases "number = []")
    case True
    then have "run (dialContact env r c) s = run (dial_failed env r ?k c) s"
      using assms(2) unfolding number_def by (simp add: dialContact_def campaign_of_def Let_def)
    then show ?thesis using failed [of s] run_dial_failed [OF assms(1)] by simp
  next
    case False
    let ?s1 = "s\<lparr>k_dialled := k_dialled s @ [dial_request ?k c number]\<rparr>"
    have d: "run (dialContact env r c) s
        = (case run (place_call env r ?k c number) s of (Inl m, s') \<Rightarrow> run (dial_failed env r ?k c) s' | (Inr a, s') \<Rightarrow> (Inr a, s'))"
      using assms(2) False unfolding number_def by (simp add: dialContact_def campaign_of_def Let_def)
    from run_place_call [OF assms refl refl, of c number]
    consider m where "run (place_call env r ?k c number) s = (Inl m, ?s1)"
      | ch sent where "run (place_call env r ?k c number) s = (Inr (), (register_call env r ?k c ch ?s1)
         \<lparr>k_active := (k_active s)(ck_id ?k \<mapsto> active_count s (ck_id ?k) + 1), k_sent := sent\<rparr>)" by blast
    then show ?thesis
    proof cases
      case 1
      then show ?thesis using failed [of ?s1] run_dial_failed [OF assms(1)] by (simp add: d)
    next
      case 2
      then have "one_dialled r s (snd (run (dialContact env r c) s))"
        using assms(2) by (auto simp: d one_dialled_def register_call_def set_runtime_def active_count_def Let_def)
      then show ?thesis using 2 by (simp add: d)
    qed
  qed
qed

lemma length_update: "int (length (AList.update k v al)) \<le> int (length al) + 1"
  by (induction al) auto

text \<open>The loop alone: it ends, and leaves the window full, the queue empty or the campaign stopped.\<close>

lemma run_fillWindow:
  assumes "redis_up env"
  shows "k_heap s r = Some ru \<Longrightarrow> length (ru_queue ru) < fuel \<Longrightarrow>
    \<exists>s' ru' n. run (fillWindow env fuel r) s = (Inr (), s') \<and> k_heap s' r = Some ru' \<and> \<not> window_open ru' \<and> dial_progress r n s s'
      \<and> int (length (ru_activeByChannel ru')) \<le> max (int (length (ru_activeByChannel ru))) (ck_maxConcurrent (ru_campaign ru))"
proof (induction fuel arbitrary: s ru)
  case (Suc fuel)
  show ?case
  proof (cases "window_open ru")
    case False
    then have "run (fillWindow env (Suc fuel) r) s = (Inr (), s)" using Suc.prems by (simp add: next_contact_def)
    then show ?thesis using False Suc.prems dial_progress_refl by fastforce
  next
    case True
    let ?c = "hd (ru_queue ru)" and ?s = "set_runtime r (\<lambda>ru. ru\<lparr>ru_queue := tl (ru_queue ru)\<rparr>) s"
    have h: "k_heap ?s r = Some (ru\<lparr>ru_queue := tl (ru_queue ru)\<rparr>)" using Suc.prems(1) by (simp add: set_runtime_def)
    obtain t where t: "run (dialContact env r ?c) ?s = (Inr (), t)" "one_dialled r ?s t"
      using run_dialContact [OF assms h] by blast
    from t(2) obtain ru1 where r1: "k_heap t r = Some ru1" "ru_queue ru1 = tl (ru_queue ru)" "ru_campaign ru1 = ru_campaign ru"
        "int (length (ru_activeByChannel ru1)) \<le> int (length (ru_activeByChannel ru)) + 1"
      using h by (auto simp: one_dialled_def length_update)
    have q: "ru_queue ru \<noteq> []" "int (length (ru_activeByChannel ru)) < ck_maxConcurrent (ru_campaign ru)"
      using True by (simp_all add: window_open_def)
    have step: "dial_progress r 1 s t"
      using t(2) h q(1) Suc.prems(1) r1
      by (auto simp: one_dialled_def dial_progress_def drop_Suc set_runtime_def active_count_def Suc_le_eq)
    have "length (ru_queue ru1) < fuel" using Suc.prems(2) r1(2) q(1) by (cases "ru_queue ru") auto
    from Suc.IH [OF r1(1) this] obtain s' ru' n where
      ih: "run (fillWindow env fuel r) t = (Inr (), s')" "k_heap s' r = Some ru'" "\<not> window_open ru'" "dial_progress r n t s'"
        "int (length (ru_activeByChannel ru')) \<le> max (int (length (ru_activeByChannel ru1))) (ck_maxConcurrent (ru_campaign ru1))" by blast
    have "run (fillWindow env (Suc fuel) r) s = (Inr (), s')" using True Suc.prems(1) t(1) ih(1) by (simp add: next_contact_def)
    moreover have "dial_progress r (1 + n) s s'" by (rule dial_progress_trans [OF step ih(4)])
    ultimately show ?thesis using ih(2,3,5) r1(3,4) q(2) by (intro exI [of _ s'] exI [of _ ru'] exI [of _ "1 + n"]) auto
  qed
qed simp


section \<open>Starting a campaign of the backend\<close>

definition backend_env :: "campaign_db \<Rightarrow> campaign_env \<Rightarrow> bool" where
  "backend_env db env \<longleftrightarrow>
     (\<forall>i s. ce_campaign env i s = Inr (backend_campaign db i)) \<and> (\<forall>i s. ce_contacts env i s = Inr (backend_contacts db i))"

definition pending_contacts :: "campaign_db \<Rightarrow> int \<Rightarrow> contact_row list" where
  "pending_contacts db i = sort_key cc_id (filter (\<lambda>c. cc_status c = ''pending'') (campaign_contacts db i))"

lemma backend_contacts_first:
  assumes "find_campaign db i = Some c"
  shows "backend_contacts db i = Some (take 200 (pending_contacts db i))"
proof -
  have "trim ''pending'' = ''pending''" by code_simp
  then show ?thesis using assms
    by (simp add: backend_contacts_def listContacts_def getById_def page_def pending_contacts_def Let_def)
qed

lemma run_startCampaign:
  assumes "redis_up env" "backend_env db env" "find_campaign db i = Some c" "ca_flowId c = Some f" "f \<noteq> 0" "ca_trunkId c = Some t" "t \<noteq> 0"
    "200 < fuel"
  shows "\<exists>s' ru n. run (startCampaign env fuel i) s = (Inr (), s') \<and> map_of (k_runtimes s') i = Some (k_next s)
    \<and> k_heap s' (k_next s) = Some ru \<and> ru_campaign ru = campaign_of_view (mapCampaignRow db c) \<and> \<not> window_open ru
    \<and> n \<le> min 200 (length (pending_contacts db i))
    \<and> ru_queue ru = drop n (map contact_of_row (take 200 (pending_contacts db i)))
    \<and> ru_dialedCount ru + ru_failedCount ru = int n \<and> active_count s' i = ru_dialedCount ru
    \<and> int (length (ru_activeByChannel ru)) \<le> max 0 (ck_maxConcurrent (ru_campaign ru))"
proof -
  let ?k = "campaign_of_view (mapCampaignRow db c)" and ?cs = "map contact_of_row (take 200 (pending_contacts db i))"
  let ?s = "s\<lparr>k_next := Suc (k_next s), k_heap := (k_heap s)(k_next s \<mapsto> new_runtime ?k ?cs),
     k_runtimes := AList.update i (k_next s) (k_runtimes s), k_active := (k_active s)(i \<mapsto> 0)\<rparr>"
  have k: "backend_campaign db i = Some (mapCampaignRow db c)" using assms(3) by (simp add: backend_campaign_def getById_def)
  have id: "ck_id ?k = i" "ck_flowId ?k = Some f" "ck_trunkId ?k = Some t"
    using assms(3-6) find_campaign_Some by (auto simp: campaign_of_view_def Let_def)
  have run: "run (startCampaign env fuel i) s = run (fillWindow env fuel (k_next s)) ?s"
    using assms(1,2,5,7) k backend_contacts_first [OF assms(3)] id
    by (simp add: startCampaign_def fetchCampaign_def fetchPendingContacts_def backend_env_def run_getPublisher) (simp add: redis_up_def)
  have heap: "k_heap ?s (k_next s) = Some (new_runtime ?k ?cs)" by simp
  have "length (ru_queue (new_runtime ?k ?cs)) < fuel" using assms(8) by (simp add: new_runtime_def)
  from run_fillWindow [OF assms(1) heap this] obtain s' ru n where
    f: "run (fillWindow env fuel (k_next s)) ?s = (Inr (), s')" "k_heap s' (k_next s) = Some ru" "\<not> window_open ru"
      "dial_progress (k_next s) n ?s s'"
      "int (length (ru_activeByChannel ru)) \<le> max (int (length (ru_activeByChannel (new_runtime ?k ?cs)))) (ck_maxConcurrent (ru_campaign (new_runtime ?k ?cs)))"
    by blast
  moreover have "map_of (k_runtimes s') i = Some (k_next s)"
    using f(4) by (auto simp: dial_progress_def update_conv')
  ultimately show ?thesis unfolding run using id(1)
    by (intro exI [of _ s'] exI [of _ ru] exI [of _ n]) (auto simp: dial_progress_def new_runtime_def active_count_def)
qed

section \<open>The last call ends with a retry\<close>

definition logs_up :: "campaign_env \<Rightarrow> bool" where
  "logs_up env \<longleftrightarrow> (\<forall>ch s. \<exists>i. ce_callLog env ch s = Inr i)"

lemma run_call_log: "logs_up env \<Longrightarrow> \<exists>l. run (call_log_tries env ch n) s = (Inr l, s)"
proof (induction n)
  case (Suc n)
  obtain i where "ce_callLog env ch s = Inr i" using Suc.prems by (auto simp: logs_up_def)
  then show ?case using Suc by simp
qed simp

definition first_with :: "string \<Rightarrow> campaign_store \<Rightarrow> (int \<times> nat) option" where
  "first_with ch s = List.find (\<lambda>(i, r). \<exists>ru \<in> set_option (k_heap s r). map_of (ru_activeByChannel ru) ch \<noteq> None) (k_runtimes s)"

lemma run_last_call_retry:
  assumes "redis_up env" "logs_up env" "first_with ch s = Some (i, r)" "i \<noteq> 0" "k_heap s r = Some ru"
    "ru_activeByChannel ru = [(ch, a)]" "ru_queue ru = []" "\<not> ru_stopRequested ru" "k_calls s a = Some call"
    "shouldRetry ru call (determineOutcome call cause)" "0 < fuel"
  shows "\<exists>s'. run (handleChannelEnd env fuel ch cause) s = (Inr True, s') \<and> CampaignCompleted i \<in> set (k_sent s')
    \<and> map_of (k_runtimes s') i = None \<and> k_heap s' r = Some (ru\<lparr>ru_activeByChannel := []\<rparr>)
    \<and> k_timers s' = k_timers s @ [(r, (ac_contact call)\<lparr>co_attempts := ac_attemptNumber call\<rparr>, ck_retryIntervalMinutes (ru_campaign ru) * 60000)]"
proof -
  obtain n where n: "fuel = Suc n" using assms(11) by (cases fuel) auto
  have take: "take_call ch s = (Some (i, r, a), set_runtime r (\<lambda>ru. ru\<lparr>ru_activeByChannel := AList.delete ch (ru_activeByChannel ru)\<rparr>) s)"
    using assms(3-6) by (simp add: take_call_def first_with_def)
  let ?ru = "ru\<lparr>ru_activeByChannel := []\<rparr>"
  let ?s1 = "s\<lparr>k_heap := (k_heap s)(r \<mapsto> ?ru), k_active := (k_active s)(i \<mapsto> case_option 0 id (k_active s i) - 1)\<rparr>"
  let ?s2 = "?s1\<lparr>k_timers := k_timers s @ [(r, (ac_contact call)\<lparr>co_attempts := ac_attemptNumber call\<rparr>, ck_retryIntervalMinutes (ru_campaign ru) * 60000)]\<rparr>"
  have "determineOutcome call cause \<noteq> ''answered''" using assms(10) by (auto simp: shouldRetry_def)
  then have settle: "settle_call r a cause ?s1 = (Some (?ru, call, determineOutcome call cause), ?s2)"
    using assms(9,10) by (simp add: settle_call_def shouldRetry_def Let_def)
  obtain l where l: "\<And>s. run (findCallLogId env ch) s = (Inr (l s), s)"
    using run_call_log [OF assms(2)] unfolding findCallLogId_def by metis
  show ?thesis
    using assms(5-8) n
    by (simp add: handleChannelEnd_def decrementActive_def take run_active_command [OF assms(1)] set_runtime_def settle l run_publish [OF assms(1)]
      run_publishStats [OF assms(1)] next_contact_def window_open_def finish_campaign_def drop_runtime_def delete_conv')
qed


text \<open>The timer of that retry fires when the runtime is no longer in the map.\<close>

lemma run_retry:
  assumes "redis_up env" "k_heap s r = Some ru" "k_timers s = ts @ [(r, c, d)]" "ru_queue ru = []" "ru_activeByChannel ru = []"
    "\<not> ru_stopRequested ru" "1 \<le> ck_maxConcurrent (ru_campaign ru)" "1 < fuel"
  shows "\<exists>s' ru'. run (retry_fires env fuel (length ts)) s = (Inr (), s') \<and> k_heap s' r = Some ru' \<and> k_runtimes s' = k_runtimes s
    \<and> ru_queue ru' = [] \<and> ru_dialedCount ru' + ru_failedCount ru' = ru_dialedCount ru + ru_failedCount ru + 1"
proof -
  let ?ru = "ru\<lparr>ru_queue := [c]\<rparr>"
  let ?s = "set_runtime r (\<lambda>ru. ru\<lparr>ru_queue := ru_queue ru @ [c]\<rparr>) (s\<lparr>k_timers := ts\<rparr>)"
  have run: "run (retry_fires env fuel (length ts)) s = run (fillWindow env fuel r) ?s"
    using assms(3) by (simp add: retry_fires_def)
  have heap: "k_heap ?s r = Some ?ru" using assms(2,4) by (simp add: set_runtime_def)
  have "length (ru_queue ?ru) < fuel" using assms(8) by simp
  from run_fillWindow [OF assms(1) heap this] obtain s' ru' n where
    f: "run (fillWindow env fuel r) ?s = (Inr (), s')" "k_heap s' r = Some ru'" "\<not> window_open ru'" "dial_progress r n ?s s'" by blast
  have p: "n \<le> 1" "ru_queue ru' = drop n [c]" "ru_campaign ru' = ru_campaign ru" "ru_stopRequested ru' = ru_stopRequested ru"
      "ru_dialedCount ru \<le> ru_dialedCount ru'" "ru_failedCount ru \<le> ru_failedCount ru'" "k_runtimes s' = k_runtimes s"
      "ru_dialedCount ru' + ru_failedCount ru' = ru_dialedCount ru + ru_failedCount ru + int n"
      "ru_dialedCount ru' = ru_dialedCount ru \<longrightarrow> ru_activeByChannel ru' = []"
    using f(2,4) heap assms(5) by (auto simp: dial_progress_def set_runtime_def)
  have "n = 0 \<Longrightarrow> window_open ru'" using p assms(6,7) by (simp add: window_open_def)
  then have "n = 1" using f(3) p(1) by linarith
  then show ?thesis unfolding run using f(1,2) p by simp
qed

lemma id_argument_int:
  assumes "0 < j" "j < double_limit" "k < length args" "args ! k = show_int j"
  shows "id_argument args k = j"
proof -
  have "show_int j = show_nat (nat j)" using assms(1) by (simp add: show_int_def)
  moreover have "string_to_number (show_nat (nat j)) = num_of_int (int (nat j))" using assms(1,2) by (intro string_to_number_nat) simp
  ultimately show ?thesis using assms by (simp add: id_argument_def)
qed

lemma run_stasis_no_runtime:
  assumes "map_of (k_runtimes s) i = None" "0 < i" "i < double_limit" "0 < j" "j < double_limit"
  shows "run (handleStasisStart env [''campaign'', show_int i, show_int j] ch) s
    = (Inr True, s\<lparr>k_channel := k_channel s @ [HangupChannel ch]\<rparr>)"
proof -
  have "id_argument [''campaign'', show_int i, show_int j] 1 = i" "id_argument [''campaign'', show_int i, show_int j] 2 = j"
    by (rule id_argument_int; use assms in simp)+
  then show ?thesis using assms(1,2,4)
    by (cases "ce_hangup env ch s") (simp_all add: handleStasisStart_def lookup_call_def request_hangup_def Let_def)
qed

end
