(* ===== verification/CampaignProperties.thy ===== *)
theory CampaignProperties
  imports CampaignEngineLaws
begin

text \<open>
  What holds of campaigns: the import of contacts, the tables and the life of a campaign in the backend, and
  the engine that dials it.  Each property is followed by an instance on a small example.
\<close>

section \<open>Reading contact files\<close>

text \<open>C27: a CSV file written with quoted fields is read back by parseCsv: its header, its rows numbered from
  2 and the cell of every row under every header, for trimmed cells without newlines and distinct headers.\<close>

theorem csv_file_read:
  assumes "headers \<noteq> []" "distinct headers" "\<forall>r \<in> set rows. length r = length headers"
    and "\<forall>r \<in> set (headers # rows). \<forall>f \<in> set r. trim f = f \<and> CHR 0x0A \<notin> set f"
  shows "fst (parseCsv (csv_file headers rows)) = headers
    \<and> map cr_rowNumber (snd (parseCsv (csv_file headers rows))) = map (\<lambda>i. i + 2) [0..<length rows]
    \<and> map (\<lambda>r. map (row_value r) headers) (snd (parseCsv (csv_file headers rows))) = rows"
  using csv_file_roundtrip [OF assms] by blast

theorem csv_file_read_witness:
  "map (\<lambda>r. map (row_value r) [''phone_number'', ''name'']) (snd (parseCsv (csv_file [''phone_number'', ''name'']
     [[''+12125550100'', ''Smith, Ann''], [''555'', [CHR 0x22, CHR ''x'', CHR 0x22]]])))
   = [[''+12125550100'', ''Smith, Ann''], [''555'', [CHR 0x22, CHR ''x'', CHR 0x22]]]"
proof -
  have "trim f = f \<and> CHR 0x0A \<notin> set f"
    if "f \<in> {''phone_number'', ''name'', ''+12125550100'', ''Smith, Ann'', ''555'', [CHR 0x22, CHR ''x'', CHR 0x22]}" for f
    using that by (elim insertE emptyE; hypsubst; code_simp)
  then show ?thesis
    using csv_file_read [of "[''phone_number'', ''name'']" "[[''+12125550100'', ''Smith, Ann''], [''555'', [CHR 0x22, CHR ''x'', CHR 0x22]]]"]
    by simp
qed

section \<open>An example\<close>

definition demo_lib :: phone_lib where
  "demo_lib = \<lparr>ph_valid = (\<lambda>v region. v = ''2125550100''),
     ph_parse = (\<lambda>v region. if v = ''2125550100'' then Some (True, ''+12125550100'') else None)\<rparr>"

lemma demo_lib_e164: "e164 demo_lib"
proof -
  have "trim ''+12125550100'' = ''+12125550100''" by code_simp
  then show ?thesis by (simp add: e164_def demo_lib_def)
qed

definition no_campaigns :: campaign_db where
  "no_campaigns = \<lparr>cd_campaigns = [], cd_contacts = [], cd_attempts = [], cd_nextCampaign = 1, cd_nextContact = 1, cd_nextAttempt = 1,
     cd_flows = [(7, ''main'')], cd_trunks = [(3, ''provider'', Some ''4930'')], cd_callLogs = [], cd_ready = True, cd_sent = []\<rparr>"

definition demo_campaign :: campaign where
  "demo_campaign = \<lparr>ca_id = 1, ca_name = ''spring'', ca_status = ''draft'', ca_flowId = Some 7, ca_trunkId = Some 3, ca_callerId = None,
     ca_defaultCountry = ''US'', ca_scheduledAt = Some 1000, ca_maxConcurrent = 2, ca_maxRetries = 1, ca_retryIntervalMinutes = 30,
     ca_totalContacts = 0, ca_dialedCount = 0, ca_answeredCount = 0, ca_failedCount = 0, ca_createdAt = 0\<rparr>"

definition demo_campaigns :: campaign_db where
  "demo_campaigns = no_campaigns\<lparr>cd_campaigns := [demo_campaign], cd_nextCampaign := 2\<rparr>"

definition demo_payload :: campaign_payload where
  "demo_payload = \<lparr>cp_name = Some ''spring'', cp_flowId = Some (Some (num_of_int 7)), cp_trunkId = Some (Some (num_of_int 3)), cp_callerId = None,
     cp_defaultCountry = None, cp_scheduledAt = Some (Some ''later''), cp_maxConcurrent = Some (num_of_int 2), cp_maxRetries = Some (num_of_int 1),
     cp_retryIntervalMinutes = None\<rparr>"

definition demo_file :: string where
  "demo_file = ''phone_number'' @ [CHR 0x0A] @ ''2125550100'' @ [CHR 0x0A] @ ''2125550100'' @ [CHR 0x0A] @ ''555''"

lemma demo_created: "\<exists>v. create_campaign (\<lambda>s. Some 1000) 0 demo_payload no_campaigns = ok (v, demo_campaigns)"
proof -
  have "case normalizePayload demo_payload False of Inl _ \<Rightarrow> False
    | Inr q \<Rightarrow> insert_campaign (\<lambda>s. Some 1000) 0 q no_campaigns = ok (1, demo_campaigns)" by code_simp
  then obtain q where "normalizePayload demo_payload False = ok q" "insert_campaign (\<lambda>s. Some 1000) 0 q no_campaigns = ok (1, demo_campaigns)"
    by (auto split: sum.splits)
  moreover have "tryAutoSchedule 0 1 demo_campaigns = ok demo_campaigns" by code_simp
  moreover have "find_campaign demo_campaigns 1 = Some demo_campaign" by (simp add: find_campaign_def demo_campaigns_def demo_campaign_def)
  ultimately show ?thesis by (simp add: create_campaign_def getById_def)
qed

text \<open>One number is new, one is a duplicate and one is not a number.\<close>

lemma demo_uploaded:
  "case uploadContacts demo_lib 1 demo_file demo_campaigns of
     Inl _ \<Rightarrow> False
   | Inr (ans, db) \<Rightarrow> ua_imported ans = 1 \<and> ua_skipped ans = 2 \<and> map cc_phoneNumber (cd_contacts db) = [''+12125550100'']"
  by code_simp


definition empty_tables :: "campaign_db \<Rightarrow> bool" where
  "empty_tables db \<longleftrightarrow> cd_campaigns db = [] \<and> cd_contacts db = [] \<and> cd_attempts db = [] \<and> 0 < cd_nextCampaign db \<and> cd_sent db = []"

lemma empty_tables_inv: "empty_tables db \<Longrightarrow> campaign_inv db \<and> started_once db"
  by (simp add: empty_tables_def campaign_inv_def campaigns_ok_def contacts_ok_def totals_ok_def attempts_ok_def campaign_contacts_def
      started_once_def starts_def)

lemma no_campaigns_empty: "empty_tables no_campaigns"
  by (simp add: empty_tables_def no_campaigns_def)

lemma demo_reached: "campaign_runs demo_lib no_campaigns demo_campaigns"
  using demo_created step_create [of "\<lambda>s. Some 1000" 0 demo_payload no_campaigns] by (auto simp: campaign_runs_def)

section \<open>The tables\<close>

text \<open>C21: in every state reached from empty tables by requests, timers and messages of the engine, a campaign has
  an id of its own, a name, one of six statuses, between 1 and 10 concurrent calls, at most 5 retries and at least
  5 minutes between them; its total is the number of its contacts, whose numbers are distinct; and every attempt
  belongs to a campaign and a contact that exist.\<close>

theorem campaign_tables:
  assumes "empty_tables db" "e164 lib" "campaign_runs lib db db'"
  shows "distinct (map ca_id (cd_campaigns db'))
    \<and> (\<forall>c \<in> set (cd_campaigns db'). ca_name c \<noteq> []
        \<and> ca_status c \<in> {''draft'', ''scheduled'', ''running'', ''cancelling'', ''completed'', ''cancelled''}
        \<and> ca_maxConcurrent c \<in> {1..10} \<and> ca_maxRetries c \<in> {0..5} \<and> 5 \<le> ca_retryIntervalMinutes c
        \<and> ca_totalContacts c = int (length (campaign_contacts db' (ca_id c)))
        \<and> distinct (map cc_phoneNumber (campaign_contacts db' (ca_id c))))
    \<and> (\<forall>x \<in> set (cd_contacts db'). cc_campaignId x \<in> ca_id ` set (cd_campaigns db'))
    \<and> (\<forall>a \<in> set (cd_attempts db'). at_campaignId a \<in> ca_id ` set (cd_campaigns db') \<and> at_contactId a \<in> cc_id ` set (cd_contacts db'))"
proof -
  have "campaign_inv db'" using campaign_runs_inv [OF assms(3,2)] empty_tables_inv [OF assms(1)] by blast
  then show ?thesis
    by (simp add: campaign_inv_def campaigns_ok_def contacts_ok_def totals_ok_def attempts_ok_def campaign_row_ok_def campaign_statuses_def)
qed

theorem campaign_tables_witness: "ca_maxConcurrent demo_campaign \<in> {1..10} \<and> campaign_contacts demo_campaigns 1 = []"
proof -
  have "demo_campaign \<in> set (cd_campaigns demo_campaigns)" by (simp add: demo_campaigns_def)
  with campaign_tables [OF no_campaigns_empty demo_lib_e164 demo_reached]
  have "ca_maxConcurrent demo_campaign \<in> {1..10}" "ca_totalContacts demo_campaign = int (length (campaign_contacts demo_campaigns (ca_id demo_campaign)))"
    by blast+
  then show ?thesis by (simp add: demo_campaign_def)
qed

section \<open>Importing\<close>

text \<open>C25: an accepted upload accounts for every row of the file as imported or skipped, keeps at most ten reasons
  and one line that counts the others, appends exactly the imported contacts, pending and never dialled, leaves
  no number twice in the campaign and misses no valid number of the file, and sets the total to the number of
  contacts.\<close>

theorem upload_accounts:
  assumes "campaign_inv db" "e164 lib" "uploadContacts lib i input db = ok (ans, db')"
  shows "\<exists>c new. find_campaign db i = Some c \<and> cd_contacts db' = cd_contacts db @ new \<and> length new = ua_imported ans
    \<and> ua_total ans = ua_imported ans + ua_skipped ans \<and> ua_total ans = length (snd (parseCsv input))
    \<and> length (ua_reasons ans) = min 11 (ua_skipped ans)
    \<and> (\<forall>x \<in> set new. cc_campaignId x = i \<and> cc_status x = ''pending'' \<and> cc_attempts x = 0)
    \<and> distinct (map cc_phoneNumber (campaign_contacts db' i))
    \<and> (\<forall>row \<in> set (snd (parseCsv input)). \<forall>n. row_number lib (ca_defaultCountry c) row = Some n \<longrightarrow> n \<noteq> [] \<longrightarrow>
          n \<in> cc_phoneNumber ` set (campaign_contacts db' i))
    \<and> (\<exists>c'. find_campaign db' i = Some c' \<and> ca_totalContacts c' = int (length (campaign_contacts db' i)))"
  using assms(3)
proof (rule upload_cases)
  fix c fin assume c: "find_campaign db i = Some c"
    "fold (import_row lib i (ca_defaultCountry (cv_row (mapCampaignRow db c)))) (snd (parseCsv input)) (first_import i db) = fin"
    and a: "ua_imported ans = is_imported fin" "ua_skipped ans = is_skipped fin" "ua_total ans = is_imported fin + is_skipped fin"
    "ua_reasons ans = is_reasons fin @ (if length (is_reasons fin) < is_skipped fin
       then [''... and '' @ show_nat (is_skipped fin - length (is_reasons fin)) @ '' more''] else [])"
    and db': "db' = set_campaign i (\<lambda>c. c\<lparr>ca_totalContacts := int (length (campaign_contacts (is_db fin) i))\<rparr>) (is_db fin)"
  have country: "ca_defaultCountry (cv_row (mapCampaignRow db c)) = ca_defaultCountry c"
    using assms(1) find_campaign_Some [OF c(1)] by (simp add: view_country campaign_inv_def campaigns_ok_def campaign_row_ok_def)
  have i: "i \<in> ca_id ` set (cd_campaigns db)" using find_campaign_Some [OF c(1)] by force
  from import_rows [OF assms(2) i first_import_inv [OF assms(1)] c(2)]
  have fin: "import_inv i db fin" "is_imported fin + is_skipped fin = length (snd (parseCsv input))"
      "\<forall>row \<in> set (snd (parseCsv input)). \<forall>n. row_number lib (ca_defaultCountry c) row = Some n \<longrightarrow> n \<noteq> [] \<longrightarrow> n \<in> set (is_seen fin)"
    unfolding country by (simp_all add: first_import_def)
  have "length (is_reasons fin) = min 10 (is_skipped fin)"
    using import_rows_reasons [of "first_import i db" lib i _ "snd (parseCsv input)"] c(2) by (auto simp: first_import_def)
  then have "length (ua_reasons ans) = min 11 (ua_skipped ans)" by (simp add: a)
  moreover obtain new where "cd_contacts db' = cd_contacts db @ new" "length new = is_imported fin"
      "\<forall>x \<in> set new. cc_campaignId x = i \<and> cc_status x = ''pending'' \<and> cc_attempts x = 0"
    using fin(1) by (auto simp: import_inv_def db')
  moreover have "campaign_inv db'" by (rule upload_inv [OF assms])
  moreover have "find_campaign db' i = Some (c\<lparr>ca_totalContacts := int (length (campaign_contacts db' i))\<rparr>)"
  proof -
    have "find_campaign (is_db fin) i = Some c" using fin(1) c(1) by (simp add: import_inv_def find_campaign_def)
    then show ?thesis using find_campaign_Some [OF c(1)] unfolding db' by (subst find_set_campaign) simp_all
  qed
  ultimately show ?thesis using c(1) fin(1-3) a(1-3)
    by (intro exI [of _ c] exI [of _ new]) (simp add: campaign_inv_def contacts_ok_def import_inv_def db')
qed

theorem upload_accounts_witness:
  "\<exists>ans db'. uploadContacts demo_lib 1 demo_file demo_campaigns = ok (ans, db') \<and> ua_total ans = 3 \<and> length (ua_reasons ans) = 2
    \<and> distinct (map cc_phoneNumber (campaign_contacts db' 1))"
proof -
  obtain ans db' where u: "uploadContacts demo_lib 1 demo_file demo_campaigns = ok (ans, db')" "ua_imported ans = 1" "ua_skipped ans = 2"
    using demo_uploaded by (auto split: sum.splits prod.splits)
  have "campaign_inv demo_campaigns"
    using campaign_runs_inv [OF demo_reached demo_lib_e164] empty_tables_inv [OF no_campaigns_empty] by blast
  from upload_accounts [OF this demo_lib_e164 u(1)] u show ?thesis by auto
qed


section \<open>The life of a campaign\<close>




section \<open>Filling the window\<close>

text \<open>C24: fillWindow alone ends after at most one round for each queued contact.  The contacts it has taken from
  the front of the queue are each counted once, as dialled or as failed, and it stops exactly when the campaign
  is stopped, the window is full or the queue is empty; the window never grows beyond maxConcurrent calls.\<close>

theorem fillWindow_alone:
  assumes "redis_up env" "k_heap s r = Some ru" "length (ru_queue ru) < fuel"
  shows "\<exists>s' ru' n. run (fillWindow env fuel r) s = (Inr (), s') \<and> k_heap s' r = Some ru'
    \<and> n \<le> length (ru_queue ru) \<and> ru_queue ru' = drop n (ru_queue ru)
    \<and> ru_dialedCount ru' + ru_failedCount ru' = ru_dialedCount ru + ru_failedCount ru + int n
    \<and> (ru_stopRequested ru' \<or> ck_maxConcurrent (ru_campaign ru') \<le> int (length (ru_activeByChannel ru')) \<or> ru_queue ru' = [])
    \<and> int (length (ru_activeByChannel ru')) \<le> max (int (length (ru_activeByChannel ru))) (ck_maxConcurrent (ru_campaign ru))"
proof -
  from run_fillWindow [OF assms] obtain s' ru' n where
    "run (fillWindow env fuel r) s = (Inr (), s')" "k_heap s' r = Some ru'" "\<not> window_open ru'" "dial_progress r n s s'"
    "int (length (ru_activeByChannel ru')) \<le> max (int (length (ru_activeByChannel ru))) (ck_maxConcurrent (ru_campaign ru))" by blast
  then show ?thesis using assms(2) by (auto simp: dial_progress_def window_open_def)
qed

text \<open>Asterisk answers the n-th request with a channel named after it.\<close>

definition campaign_demo_env :: campaign_env where
  "campaign_demo_env = \<lparr>ce_campaign = (\<lambda>i s. Inr (backend_campaign demo_campaigns i)), ce_contacts = (\<lambda>i s. Inr (backend_contacts demo_campaigns i)),
     ce_trunk = (\<lambda>t. None), ce_originate = (\<lambda>q s. Inr (Some (''ch'' @ show_nat (length (k_dialled s))))),
     ce_publisher = (\<lambda>s. None), ce_redis = (\<lambda>s. None), ce_flow = (\<lambda>i s. Inr None), ce_callLog = (\<lambda>ch s. Inr None),
     ce_answer = (\<lambda>ch s. Inr ()), ce_hangup = (\<lambda>ch s. Inr ()), ce_runFlow = (\<lambda>x s. Inr ()), ce_now = (\<lambda>s. 0)\<rparr>"

lemma campaign_demo_env_up: "redis_up campaign_demo_env" "logs_up campaign_demo_env" "backend_env demo_campaigns campaign_demo_env"
  by (simp_all add: redis_up_def logs_up_def backend_env_def campaign_demo_env_def)

definition demo_record :: campaign_record where
  "demo_record = campaign_of_view (mapCampaignRow demo_campaigns demo_campaign)"

definition demo_contact :: "int \<Rightarrow> contact" where
  "demo_contact i = \<lparr>co_id = i, co_phoneNumber = ''+12125550100'', co_name = None, co_attempts = 0\<rparr>"

definition no_calls :: campaign_store where
  "no_calls = \<lparr>k_runtimes = [], k_heap = (\<lambda>r. None), k_calls = (\<lambda>a. None), k_next = 0, k_timers = [], k_active = (\<lambda>i. None),
     k_sessions = [], k_sent = [], k_dialled = [], k_channel = []\<rparr>"

definition demo_store :: campaign_store where
  "demo_store = no_calls\<lparr>k_runtimes := [(1, 0)], k_heap := [0 \<mapsto> new_runtime demo_record (map demo_contact [1, 2, 3])], k_next := 1\<rparr>"

theorem fillWindow_alone_witness:
  "\<exists>s' ru'. run (fillWindow campaign_demo_env 4 0) demo_store = (Inr (), s') \<and> k_heap s' 0 = Some ru' \<and> length (ru_activeByChannel ru') \<le> 2"
proof -
  let ?ru = "new_runtime demo_record (map demo_contact [1, 2, 3])"
  have "k_heap demo_store 0 = Some ?ru" "length (ru_queue ?ru) < 4" by (simp_all add: demo_store_def new_runtime_def)
  moreover have "ck_maxConcurrent (ru_campaign ?ru) = 2" "ru_activeByChannel ?ru = []"
    by (simp_all add: new_runtime_def demo_record_def campaign_of_view_def demo_campaign_def int_or_def Let_def)
  ultimately show ?thesis using fillWindow_alone [OF campaign_demo_env_up(1), of demo_store 0 ?ru 4] by auto
qed

text \<open>Alone, startCampaign of a campaign with flow and trunk asks the backend for 1000 pending contacts and gets
  at most 200: it registers a runtime whose window is filled from the first 200 pending contacts in the order of
  their ids and whose queue is the rest of these 200, however many are pending, and sets the counter of active calls
  to the calls it has placed.\<close>

theorem startCampaign_first_200:
  assumes "redis_up env" "backend_env db env" "find_campaign db i = Some c" "ca_flowId c = Some f" "f \<noteq> 0" "ca_trunkId c = Some t" "t \<noteq> 0"
    "200 < fuel"
  shows "\<exists>s' ru n. run (startCampaign env fuel i) s = (Inr (), s') \<and> map_of (k_runtimes s') i = Some (k_next s) \<and> k_heap s' (k_next s) = Some ru
    \<and> ru_queue ru = drop n (map contact_of_row (take 200 (pending_contacts db i)))
    \<and> ru_dialedCount ru + ru_failedCount ru = int n \<and> n \<le> min 200 (length (pending_contacts db i)) \<and> active_count s' i = ru_dialedCount ru
    \<and> int (length (ru_activeByChannel ru)) \<le> max 0 (ck_maxConcurrent (campaign_of_view (mapCampaignRow db c)))
    \<and> \<not> window_open ru"
  using run_startCampaign [OF assms, of s] by fastforce

theorem startCampaign_first_200_witness:
  "\<exists>s' ru. run (startCampaign campaign_demo_env 201 1) no_calls = (Inr (), s') \<and> map_of (k_runtimes s') 1 = Some 0 \<and> k_heap s' 0 = Some ru
    \<and> length (ru_activeByChannel ru) \<le> 2"
proof -
  have "find_campaign demo_campaigns 1 = Some demo_campaign" "ca_flowId demo_campaign = Some 7" "ca_trunkId demo_campaign = Some 3"
    by (simp_all add: find_campaign_def demo_campaigns_def demo_campaign_def)
  moreover have "ck_maxConcurrent (campaign_of_view (mapCampaignRow demo_campaigns demo_campaign)) = 2" "k_next no_calls = 0"
    by (simp_all add: campaign_of_view_def demo_campaign_def int_or_def Let_def no_calls_def)
  ultimately show ?thesis
    using startCampaign_first_200 [OF campaign_demo_env_up(1,3), of 1 demo_campaign 7 3 201 no_calls] by auto
qed


section \<open>Attempts and retries\<close>


text \<open>The one contact of the campaign is being called.\<close>

definition demo_call :: active_call where
  "demo_call = \<lparr>ac_campaignId = 1, ac_contact = demo_contact 5, ac_phoneNumber = ''+12125550100'', ac_startedAt = 0, ac_attemptNumber = 1,
     ac_flowRan = False\<rparr>"

definition demo_runtime :: campaign_runtime where
  "demo_runtime = (new_runtime demo_record [])\<lparr>ru_activeByChannel := [(''ch0'', 0)], ru_dialedCount := 1\<rparr>"

definition calling :: campaign_store where
  "calling = no_calls\<lparr>k_runtimes := [(1, 7)], k_heap := [7 \<mapsto> demo_runtime], k_calls := [0 \<mapsto> demo_call], k_next := 8\<rparr>"

lemma demo_call_busy: "determineOutcome demo_call (Some ''User busy'') = ''busy''" "ac_attemptNumber demo_call = 1"
  by code_simp+





text \<open>C26: when the last call of a campaign ends busy or unanswered within the limit of retries, a retry timer is set,
  and the campaign is nevertheless reported as completed and its runtime dropped from the map.  When the timer
  fires the contact is used up, called if the dialling succeeds, and whatever channel of that contact enters the
  application is hung up, because the campaign has no runtime any more.\<close>

theorem completed_before_retry:
  assumes "redis_up env" "logs_up env" "first_with ch s = Some (i, r)" "0 < i" "i < double_limit" "k_heap s r = Some ru"
    and "ru_activeByChannel ru = [(ch, a)]" "ru_queue ru = []" "\<not> ru_stopRequested ru" "1 \<le> ck_maxConcurrent (ru_campaign ru)"
    and "k_calls s a = Some call" "determineOutcome call cause \<in> {''busy'', ''no_answer''}"
      "ac_attemptNumber call \<le> ck_maxRetries (ru_campaign ru)"
    and "0 < co_id (ac_contact call)" "co_id (ac_contact call) < double_limit" "1 < fuel"
  shows "\<exists>s1 s2 ru2. run (handleChannelEnd env fuel ch cause) s = (Inr True, s1) \<and> CampaignCompleted i \<in> set (k_sent s1)
    \<and> length (k_timers s1) = Suc (length (k_timers s))
    \<and> run (retry_fires env fuel (length (k_timers s))) s1 = (Inr (), s2) \<and> k_heap s2 r = Some ru2
    \<and> ru_dialedCount ru2 + ru_failedCount ru2 = ru_dialedCount ru + ru_failedCount ru + 1
    \<and> (\<forall>ch2. run (handleStasisStart env [''campaign'', show_int i, show_int (co_id (ac_contact call))] ch2) s2
          = (Inr True, s2\<lparr>k_channel := k_channel s2 @ [HangupChannel ch2]\<rparr>))"
proof -
  have retry: "shouldRetry ru call (determineOutcome call cause)" using assms(12,13) by (simp add: shouldRetry_def)
  from assms(4) have "i \<noteq> 0" by simp
  moreover have "0 < fuel" using assms(16) by simp
  ultimately obtain s1 where s1: "run (handleChannelEnd env fuel ch cause) s = (Inr True, s1)" "CampaignCompleted i \<in> set (k_sent s1)"
      "map_of (k_runtimes s1) i = None" "k_heap s1 r = Some (ru\<lparr>ru_activeByChannel := []\<rparr>)"
      "k_timers s1 = k_timers s @ [(r, (ac_contact call)\<lparr>co_attempts := ac_attemptNumber call\<rparr>, ck_retryIntervalMinutes (ru_campaign ru) * 60000)]"
    using run_last_call_retry [OF assms(1-3) _ assms(6-9,11) retry] by blast
  from run_retry [OF assms(1) s1(4,5), of fuel] assms(8-10,16) obtain s2 ru2 where
    s2: "run (retry_fires env fuel (length (k_timers s))) s1 = (Inr (), s2)" "k_heap s2 r = Some ru2" "k_runtimes s2 = k_runtimes s1"
      "ru_dialedCount ru2 + ru_failedCount ru2 = ru_dialedCount ru + ru_failedCount ru + 1" by auto
  have "map_of (k_runtimes s2) i = None" using s1(3) s2(3) by simp
  from run_stasis_no_runtime [OF this assms(4,5,14,15)] show ?thesis using s1 s2 by (intro exI [of _ s1] exI [of _ s2] exI [of _ ru2]) simp
qed

theorem completed_before_retry_witness:
  "\<exists>s1 s2. run (handleChannelEnd campaign_demo_env 2 ''ch0'' (Some ''User busy'')) calling = (Inr True, s1) \<and> CampaignCompleted 1 \<in> set (k_sent s1)
    \<and> run (retry_fires campaign_demo_env 2 0) s1 = (Inr (), s2)
    \<and> k_channel (snd (run (handleStasisStart campaign_demo_env [''campaign'', show_int 1, show_int 5] ''ch1'') s2)) = k_channel s2 @ [HangupChannel ''ch1'']"
proof -
  have "first_with ''ch0'' calling = Some (1, 7)" "k_heap calling 7 = Some demo_runtime" "k_calls calling 0 = Some demo_call" "k_timers calling = []"
    by (simp_all add: first_with_def calling_def no_calls_def demo_runtime_def)
  moreover have "ru_activeByChannel demo_runtime = [(''ch0'', 0)]" "ru_queue demo_runtime = []" "\<not> ru_stopRequested demo_runtime"
      "ck_maxConcurrent (ru_campaign demo_runtime) = 2" "ck_maxRetries (ru_campaign demo_runtime) = 1" "co_id (ac_contact demo_call) = 5"
    by (simp_all add: demo_runtime_def new_runtime_def demo_record_def campaign_of_view_def demo_campaign_def demo_call_def demo_contact_def int_or_def Let_def)
  moreover have "(5 :: int) < double_limit" "(1 :: int) < double_limit" by (simp_all add: double_limit_def)
  ultimately show ?thesis
    using completed_before_retry [OF campaign_demo_env_up(1,2), of "''ch0''" calling 1 7 demo_runtime 0 demo_call "Some ''User busy''" 2] demo_call_busy
    by fastforce
qed


text \<open>Two loops on the same window, as two calls that end together start them: each sees room before the other has
  registered its call, and three calls are open where two are allowed.\<close>

lemma window_overshoot:
  "\<exists>ps s' ru. pool_runs {fillWindow campaign_demo_env 4 0} ([fillWindow campaign_demo_env 4 0, fillWindow campaign_demo_env 4 0], demo_store) (ps, s')
    \<and> k_heap s' 0 = Some ru \<and> length (ru_activeByChannel ru) = 3 \<and> ck_maxConcurrent (ru_campaign ru) = 2"
proof -
  let ?ps = "[fillWindow campaign_demo_env 4 0, fillWindow campaign_demo_env 4 0]"
  let ?c = "fold act_at [0, 1, 0, 0, 0, 0, 0, 0, 0, 0, 0, 0, 0, 0, 0, 1, 1, 1, 0] (?ps, demo_store)"
  have runs: "pool_runs {fillWindow campaign_demo_env 4 0} (?ps, demo_store) ?c" by (rule schedule_runs)
  have "map_option (\<lambda>ru. (length (ru_activeByChannel ru), ck_maxConcurrent (ru_campaign ru))) (k_heap (snd ?c) 0) = Some (3, 2)"
    by code_simp
  then show ?thesis using runs by (cases "k_heap (snd ?c) 0") (auto intro!: exI [of _ "fst ?c"] exI [of _ "snd ?c"])
qed

end
