(* ===== verification/WebhookDelivery.thy ===== *)
theory WebhookDelivery
  imports Runtime JsArith
begin

text \<open>
  The delivery of webhooks: the attempt of \<open>executors/webhook.executor.ts\<close> and the event it publishes
  on the channel \<open>webhook:delivery\<close>, the subscriber \<open>webhooks.listener.ts\<close>, and
  \<open>webhooks.service.ts\<close>, which stores the attempts, repeats the failed ones after a delay and lists them.

  The timers and the requests under way are part of the state, so that deliveries interleave; the outcome
  of a request and of an insert is part of the action.
\<close>

section \<open>Events and rows\<close>

text \<open>\<open>WebhookDeliveryEvent\<close>; the body is kept before printing, \<open>None\<close> is the empty text.\<close>

record delivery_event =
  de_flow_id :: "int option"
  de_node_id :: "string option"
  de_call_id :: "string option"
  de_url :: string
  de_method :: string
  de_headers :: "(string \<times> string) list"
  de_body :: "config option"
  de_attempt_number :: nat
  de_http_status :: "nat option"
  de_response_body :: "string option"
  de_success :: bool
  de_error_message :: "string option"
  de_retry_enabled :: bool
  de_max_attempts :: number
  de_retry_on_5xx :: bool
  de_retry_on_timeout :: bool
  de_retry_on_4xx :: bool

record delivery_row =
  dr_id :: nat
  dr_flowId :: "int option"
  dr_nodeId :: "string option"
  dr_callId :: "string option"
  dr_url :: string
  dr_attemptNumber :: nat
  dr_httpStatus :: "nat option"
  dr_responseBody :: "string option"
  dr_success :: bool
  dr_errorMessage :: "string option"
  dr_createdAt :: nat

text \<open>What \<open>fetch\<close> answers: a rejection, or a status with a body that can be read or not.\<close>

datatype fetch_outcome = Rejected string | Answered nat "string + string"

definition response_ok :: "nat \<Rightarrow> bool" where
  "response_ok status \<longleftrightarrow> 200 \<le> status \<and> status \<le> 299"

definition truncateText :: "string option \<Rightarrow> nat \<Rightarrow> string option" where
  "truncateText value maxLength =
     (case value of None \<Rightarrow> None | Some t \<Rightarrow> Some (if length t > maxLength then take maxLength t else t))"

section \<open>The attempt of the call engine\<close>

text \<open>
  The rest of \<open>fireWebhookAsync\<close>, once the request of \<^const>\<open>fireWebhookAsync\<close> has settled.  The
  status is set before the body is read, and is kept when reading fails.
\<close>

definition published_delivery :: "session \<Rightarrow> webhook_request \<Rightarrow> fetch_outcome \<Rightarrow> delivery_event" where
  "published_delivery s r outcome =
     (let (httpStatus, responseBody, success, errorMessage) =
        (case outcome of
           Rejected message \<Rightarrow> (None, None, False, Some message)
         | Answered status (Inl message) \<Rightarrow> (Some status, None, False, Some message)
         | Answered status (Inr text) \<Rightarrow> (Some status, truncateText (Some text) 500, response_ok status, None))
      in \<lparr>de_flow_id = Some (f_id (s_flow s)), de_node_id = Some (wr_nodeKey r), de_call_id = Some (s_channelId s),
          de_url = wr_url r, de_method = wr_method r, de_headers = wr_headers r, de_body = wr_body r,
          de_attempt_number = 1, de_http_status = httpStatus, de_response_body = responseBody,
          de_success = success, de_error_message = errorMessage, de_retry_enabled = wr_retryEnabled r,
          de_max_attempts = wr_maxAttempts r, de_retry_on_5xx = wr_retryOn5xx r,
          de_retry_on_timeout = wr_retryOnTimeout r, de_retry_on_4xx = wr_retryOn4xx r\<rparr>)"

section \<open>The webhooks service\<close>

text \<open>Timers carry the instant they are due, in milliseconds.\<close>

record webhook_store =
  ws_rows :: "delivery_row list"
  ws_nextId :: nat
  ws_now :: nat
  ws_timers :: "(nat \<times> delivery_event) list"
  ws_inflight :: "delivery_event list"

definition no_deliveries :: webhook_store where
  "no_deliveries = \<lparr>ws_rows = [], ws_nextId = 0, ws_now = 0, ws_timers = [], ws_inflight = []\<rparr>"

definition delivery_entity :: "nat \<Rightarrow> nat \<Rightarrow> delivery_event \<Rightarrow> delivery_row" where
  "delivery_entity i now e =
     \<lparr>dr_id = i, dr_flowId = de_flow_id e, dr_nodeId = de_node_id e, dr_callId = de_call_id e, dr_url = de_url e,
      dr_attemptNumber = de_attempt_number e, dr_httpStatus = de_http_status e,
      dr_responseBody = truncateText (de_response_body e) 500, dr_success = de_success e,
      dr_errorMessage = truncateText (de_error_message e) 500, dr_createdAt = now\<rparr>"

text \<open>\<open>saved\<close> tells whether the insert succeeds; \<open>None\<close> is the exception that is thrown on.\<close>

definition logDelivery :: "bool \<Rightarrow> delivery_event \<Rightarrow> webhook_store \<Rightarrow> webhook_store option" where
  "logDelivery saved e st =
     (if saved then Some (st\<lparr>ws_rows := ws_rows st @ [delivery_entity (ws_nextId st) (ws_now st) e],
                             ws_nextId := Suc (ws_nextId st)\<rparr>)
      else None)"

definition NETWORK_TERMS :: "string list" where
  "NETWORK_TERMS = [''timeout'', ''timed out'', ''abort'', ''network'', ''fetch failed'', ''econnrefused'',
     ''econnreset'', ''enotfound'', ''socket'']"

definition isTimeoutOrNetworkError :: "string option \<Rightarrow> bool" where
  "isTimeoutOrNetworkError errorMessage \<longleftrightarrow>
     (case errorMessage of
        None \<Rightarrow> False
      | Some m \<Rightarrow> m \<noteq> [] \<and> list_ex (\<lambda>t. has_text t (map to_lower m)) NETWORK_TERMS)"

definition shouldRetryDelivery :: "delivery_event \<Rightarrow> bool" where
  "shouldRetryDelivery e =
     (if de_success e \<or> \<not> de_retry_enabled e then False
      else if num_le (de_max_attempts e) (num_of_int (int (de_attempt_number e))) then False
      else case de_http_status e of
        Some status \<Rightarrow>
          if 500 \<le> status then de_retry_on_5xx e
          else if 400 \<le> status then de_retry_on_4xx e
          else False
      | None \<Rightarrow> de_retry_on_timeout e \<and> isTimeoutOrNetworkError (de_error_message e))"

text \<open>
  \<open>5000 * Math.pow(5, n - 1)\<close>; a timer set for more than \<open>2 ^ 31 - 1\<close> milliseconds fires after one.
\<close>

definition retry_delay :: "nat \<Rightarrow> nat" where
  "retry_delay n = 5000 * 5 ^ n div 5"

definition timer_delay :: "nat \<Rightarrow> nat" where
  "timer_delay ms = (if 1 \<le> ms \<and> ms \<le> 2147483647 then ms else 1)"

definition scheduleRetry :: "delivery_event \<Rightarrow> webhook_store \<Rightarrow> webhook_store" where
  "scheduleRetry e st =
     (if \<not> shouldRetryDelivery e then st
      else st\<lparr>ws_timers := ws_timers st @ [(ws_now st + timer_delay (retry_delay (de_attempt_number e)), e)]\<rparr>)"

text \<open>The callback of the subscription; an exception is caught and logged.\<close>

definition handle_delivery :: "bool \<Rightarrow> delivery_event \<Rightarrow> webhook_store \<Rightarrow> webhook_store" where
  "handle_delivery saved e st =
     (case logDelivery saved e st of
        None \<Rightarrow> st
      | Some st' \<Rightarrow> if \<not> de_success e then scheduleRetry e st' else st')"

text \<open>The request of a retry: method, headers and body.\<close>

definition retry_request :: "delivery_event \<Rightarrow> string \<times> (string \<times> string) list \<times> config option" where
  "retry_request e =
     (de_method e, de_headers e, if de_method e \<noteq> ''GET'' then de_body e else None)"

definition executeRetry :: "delivery_event \<Rightarrow> fetch_outcome \<Rightarrow> delivery_event" where
  "executeRetry e outcome =
     (let next = e\<lparr>de_attempt_number := de_attempt_number e + 1\<rparr>;
          failed = (\<lambda>message. next\<lparr>de_http_status := None, de_response_body := None, de_success := False,
                                   de_error_message := truncateText (Some message) 500\<rparr>) in
      case outcome of
        Rejected message \<Rightarrow> failed message
      | Answered status (Inl message) \<Rightarrow> failed message
      | Answered status (Inr text) \<Rightarrow>
          next\<lparr>de_http_status := Some status, de_response_body := truncateText (Some text) 500,
               de_success := response_ok status, de_error_message := None\<rparr>)"

text \<open>\<open>runRetry\<close>: the timer starts the request, its outcome is stored and may be retried again.\<close>

definition remove_at :: "nat \<Rightarrow> 'a list \<Rightarrow> 'a list" where
  "remove_at i xs = take i xs @ drop (Suc i) xs"

definition fire_retry :: "nat \<Rightarrow> webhook_store \<Rightarrow> webhook_store" where
  "fire_retry i st =
     (if i < length (ws_timers st) \<and> fst (ws_timers st ! i) \<le> ws_now st
      then st\<lparr>ws_timers := remove_at i (ws_timers st), ws_inflight := ws_inflight st @ [snd (ws_timers st ! i)]\<rparr>
      else st)"

definition settle_retry :: "nat \<Rightarrow> fetch_outcome \<Rightarrow> bool \<Rightarrow> webhook_store \<Rightarrow> webhook_store" where
  "settle_retry i outcome saved st =
     (if i < length (ws_inflight st)
      then (let retryEvent = executeRetry (ws_inflight st ! i) outcome;
                st1 = st\<lparr>ws_inflight := remove_at i (ws_inflight st)\<rparr> in
            case logDelivery saved retryEvent st1 of
              None \<Rightarrow> st1
            | Some st2 \<Rightarrow> if \<not> de_success retryEvent then scheduleRetry retryEvent st2 else st2)
      else st)"

section \<open>Queries\<close>

record delivery_filters =
  fl_flow_id :: "string option"
  fl_node_id :: "string option"
  fl_success :: "string option"
  fl_from_date :: "string option"
  fl_to_date :: "string option"
  fl_page :: "json option"
  fl_limit :: "json option"

record delivery_where =
  dw_flowId :: "number option"
  dw_nodeId :: "string option"
  dw_success :: "bool option"
  dw_from :: "int option"
  dw_to :: "int option"

text \<open>\<open>date\<close> is \<open>new Date(text).getTime()\<close>, \<open>None\<close> for an invalid date.\<close>

definition parseDate :: "(string \<Rightarrow> int option) \<Rightarrow> string option \<Rightarrow> int option" where
  "parseDate date value = (if trim (text_or_empty value) = [] then None else date (trim (text_or_empty value)))"

definition buildWhere :: "(string \<Rightarrow> int option) \<Rightarrow> delivery_filters \<Rightarrow> delivery_where" where
  "buildWhere date f =
     \<lparr>dw_flowId = (case fl_flow_id f of
          None \<Rightarrow> None
        | Some t \<Rightarrow> if t \<noteq> [] \<and> num_finite (string_to_number t) then Some (string_to_number t) else None),
      dw_nodeId = (let t = trim (text_or_empty (fl_node_id f)) in if t = [] then None else Some t),
      dw_success = (if fl_success f = Some ''true'' then Some True
        else if fl_success f = Some ''false'' then Some False else None),
      dw_from = parseDate date (fl_from_date f), dw_to = parseDate date (fl_to_date f)\<rparr>"

definition matches_where :: "delivery_where \<Rightarrow> delivery_row \<Rightarrow> bool" where
  "matches_where w r \<longleftrightarrow>
     (case dw_flowId w of None \<Rightarrow> True | Some n \<Rightarrow> num_int n = dr_flowId r \<and> dr_flowId r \<noteq> None)
     \<and> (case dw_nodeId w of None \<Rightarrow> True | Some k \<Rightarrow> dr_nodeId r = Some k)
     \<and> (case dw_success w of None \<Rightarrow> True | Some b \<Rightarrow> dr_success r = b)
     \<and> (case dw_from w of None \<Rightarrow> True | Some t \<Rightarrow> t \<le> int (dr_createdAt r))
     \<and> (case dw_to w of None \<Rightarrow> True | Some t \<Rightarrow> int (dr_createdAt r) \<le> t)"

text \<open>Rows by \<open>createdAt DESC\<close>; of rows of one instant the model lists the later one first.\<close>

definition newest_first :: "delivery_row list \<Rightarrow> delivery_row list" where
  "newest_first rows = sort_key (\<lambda>r. - int (dr_createdAt r)) (rev rows)"

text \<open>
  The numbers of the page as integers; the controller passes texts.  \<open>None\<close> where one is no integer: what
  the database does with a fractional limit is outside of the model.  A flow id that is no 32-bit integer
  makes the database reject the query.
\<close>

definition page_number :: "delivery_filters \<Rightarrow> int option" where
  "page_number f = map_option (max 1) (num_int (js_number (if truthy (fl_page f) then fl_page f else Some (JNum (Dec 1 0)))))"

definition page_limit :: "delivery_filters \<Rightarrow> int option" where
  "page_limit f =
     map_option (\<lambda>n. min 100 (max 1 n)) (num_int (js_number (if truthy (fl_limit f) then fl_limit f else Some (JNum (Dec 20 0)))))"

definition flow_id_accepted :: "delivery_where \<Rightarrow> bool" where
  "flow_id_accepted w \<longleftrightarrow>
     (case dw_flowId w of
        None \<Rightarrow> True
      | Some n \<Rightarrow> (case num_int n of None \<Rightarrow> False | Some i \<Rightarrow> - (2 ^ 31) \<le> i \<and> i < 2 ^ 31))"

definition getDeliveries :: "(string \<Rightarrow> int option) \<Rightarrow> delivery_filters \<Rightarrow> webhook_store \<Rightarrow> (delivery_row list \<times> nat \<times> int \<times> int) option" where
  "getDeliveries date f st =
     (case (page_number f, page_limit f) of
        (Some page, Some limit) \<Rightarrow>
          if \<not> flow_id_accepted (buildWhere date f) then None
          else (let rows = filter (matches_where (buildWhere date f)) (newest_first (ws_rows st)) in
           Some (take (nat limit) (drop (nat ((page - 1) * limit)) rows), length rows, page, limit))
      | _ \<Rightarrow> None)"

definition getNodeDeliveries :: "string \<Rightarrow> webhook_store \<Rightarrow> delivery_row list" where
  "getNodeDeliveries nodeId st = take 10 (filter (\<lambda>r. dr_nodeId r = Some nodeId) (newest_first (ws_rows st)))"

end
