(* ===== verification/WebhookProperties.thy ===== *)
theory WebhookProperties
  imports WebhookDelivery
begin

text \<open>
  What the delivery of webhooks guarantees when deliveries, timers and requests interleave: attempts are
  stored in order and none twice, their number and the size of what is stored are bounded, and the
  retries come to an end.
\<close>

section \<open>Executions\<close>

datatype delivery_action =
    Publish delivery_event bool
  | Elapse nat
  | Fire nat
  | Settle nat fetch_outcome bool

fun delivery_act :: "delivery_action \<Rightarrow> webhook_store \<Rightarrow> webhook_store" where
  "delivery_act (Publish e saved) st = handle_delivery saved e st"
| "delivery_act (Elapse ms) st = st\<lparr>ws_now := ws_now st + ms\<rparr>"
| "delivery_act (Fire i) st = fire_retry i st"
| "delivery_act (Settle i outcome saved) st = settle_retry i outcome saved st"

definition perform :: "delivery_action list \<Rightarrow> webhook_store \<Rightarrow> webhook_store" where
  "perform acts st = fold delivery_act acts st"

text \<open>The events an execution publishes are those of requests of the call engine.\<close>

definition engine_event :: "delivery_event \<Rightarrow> bool" where
  "engine_event e \<longleftrightarrow> (\<exists>s r outcome. num_finite (wr_maxAttempts r) \<and> e = published_delivery s r outcome)"

fun published_events :: "delivery_action list \<Rightarrow> delivery_event list" where
  "published_events [] = []"
| "published_events (Publish e saved # acts) = e # published_events acts"
| "published_events (_ # acts) = published_events acts"

lemma engine_event_attempt: "engine_event e \<Longrightarrow> de_attempt_number e = 1 \<and> num_finite (de_max_attempts e)"
  by (auto simp: engine_event_def published_delivery_def Let_def split: fetch_outcome.split sum.split)

text \<open>Every request the runtime fires has a finite limit of attempts.\<close>

lemma fired_request_finite:
  assumes "fireWebhookAsync env wn n st = Some st'" and "\<forall>r \<in> set (r_webhooks st). num_finite (wr_maxAttempts r)"
  shows "\<forall>r \<in> set (r_webhooks st'). num_finite (wr_maxAttempts r)"
  using assms by (auto simp: fireWebhookAsync_def Let_def split: if_splits option.splits json.splits)

section \<open>Removal from a list\<close>

lemma length_filter_remove_at:
  assumes "i < length xs"
  shows "length (filter P xs) = length (filter P (remove_at i xs)) + (if P (xs ! i) then 1 else 0)"
proof -
  have "length (filter P xs) = length (filter P (take i xs @ xs ! i # drop (Suc i) xs))"
    using assms by (simp add: id_take_nth_drop [symmetric])
  then show ?thesis by (simp add: remove_at_def)
qed

lemma sum_list_remove_at:
  fixes f :: "'a \<Rightarrow> nat"
  assumes "i < length xs"
  shows "(\<Sum>x\<leftarrow>xs. f x) = (\<Sum>x\<leftarrow>remove_at i xs. f x) + f (xs ! i)"
proof -
  have "(\<Sum>x\<leftarrow>xs. f x) = (\<Sum>x\<leftarrow>take i xs @ xs ! i # drop (Suc i) xs. f x)"
    using assms by (simp add: id_take_nth_drop [symmetric])
  then show ?thesis by (simp add: remove_at_def)
qed

lemma set_remove_at: "set (remove_at i xs) \<subseteq> set xs"
  by (auto simp: remove_at_def dest: in_set_takeD in_set_dropD)

section \<open>Consecutive attempts\<close>

type_synonym delivery_key = "int option \<times> string option \<times> string option \<times> string"

definition event_key :: "delivery_event \<Rightarrow> delivery_key" where
  "event_key e = (de_flow_id e, de_node_id e, de_call_id e, de_url e)"

definition row_key :: "delivery_row \<Rightarrow> delivery_key" where
  "row_key r = (dr_flowId r, dr_nodeId r, dr_callId r, dr_url r)"

definition stored_attempts :: "delivery_key \<Rightarrow> nat \<Rightarrow> webhook_store \<Rightarrow> nat" where
  "stored_attempts k n st = length (filter (\<lambda>r. row_key r = k \<and> dr_attemptNumber r = n) (ws_rows st))"

definition failed_attempts :: "delivery_key \<Rightarrow> nat \<Rightarrow> webhook_store \<Rightarrow> nat" where
  "failed_attempts k n st = length (filter (\<lambda>r. row_key r = k \<and> dr_attemptNumber r = n \<and> \<not> dr_success r) (ws_rows st))"

definition pending_attempts :: "delivery_key \<Rightarrow> nat \<Rightarrow> webhook_store \<Rightarrow> nat" where
  "pending_attempts k n st =
     length (filter (\<lambda>(t, e). event_key e = k \<and> de_attempt_number e = n) (ws_timers st))
     + length (filter (\<lambda>e. event_key e = k \<and> de_attempt_number e = n) (ws_inflight st))"

definition attempts_follow :: "webhook_store \<Rightarrow> bool" where
  "attempts_follow st \<longleftrightarrow>
     (\<forall>k n. 1 \<le> n \<longrightarrow> stored_attempts k (Suc n) st + pending_attempts k n st \<le> failed_attempts k n st)"

lemma attempts_followI:
  "(\<And>k n. 1 \<le> n \<Longrightarrow> stored_attempts k (Suc n) st + pending_attempts k n st \<le> failed_attempts k n st) \<Longrightarrow> attempts_follow st"
  unfolding attempts_follow_def by blast

lemma attempts_followD:
  "attempts_follow st \<Longrightarrow> 1 \<le> n \<Longrightarrow> stored_attempts k (Suc n) st + pending_attempts k n st \<le> failed_attempts k n st"
  unfolding attempts_follow_def by blast

lemma retried_failed: "shouldRetryDelivery e \<Longrightarrow> \<not> de_success e"
  by (auto simp: shouldRetryDelivery_def split: if_splits)

lemmas attempt_defs = stored_attempts_def failed_attempts_def pending_attempts_def

text \<open>Storing a row and scheduling its retry, as the listener and \<open>runRetry\<close> both do.\<close>

definition store_event :: "bool \<Rightarrow> delivery_event \<Rightarrow> webhook_store \<Rightarrow> webhook_store" where
  "store_event saved e st =
     (case logDelivery saved e st of
        None \<Rightarrow> st
      | Some st' \<Rightarrow> if \<not> de_success e then scheduleRetry e st' else st')"

lemma handle_is_store: "handle_delivery saved e st = store_event saved e st"
  by (simp add: handle_delivery_def store_event_def)

lemma settle_is_store:
  "i < length (ws_inflight st) \<Longrightarrow> settle_retry i outcome saved st =
     store_event saved (executeRetry (ws_inflight st ! i) outcome) (st\<lparr>ws_inflight := remove_at i (ws_inflight st)\<rparr>)"
  by (simp add: settle_retry_def store_event_def Let_def)

lemma entity_view [simp]:
  "row_key (delivery_entity i now e) = event_key e" "dr_attemptNumber (delivery_entity i now e) = de_attempt_number e"
  "dr_success (delivery_entity i now e) = de_success e"
  by (simp_all add: delivery_entity_def row_key_def event_key_def)

lemma retry_view [simp]:
  "event_key (executeRetry e outcome) = event_key e" "de_attempt_number (executeRetry e outcome) = Suc (de_attempt_number e)"
  "de_max_attempts (executeRetry e outcome) = de_max_attempts e"
  by (simp_all add: executeRetry_def event_key_def Let_def split: fetch_outcome.split sum.split)

lemma store_event_counts:
  "stored_attempts k n (store_event saved e st)
     = stored_attempts k n st + (if saved \<and> event_key e = k \<and> de_attempt_number e = n then 1 else 0)"
  "failed_attempts k n (store_event saved e st)
     = failed_attempts k n st + (if saved \<and> event_key e = k \<and> de_attempt_number e = n \<and> \<not> de_success e then 1 else 0)"
  "pending_attempts k n (store_event saved e st)
     = pending_attempts k n st + (if saved \<and> event_key e = k \<and> de_attempt_number e = n \<and> shouldRetryDelivery e then 1 else 0)"
  by (auto simp: store_event_def logDelivery_def scheduleRetry_def attempt_defs dest: retried_failed)

lemma follow_publish:
  assumes "attempts_follow st" and "de_attempt_number e = 1"
  shows "attempts_follow (store_event saved e st)"
proof (rule attempts_followI)
  fix k and n :: nat
  assume "1 \<le> n"
  then show "stored_attempts k (Suc n) (store_event saved e st) + pending_attempts k n (store_event saved e st)
      \<le> failed_attempts k n (store_event saved e st)"
    using attempts_followD [OF assms(1), of n k] assms(2) retried_failed [of e] by (auto simp: store_event_counts)
qed

lemma fire_counts:
  "stored_attempts k n (fire_retry i st) = stored_attempts k n st" "failed_attempts k n (fire_retry i st) = failed_attempts k n st"
  "pending_attempts k n (fire_retry i st) = pending_attempts k n st"
  by (auto simp: fire_retry_def attempt_defs length_filter_remove_at [of i "ws_timers st"] split: prod.splits)

lemma follow_settle:
  assumes "attempts_follow st"
  shows "attempts_follow (settle_retry i outcome saved st)"
proof (cases "i < length (ws_inflight st)")
  case True
  let ?e = "ws_inflight st ! i" and ?st = "st\<lparr>ws_inflight := remove_at i (ws_inflight st)\<rparr>"
  have p: "pending_attempts k n st = pending_attempts k n ?st + (if event_key ?e = k \<and> de_attempt_number ?e = n then 1 else 0)" for k n
    using length_filter_remove_at [OF True] by (simp add: pending_attempts_def)
  have s: "stored_attempts k n ?st = stored_attempts k n st" "failed_attempts k n ?st = failed_attempts k n st" for k n
    by (simp_all add: attempt_defs)
  show ?thesis unfolding settle_is_store [OF True]
  proof (rule attempts_followI)
    fix k and n :: nat
    assume "1 \<le> n"
    then show "stored_attempts k (Suc n) (store_event saved (executeRetry ?e outcome) ?st)
        + pending_attempts k n (store_event saved (executeRetry ?e outcome) ?st)
        \<le> failed_attempts k n (store_event saved (executeRetry ?e outcome) ?st)"
      using attempts_followD [OF assms, of n k] p [of k n] s [of k] retried_failed [of "executeRetry ?e outcome"]
      by (auto simp: store_event_counts)
  qed
next
  case False
  then show ?thesis using assms by (simp add: settle_retry_def)
qed

lemma follow_act:
  assumes "attempts_follow st" and "\<And>e saved. a = Publish e saved \<Longrightarrow> de_attempt_number e = 1"
  shows "attempts_follow (delivery_act a st)"
proof (cases a)
  case (Publish e saved)
  then show ?thesis using assms follow_publish by (simp add: handle_is_store)
next
  case (Elapse ms)
  then show ?thesis using attempts_followD [OF assms(1)] by (auto intro!: attempts_followI simp: attempt_defs)
next
  case (Fire i)
  then show ?thesis using attempts_followD [OF assms(1)] by (auto intro!: attempts_followI simp: fire_counts)
next
  case (Settle i outcome saved)
  then show ?thesis using assms follow_settle by simp
qed

lemma perform_Nil [simp]: "perform [] st = st"
  by (simp add: perform_def)

lemma perform_Cons [simp]: "perform (a # acts) st = perform acts (delivery_act a st)"
  by (simp add: perform_def)

text \<open>An invariant of the actions, whatever the engine publishes, holds after every execution.\<close>

lemma perform_induct:
  assumes "I st" and "list_all engine_event (published_events acts)"
    and "\<And>st a. I st \<Longrightarrow> (\<And>e saved. a = Publish e saved \<Longrightarrow> engine_event e) \<Longrightarrow> I (delivery_act a st)"
  shows "I (perform acts st)"
  using assms(1,2)
proof (induction acts arbitrary: st)
  case (Cons a acts)
  have "I (delivery_act a st)" by (rule assms(3) [OF Cons.prems(1)]) (use Cons.prems(2) in auto)
  then show ?case using Cons.IH Cons.prems(2) by (cases a) simp_all
qed simp

lemma follow_perform:
  assumes "list_all engine_event (published_events acts)"
  shows "attempts_follow (perform acts no_deliveries)"
proof (rule perform_induct [OF _ assms])
  show "attempts_follow no_deliveries" by (simp add: attempts_follow_def attempt_defs no_deliveries_def)
qed (simp add: follow_act engine_event_attempt)

section \<open>What is stored\<close>

definition short_text :: "string option \<Rightarrow> bool" where
  "short_text t \<longleftrightarrow> (case t of None \<Rightarrow> True | Some s \<Rightarrow> length s \<le> 500)"

lemma short_truncate [simp]: "short_text (truncateText t 500)"
  by (simp add: short_text_def truncateText_def split: option.split)

definition rows_in_bounds :: "webhook_store \<Rightarrow> bool" where
  "rows_in_bounds st \<longleftrightarrow>
     (\<forall>r \<in> set (ws_rows st). short_text (dr_responseBody r) \<and> short_text (dr_errorMessage r) \<and> 1 \<le> dr_attemptNumber r
        \<and> dr_id r < ws_nextId st) \<and> distinct (map dr_id (ws_rows st))"

lemma bounds_store:
  "rows_in_bounds st \<Longrightarrow> 1 \<le> de_attempt_number e \<Longrightarrow> rows_in_bounds (store_event saved e st)"
  by (auto simp: rows_in_bounds_def store_event_def logDelivery_def scheduleRetry_def delivery_entity_def less_Suc_eq)

lemma bounds_act:
  assumes "rows_in_bounds st" and "\<And>e saved. a = Publish e saved \<Longrightarrow> engine_event e"
  shows "rows_in_bounds (delivery_act a st)"
proof (cases a)
  case (Publish e saved)
  then show ?thesis using assms engine_event_attempt [of e] by (simp add: handle_is_store bounds_store)
next
  case (Settle i outcome saved)
  have "rows_in_bounds (st\<lparr>ws_inflight := remove_at i (ws_inflight st)\<rparr>)" using assms(1) by (simp add: rows_in_bounds_def)
  then have "rows_in_bounds (settle_retry i outcome saved st)"
    using assms(1) by (cases "i < length (ws_inflight st)") (simp add: settle_is_store bounds_store, simp add: settle_retry_def)
  then show ?thesis using Settle by simp
qed (use assms(1) in \<open>auto simp: rows_in_bounds_def fire_retry_def\<close>)

lemma bounds_perform:
  assumes "list_all engine_event (published_events acts)"
  shows "rows_in_bounds (perform acts no_deliveries)"
proof (rule perform_induct [OF _ assms])
  show "rows_in_bounds no_deliveries" by (simp add: rows_in_bounds_def no_deliveries_def)
qed (rule bounds_act)

section \<open>The end of the retries\<close>

text \<open>The attempts an event may still cause, and those all pending events may.\<close>

definition attempts_left :: "delivery_event \<Rightarrow> nat" where
  "attempts_left e = nat (num_ceiling (de_max_attempts e) - int (de_attempt_number e))"

definition potential :: "webhook_store \<Rightarrow> nat" where
  "potential st = (\<Sum>x\<leftarrow>ws_timers st. attempts_left (snd x)) + (\<Sum>e\<leftarrow>ws_inflight st. attempts_left e)"

definition pending_limited :: "webhook_store \<Rightarrow> bool" where
  "pending_limited st \<longleftrightarrow>
     (\<forall>e \<in> snd ` set (ws_timers st) \<union> set (ws_inflight st). num_finite (de_max_attempts e) \<and> 1 \<le> attempts_left e)"

text \<open>The retries an execution sends.\<close>

fun retry_requests :: "delivery_action list \<Rightarrow> webhook_store \<Rightarrow> nat" where
  "retry_requests [] st = 0"
| "retry_requests (a # acts) st =
     (case a of Settle i _ _ \<Rightarrow> if i < length (ws_inflight st) then 1 else 0 | _ \<Rightarrow> 0) + retry_requests acts (delivery_act a st)"

lemma retried_left: "shouldRetryDelivery e \<Longrightarrow> num_finite (de_max_attempts e) \<Longrightarrow> 1 \<le> attempts_left e"
  by (auto simp: shouldRetryDelivery_def attempts_left_def num_le_ceiling split: if_splits)

lemma left_retry: "attempts_left (executeRetry e outcome) = attempts_left e - 1"
  by (simp add: attempts_left_def)

lemma potential_store:
  assumes "num_finite (de_max_attempts e)" and "pending_limited st"
  shows "potential (store_event saved e st) \<le> potential st + attempts_left e \<and> pending_limited (store_event saved e st)"
  using assms retried_left [of e]
  by (auto simp: store_event_def logDelivery_def scheduleRetry_def potential_def pending_limited_def)

lemma potential_fire:
  assumes "pending_limited st"
  shows "potential (fire_retry i st) = potential st \<and> pending_limited (fire_retry i st)"
proof (cases "i < length (ws_timers st) \<and> fst (ws_timers st ! i) \<le> ws_now st")
  case True
  then show ?thesis using assms sum_list_remove_at [of i "ws_timers st" "\<lambda>x. attempts_left (snd x)"]
      set_remove_at [of i "ws_timers st"] nth_mem [of i "ws_timers st"]
    by (auto simp: fire_retry_def potential_def pending_limited_def)
next
  case False
  then have "fire_retry i st = st" by (auto simp: fire_retry_def)
  then show ?thesis using assms by simp
qed

lemma potential_settle:
  assumes "pending_limited st" and i: "i < length (ws_inflight st)"
  shows "Suc (potential (settle_retry i outcome saved st)) \<le> potential st \<and> pending_limited (settle_retry i outcome saved st)"
proof -
  let ?e = "ws_inflight st ! i" and ?st = "st\<lparr>ws_inflight := remove_at i (ws_inflight st)\<rparr>"
  have e: "num_finite (de_max_attempts ?e)" "1 \<le> attempts_left ?e" using assms nth_mem [OF i] by (auto simp: pending_limited_def)
  have "pending_limited ?st" using assms(1) set_remove_at [of i "ws_inflight st"] by (auto simp: pending_limited_def)
  then have "potential (settle_retry i outcome saved st) \<le> potential ?st + (attempts_left ?e - 1)
      \<and> pending_limited (settle_retry i outcome saved st)"
    using potential_store [of "executeRetry ?e outcome" ?st saved] e(1) by (simp add: settle_is_store [OF i] left_retry)
  moreover have "potential st = potential ?st + attempts_left ?e"
    using sum_list_remove_at [OF i, of attempts_left] by (simp add: potential_def)
  ultimately show ?thesis using e(2) by linarith
qed

lemma requests_bounded:
  assumes "pending_limited st" and "list_all engine_event (published_events acts)"
  shows "retry_requests acts st \<le> potential st + (\<Sum>e\<leftarrow>published_events acts. attempts_left e)"
  using assms
proof (induction acts arbitrary: st)
  case (Cons a acts)
  show ?case
  proof (cases a)
    case (Publish e saved)
    then have "num_finite (de_max_attempts e)" using Cons.prems(2) engine_event_attempt by auto
    from potential_store [OF this Cons.prems(1), of saved] show ?thesis
      using Cons.IH [of "delivery_act a st"] Cons.prems(2) Publish by (simp add: handle_is_store)
  next
    case (Elapse ms)
    then show ?thesis using Cons.IH [of "delivery_act a st"] Cons.prems by (simp add: potential_def pending_limited_def)
  next
    case (Fire i)
    then show ?thesis using Cons.IH [of "delivery_act a st"] Cons.prems potential_fire [of st i] by simp
  next
    case (Settle i outcome saved)
    show ?thesis
    proof (cases "i < length (ws_inflight st)")
      case True
      then show ?thesis using Cons.IH [of "delivery_act a st"] Cons.prems potential_settle [OF Cons.prems(1) True, of outcome saved] Settle
        by simp
    next
      case False
      then show ?thesis using Cons.IH [of st] Cons.prems Settle by (simp add: settle_retry_def)
    qed
  qed
qed simp

section \<open>The properties\<close>

text \<open>The event of a request that answered nothing in time, as the witnesses use it.\<close>

definition example_request :: webhook_request where
  "example_request = \<lparr>wr_nodeKey = ''hook'', wr_url = ''http://crm'', wr_method = ''POST'', wr_headers = [], wr_body = Some [],
     wr_timeoutMs = 5000, wr_retryEnabled = True, wr_maxAttempts = Dec 3 0, wr_retryOn5xx = True,
     wr_retryOnTimeout = True, wr_retryOn4xx = False\<rparr>"

definition example_session :: session where
  "example_session = createSession 0 ''chan'' ''100''
     \<lparr>f_id = 1, f_name = ''main'', f_versionId = 1, f_nodes = [], f_edges = []\<rparr> ''start''"

definition example_timeout :: delivery_event where
  "example_timeout = published_delivery example_session example_request (Rejected ''fetch failed'')"

lemma example_timeout_event: "engine_event example_timeout"
  by (auto simp: engine_event_def example_timeout_def example_request_def intro!: exI)

text \<open>The request fails, its retry after five seconds is answered with 503, the next one with 200.\<close>

definition example_run :: "delivery_action list" where
  "example_run = [Publish example_timeout True, Elapse 5000, Fire 0, Settle 0 (Answered 503 (Inr ''busy'')) True,
     Elapse 25000, Fire 0, Settle 0 (Answered 200 (Inr ''ok'')) True]"

lemma example_retry_facts:
  "shouldRetryDelivery example_timeout" "shouldRetryDelivery (executeRetry example_timeout (Answered 503 (Inr ''busy'')))"
  "de_success example_timeout = False" "de_attempt_number example_timeout = 1"
  by code_simp+

lemmas example_simps = example_run_def no_deliveries_def handle_delivery_def logDelivery_def scheduleRetry_def
  example_retry_facts fire_retry_def settle_retry_def remove_at_def retry_delay_def timer_delay_def

lemma example_success: "de_success (executeRetry e (Answered s (Inr t))) = response_ok s"
  by (simp add: executeRetry_def)

lemma example_run_rows:
  "map (\<lambda>r. (row_key r, dr_attemptNumber r, dr_success r)) (ws_rows (perform example_run no_deliveries))
     = [(event_key example_timeout, 1, False), (event_key example_timeout, 2, False), (event_key example_timeout, 3, True)]"
  by (simp add: example_simps example_success response_ok_def Let_def)

lemma example_run_requests: "retry_requests example_run no_deliveries = 2"
  by (simp add: example_simps example_success response_ok_def Let_def)

text \<open>C35: However deliveries, timers and requests interleave, every stored attempt after the first follows
  a stored attempt of the same delivery that failed, none follows the same one twice, a retry that is still
  scheduled or under way counts as one, and the stored texts fit their columns.\<close>

theorem attempts_in_order:
  assumes "list_all engine_event (published_events acts)" and "1 \<le> n"
  shows "stored_attempts k (Suc n) (perform acts no_deliveries) + pending_attempts k n (perform acts no_deliveries)
           \<le> failed_attempts k n (perform acts no_deliveries)
         \<and> rows_in_bounds (perform acts no_deliveries)"
  using attempts_followD [OF follow_perform [OF assms(1)] assms(2)] bounds_perform [OF assms(1)] by blast

theorem attempts_in_order_witness:
  "stored_attempts (event_key example_timeout) 3 (perform example_run no_deliveries) = 1
   \<and> stored_attempts (event_key example_timeout) (Suc 2) (perform example_run no_deliveries)
       + pending_attempts (event_key example_timeout) 2 (perform example_run no_deliveries)
       \<le> failed_attempts (event_key example_timeout) 2 (perform example_run no_deliveries)
   \<and> rows_in_bounds (perform example_run no_deliveries)"
proof -
  have "list_all engine_event (published_events example_run)"
    using example_timeout_event by (simp add: example_run_def)
  from attempts_in_order [OF this, of 2 "event_key example_timeout"]
  have "stored_attempts (event_key example_timeout) (Suc 2) (perform example_run no_deliveries)
       + pending_attempts (event_key example_timeout) 2 (perform example_run no_deliveries)
       \<le> failed_attempts (event_key example_timeout) 2 (perform example_run no_deliveries)
   \<and> rows_in_bounds (perform example_run no_deliveries)" by simp
  moreover have "stored_attempts (event_key example_timeout) 3 (perform example_run no_deliveries)
      = length (filter (\<lambda>(k, n, b). k = event_key example_timeout \<and> n = 3)
          (map (\<lambda>r. (row_key r, dr_attemptNumber r, dr_success r)) (ws_rows (perform example_run no_deliveries))))"
    by (simp add: stored_attempts_def filter_map comp_def)
  then have "stored_attempts (event_key example_timeout) 3 (perform example_run no_deliveries) = 1"
    unfolding example_run_rows by simp
  ultimately show ?thesis by blast
qed

text \<open>C36: In every execution the number of retries sent is bounded by the limits of the published
  deliveries: one whose limit is m attempts causes at most \<open>\<lceil>m\<rceil> - 1\<close> retries.\<close>

theorem retries_end:
  assumes "list_all engine_event (published_events acts)"
  shows "retry_requests acts no_deliveries \<le> (\<Sum>e\<leftarrow>published_events acts. nat (num_ceiling (de_max_attempts e) - 1))"
proof -
  have "pending_limited no_deliveries" "potential no_deliveries = 0"
    by (simp_all add: pending_limited_def potential_def no_deliveries_def)
  then have "retry_requests acts no_deliveries \<le> (\<Sum>e\<leftarrow>published_events acts. attempts_left e)"
    using requests_bounded [of no_deliveries acts] assms by simp
  also have "\<dots> = (\<Sum>e\<leftarrow>published_events acts. nat (num_ceiling (de_max_attempts e) - 1))"
    using assms engine_event_attempt
    by (intro arg_cong [of _ _ sum_list] map_cong) (auto simp: attempts_left_def list_all_iff)
  finally show ?thesis .
qed

theorem retries_end_witness:
  "retry_requests example_run no_deliveries = 2
   \<and> retry_requests example_run no_deliveries \<le> (\<Sum>e\<leftarrow>published_events example_run. nat (num_ceiling (de_max_attempts e) - 1))"
proof -
  have "list_all engine_event (published_events example_run)"
    using example_timeout_event by (simp add: example_run_def)
  from retries_end [OF this] example_run_requests show ?thesis by blast
qed

text \<open>A failed attempt that is to be retried is stored and its retry waits five times as long as the
  one before, from five seconds on; the tenth attempt and the later ones are followed at once, because the
  delay is more than a timer takes.\<close>

theorem retry_backoff:
  assumes "shouldRetryDelivery e" and "1 \<le> de_attempt_number e"
  shows "ws_timers (handle_delivery True e st) = ws_timers st
           @ [(ws_now st + (if de_attempt_number e \<le> 9 then 5000 * 5 ^ (de_attempt_number e - 1) else 1), e)]
         \<and> ws_rows (handle_delivery True e st) = ws_rows st @ [delivery_entity (ws_nextId st) (ws_now st) e]"
proof -
  obtain n where n: "de_attempt_number e = Suc n" using assms(2) by (cases "de_attempt_number e") auto
  have d: "retry_delay (Suc n) = 5000 * 5 ^ n" by (simp add: retry_delay_def)
  have "timer_delay (retry_delay (Suc n)) = (if n \<le> 8 then 5000 * 5 ^ n else 1)"
  proof (cases "n \<le> 8")
    case True
    then have "(5::nat) ^ n \<le> 5 ^ 8" by (intro power_increasing) simp_all
    with True show ?thesis by (simp add: d timer_delay_def)
  next
    case False
    then have "(5::nat) ^ 9 \<le> 5 ^ n" by (intro power_increasing) simp_all
    with False show ?thesis by (simp add: d timer_delay_def)
  qed
  then show ?thesis using assms(1) retried_failed [OF assms(1)] n
    by (simp add: handle_delivery_def logDelivery_def scheduleRetry_def)
qed

theorem retry_backoff_witness:
  "ws_timers (handle_delivery True example_timeout no_deliveries) = [(5000, example_timeout)]
   \<and> length (ws_timers (handle_delivery True (example_timeout\<lparr>de_attempt_number := 10, de_max_attempts := Dec 2 1\<rparr>) no_deliveries)) = 1
   \<and> fst (hd (ws_timers (handle_delivery True (example_timeout\<lparr>de_attempt_number := 10, de_max_attempts := Dec 2 1\<rparr>) no_deliveries))) = 1"
proof -
  let ?late = "example_timeout\<lparr>de_attempt_number := 10, de_max_attempts := Dec 2 1\<rparr>"
  have "shouldRetryDelivery example_timeout" "shouldRetryDelivery ?late" by code_simp+
  moreover have "de_attempt_number example_timeout = 1" by code_simp
  ultimately show ?thesis using retry_backoff [of example_timeout no_deliveries] retry_backoff [of ?late no_deliveries]
    by (simp add: no_deliveries_def)
qed

text \<open>A webhook answered with a status below 400 whose body cannot be read is a failure the backend does
  not retry when it was the first attempt, but does retry when it was a later one.\<close>

theorem unread_body_retried:
  assumes "status < 400" and "shouldRetryDelivery e" and "de_retry_on_timeout e"
    and "num_finite (de_max_attempts e)" and "int (de_attempt_number e) + 1 < num_ceiling (de_max_attempts e)"
    and "isTimeoutOrNetworkError (truncateText (Some message) 500)"
  shows "\<not> shouldRetryDelivery (published_delivery s r (Answered status (Inl message)))
         \<and> shouldRetryDelivery (executeRetry e (Answered status (Inl message)))"
  using assms by (auto simp: shouldRetryDelivery_def published_delivery_def executeRetry_def num_le_ceiling split: if_splits)

theorem unread_body_retried_witness:
  "\<not> shouldRetryDelivery (published_delivery example_session example_request (Answered 200 (Inl ''This operation was aborted'')))
   \<and> shouldRetryDelivery (executeRetry example_timeout (Answered 200 (Inl ''This operation was aborted'')))"
  by (rule unread_body_retried) code_simp+

end
