(* ===== verification/OperatorAdmin.thy ===== *)
theory OperatorAdmin
  imports QueueManager Slugs CampaignService
begin

text \<open>
  \<open>queues/queues.service.ts\<close> and \<open>operators/operators.service.ts\<close>: queues, operators, the operators of a
  queue, their PINs and their status, over the shared tables and the Redis keys of the queue manager.

  An operation keeps what it wrote before an exception.  The texts of instants in answers are left out.
  Connections are up: a query is rejected by a constraint of the schema or because it names a column the
  table lacks.
\<close>

section \<open>Tables\<close>

record queue_entity =
  qu_id :: int
  qu_name :: string
  qu_slug :: string
  qu_waitAudioFileId :: "int option"
  qu_maxWaitSeconds :: "int option"
  qu_pinRetryAttempts :: "int option"

record operator_entity =
  op_id :: int
  op_name :: string
  op_pinHash :: string
  op_extensionId :: "int option"
  op_contactNumberId :: "int option"
  op_callbackNumber :: "string option"
  op_callbackTrunkId :: "int option"
  op_pin :: "string option"

record extension_row =
  ex_id :: int
  ex_username :: string
  ex_password :: string
  ex_transportType :: string

record number_row =
  nu_id :: int
  nu_label :: string
  nu_number :: string
  nu_trunkId :: "int option"

text \<open>\<open>ad_pinColumn\<close>: the table of operators has the column \<open>pin\<close>.\<close>

record admin_db =
  ad_queues :: "queue_entity list"
  ad_operators :: "operator_entity list"
  ad_links :: "(int \<times> int) list"
  ad_extensions :: "extension_row list"
  ad_contacts :: "number_row list"
  ad_trunks :: "int list"
  ad_audio :: "int list"
  ad_nextQueue :: int
  ad_nextOperator :: int
  ad_pinColumn :: bool

text \<open>The fields of the service: the PINs it has seen, and what it believes of the column.\<close>

record admin_state =
  as_db :: admin_db
  as_redis :: queue_store
  as_runtimePins :: "(int \<times> string) list"
  as_pinColumnAvailable :: "bool option"

text \<open>\<open>bcrypt.hash\<close>, the random number of a PIN, and the collation names are sorted by.\<close>

record admin_env =
  ae_hash :: "string \<Rightarrow> string"
  ae_random :: nat
  ae_phones :: phone_lib
  ae_collate :: "string \<Rightarrow> int"

type_synonym 'a admin_op = "(admin_state, 'a) stateful"

definition on_db :: "(admin_db \<Rightarrow> admin_db) \<Rightarrow> admin_state \<Rightarrow> admin_state" where
  "on_db f s = s\<lparr>as_db := f (as_db s)\<rparr>"

definition find_queue :: "int \<Rightarrow> admin_db \<Rightarrow> queue_entity option" where
  "find_queue i db = List.find (\<lambda>q. qu_id q = i) (ad_queues db)"

definition find_operator :: "int \<Rightarrow> admin_db \<Rightarrow> operator_entity option" where
  "find_operator i db = List.find (\<lambda>p. op_id p = i) (ad_operators db)"

section \<open>Queues\<close>

subsection \<open>Slugs\<close>

definition is_slug_char :: "char \<Rightarrow> bool" where
  "is_slug_char c \<longleftrightarrow> (97 \<le> (of_char c :: nat) \<and> (of_char c :: nat) \<le> 122) \<or> is_digit c \<or> is_space c \<or> c = CHR ''-''"

text \<open>\<open>replace(/\s+/g, '-')\<close> and \<open>replace(/-+/g, '-')\<close>: every run of such characters becomes one hyphen.\<close>

fun runs_to_hyphen :: "(char \<Rightarrow> bool) \<Rightarrow> string \<Rightarrow> string" where
  "runs_to_hyphen P [] = []"
| "runs_to_hyphen P (c # cs) =
     (if P c then (if cs \<noteq> [] \<and> P (hd cs) then runs_to_hyphen P cs else CHR ''-'' # runs_to_hyphen P cs)
      else c # runs_to_hyphen P cs)"

definition queue_slug :: "string \<Rightarrow> string" where
  "queue_slug name =
     runs_to_hyphen (\<lambda>c. c = CHR ''-'') (runs_to_hyphen is_space (filter is_slug_char (trim (map to_lower name))))"

text \<open>A slug is free for a queue when no row has it or the row is the queue itself.\<close>

definition slugs_of_others :: "int option \<Rightarrow> admin_db \<Rightarrow> string list" where
  "slugs_of_others excludeId db = map qu_slug (filter (\<lambda>q. Some (qu_id q) \<noteq> excludeId) (ad_queues db))"

definition ensureUniqueQueueSlug :: "string \<Rightarrow> int option \<Rightarrow> admin_db \<Rightarrow> string" where
  "ensureUniqueQueueSlug base excludeId db = slug_search (slugs_of_others excludeId db) base base 1"

subsection \<open>The operators of a queue\<close>

definition loadOperatorsForQueue :: "admin_env \<Rightarrow> int \<Rightarrow> admin_db \<Rightarrow> (int \<times> string) list" where
  "loadOperatorsForQueue env queueId db =
     map (\<lambda>p. (op_id p, op_name p))
       (sort_key (\<lambda>p. ae_collate env (op_name p)) (filter (\<lambda>p. (queueId, op_id p) \<in> set (ad_links db)) (ad_operators db)))"

record queue_view =
  vw_queue :: queue_entity
  vw_operatorCount :: nat
  vw_operatorIds :: "int list"
  vw_operators :: "(int \<times> string) list"

definition queue_response :: "admin_env \<Rightarrow> queue_entity \<Rightarrow> admin_db \<Rightarrow> queue_view" where
  "queue_response env q db =
     (let operators = loadOperatorsForQueue env (qu_id q) db in
      \<lparr>vw_queue = q, vw_operatorCount = length operators, vw_operatorIds = map fst operators, vw_operators = operators\<rparr>)"

definition findAll_queues :: "admin_env \<Rightarrow> int \<Rightarrow> int \<Rightarrow> admin_db \<Rightarrow> queue_view list \<times> nat \<times> int \<times> int" where
  "findAll_queues env pageNumber limit db =
     (let safePage = max 1 pageNumber; safeLimit = max 1 limit; offset = (safePage - 1) * safeLimit in
      (map (\<lambda>q. queue_response env q db)
         (take (nat safeLimit) (drop (nat offset) (sort_key (\<lambda>q. ae_collate env (qu_name q)) (ad_queues db)))),
       length (ad_queues db), safePage, safeLimit))"

text \<open>
  The two statements of \<open>syncOperators\<close>, without a transaction: the second is rejected when an id is no
  operator.  \<open>None\<close> is \<open>null\<close>, whose length is read after the first statement.
\<close>

definition syncOperators :: "int \<Rightarrow> int list option \<Rightarrow> unit admin_op" where
  "syncOperators queueId operatorIds =
     then_do (writing (on_db (\<lambda>db. db\<lparr>ad_links := filter (\<lambda>(q, p). q \<noteq> queueId) (ad_links db)\<rparr>))) (\<lambda>_.
     case operatorIds of
       None \<Rightarrow> fail (InternalError ''Cannot read properties of null'')
     | Some ids \<Rightarrow>
       if ids = [] then give ()
       else then_do (reading (\<lambda>s. find_queue queueId (as_db s) \<noteq> None
           \<and> set ids \<subseteq> set (map op_id (ad_operators (as_db s))))) (\<lambda>known.
         if \<not> known then fail (DbConstraint ''queue_operators'')
         else writing (on_db (\<lambda>db. db\<lparr>ad_links := ad_links db @ map (Pair queueId) (dedup ids)\<rparr>))))"

subsection \<open>Writing queues\<close>

definition reference_ok :: "int option \<Rightarrow> int list \<Rightarrow> bool" where
  "reference_ok r ids \<longleftrightarrow> (case r of None \<Rightarrow> True | Some i \<Rightarrow> i \<in> set ids)"

text \<open>The constraints of the table; \<open>None\<close> in a column that is not nullable is rejected.\<close>

definition queue_columns_ok :: "queue_entity \<Rightarrow> int list \<Rightarrow> bool" where
  "queue_columns_ok q audio \<longleftrightarrow>
     length (qu_name q) \<le> 255 \<and> length (qu_slug q) \<le> 255 \<and> reference_ok (qu_waitAudioFileId q) audio
     \<and> qu_maxWaitSeconds q \<noteq> None \<and> qu_pinRetryAttempts q \<noteq> None"

definition queue_row_ok :: "queue_entity \<Rightarrow> admin_db \<Rightarrow> bool" where
  "queue_row_ok q db \<longleftrightarrow>
     queue_columns_ok q (ad_audio db) \<and> qu_slug q \<notin> set (slugs_of_others (Some (qu_id q)) db)"

definition insert_queue :: "queue_entity \<Rightarrow> queue_entity admin_op" where
  "insert_queue q =
     then_do (reading (\<lambda>s. q\<lparr>qu_id := ad_nextQueue (as_db s)\<rparr>)) (\<lambda>row.
     then_do (writing (on_db (\<lambda>db. db\<lparr>ad_nextQueue := ad_nextQueue db + 1\<rparr>))) (\<lambda>_.
     then_do (reading (\<lambda>s. queue_row_ok row (as_db s))) (\<lambda>accepted.
       if \<not> accepted then fail (DbConstraint ''queues'')
       else then_do (writing (on_db (\<lambda>db. db\<lparr>ad_queues := ad_queues db @ [row]\<rparr>))) (\<lambda>_. give row))))"

definition save_queue :: "queue_entity \<Rightarrow> queue_entity admin_op" where
  "save_queue row =
     then_do (reading (\<lambda>s. queue_row_ok row (as_db s))) (\<lambda>accepted.
       if \<not> accepted then fail (DbConstraint ''queues'')
       else then_do (writing (on_db (\<lambda>db. db\<lparr>ad_queues := map (\<lambda>q. if qu_id q = qu_id row then row else q) (ad_queues db)\<rparr>)))
         (\<lambda>_. give row))"

text \<open>The requests; an outer \<open>None\<close> is an absent field, an inner one \<open>null\<close>.\<close>

record create_queue_dto =
  cq_name :: string
  cq_wait_audio_file_id :: "int option"
  cq_max_wait_seconds :: "int option"
  cq_pin_retry_attempts :: "int option"
  cq_operator_ids :: "int list"

record update_queue_dto =
  uq_name :: "string option option"
  uq_wait_audio_file_id :: "int option option"
  uq_max_wait_seconds :: "int option option"
  uq_pin_retry_attempts :: "int option option"
  uq_operator_ids :: "int list option option"

definition or_default :: "'a option \<Rightarrow> 'a \<Rightarrow> 'a option" where
  "or_default v d = (case v of None \<Rightarrow> Some d | Some x \<Rightarrow> Some x)"

definition create_queue :: "admin_env \<Rightarrow> create_queue_dto \<Rightarrow> queue_view admin_op" where
  "create_queue env dto =
     (let name = trim (cq_name dto) in
      if name = [] then fail (BadRequest ''name is required'')
      else then_do (reading (\<lambda>s. ensureUniqueQueueSlug (queue_slug name) None (as_db s))) (\<lambda>slug.
        then_do (insert_queue \<lparr>qu_id = 0, qu_name = name, qu_slug = slug, qu_waitAudioFileId = cq_wait_audio_file_id dto,
             qu_maxWaitSeconds = or_default (cq_max_wait_seconds dto) 300,
             qu_pinRetryAttempts = or_default (cq_pin_retry_attempts dto) 3\<rparr>) (\<lambda>saved.
        then_do (syncOperators (qu_id saved) (Some (cq_operator_ids dto))) (\<lambda>_.
        reading (\<lambda>s. queue_response env saved (as_db s))))))"

definition renamed_queue :: "int \<Rightarrow> string option option \<Rightarrow> queue_entity \<Rightarrow> queue_entity admin_op" where
  "renamed_queue i name q =
     (case name of
        None \<Rightarrow> give q
      | Some None \<Rightarrow> fail (InternalError ''Cannot read properties of null'')
      | Some (Some n) \<Rightarrow>
        if trim n = [] then fail (BadRequest ''name is required'')
        else reading (\<lambda>s. q\<lparr>qu_name := trim n, qu_slug := ensureUniqueQueueSlug (queue_slug (trim n)) (Some i) (as_db s)\<rparr>))"

definition update_queue :: "admin_env \<Rightarrow> int \<Rightarrow> update_queue_dto \<Rightarrow> queue_view admin_op" where
  "update_queue env i dto =
     then_do (reading (\<lambda>s. find_queue i (as_db s))) (\<lambda>found. case found of
       None \<Rightarrow> fail (NotFound (''Queue '' @ show_int i @ '' not found''))
     | Some entity \<Rightarrow>
       then_do (renamed_queue i (uq_name dto) entity) (\<lambda>q1.
       then_do (save_queue (q1\<lparr>
           qu_waitAudioFileId := case_option (qu_waitAudioFileId q1) id (uq_wait_audio_file_id dto),
           qu_maxWaitSeconds := case_option (qu_maxWaitSeconds q1) id (uq_max_wait_seconds dto),
           qu_pinRetryAttempts := case_option (qu_pinRetryAttempts q1) id (uq_pin_retry_attempts dto)\<rparr>)) (\<lambda>saved.
       then_do (case uq_operator_ids dto of None \<Rightarrow> give () | Some ids \<Rightarrow> syncOperators (qu_id saved) ids) (\<lambda>_.
       reading (\<lambda>s. queue_response env saved (as_db s))))))"

text \<open>Deleting a queue deletes its links.\<close>

definition remove_queue :: "int \<Rightarrow> unit admin_op" where
  "remove_queue i =
     then_do (reading (\<lambda>s. find_queue i (as_db s))) (\<lambda>found. case found of
       None \<Rightarrow> fail (NotFound (''Queue '' @ show_int i @ '' not found''))
     | Some entity \<Rightarrow> writing (on_db (\<lambda>db. db\<lparr>ad_queues := filter (\<lambda>q. qu_id q \<noteq> i) (ad_queues db),
         ad_links := filter (\<lambda>(q, p). q \<noteq> i) (ad_links db)\<rparr>)))"

section \<open>Operators\<close>

datatype operator_status = Offline | Available | BusyOperator

record operator_response =
  or_id :: int
  or_name :: string
  or_status :: operator_status
  or_extension :: "extension_row option"
  or_contactNumber :: "number_row option"
  or_hasPIN :: bool
  or_pin :: "string option"
  or_callbackNumber :: "string option"
  or_callbackTrunkId :: "int option"

text \<open>Redis is read under the keys of the queue manager.\<close>

definition getOperatorStatus :: "int \<Rightarrow> queue_store \<Rightarrow> operator_status" where
  "getOperatorStatus i r =
     (let queueKey = text_or_empty (q_str r (OperatorQueue (show_int i))) in
      if queueKey = [] then Offline
      else if show_int i \<in> q_set r (Busy queueKey) then BusyOperator else Available)"

definition hasPinColumn :: "bool admin_op" where
  "hasPinColumn =
     then_do (reading as_pinColumnAvailable) (\<lambda>cached. case cached of
       Some b \<Rightarrow> give b
     | None \<Rightarrow> then_do (reading (\<lambda>s. ad_pinColumn (as_db s))) (\<lambda>b.
         then_do (writing (\<lambda>s. s\<lparr>as_pinColumnAvailable := Some b\<rparr>)) (\<lambda>_. give b)))"

definition set_pin :: "int \<Rightarrow> string \<Rightarrow> admin_state \<Rightarrow> admin_state" where
  "set_pin i pin s = s\<lparr>as_runtimePins := AList.update i pin (as_runtimePins s)\<rparr>"

text \<open>A query that names a missing column is repeated without it; the PIN it returns is \<open>None\<close> then.\<close>

definition select_pin :: "int \<Rightarrow> string option admin_op" where
  "select_pin i =
     then_do hasPinColumn (\<lambda>includePin.
     then_do (reading (\<lambda>s. ad_pinColumn (as_db s))) (\<lambda>present.
       if includePin \<and> present
       then reading (\<lambda>s. Option.bind (find_operator i (as_db s)) op_pin)
       else if includePin
       then then_do (writing (\<lambda>s. s\<lparr>as_pinColumnAvailable := Some False\<rparr>)) (\<lambda>_. give None)
       else give None))"

definition respond_operator :: "operator_entity \<Rightarrow> string option \<Rightarrow> operator_response admin_op" where
  "respond_operator item pin =
     then_do (reading (\<lambda>s. getOperatorStatus (op_id item) (as_redis s))) (\<lambda>status.
     then_do (select_pin (op_id item)) (\<lambda>selected.
       let persistedPin = (if text_or_empty selected = [] then None else selected) in
       then_do (case persistedPin of None \<Rightarrow> give () | Some p \<Rightarrow> writing (set_pin (op_id item) p)) (\<lambda>_.
       reading (\<lambda>s.
         let row = find_operator (op_id item) (as_db s) in
         \<lparr>or_id = op_id item, or_name = op_name item, or_status = status,
          or_extension = Option.bind (Option.bind row op_extensionId) (\<lambda>e. List.find (\<lambda>x. ex_id x = e) (ad_extensions (as_db s))),
          or_contactNumber = Option.bind (Option.bind row op_contactNumberId) (\<lambda>c. List.find (\<lambda>x. nu_id x = c) (ad_contacts (as_db s))),
          or_hasPIN = (op_pinHash item \<noteq> []),
          or_pin = (case pin of Some p \<Rightarrow> Some p | None \<Rightarrow>
             (case persistedPin of Some p \<Rightarrow> Some p | None \<Rightarrow> map_of (as_runtimePins s) (op_id item))),
          or_callbackNumber = (if text_or_empty (op_callbackNumber item) = [] then None else op_callbackNumber item),
          or_callbackTrunkId = op_callbackTrunkId item\<rparr>))))"

primrec each_response :: "operator_entity list \<Rightarrow> operator_response list admin_op" where
  "each_response [] = give []"
| "each_response (p # ps) =
     then_do (respond_operator p (if text_or_empty (op_pin p) = [] then None else op_pin p)) (\<lambda>r.
     then_do (each_response ps) (\<lambda>rs. give (r # rs)))"

definition findAll_operators :: "admin_env \<Rightarrow> int \<Rightarrow> int \<Rightarrow> (operator_response list \<times> nat \<times> int \<times> int) admin_op" where
  "findAll_operators env pageNumber limit =
     (let safePage = max 1 pageNumber; safeLimit = max 1 limit; offset = (safePage - 1) * safeLimit in
      then_do hasPinColumn (\<lambda>includePin.
      then_do (reading (\<lambda>s. length (ad_operators (as_db s)))) (\<lambda>total.
      then_do (reading (\<lambda>s. ad_pinColumn (as_db s))) (\<lambda>present.
      then_do (if includePin \<and> \<not> present then writing (\<lambda>s. s\<lparr>as_pinColumnAvailable := Some False\<rparr>) else give ()) (\<lambda>_.
      then_do (reading (\<lambda>s. map (\<lambda>p. if includePin \<and> present then p else p\<lparr>op_pin := None\<rparr>)
          (take (nat safeLimit) (drop (nat offset) (sort_key (\<lambda>p. ae_collate env (op_name p)) (ad_operators (as_db s))))))) (\<lambda>items.
      then_do (each_response items) (\<lambda>rs. give (rs, total, safePage, safeLimit))))))))"

subsection \<open>Writing operators\<close>

definition generatePin :: "admin_env \<Rightarrow> string" where
  "generatePin env = show_nat (100000 + ae_random env mod 900000)"

definition normalizeRequired :: "string option \<Rightarrow> string \<Rightarrow> string result" where
  "normalizeRequired value field =
     (let normalized = trim (text_or_empty value) in
      if normalized = [] then throw (BadRequest (field @ '' is required'')) else ok normalized)"

definition normalizeCallbackNumber :: "phone_lib \<Rightarrow> string option \<Rightarrow> string option result" where
  "normalizeCallbackNumber lib value =
     (let raw = trim (text_or_empty value); invalid = throw (BadRequest ''callback_number must be a valid E.164 number'') in
      if raw = [] then ok None
      else if \<not> ph_valid lib raw None then invalid
      else case ph_parse lib raw None of
        None \<Rightarrow> invalid
      | Some (valid, e164) \<Rightarrow> if valid then ok (Some e164) else invalid)"

text \<open>\<open>x ? ... : []\<close>: an id of zero is not looked up.\<close>

definition ensureOperatorLinks :: "int option \<Rightarrow> int option \<Rightarrow> admin_db \<Rightarrow> unit result" where
  "ensureOperatorLinks extensionId contactNumberId db =
     bind_result (case extensionId of None \<Rightarrow> ok () | Some e \<Rightarrow>
       throw_if (e \<noteq> 0 \<and> e \<notin> set (map ex_id (ad_extensions db))) (BadRequest (''extension_id '' @ show_int e @ '' not found''))) (\<lambda>_.
     case contactNumberId of None \<Rightarrow> ok () | Some c \<Rightarrow>
       throw_if (c \<noteq> 0 \<and> c \<notin> set (map nu_id (ad_contacts db))) (BadRequest (''contact_number_id '' @ show_int c @ '' not found'')))"

definition needs_trunk :: "string option \<Rightarrow> int option \<Rightarrow> bool" where
  "needs_trunk callbackNumber callbackTrunkId \<longleftrightarrow>
     text_or_empty callbackNumber \<noteq> [] \<and> (callbackTrunkId = None \<or> callbackTrunkId = Some 0)"

definition operator_row_ok :: "operator_entity \<Rightarrow> admin_db \<Rightarrow> bool" where
  "operator_row_ok p db \<longleftrightarrow>
     length (op_name p) \<le> 255 \<and> reference_ok (op_extensionId p) (map ex_id (ad_extensions db))
     \<and> reference_ok (op_contactNumberId p) (map nu_id (ad_contacts db)) \<and> reference_ok (op_callbackTrunkId p) (ad_trunks db)"

text \<open>\<open>save\<close> writes the columns of the entity; the column \<open>pin\<close> is no part of it.\<close>

definition insert_operator :: "operator_entity \<Rightarrow> operator_entity admin_op" where
  "insert_operator p =
     then_do (reading (\<lambda>s. p\<lparr>op_id := ad_nextOperator (as_db s), op_pin := None\<rparr>)) (\<lambda>row.
     then_do (writing (on_db (\<lambda>db. db\<lparr>ad_nextOperator := ad_nextOperator db + 1\<rparr>))) (\<lambda>_.
     then_do (reading (\<lambda>s. operator_row_ok row (as_db s))) (\<lambda>accepted.
       if \<not> accepted then fail (DbConstraint ''operators'')
       else then_do (writing (on_db (\<lambda>db. db\<lparr>ad_operators := ad_operators db @ [row]\<rparr>))) (\<lambda>_. give row))))"

definition set_operator :: "operator_entity \<Rightarrow> admin_db \<Rightarrow> admin_db" where
  "set_operator row db =
     db\<lparr>ad_operators := map (\<lambda>p. if op_id p = op_id row then row\<lparr>op_pin := op_pin p\<rparr> else p) (ad_operators db)\<rparr>"

definition save_operator :: "operator_entity \<Rightarrow> operator_entity admin_op" where
  "save_operator row =
     then_do (reading (\<lambda>s. operator_row_ok row (as_db s))) (\<lambda>accepted.
       if \<not> accepted then fail (DbConstraint ''operators'')
       else then_do (writing (on_db (set_operator row))) (\<lambda>_. give row))"

text \<open>The update of a column the table lacks is rejected.\<close>

definition storePlainPinIfSupported :: "int \<Rightarrow> string \<Rightarrow> unit admin_op" where
  "storePlainPinIfSupported i pin =
     then_do hasPinColumn (\<lambda>available.
       if \<not> available then give ()
       else then_do (reading (\<lambda>s. ad_pinColumn (as_db s))) (\<lambda>present.
         if \<not> present then fail (DbConstraint ''column pin does not exist'')
         else writing (on_db (\<lambda>db. db\<lparr>ad_operators :=
           map (\<lambda>p. if op_id p = i then p\<lparr>op_pin := Some pin\<rparr> else p) (ad_operators db)\<rparr>))))"

record create_operator_dto =
  co_name :: "string option"
  co_pin :: "string option"
  co_extension_id :: "int option"
  co_contact_number_id :: "int option"
  co_callback_number :: "string option"
  co_callback_trunk_id :: "int option"

record update_operator_dto =
  uo_name :: "string option option"
  uo_pin :: "string option option"
  uo_extension_id :: "int option option"
  uo_contact_number_id :: "int option option"
  uo_callback_number :: "string option option"
  uo_callback_trunk_id :: "int option option"

definition create_operator :: "admin_env \<Rightarrow> create_operator_dto \<Rightarrow> operator_response admin_op" where
  "create_operator env dto =
     then_do (check (normalizeRequired (co_name dto) ''name'')) (\<lambda>name.
     then_do (\<lambda>s. check (ensureOperatorLinks (co_extension_id dto) (co_contact_number_id dto) (as_db s)) s) (\<lambda>_.
       let given = trim (text_or_empty (co_pin dto)); pin = (if given = [] then generatePin env else given) in
       then_do (check (normalizeCallbackNumber (ae_phones env) (co_callback_number dto))) (\<lambda>callbackNumber.
         if needs_trunk callbackNumber (co_callback_trunk_id dto)
         then fail (BadRequest ''callback_trunk_id is required when callback_number is set'')
         else then_do (insert_operator \<lparr>op_id = 0, op_name = name, op_pinHash = ae_hash env pin,
             op_extensionId = co_extension_id dto, op_contactNumberId = co_contact_number_id dto,
             op_callbackNumber = callbackNumber, op_callbackTrunkId = co_callback_trunk_id dto, op_pin = None\<rparr>) (\<lambda>saved.
           then_do (storePlainPinIfSupported (op_id saved) pin) (\<lambda>_.
           then_do (writing (set_pin (op_id saved) pin)) (\<lambda>_.
           respond_operator saved (Some pin)))))))"

text \<open>The changes of an update before its checks; \<open>null\<close> clears a reference.\<close>

definition changed_operator :: "admin_env \<Rightarrow> update_operator_dto \<Rightarrow> operator_entity \<Rightarrow> operator_entity result" where
  "changed_operator env dto p =
     bind_result (case uo_name dto of None \<Rightarrow> ok p | Some n \<Rightarrow>
       bind_result (normalizeRequired n ''name'') (\<lambda>name. ok (p\<lparr>op_name := name\<rparr>))) (\<lambda>p1.
     bind_result (case uo_callback_number dto of None \<Rightarrow> ok p1 | Some n \<Rightarrow>
       bind_result (normalizeCallbackNumber (ae_phones env) n) (\<lambda>c. ok (p1\<lparr>op_callbackNumber := c\<rparr>))) (\<lambda>p2.
     ok (p2\<lparr>op_extensionId := case_option (op_extensionId p2) id (uo_extension_id dto),
            op_contactNumberId := case_option (op_contactNumberId p2) id (uo_contact_number_id dto),
            op_callbackTrunkId := case_option (op_callbackTrunkId p2) id (uo_callback_trunk_id dto)\<rparr>)))"

definition update_operator :: "admin_env \<Rightarrow> int \<Rightarrow> update_operator_dto \<Rightarrow> operator_response admin_op" where
  "update_operator env i dto =
     then_do (reading (\<lambda>s. find_operator i (as_db s))) (\<lambda>found. case found of
       None \<Rightarrow> fail (NotFound (''Operator '' @ show_int i @ '' not found''))
     | Some p \<Rightarrow>
       then_do (check (changed_operator env dto p)) (\<lambda>entity.
         if needs_trunk (op_callbackNumber entity) (op_callbackTrunkId entity)
         then fail (BadRequest ''callback_trunk_id is required when callback_number is set'')
         else then_do (\<lambda>s. check (ensureOperatorLinks (op_extensionId entity) (op_contactNumberId entity) (as_db s)) s) (\<lambda>_.
           case uo_pin dto of
             None \<Rightarrow> then_do (save_operator entity) (\<lambda>saved. respond_operator saved None)
           | Some None \<Rightarrow> fail (InternalError ''Cannot read properties of null'')
           | Some (Some pin) \<Rightarrow>
             then_do (save_operator (entity\<lparr>op_pinHash := ae_hash env (trim pin)\<rparr>)) (\<lambda>saved.
             then_do (storePlainPinIfSupported (op_id saved) (trim pin)) (\<lambda>_.
             then_do (writing (set_pin (op_id saved) (trim pin))) (\<lambda>_.
             respond_operator saved None))))))"

text \<open>Redis is cleaned for the queue the operator's key names, and for no other.\<close>

definition cleanupRedis :: "int \<Rightarrow> queue_store \<Rightarrow> queue_store" where
  "cleanupRedis i r =
     (let key = show_int i; queueId = text_or_empty (q_str r (OperatorQueue key));
          r1 = (if queueId = [] then r
                else r\<lparr>q_set := (q_set r)(Operators queueId := q_set r (Operators queueId) - {key},
                                          Busy queueId := q_set r (Busy queueId) - {key})\<rparr>) in
      r1\<lparr>q_str := (q_str r1)(OperatorQueue key := None, OperatorChannel key := None)\<rparr>)"

definition remove_operator :: "int \<Rightarrow> int admin_op" where
  "remove_operator i =
     then_do (reading (\<lambda>s. find_operator i (as_db s))) (\<lambda>found. case found of
       None \<Rightarrow> fail (NotFound (''Operator '' @ show_int i @ '' not found''))
     | Some p \<Rightarrow>
       then_do (writing (on_db (\<lambda>db. db\<lparr>ad_operators := filter (\<lambda>q. op_id q \<noteq> i) (ad_operators db),
         ad_links := filter (\<lambda>(q, o'). o' \<noteq> i) (ad_links db)\<rparr>))) (\<lambda>_.
       then_do (writing (\<lambda>s. s\<lparr>as_redis := cleanupRedis i (as_redis s)\<rparr>)) (\<lambda>_.
       then_do (writing (\<lambda>s. s\<lparr>as_runtimePins := AList.delete i (as_runtimePins s)\<rparr>)) (\<lambda>_.
       give i))))"

text \<open>\<open>getPin\<close> asks the table itself and sets what is believed of the column.\<close>

definition getPin :: "int \<Rightarrow> string option admin_op" where
  "getPin i =
     then_do (reading (\<lambda>s. find_operator i (as_db s))) (\<lambda>found. case found of
       None \<Rightarrow> fail (NotFound (''Operator '' @ show_int i @ '' not found''))
     | Some p \<Rightarrow>
       then_do (reading (\<lambda>s. ad_pinColumn (as_db s))) (\<lambda>present.
       then_do (writing (\<lambda>s. s\<lparr>as_pinColumnAvailable := Some present\<rparr>)) (\<lambda>_.
         let persistedPin = (if present \<and> text_or_empty (op_pin p) \<noteq> [] then op_pin p else None) in
         case persistedPin of
           Some pin \<Rightarrow> then_do (writing (set_pin i pin)) (\<lambda>_. give (Some pin))
         | None \<Rightarrow>
           then_do (reading (\<lambda>s. map_of (as_runtimePins s) i)) (\<lambda>runtimePin.
             if text_or_empty runtimePin \<noteq> [] then give runtimePin
             else if op_pinHash p \<noteq> [] then fail (Conflict ''PIN is hashed and cannot be retrieved. Set a new PIN to reveal it.'')
             else give None))))"

section \<open>A restart\<close>

text \<open>
  \<open>runSqlMigrations\<close> runs every statement of every migration on each start of the backend.  Of their effects
  the model has those on the column \<open>pin\<close>: \<open>018\<close> drops it and \<open>022\<close> adds it.  \<open>room\<close> tells whether a column
  can still be added: Postgres counts dropped columns, and the statement that fails for this is skipped.
\<close>

datatype pin_statement = DropPin | AddPin

definition pin_migrations :: "pin_statement list" where
  "pin_migrations = [DropPin, AddPin]"

definition without_pins :: "operator_entity list \<Rightarrow> operator_entity list" where
  "without_pins ps = map (\<lambda>p. p\<lparr>op_pin := None\<rparr>) ps"

definition run_statement :: "bool \<Rightarrow> pin_statement \<Rightarrow> admin_db \<Rightarrow> admin_db" where
  "run_statement room st db =
     (case st of
        DropPin \<Rightarrow> db\<lparr>ad_operators := without_pins (ad_operators db), ad_pinColumn := False\<rparr>
      | AddPin \<Rightarrow> if ad_pinColumn db \<or> \<not> room then db else db\<lparr>ad_pinColumn := True\<rparr>)"

definition restart :: "bool \<Rightarrow> admin_state \<Rightarrow> admin_state" where
  "restart room s =
     s\<lparr>as_db := fold (run_statement room) pin_migrations (as_db s), as_runtimePins := [], as_pinColumnAvailable := None\<rparr>"

end
