(* ===== verification/QueueLogin.thy ===== *)
theory QueueLogin
  imports QueueExecutor OperatorAdmin
begin

text \<open>
  \<open>executors/queue_login.executor.ts\<close>: an operator calls, enters a PIN and is logged in to the queues of the
  node until the call ends or the operator presses \<open>#\<close>.  The executor reads the tables of the operators
  service and drives the queue manager; the events of each wait are a list, and other operations of the
  queues run between any two actions.
\<close>

section \<open>Digits\<close>

text \<open>
  An event with its instant in milliseconds and its identity: the client and the channel report the same
  event object to the same listener.
\<close>

datatype login_event =
    LoginDtmf "string option" "string option" nat nat
  | LoginGone "string option"
  | LoginTimeout

text \<open>The variables of \<open>waitForDtmfDigits\<close>; \<open>lw_result\<close> is the promise, \<open>Some None\<close> resolved with \<open>null\<close>.\<close>

record login_wait =
  lw_digits :: string
  lw_lastDigit :: string
  lw_lastDigitAt :: nat
  lw_seen :: "nat list"
  lw_firstDigitHandled :: bool
  lw_result :: "string option option"

definition new_login_wait :: login_wait where
  "new_login_wait = \<lparr>lw_digits = [], lw_lastDigit = [], lw_lastDigitAt = 0, lw_seen = [],
     lw_firstDigitHandled = False, lw_result = None\<rparr>"

text \<open>\<open>settle\<close> removes the listeners, so later events change nothing.\<close>

definition login_dtmf :: "string \<Rightarrow> nat \<Rightarrow> string option \<Rightarrow> string option \<Rightarrow> nat \<Rightarrow> nat \<Rightarrow> login_wait \<Rightarrow> login_wait" where
  "login_dtmf ch maxDigits evc d now i w =
     (if other_channel ch evc then w
      else if i \<in> set (lw_seen w) then w
      else let w1 = w\<lparr>lw_seen := i # lw_seen w\<rparr>; digit = text_or_empty d in
        if digit = lw_lastDigit w1 \<and> int now - int (lw_lastDigitAt w1) \<le> 80 then w1
        else let w2 = w1\<lparr>lw_lastDigit := digit, lw_lastDigitAt := now\<rparr> in
          if digit = ''#'' then w2\<lparr>lw_result := Some (if lw_digits w2 = [] then None else Some (lw_digits w2))\<rparr>
          else let w3 = w2\<lparr>lw_firstDigitHandled := True, lw_digits := lw_digits w2 @ digit\<rparr> in
            if maxDigits \<le> length (lw_digits w3) then w3\<lparr>lw_result := Some (Some (lw_digits w3))\<rparr> else w3)"

fun login_listener :: "string \<Rightarrow> nat \<Rightarrow> login_event \<Rightarrow> login_wait \<Rightarrow> login_wait" where
  "login_listener ch maxDigits e w =
     (if lw_result w \<noteq> None then w
      else case e of
        LoginDtmf evc d now i \<Rightarrow> login_dtmf ch maxDigits evc d now i w
      | LoginGone c \<Rightarrow> if c \<noteq> Some ch then w else w\<lparr>lw_result := Some None\<rparr>
      | LoginTimeout \<Rightarrow> w\<lparr>lw_result := Some None\<rparr>)"

declare login_listener.simps [simp del]

definition waitForDtmfDigits :: "string \<Rightarrow> nat \<Rightarrow> login_event list \<Rightarrow> string option option" where
  "waitForDtmfDigits ch maxDigits events = lw_result (fold (login_listener ch maxDigits) events new_login_wait)"

section \<open>Configuration\<close>

definition DEFAULT_INPUT_TIMEOUT_MS :: int where
  "DEFAULT_INPUT_TIMEOUT_MS = 10000"

definition resolveQueueLoginInputTimeoutMs :: "rt_node \<Rightarrow> session \<Rightarrow> int" where
  "resolveQueueLoginInputTimeoutMs node s =
     (let useFlowDefaultTimeout = (obj_get (n_config node) ''use_flow_default_timeout'' \<noteq> Some (JBool False));
          nodeTimeoutMs = parseValidTimeoutMs (obj_get (n_config node) ''input_timeout_ms'');
          flowDefaultTimeoutMs = resolveFlowDefaultTimeoutMs (s_flow s);
          first = (\<lambda>a b. case a of Some t \<Rightarrow> t | None \<Rightarrow> (case b of Some t \<Rightarrow> t | None \<Rightarrow> DEFAULT_INPUT_TIMEOUT_MS)) in
      if useFlowDefaultTimeout then first flowDefaultTimeoutMs nodeTimeoutMs else first nodeTimeoutMs flowDefaultTimeoutMs)"

definition positive_integer :: "number \<Rightarrow> bool" where
  "positive_integer n \<longleftrightarrow> (case num_int n of None \<Rightarrow> False | Some i \<Rightarrow> 0 < i)"

definition selectedQueueIds :: "config \<Rightarrow> number list" where
  "selectedQueueIds config =
     (let queueIds = (case obj_get config ''queue_ids'' of
            Some (JArr xs) \<Rightarrow> filter positive_integer (map (\<lambda>v. js_number (Some v)) xs)
          | _ \<Rightarrow> []);
          queueId = num_or_zero (obj_get config ''queue_id'') in
      if queueIds \<noteq> [] then queueIds else if num_truthy queueId then [queueId] else [])"

definition findSourceMenuNode :: "session \<Rightarrow> rt_node \<Rightarrow> rt_node option" where
  "findSourceMenuNode s node =
     (case List.find (\<lambda>e. e_target e = n_key node) (f_edges (s_flow s)) of
        None \<Rightarrow> None
      | Some e \<Rightarrow> List.find (\<lambda>n. n_key n = e_source e \<and> n_type n = ''menu'') (f_nodes (s_flow s)))"

section \<open>The environment\<close>

text \<open>
  What the executor asks of the database, of \<open>bcrypt\<close> and of Asterisk; a query is rejected with a message.
  \<open>lx_file\<close> is the query for the \<open>file_path\<close> of an audio file, \<open>lx_moh\<close> whether a request about the music on
  hold succeeds, \<open>lx_input k\<close> the events of the k-th wait for digits and \<open>lx_after\<close> those seen by the
  listeners of the logout.
\<close>

record login_env = queue_env +
  lx_db :: "queue_store \<Rightarrow> string + admin_db"
  lx_compare :: "string \<Rightarrow> string \<Rightarrow> string + bool"
  lx_media :: "queue_store media_env"
  lx_file :: "number \<Rightarrow> queue_store \<Rightarrow> string + string option"
  lx_redis :: "queue_store \<Rightarrow> string + unit"
  lx_moh :: "ari_call \<Rightarrow> queue_store \<Rightarrow> bool"
  lx_input :: "nat \<Rightarrow> login_event list"
  lx_after :: "login_event list"

definition login_base :: "login_env \<Rightarrow> queue_env" where
  "login_base env = queue_env.truncate env"

text \<open>The two queries; \<open>ANY(...::int[])\<close> rejects a list with a number that is no integer.\<close>

definition integers :: "number list \<Rightarrow> int list option" where
  "integers ns = (if list_all (\<lambda>n. num_int n \<noteq> None) ns then Some (map (\<lambda>n. the (num_int n)) ns) else None)"

definition queue_rows :: "int list \<Rightarrow> admin_db \<Rightarrow> (int \<times> int) list" where
  "queue_rows ids db =
     map (\<lambda>q. (qu_id q, case qu_pinRetryAttempts q of None \<Rightarrow> 0 | Some n \<Rightarrow> n)) (filter (\<lambda>q. qu_id q \<in> set ids) (ad_queues db))"

text \<open>The order of the rows is the database's; the model has that of the table.\<close>

definition operator_rows :: "int list \<Rightarrow> admin_db \<Rightarrow> (int \<times> string) list" where
  "operator_rows ids db =
     map (\<lambda>p. (op_id p, op_pinHash p))
       (filter (\<lambda>p. list_ex (\<lambda>q. (q, op_id p) \<in> set (ad_links db)) ids) (ad_operators db))"

section \<open>Steps of the executor\<close>

primrec for_queues :: "('a \<Rightarrow> unit queue_op) \<Rightarrow> 'a list \<Rightarrow> unit queue_op" where
  "for_queues f [] = Ret ()"
| "for_queues f (q # qs) = andThen (f q) (\<lambda>_. for_queues f qs)"

definition play_sound :: "login_env \<Rightarrow> session \<Rightarrow> string \<Rightarrow> unit queue_op" where
  "play_sound env s path = attempt (md_play (lx_media env) (getPlaybackTarget s) (''sound:'' @ path))"

definition playMenuInvalidPrompt :: "login_env \<Rightarrow> session \<Rightarrow> rt_node \<Rightarrow> unit queue_op" where
  "playMenuInvalidPrompt env s menuNode =
     andThen (attempt (\<lambda>st. (resolveAudioMediaPath (lx_media env) st (n_config menuNode)
         ''invalid_prompt_audio_id'' ''invalid_prompt_path'', st))) (\<lambda>path.
       case path of None \<Rightarrow> Ret () | Some p \<Rightarrow> play_sound env s p)"

definition routeBackToMenuOnFailure :: "login_env \<Rightarrow> rt_node \<Rightarrow> session \<Rightarrow> string queue_op" where
  "routeBackToMenuOnFailure env node s =
     (case findSourceMenuNode s node of
        None \<Rightarrow> Ret ''failed''
      | Some menuNode \<Rightarrow>
        andThen (tryCatch (playMenuInvalidPrompt env s menuNode) (\<lambda>_. Ret ())) (\<lambda>_. Ret (''route:'' @ n_key menuNode)))"

definition moh_request :: "login_env \<Rightarrow> ari_call \<Rightarrow> unit queue_op" where
  "moh_request env r =
     attempt (\<lambda>st. if lx_moh env r st then (Inr (), st\<lparr>q_ari := q_ari st @ [r]\<rparr>) else (Inl ''moh'', st))"

text \<open>The channel first, the bridge when that fails.\<close>

definition startOperatorHoldAudio :: "login_env \<Rightarrow> session \<Rightarrow> unit queue_op" where
  "startOperatorHoldAudio env s =
     tryCatch (moh_request env (StartMoh (s_channelId s))) (\<lambda>_.
       case s_inboundBridge s of
         None \<Rightarrow> Ret ()
       | Some b \<Rightarrow> if b = [] then Ret () else moh_request env (BridgeStartMoh b))"

definition stopOperatorHoldAudio :: "login_env \<Rightarrow> session \<Rightarrow> unit queue_op" where
  "stopOperatorHoldAudio env s =
     tryCatch (moh_request env (StopMoh (s_channelId s))) (\<lambda>_.
       case s_inboundBridge s of
         None \<Rightarrow> Ret ()
       | Some b \<Rightarrow> if b = [] then Ret () else moh_request env (BridgeStopMoh b))"

definition play_file :: "login_env \<Rightarrow> session \<Rightarrow> number \<Rightarrow> unit queue_op" where
  "play_file env s audioId =
     andThen (attempt (\<lambda>st. (lx_file env audioId st, st))) (\<lambda>file_path.
       if text_or_empty file_path = [] then Ret () else play_sound env s (text_or_empty file_path))"

definition play_login_success :: "login_env \<Rightarrow> config \<Rightarrow> session \<Rightarrow> unit queue_op" where
  "play_login_success env config s =
     (let a = obj_get config ''login_success_audio_file_id'' in
      if \<not> truthy a then Ret () else tryCatch (play_file env s (js_number a)) (\<lambda>_. Ret ()))"

definition play_wrong_pin :: "login_env \<Rightarrow> config \<Rightarrow> session \<Rightarrow> unit queue_op" where
  "play_wrong_pin env config s =
     (let a = obj_get config ''wrong_pin_audio_file_id'' in
      if \<not> truthy a then Ret ()
      else tryCatch (andThen (attempt (\<lambda>st. (lx_redis env st, st))) (\<lambda>_. play_file env s (js_number a))) (\<lambda>_. Ret ()))"

text \<open>The prompt plays while the digits are awaited; its errors are swallowed.\<close>

definition play_login_prompt :: "login_env \<Rightarrow> config \<Rightarrow> session \<Rightarrow> unit queue_op" where
  "play_login_prompt env config s =
     andThen (attempt (\<lambda>st. (resolveAudioMediaPath (lx_media env) st config ''prompt_audio_file_id'' ''prompt_path'', st))) (\<lambda>path.
       tryCatch (play_sound env s (if text_or_empty path = [] then ''custom/queue-enter-pin'' else text_or_empty path)) (\<lambda>_. Ret ()))"

primrec matching_operator :: "login_env \<Rightarrow> string \<Rightarrow> (int \<times> string) list \<Rightarrow> int option queue_op" where
  "matching_operator env input [] = Ret None"
| "matching_operator env input (row # rows) =
     andThen (attempt (\<lambda>st. (lx_compare env input (snd row), st))) (\<lambda>matches.
       if matches then Ret (Some (fst row)) else matching_operator env input rows)"

text \<open>The events that end a login; the listeners are registered once the operator is logged in.\<close>

fun ends_login :: "string \<Rightarrow> login_event \<Rightarrow> bool" where
  "ends_login ch (LoginDtmf evc d now i) \<longleftrightarrow> evc = Some ch \<and> d = Some ''#''"
| "ends_login ch (LoginGone c) \<longleftrightarrow> c = Some ch"
| "ends_login ch LoginTimeout \<longleftrightarrow> False"

definition authenticated :: "login_env \<Rightarrow> config \<Rightarrow> session \<Rightarrow> number list \<Rightarrow> int \<Rightarrow> string option queue_op" where
  "authenticated env config s queues operatorId =
     (let op = num_of_int operatorId in
      andThen (for_queues (\<lambda>q. loginOperator (login_base env) q op (s_channelId s)) queues) (\<lambda>_.
      andThen (tryCatch (startOperatorHoldAudio env s) (\<lambda>_. Ret ())) (\<lambda>_.
      andThen (play_login_success env config s) (\<lambda>_.
      if \<not> list_ex (ends_login (s_channelId s)) (lx_after env) then Ret None
      else andThen (tryCatch (stopOperatorHoldAudio env s) (\<lambda>_. Ret ())) (\<lambda>_.
           andThen (for_queues (\<lambda>q. logoutOperator op q) queues) (\<lambda>_.
           Ret (Some ''authenticated'')))))))"

text \<open>\<open>Ret None\<close>: a promise is still pending when its events end.\<close>

definition route_back :: "login_env \<Rightarrow> rt_node \<Rightarrow> session \<Rightarrow> string option queue_op" where
  "route_back env node s = andThen (routeBackToMenuOnFailure env node s) (\<lambda>r. Ret (Some r))"

primrec login_attempts :: "login_env \<Rightarrow> rt_node \<Rightarrow> session \<Rightarrow> number list \<Rightarrow> (int \<times> string) list \<Rightarrow> nat \<Rightarrow> nat \<Rightarrow> string option queue_op" where
  "login_attempts env node s queues ops 0 k = route_back env node s"
| "login_attempts env node s queues ops (Suc attemptsLeft) k =
     andThen (play_login_prompt env (n_config node) s) (\<lambda>_.
     case waitForDtmfDigits (s_channelId s) 6 (lx_input env k) of
       None \<Rightarrow> Ret None
     | Some None \<Rightarrow> route_back env node s
     | Some (Some input) \<Rightarrow>
       andThen (matching_operator env input ops) (\<lambda>matched. case matched of
         Some operatorId \<Rightarrow> authenticated env (n_config node) s queues operatorId
       | None \<Rightarrow> andThen (play_wrong_pin env (n_config node) s) (\<lambda>_.
           login_attempts env node s queues ops attemptsLeft (Suc k))))"

text \<open>\<open>Math.min(...)\<close> of the rows, of which there is at least one.\<close>

definition max_login_attempts :: "(int \<times> int) list \<Rightarrow> int" where
  "max_login_attempts rows = foldr (\<lambda>r m. min (snd r) m) (tl rows) (snd (hd rows))"

definition executeQueueLogin :: "login_env \<Rightarrow> rt_node \<Rightarrow> session \<Rightarrow> string option queue_op" where
  "executeQueueLogin env node s =
     (let queues = selectedQueueIds (n_config node) in
      if queues = [] then route_back env node s
      else case integers queues of
        None \<Rightarrow> Fail ''invalid input syntax for type integer''
      | Some ids \<Rightarrow>
        andThen (attempt (\<lambda>st. (map_sum id (queue_rows ids) (lx_db env st), st))) (\<lambda>rows.
        if length rows \<noteq> length queues then route_back env node s
        else andThen (attempt (\<lambda>st. (map_sum id (operator_rows ids) (lx_db env st), st))) (\<lambda>ops.
          if ops = [] then route_back env node s
          else login_attempts env node s queues ops (nat (max_login_attempts rows)) 0)))"

end
