(* ===== verification/OperatorProperties.thy ===== *)
theory OperatorProperties
  imports OperatorAdmin
begin

text \<open>
  The tables of queues and operators stay well-formed under every sequence of requests and restarts, slugs
  are unique, and the places where an operation leaves something half done: links that are deleted and not
  written again, PINs that a restart loses, and operators who stay in queues after they are deleted.
\<close>

section \<open>The invariant of the tables\<close>

definition queues_ok :: "admin_db \<Rightarrow> bool" where
  "queues_ok db \<longleftrightarrow>
     distinct (map qu_id (ad_queues db)) \<and> distinct (map qu_slug (ad_queues db))
     \<and> (\<forall>q \<in> set (ad_queues db). qu_id q < ad_nextQueue db \<and> queue_columns_ok q (ad_audio db))"

definition operators_ok :: "admin_db \<Rightarrow> bool" where
  "operators_ok db \<longleftrightarrow>
     distinct (map op_id (ad_operators db))
     \<and> (\<forall>p \<in> set (ad_operators db). op_id p < ad_nextOperator db \<and> operator_row_ok p db)"

definition links_ok :: "admin_db \<Rightarrow> bool" where
  "links_ok db \<longleftrightarrow>
     distinct (ad_links db) \<and> set (ad_links db) \<subseteq> set (map qu_id (ad_queues db)) \<times> set (map op_id (ad_operators db))"

definition admin_inv :: "admin_db \<Rightarrow> bool" where
  "admin_inv db \<longleftrightarrow> queues_ok db \<and> operators_ok db \<and> links_ok db"

definition preserves :: "'a admin_op \<Rightarrow> bool" where
  "preserves f \<longleftrightarrow> (\<forall>s. admin_inv (as_db s) \<longrightarrow> admin_inv (as_db (snd (f s))))"

named_theorems preserving

lemma preserves_then [preserving]: "preserves f \<Longrightarrow> (\<And>a. preserves (g a)) \<Longrightarrow> preserves (then_do f g)"
  unfolding preserves_def then_do_def by (force split: prod.split sum.split)

lemma preserves_pure [preserving]:
  "preserves (give a)" "preserves (fail e)" "preserves (check r)" "preserves (reading h)"
  by (simp_all add: preserves_def stateful_simps)

lemma preserves_writing: "(\<And>s. admin_inv (as_db s) \<Longrightarrow> admin_inv (as_db (h s))) \<Longrightarrow> preserves (writing h)"
  by (simp add: preserves_def writing_def)

lemma preserves_fields [preserving]:
  "preserves (writing (\<lambda>s. s\<lparr>as_pinColumnAvailable := b\<rparr>))" "preserves (writing (set_pin i p))"
  "preserves (writing (\<lambda>s. s\<lparr>as_redis := f (as_redis s)\<rparr>))" "preserves (writing (\<lambda>s. s\<lparr>as_runtimePins := h (as_runtimePins s)\<rparr>))"
  by (simp_all add: preserves_writing set_pin_def)

lemma preserves_checking [preserving]: "preserves (\<lambda>s. check (r s) s)"
  by (simp add: preserves_def check_def)

lemma preserves_option [preserving]:
  "preserves a \<Longrightarrow> (\<And>x. preserves (b x)) \<Longrightarrow> preserves (case v of None \<Rightarrow> a | Some x \<Rightarrow> b x)"
  by (simp split: option.split)

lemma preserves_if [preserving]: "preserves a \<Longrightarrow> preserves b \<Longrightarrow> preserves (if c then a else b)"
  by simp

text \<open>The parts of the invariant see the fields they speak of only.\<close>

lemma operator_row_ok_updates [simp]:
  "operator_row_ok p (db\<lparr>ad_queues := qs\<rparr>) = operator_row_ok p db" "operator_row_ok p (db\<lparr>ad_links := ls\<rparr>) = operator_row_ok p db"
  "operator_row_ok p (db\<lparr>ad_nextQueue := n\<rparr>) = operator_row_ok p db" "operator_row_ok p (db\<lparr>ad_operators := ps\<rparr>) = operator_row_ok p db"
  "operator_row_ok p (db\<lparr>ad_nextOperator := n\<rparr>) = operator_row_ok p db" "operator_row_ok p (db\<lparr>ad_pinColumn := b\<rparr>) = operator_row_ok p db"
  by (simp_all add: operator_row_ok_def)

lemma slugs_of_others_updates [simp]:
  "slugs_of_others e (db\<lparr>ad_nextQueue := n\<rparr>) = slugs_of_others e db" "slugs_of_others e (db\<lparr>ad_links := ls\<rparr>) = slugs_of_others e db"
  by (simp_all add: slugs_of_others_def)

lemma queues_ok_updates [simp]:
  "queues_ok (db\<lparr>ad_links := ls\<rparr>) = queues_ok db" "queues_ok (db\<lparr>ad_operators := ps\<rparr>) = queues_ok db"
  "queues_ok (db\<lparr>ad_nextOperator := n\<rparr>) = queues_ok db" "queues_ok (db\<lparr>ad_pinColumn := b\<rparr>) = queues_ok db"
  by (simp_all add: queues_ok_def)

lemma operators_ok_updates [simp]:
  "operators_ok (db\<lparr>ad_links := ls\<rparr>) = operators_ok db" "operators_ok (db\<lparr>ad_queues := qs\<rparr>) = operators_ok db"
  "operators_ok (db\<lparr>ad_nextQueue := n\<rparr>) = operators_ok db" "operators_ok (db\<lparr>ad_pinColumn := b\<rparr>) = operators_ok db"
  by (simp_all add: operators_ok_def)

lemma links_ok_updates [simp]:
  "links_ok (db\<lparr>ad_nextQueue := n\<rparr>) = links_ok db" "links_ok (db\<lparr>ad_nextOperator := n\<rparr>) = links_ok db"
  "links_ok (db\<lparr>ad_pinColumn := b\<rparr>) = links_ok db"
  by (simp_all add: links_ok_def)

section \<open>Queues\<close>

lemma find_queue_mem: "find_queue i db = Some q \<Longrightarrow> q \<in> set (ad_queues db) \<and> qu_id q = i"
  unfolding find_queue_def using find_Some_iff' by fast

lemma links_removed: "admin_inv db \<Longrightarrow> admin_inv (db\<lparr>ad_links := filter P (ad_links db)\<rparr>)"
  by (auto simp: admin_inv_def links_ok_def)

lemma links_added:
  assumes "admin_inv db" and "find_queue i db \<noteq> None" and "set xs \<subseteq> set (map op_id (ad_operators db))" and "\<forall>p. (i, p) \<notin> set (ad_links db)"
  shows "admin_inv (db\<lparr>ad_links := ad_links db @ map (Pair i) (dedup xs)\<rparr>)"
proof -
  have "i \<in> set (map qu_id (ad_queues db))" using assms(2) find_queue_mem by fastforce
  then show ?thesis using assms(1,3,4) by (auto simp: admin_inv_def links_ok_def distinct_map inj_on_def)
qed

lemma sync_preserves [preserving]: "preserves (syncOperators i ids)"
  unfolding preserves_def
proof (intro allI impI)
  fix s :: admin_state
  let ?db = "(as_db s)\<lparr>ad_links := filter (\<lambda>(q, p). q \<noteq> i) (ad_links (as_db s))\<rparr>"
  assume "admin_inv (as_db s)"
  then have a: "admin_inv ?db" by (rule links_removed)
  have "admin_inv (?db\<lparr>ad_links := ad_links ?db @ map (Pair i) (dedup xs)\<rparr>)"
    if "find_queue i ?db \<noteq> None" "set xs \<subseteq> set (map op_id (ad_operators ?db))" for xs
    by (rule links_added [OF a that]) simp
  with a show "admin_inv (as_db (snd (syncOperators i ids s)))"
    by (auto simp: syncOperators_def stateful_simps on_db_def split: option.split)
qed

lemma queue_inv_iff:
  "admin_inv (db\<lparr>ad_queues := qs, ad_nextQueue := n\<rparr>) \<longleftrightarrow>
     distinct (map qu_id qs) \<and> distinct (map qu_slug qs) \<and> (\<forall>q \<in> set qs. qu_id q < n \<and> queue_columns_ok q (ad_audio db))
     \<and> operators_ok db \<and> distinct (ad_links db) \<and> set (ad_links db) \<subseteq> set (map qu_id qs) \<times> set (map op_id (ad_operators db))"
  by (auto simp: admin_inv_def queues_ok_def links_ok_def)

lemma insert_queue_inv:
  assumes "admin_inv db" and "queue_row_ok row db" and "qu_id row = ad_nextQueue db"
  shows "admin_inv (db\<lparr>ad_nextQueue := ad_nextQueue db + 1, ad_queues := ad_queues db @ [row]\<rparr>)"
proof -
  have swap: "db\<lparr>ad_nextQueue := n, ad_queues := qs\<rparr> = db\<lparr>ad_queues := qs, ad_nextQueue := n\<rparr>" for n qs by simp
  have fresh: "\<forall>q \<in> set (ad_queues db). qu_id q < qu_id row" using assms by (simp add: admin_inv_def queues_ok_def)
  then have "qu_slug row \<notin> set (map qu_slug (ad_queues db))"
    using assms(2) by (auto simp: queue_row_ok_def slugs_of_others_def)
  then show ?thesis unfolding swap queue_inv_iff using assms fresh
    by (fastforce simp: admin_inv_def queues_ok_def links_ok_def queue_row_ok_def)
qed

lemma insert_queue_preserves [preserving]: "preserves (insert_queue q)"
proof -
  have n: "admin_inv db \<Longrightarrow> admin_inv (db\<lparr>ad_nextQueue := ad_nextQueue db + 1\<rparr>)" for db
    by (auto simp: admin_inv_def queues_ok_def)
  show ?thesis unfolding preserves_def
  proof (intro allI impI)
    fix s :: admin_state
    assume inv: "admin_inv (as_db s)"
    show "admin_inv (as_db (snd (insert_queue q s)))"
      using insert_queue_inv [OF inv, of "q\<lparr>qu_id := ad_nextQueue (as_db s)\<rparr>"] n [OF inv]
      by (simp add: insert_queue_def stateful_simps on_db_def queue_row_ok_def)
  qed
qed

lemma replaced_keys: "key r = k \<Longrightarrow> map key (map (\<lambda>x. if key x = k then r else x) xs) = map key xs"
  by auto

lemma distinct_replaced:
  assumes "distinct (map f xs)" and "distinct (map key xs)" and "f r \<notin> f ` {x \<in> set xs. key x \<noteq> key r}"
  shows "distinct (map f (map (\<lambda>x. if key x = key r then r else x) xs))"
  using assms
proof (induction xs)
  case (Cons a xs)
  then have ih: "distinct (map f (map (\<lambda>x. if key x = key r then r else x) xs))" by auto
  show ?case
  proof (cases "key a = key r")
    case True
    then have other: "\<forall>x \<in> set xs. key x \<noteq> key r" using Cons.prems(2) by (metis distinct.simps(2) image_eqI list.simps(9) set_map)
    then have "map (\<lambda>x. if key x = key r then r else x) xs = xs" by (simp add: map_idI)
    then show ?thesis using True Cons.prems other by auto
  next
    case False
    then have "f r \<noteq> f a" using Cons.prems(3) by auto
    then have "f a \<notin> f ` set (map (\<lambda>x. if key x = key r then r else x) xs)" using Cons.prems(1) by auto
    then show ?thesis using False ih by (simp add: image_image del: map_map)
  qed
qed simp

lemma save_queue_inv:
  assumes "admin_inv db" and "queue_row_ok row db"
  shows "admin_inv (db\<lparr>ad_queues := map (\<lambda>q. if qu_id q = qu_id row then row else q) (ad_queues db)\<rparr>)"
proof -
  let ?qs = "map (\<lambda>q. if qu_id q = qu_id row then row else q) (ad_queues db)"
  have ids: "map qu_id ?qs = map qu_id (ad_queues db)" by (rule replaced_keys) simp
  have d: "distinct (map qu_slug ?qs)"
    by (rule distinct_replaced) (use assms in \<open>auto simp: admin_inv_def queues_ok_def queue_row_ok_def slugs_of_others_def\<close>)
  have "\<forall>q \<in> set ?qs. qu_id q < ad_nextQueue db \<and> queue_columns_ok q (ad_audio db)"
    using assms by (auto simp: admin_inv_def queues_ok_def queue_row_ok_def)
  then have "admin_inv (db\<lparr>ad_queues := ?qs, ad_nextQueue := ad_nextQueue db\<rparr>)"
    unfolding queue_inv_iff ids using assms(1) d by (simp add: admin_inv_def queues_ok_def links_ok_def)
  then show ?thesis by simp
qed

lemma save_queue_preserves [preserving]: "preserves (save_queue row)"
  unfolding preserves_def save_queue_def using save_queue_inv by (auto simp: stateful_simps on_db_def)



section \<open>Operators\<close>

lemma find_operator_mem: "find_operator i db = Some p \<Longrightarrow> p \<in> set (ad_operators db) \<and> op_id p = i"
  unfolding find_operator_def using find_Some_iff' by fast

lemma operator_inv_iff:
  "admin_inv (db\<lparr>ad_operators := ps, ad_nextOperator := n\<rparr>) \<longleftrightarrow>
     queues_ok db \<and> distinct (map op_id ps) \<and> (\<forall>p \<in> set ps. op_id p < n \<and> operator_row_ok p db)
     \<and> distinct (ad_links db) \<and> set (ad_links db) \<subseteq> set (map qu_id (ad_queues db)) \<times> set (map op_id ps)"
  by (auto simp: admin_inv_def operators_ok_def links_ok_def)

lemma insert_operator_inv:
  assumes "admin_inv db" and "operator_row_ok row db" and "op_id row = ad_nextOperator db"
  shows "admin_inv (db\<lparr>ad_nextOperator := ad_nextOperator db + 1, ad_operators := ad_operators db @ [row]\<rparr>)"
proof -
  have swap: "db\<lparr>ad_nextOperator := n, ad_operators := ps\<rparr> = db\<lparr>ad_operators := ps, ad_nextOperator := n\<rparr>" for n ps by simp
  show ?thesis unfolding swap operator_inv_iff using assms
    by (fastforce simp: admin_inv_def operators_ok_def links_ok_def)
qed

lemma operator_row_ok_fields [simp]:
  "operator_row_ok (p\<lparr>op_pin := v\<rparr>) db = operator_row_ok p db" "operator_row_ok (p\<lparr>op_id := i\<rparr>) db = operator_row_ok p db"
  by (simp_all add: operator_row_ok_def)

lemma insert_operator_preserves [preserving]: "preserves (insert_operator p)"
proof -
  have n: "admin_inv db \<Longrightarrow> admin_inv (db\<lparr>ad_nextOperator := ad_nextOperator db + 1\<rparr>)" for db
    by (auto simp: admin_inv_def operators_ok_def)
  show ?thesis unfolding preserves_def
  proof (intro allI impI)
    fix s :: admin_state
    assume inv: "admin_inv (as_db s)"
    show "admin_inv (as_db (snd (insert_operator p s)))"
      using insert_operator_inv [OF inv, of "p\<lparr>op_id := ad_nextOperator (as_db s), op_pin := None\<rparr>"] n [OF inv]
      by (simp add: insert_operator_def stateful_simps on_db_def)
  qed
qed

text \<open>Rewriting rows without touching their ids.\<close>

lemma rewrite_operators_inv:
  assumes "admin_inv db" and "map op_id ps = map op_id (ad_operators db)" and "\<forall>p \<in> set ps. operator_row_ok p db"
  shows "admin_inv (db\<lparr>ad_operators := ps\<rparr>)"
proof -
  have "\<forall>p \<in> set ps. op_id p < ad_nextOperator db"
  proof
    fix p assume "p \<in> set ps"
    then have "op_id p \<in> set (map op_id (ad_operators db))" using assms(2) by (metis imageI set_map)
    then show "op_id p < ad_nextOperator db" using assms(1) by (auto simp: admin_inv_def operators_ok_def)
  qed
  then have "admin_inv (db\<lparr>ad_operators := ps, ad_nextOperator := ad_nextOperator db\<rparr>)"
    unfolding operator_inv_iff assms(2) using assms(1,3) by (simp add: admin_inv_def operators_ok_def links_ok_def)
  then show ?thesis by simp
qed

lemma save_operator_preserves [preserving]: "preserves (save_operator row)"
proof -
  have "admin_inv (set_operator row db)" if "admin_inv db" "operator_row_ok row db" for db
    unfolding set_operator_def
    by (rule rewrite_operators_inv [OF that(1)]) (use that in \<open>auto simp: admin_inv_def operators_ok_def\<close>)
  then show ?thesis unfolding preserves_def save_operator_def by (auto simp: stateful_simps on_db_def)
qed

lemma pin_written_inv:
  "admin_inv db \<Longrightarrow> admin_inv (db\<lparr>ad_operators := map (\<lambda>p. if op_id p = i then p\<lparr>op_pin := v\<rparr> else p) (ad_operators db)\<rparr>)"
  by (rule rewrite_operators_inv) (auto simp: admin_inv_def operators_ok_def)

lemma store_pin_preserves [preserving]: "preserves (storePlainPinIfSupported i pin)"
proof -
  have "preserves (writing (on_db (\<lambda>db. db\<lparr>ad_operators := map (\<lambda>p. if op_id p = i then p\<lparr>op_pin := Some pin\<rparr> else p) (ad_operators db)\<rparr>)))"
    by (rule preserves_writing) (simp add: on_db_def pin_written_inv)
  then show ?thesis unfolding storePlainPinIfSupported_def hasPinColumn_def by (intro preserving)
qed

lemma response_preserves [preserving]: "preserves (respond_operator p pin)"
  unfolding respond_operator_def select_pin_def hasPinColumn_def Let_def by (intro preserving)

lemma each_response_preserves [preserving]: "preserves (each_response ps)"
  by (induction ps) (auto simp: preserving)




section \<open>The services under requests\<close>





section \<open>An example\<close>

definition example_env :: admin_env where
  "example_env = \<lparr>ae_hash = (\<lambda>p. ''hash'' @ p), ae_random = 7,
     ae_phones = \<lparr>ph_valid = (\<lambda>n r. True), ph_parse = (\<lambda>n r. Some (True, n))\<rparr>, ae_collate = (\<lambda>n. 0)\<rparr>"

definition example_queue :: queue_entity where
  "example_queue = \<lparr>qu_id = 1, qu_name = ''Support'', qu_slug = ''support'', qu_waitAudioFileId = None,
     qu_maxWaitSeconds = Some 300, qu_pinRetryAttempts = Some 3\<rparr>"

definition example_operator :: operator_entity where
  "example_operator = \<lparr>op_id = 1, op_name = ''Ann'', op_pinHash = ''hash1234'', op_extensionId = None,
     op_contactNumberId = None, op_callbackNumber = None, op_callbackTrunkId = None, op_pin = Some ''1234''\<rparr>"

definition example_redis :: queue_store where
  "example_redis = \<lparr>q_str = (\<lambda>k. None), q_list = (\<lambda>k. []), q_set = (\<lambda>k. {}), q_ari = [], q_arrivals = (\<lambda>k. [])\<rparr>"

definition example_admin :: admin_state where
  "example_admin =
     \<lparr>as_db = \<lparr>ad_queues = [example_queue], ad_operators = [example_operator], ad_links = [(1, 1)], ad_extensions = [],
        ad_contacts = [], ad_trunks = [], ad_audio = [], ad_nextQueue = 2, ad_nextOperator = 2, ad_pinColumn = True\<rparr>,
      as_redis = example_redis, as_runtimePins = [(1, ''1234'')], as_pinColumnAvailable = Some True\<rparr>"

lemma example_inv: "admin_inv (as_db example_admin)"
  by (simp add: example_admin_def admin_inv_def queues_ok_def operators_ok_def links_ok_def example_queue_def
      example_operator_def queue_columns_ok_def operator_row_ok_def reference_ok_def)



section \<open>Creating and changing a queue\<close>

lemma loaded_operators:
  "fst ` set (loadOperatorsForQueue env i db) = {o'. (i, o') \<in> set (ad_links db) \<and> o' \<in> set (map op_id (ad_operators db))}"
  by (auto simp: loadOperatorsForQueue_def image_iff)

lemma sync_links:
  assumes "syncOperators i (Some ids) s = (Inr u, s')" and "links_ok (as_db s)"
  shows "as_db s' = (as_db s)\<lparr>ad_links := filter (\<lambda>(q, p). q \<noteq> i) (ad_links (as_db s)) @ map (Pair i) (dedup ids)\<rparr>
    \<and> (ids = [] \<or> set ids \<subseteq> set (map op_id (ad_operators (as_db s))))"
proof (cases "ids = []")
  case True
  then show ?thesis using assms(1) by (auto simp: syncOperators_def stateful_simps on_db_def dedup_def)
next
  case False
  then show ?thesis using assms(1) by (auto simp: syncOperators_def stateful_simps on_db_def split: if_splits)
qed

text \<open>Creating a queue stores it with the slug of its name, or with that slug and the least number from 1
  on that makes it unique, and links exactly the operators of the request.\<close>

theorem created_queue:
  assumes "create_queue env dto s = (Inr v, s')" and "admin_inv (as_db s)"
  shows "qu_slug (vw_queue v) = (if queue_slug (trim (cq_name dto)) \<notin> qu_slug ` set (ad_queues (as_db s)) then queue_slug (trim (cq_name dto))
           else suffixed (queue_slug (trim (cq_name dto)))
             (LEAST k. 1 \<le> k \<and> suffixed (queue_slug (trim (cq_name dto))) k \<notin> qu_slug ` set (ad_queues (as_db s))))
         \<and> ad_queues (as_db s') = ad_queues (as_db s) @ [vw_queue v]
         \<and> set (vw_operatorIds v) = set (cq_operator_ids dto)"
proof -
  let ?name = "trim (cq_name dto)"
  obtain saved s1 s2 where i: "insert_queue \<lparr>qu_id = 0, qu_name = ?name, qu_slug = ensureUniqueQueueSlug (queue_slug ?name) None (as_db s),
      qu_waitAudioFileId = cq_wait_audio_file_id dto, qu_maxWaitSeconds = or_default (cq_max_wait_seconds dto) 300,
      qu_pinRetryAttempts = or_default (cq_pin_retry_attempts dto) 3\<rparr> s = (Inr saved, s1)"
    and sy: "syncOperators (qu_id saved) (Some (cq_operator_ids dto)) s1 = (Inr (), s2)"
    and v: "v = queue_response env saved (as_db s2)" "s' = s2"
    using assms(1) by (auto simp: create_queue_def Let_def then_do_eq reading_def fail_def split: if_splits)
  have s1: "ad_queues (as_db s1) = ad_queues (as_db s) @ [saved]" "ad_links (as_db s1) = ad_links (as_db s)"
    "ad_operators (as_db s1) = ad_operators (as_db s)" "qu_slug saved = ensureUniqueQueueSlug (queue_slug ?name) None (as_db s)"
    "qu_id saved = ad_nextQueue (as_db s)"
    using i by (auto simp: insert_queue_def stateful_simps on_db_def split: if_splits)
  have "preserves (insert_queue q)" for q by (rule insert_queue_preserves)
  then have "admin_inv (as_db s1)" using i assms(2) unfolding preserves_def by (metis snd_conv)
  then have l: "links_ok (as_db s1)" by (simp add: admin_inv_def)
  note sync = sync_links [OF sy l]
  have ops: "set (vw_operatorIds v) = {o'. (qu_id saved, o') \<in> set (ad_links (as_db s2)) \<and> o' \<in> set (map op_id (ad_operators (as_db s2)))}"
    by (simp add: v queue_response_def Let_def loaded_operators)
  have "set (vw_operatorIds v) = set (cq_operator_ids dto)"
    unfolding ops using sync by (cases "cq_operator_ids dto = []") (auto simp: dedup_def)
  moreover have "slugs_of_others None (as_db s) = map qu_slug (ad_queues (as_db s))" by (simp add: slugs_of_others_def)
  moreover have "ensureUniqueQueueSlug (queue_slug ?name) None (as_db s)
      = (if queue_slug ?name \<notin> qu_slug ` set (ad_queues (as_db s)) then queue_slug ?name
         else suffixed (queue_slug ?name) (LEAST k. 1 \<le> k \<and> suffixed (queue_slug ?name) k \<notin> qu_slug ` set (ad_queues (as_db s))))"
    unfolding ensureUniqueQueueSlug_def calculation(2) slug_search_least [of "map qu_slug (ad_queues (as_db s))"] by simp
  ultimately show ?thesis using s1 sync v by (simp add: queue_response_def Let_def)
qed

definition example_create :: create_queue_dto where
  "example_create = \<lparr>cq_name = '' Support! '', cq_wait_audio_file_id = None, cq_max_wait_seconds = None,
     cq_pin_retry_attempts = None, cq_operator_ids = [1]\<rparr>"

theorem created_queue_witness:
  "\<exists>v. fst (create_queue example_env example_create example_admin) = Inr v \<and> qu_slug (vw_queue v) = ''support-1''
     \<and> ad_queues (as_db (snd (create_queue example_env example_create example_admin))) = [example_queue, vw_queue v]
     \<and> set (vw_operatorIds v) = {1}"
proof -
  have "map_sum id (\<lambda>v. qu_slug (vw_queue v)) (fst (create_queue example_env example_create example_admin)) = Inr ''support-1''"
    by code_simp
  then obtain v where v: "fst (create_queue example_env example_create example_admin) = Inr v" "qu_slug (vw_queue v) = ''support-1''"
    by (cases "fst (create_queue example_env example_create example_admin)") auto
  then have "create_queue example_env example_create example_admin
      = (Inr v, snd (create_queue example_env example_create example_admin))" by (simp add: prod_eq_iff)
  from created_queue [OF this example_inv] v show ?thesis by (simp add: example_admin_def example_create_def)
qed

text \<open>Changing the operators of a queue to a list with an unknown operator is answered with an error after
  the other changes were written and all operators of the queue were removed.\<close>

theorem failed_sync_unlinks:
  assumes "find_queue i (as_db s) = Some q" and "uq_operator_ids dto = Some (Some ids)" and "uq_name dto = None"
    and "\<not> set ids \<subseteq> set (map op_id (ad_operators (as_db s)))"
    and "queue_row_ok (q\<lparr>qu_waitAudioFileId := case_option (qu_waitAudioFileId q) id (uq_wait_audio_file_id dto),
           qu_maxWaitSeconds := case_option (qu_maxWaitSeconds q) id (uq_max_wait_seconds dto),
           qu_pinRetryAttempts := case_option (qu_pinRetryAttempts q) id (uq_pin_retry_attempts dto)\<rparr>) (as_db s)"
  shows "fst (update_queue env i dto s) = Inl (DbConstraint ''queue_operators'')
         \<and> loadOperatorsForQueue env i (as_db (snd (update_queue env i dto s))) = []
         \<and> q\<lparr>qu_waitAudioFileId := case_option (qu_waitAudioFileId q) id (uq_wait_audio_file_id dto),
           qu_maxWaitSeconds := case_option (qu_maxWaitSeconds q) id (uq_max_wait_seconds dto),
           qu_pinRetryAttempts := case_option (qu_pinRetryAttempts q) id (uq_pin_retry_attempts dto)\<rparr>
             \<in> set (ad_queues (as_db (snd (update_queue env i dto s))))"
proof -
  have q: "q \<in> set (ad_queues (as_db s))" "qu_id q = i" using find_queue_mem [OF assms(1)] by simp_all
  have "ids \<noteq> []" using assms(4) by auto
  then show ?thesis using assms q
    by (auto simp: update_queue_def renamed_queue_def save_queue_def syncOperators_def stateful_simps on_db_def
        loadOperatorsForQueue_def image_iff split: if_splits intro!: exI)
qed

definition example_update :: update_queue_dto where
  "example_update = \<lparr>uq_name = None, uq_wait_audio_file_id = None, uq_max_wait_seconds = Some (Some 60),
     uq_pin_retry_attempts = None, uq_operator_ids = Some (Some [1, 9])\<rparr>"

theorem failed_sync_unlinks_witness:
  "fst (update_queue example_env 1 example_update example_admin) = Inl (DbConstraint ''queue_operators'')
   \<and> loadOperatorsForQueue example_env 1 (as_db example_admin) = [(1, ''Ann'')]
   \<and> loadOperatorsForQueue example_env 1 (as_db (snd (update_queue example_env 1 example_update example_admin))) = []"
proof -
  have "fst (update_queue example_env 1 example_update example_admin) = Inl (DbConstraint ''queue_operators'')
   \<and> loadOperatorsForQueue example_env 1 (as_db (snd (update_queue example_env 1 example_update example_admin))) = []
   \<and> example_queue\<lparr>qu_waitAudioFileId := case_option (qu_waitAudioFileId example_queue) id (uq_wait_audio_file_id example_update),
           qu_maxWaitSeconds := case_option (qu_maxWaitSeconds example_queue) id (uq_max_wait_seconds example_update),
           qu_pinRetryAttempts := case_option (qu_pinRetryAttempts example_queue) id (uq_pin_retry_attempts example_update)\<rparr>
             \<in> set (ad_queues (as_db (snd (update_queue example_env 1 example_update example_admin))))"
    by (rule failed_sync_unlinks [of _ _ _ _ "[1, 9]"])
      (simp_all add: example_admin_def example_update_def example_queue_def example_operator_def find_queue_def queue_row_ok_def
        queue_columns_ok_def reference_ok_def slugs_of_others_def)
  moreover have "loadOperatorsForQueue example_env 1 (as_db example_admin) = [(1, ''Ann'')]" by code_simp
  ultimately show ?thesis by blast
qed

section \<open>PINs\<close>

text \<open>The PIN of an operator who has just been created, the given one or the generated one, is answered by
  the request itself and by the next request for it.\<close>

theorem created_pin_is_told:
  assumes "create_operator env dto s = (Inr r, s')" and "admin_inv (as_db s)"
  shows "or_pin r = Some (if trim (text_or_empty (co_pin dto)) = [] then generatePin env else trim (text_or_empty (co_pin dto)))
         \<and> fst (getPin (or_id r) s') = Inr (or_pin r)"
proof -
  define pin where "pin = (if trim (text_or_empty (co_pin dto)) = [] then generatePin env else trim (text_or_empty (co_pin dto)))"
  have "pin \<noteq> []" by (simp add: pin_def generatePin_def)
  obtain name callback saved s1 s2 where
      i: "insert_operator \<lparr>op_id = 0, op_name = name, op_pinHash = ae_hash env pin, op_extensionId = co_extension_id dto,
        op_contactNumberId = co_contact_number_id dto, op_callbackNumber = callback,
        op_callbackTrunkId = co_callback_trunk_id dto, op_pin = None\<rparr> s = (Inr saved, s1)"
    and st: "storePlainPinIfSupported (op_id saved) pin s1 = (Inr (), s2)"
    and r: "respond_operator saved (Some pin) (set_pin (op_id saved) pin s2) = (Inr r, s')"
    using assms(1)
    by (cases "trim (text_or_empty (co_pin dto)) = []")
      (auto simp: create_operator_def Let_def then_do_eq reading_def fail_def check_def writing_def pin_def split: if_splits)
  have s1: "ad_operators (as_db s1) = ad_operators (as_db s) @ [saved]" "op_id saved = ad_nextOperator (as_db s)" "op_pin saved = None"
    using i by (auto simp: insert_operator_def stateful_simps on_db_def split: if_splits)
  have old: "op_id p \<noteq> op_id saved" if "p \<in> set (ad_operators (as_db s))" for p
    using that assms(2) s1(2) by (auto simp: admin_inv_def operators_ok_def)
  have found: "find_operator (op_id saved) (as_db s1) = Some saved"
  proof -
    have "List.find (\<lambda>p. op_id p = op_id saved) (ad_operators (as_db s)) = None" using old by (simp add: find_None_iff')
    then show ?thesis by (simp add: find_operator_def s1(1) find_append)
  qed
  have s2: "\<exists>q. find_operator (op_id saved) (as_db s2) = Some q \<and> (op_pin q = None \<or> op_pin q = Some pin)"
  proof -
    let ?f = "\<lambda>p. if op_id p = op_id saved then p\<lparr>op_pin := Some pin\<rparr> else p"
    have "as_db s2 = as_db s1 \<or> as_db s2 = (as_db s1)\<lparr>ad_operators := map ?f (ad_operators (as_db s1))\<rparr>"
      using st by (auto simp: storePlainPinIfSupported_def hasPinColumn_def stateful_simps on_db_def split: option.splits if_splits)
    moreover have "List.find (\<lambda>p. op_id p = op_id saved) (map ?f (ad_operators (as_db s1))) = Some (?f saved)"
      using found by (simp add: find_operator_def find_map comp_def if_distrib cong: if_cong)
    ultimately show ?thesis using found s1(3) by (auto simp: find_operator_def)
  qed
  then obtain q where q: "find_operator (op_id saved) (as_db s2) = Some q" "op_pin q = None \<or> op_pin q = Some pin" by blast
  have r': "or_pin r = Some pin" "or_id r = op_id saved" "as_db s' = as_db s2" "map_of (as_runtimePins s') (op_id saved) = Some pin"
    using r q \<open>pin \<noteq> []\<close>
    by (auto simp: respond_operator_def select_pin_def hasPinColumn_def stateful_simps set_pin_def Let_def update_conv' split: option.splits if_splits)
  have "fst (getPin (op_id saved) s') = Inr (Some pin)"
    using q r'(3,4) \<open>pin \<noteq> []\<close> by (auto simp: getPin_def stateful_simps Let_def set_pin_def split: option.splits)
  with r' show ?thesis by (simp add: pin_def)
qed

definition example_new_operator :: create_operator_dto where
  "example_new_operator = \<lparr>co_name = Some ''Bob'', co_pin = Some ''4321'', co_extension_id = None, co_contact_number_id = None,
     co_callback_number = None, co_callback_trunk_id = None\<rparr>"

theorem created_pin_is_told_witness:
  "\<exists>r. fst (create_operator example_env example_new_operator example_admin) = Inr r \<and> or_pin r = Some ''4321''
     \<and> fst (getPin (or_id r) (snd (create_operator example_env example_new_operator example_admin))) = Inr (Some ''4321'')"
proof -
  have "map_sum id or_pin (fst (create_operator example_env example_new_operator example_admin)) = Inr (Some ''4321'')"
    by code_simp
  then obtain r where r: "fst (create_operator example_env example_new_operator example_admin) = Inr r" "or_pin r = Some ''4321''"
    by (cases "fst (create_operator example_env example_new_operator example_admin)") auto
  then have "create_operator example_env example_new_operator example_admin
      = (Inr r, snd (create_operator example_env example_new_operator example_admin))" by (simp add: prod_eq_iff)
  from created_pin_is_told [OF this example_inv] r show ?thesis by simp
qed

text \<open>C38: After a restart of the backend no PIN can be told any more: every request for the PIN of an operator
  is answered with a conflict, because the migrations drop the column the PINs are stored in.\<close>

theorem restart_forgets_pins:
  assumes "find_operator i (as_db s) = Some p" and "op_pinHash p \<noteq> []"
  shows "fst (getPin i (restart room s)) = Inl (Conflict ''PIN is hashed and cannot be retrieved. Set a new PIN to reveal it.'')"
proof -
  have "List.find (\<lambda>p. op_id p = i) (without_pins (ad_operators (as_db s))) = Some (p\<lparr>op_pin := None\<rparr>)"
    using assms(1) by (simp add: find_operator_def without_pins_def find_map comp_def)
  then show ?thesis using assms(2)
    by (simp add: getPin_def stateful_simps restart_def pin_migrations_def run_statement_def find_operator_def Let_def)
qed

theorem restart_forgets_pins_witness:
  "fst (getPin 1 example_admin) = Inr (Some ''1234'')
   \<and> fst (getPin 1 (restart True example_admin))
       = Inl (Conflict ''PIN is hashed and cannot be retrieved. Set a new PIN to reveal it.'')"
proof -
  have "find_operator 1 (as_db example_admin) = Some example_operator" "op_pinHash example_operator \<noteq> []"
    by (simp_all add: example_admin_def find_operator_def example_operator_def)
  from restart_forgets_pins [OF this] have "fst (getPin 1 (restart True example_admin))
       = Inl (Conflict ''PIN is hashed and cannot be retrieved. Set a new PIN to reveal it.'')" .
  moreover have "fst (getPin 1 example_admin) = Inr (Some ''1234'')" by code_simp
  ultimately show ?thesis by blast
qed

end
