(* ===== verification/QueueLoginProperties.thy ===== *)
theory QueueLoginProperties
  imports QueueLogin QueueLaws OperatorProperties
begin

text \<open>
  What a login by telephone guarantees: the PIN that was entered, the number of attempts, the logout from
  every queue.  And what it does not: an operator of two queues is offered to both, is known to the
  operators service by one of them only, and stays logged in when the call ends too early.
\<close>

section \<open>The digits of a PIN\<close>

text \<open>While the promise is pending there are fewer digits than the maximum, and no \<open>#\<close> among them.\<close>

definition wait_ok :: "nat \<Rightarrow> login_wait \<Rightarrow> bool" where
  "wait_ok m w \<longleftrightarrow> CHR ''#'' \<notin> set (lw_digits w) \<and> (lw_result w = None \<longrightarrow> length (lw_digits w) < m)
     \<and> (\<forall>input. lw_result w = Some (Some input) \<longrightarrow> input \<noteq> [] \<and> CHR ''#'' \<notin> set input \<and> length input \<le> m)"

definition one_key :: "login_event \<Rightarrow> bool" where
  "one_key e \<longleftrightarrow> (case e of LoginDtmf evc d now i \<Rightarrow> length (text_or_empty d) \<le> 1 | _ \<Rightarrow> True)"

lemma dtmf_ok:
  assumes "wait_ok m w" and "length (text_or_empty d) \<le> 1" and "lw_result w = None"
  shows "wait_ok m (login_dtmf ch m evc d now i w)"
proof -
  have d: "d' \<noteq> ''#'' \<Longrightarrow> length d' \<le> 1 \<Longrightarrow> CHR ''#'' \<notin> set d'" for d' :: string by (cases d') auto
  show ?thesis using assms d [of "text_or_empty d"] by (auto simp: wait_ok_def login_dtmf_def Let_def)
qed

lemma listener_ok: "wait_ok m w \<Longrightarrow> one_key e \<Longrightarrow> wait_ok m (login_listener ch m e w)"
  by (auto simp: login_listener.simps one_key_def dtmf_ok split: login_event.split) (auto simp: wait_ok_def)

lemma pin_input:
  assumes "waitForDtmfDigits ch m events = Some (Some input)" and "list_all one_key events" and "0 < m"
  shows "input \<noteq> [] \<and> CHR ''#'' \<notin> set input \<and> length input \<le> m"
proof -
  have "wait_ok m (fold (login_listener ch m) events w)" if "wait_ok m w" for w
    using that assms(2) by (induction events arbitrary: w) (simp_all add: listener_ok)
  moreover have "wait_ok m new_login_wait" using assms(3) by (simp add: wait_ok_def new_login_wait_def)
  ultimately have "wait_ok m (fold (login_listener ch m) events new_login_wait)" by blast
  then show ?thesis using assms(1) by (simp add: wait_ok_def waitForDtmfDigits_def)
qed

section \<open>Who is logged in\<close>

lemma matching_operator_correct:
  "run (matching_operator env input rows) st = (Inr (Some i), st') \<Longrightarrow> \<exists>hash. (i, hash) \<in> set rows \<and> lx_compare env input hash = Inr True"
  by (induction rows arbitrary: st) (auto split: sum.splits if_splits prod.splits)

lemma matching_operator_none:
  "run (matching_operator env input rows) st = (Inr None, st') \<Longrightarrow> \<forall>(i, hash) \<in> set rows. lx_compare env input hash = Inr False"
  by (induction rows arbitrary: st) (auto split: sum.splits if_splits prod.splits)

lemma route_back_result [simp]:
  "run (route_back env node s) st \<noteq> (Inr None, st')" "run (route_back env node s) st \<noteq> (Inr (Some ''authenticated''), st')"
  by (auto simp: route_back_def routeBackToMenuOnFailure_def split: option.splits sum.splits prod.splits)

text \<open>An attempt that let the operator in, and the attempts before it that did not.\<close>

definition pin_entered :: "login_env \<Rightarrow> string \<Rightarrow> (int \<times> string) list \<Rightarrow> nat \<Rightarrow> int \<Rightarrow> bool" where
  "pin_entered env ch rows k i \<longleftrightarrow>
     (\<exists>input hash. waitForDtmfDigits ch 6 (lx_input env k) = Some (Some input) \<and> (i, hash) \<in> set rows \<and> lx_compare env input hash = Inr True)"

definition pin_refused :: "login_env \<Rightarrow> string \<Rightarrow> (int \<times> string) list \<Rightarrow> nat \<Rightarrow> bool" where
  "pin_refused env ch rows k \<longleftrightarrow>
     (\<exists>input. waitForDtmfDigits ch 6 (lx_input env k) = Some (Some input) \<and> (\<forall>(i, hash) \<in> set rows. lx_compare env input hash = Inr False))"

lemma login_attempts_correct:
  assumes "run (login_attempts env node s queues rows n k) st = (Inr r, st')" and "r = None \<or> r = Some ''authenticated''"
  shows "(\<exists>j i st1. k \<le> j \<and> j < k + n \<and> pin_entered env (s_channelId s) rows j i
           \<and> (\<forall>m. k \<le> m \<and> m < j \<longrightarrow> pin_refused env (s_channelId s) rows m)
           \<and> run (authenticated env (n_config node) s queues i) st1 = (Inr r, st'))
         \<or> r = None \<and> (\<exists>j. k \<le> j \<and> j < k + n \<and> waitForDtmfDigits (s_channelId s) 6 (lx_input env j) = None)"
  using assms(1)
proof (induction n arbitrary: k st)
  case 0
  then show ?case using assms(2) by auto
next
  case (Suc n)
  let ?w = "waitForDtmfDigits (s_channelId s) 6 (lx_input env k)"
  show ?case
  proof (cases ?w)
    case None
    then have "r = None" using Suc.prems by (auto split: sum.splits prod.splits)
    then show ?thesis using None by auto
  next
    case (Some v)
    show ?thesis
    proof (cases v)
      case None
      then show ?thesis using Suc.prems Some assms(2) by (auto split: sum.splits prod.splits)
    next
      case v: (Some input)
      obtain st1 matched st2 where m: "run (matching_operator env input rows) st1 = (Inr matched, st2)"
        and next_step: "run (case matched of Some i \<Rightarrow> authenticated env (n_config node) s queues i
            | None \<Rightarrow> andThen (play_wrong_pin env (n_config node) s) (\<lambda>_. login_attempts env node s queues rows n (Suc k))) st2 = (Inr r, st')"
        using Suc.prems Some v by (auto split: sum.splits prod.splits)
      show ?thesis
      proof (cases matched)
        case (Some i)
        then have "pin_entered env (s_channelId s) rows k i"
          using matching_operator_correct m \<open>?w = Some v\<close> v by (auto simp: pin_entered_def)
        then show ?thesis using next_step Some by (intro disjI1 exI [of _ k]) auto
      next
        case None
        then have refused: "pin_refused env (s_channelId s) rows k"
          using matching_operator_none m \<open>?w = Some v\<close> v by (auto simp: pin_refused_def)
        obtain st3 where "run (login_attempts env node s queues rows n (Suc k)) st3 = (Inr r, st')"
          using next_step None by (auto split: sum.splits prod.splits)
        from Suc.IH [OF this] show ?thesis
        proof (elim disjE exE conjE)
          fix j i st4
          assume j: "Suc k \<le> j" "j < Suc k + n" "pin_entered env (s_channelId s) rows j i"
            "\<forall>m. Suc k \<le> m \<and> m < j \<longrightarrow> pin_refused env (s_channelId s) rows m"
            "run (authenticated env (n_config node) s queues i) st4 = (Inr r, st')"
          have "\<forall>m. k \<le> m \<and> m < j \<longrightarrow> pin_refused env (s_channelId s) rows m"
            using j(4) refused by (metis Suc_leI le_neq_implies_less)
          then show ?thesis using j by (intro disjI1 exI [of _ j] exI [of _ i] exI [of _ st4]) simp
        next
          fix j
          assume "r = None" "Suc k \<le> j" "j < Suc k + n" "waitForDtmfDigits (s_channelId s) 6 (lx_input env j) = None"
          then show ?thesis by (intro disjI2 conjI exI [of _ j]) simp_all
        qed
      qed
    qed
  qed
qed

section \<open>Logins and logouts\<close>

lemma run_logouts:
  "run (for_queues (\<lambda>q. logoutOperator op q) qs) st = (Inr (), st\<lparr>
     q_set := (\<lambda>k. if k \<in> (Operators \<circ> num_to_string) ` set qs \<union> (Busy \<circ> num_to_string) ` set qs then q_set st k - {num_to_string op} else q_set st k),
     q_str := (if qs = [] then q_str st else (q_str st)(OperatorQueue (num_to_string op) := None, OperatorChannel (num_to_string op) := None))\<rparr>)"
proof (induction qs arbitrary: st)
  case (Cons q qs)
  have "run (logoutOperator op q) st = (Inr (), st\<lparr>
     q_set := (q_set st)(Operators (num_to_string q) := q_set st (Operators (num_to_string q)) - {num_to_string op},
                         Busy (num_to_string q) := q_set st (Busy (num_to_string q)) - {num_to_string op}),
     q_str := (q_str st)(OperatorQueue (num_to_string op) := None, OperatorChannel (num_to_string op) := None)\<rparr>)"
    by (simp add: logoutOperator_def redis_defs Let_def)
  with Cons show ?case by (cases st) (auto simp: fun_eq_iff)
qed simp

text \<open>After a login the operator is free or busy in the queue, and nothing is taken from another queue.\<close>

definition logged_in :: "string \<Rightarrow> string \<Rightarrow> string \<Rightarrow> queue_store \<Rightarrow> bool" where
  "logged_in op ch q st \<longleftrightarrow> op \<in> q_set st (Operators q) \<union> q_set st (Busy q) \<and> q_str st (OperatorChannel op) = Some ch"

lemma run_login_Inr: "\<exists>st'. run (loginOperator env q op ch) st = (Inr (), st')"
  by (auto simp: loginOperator_def redis_defs Let_def split: list.split)

lemma login_logged_in:
  assumes "run (loginOperator env q op ch) st = (Inr u, st')"
  shows "logged_in (num_to_string op) ch (num_to_string q) st'"
    and "logged_in (num_to_string op) ch p st \<Longrightarrow> logged_in (num_to_string op) ch p st'"
  using assms by (auto simp: logged_in_def loginOperator_def redis_defs Let_def split: list.splits if_splits)

lemma run_logins:
  "\<exists>st'. run (for_queues (\<lambda>q. loginOperator env q op ch) qs) st = (Inr (), st')
     \<and> (\<forall>p. p \<in> num_to_string ` set qs \<or> logged_in (num_to_string op) ch p st \<longrightarrow> logged_in (num_to_string op) ch p st')"
proof (induction qs arbitrary: st)
  case (Cons q qs)
  obtain st1 where "run (loginOperator env q op ch) st = (Inr (), st1)" using run_login_Inr by blast
  with login_logged_in [OF this] Cons.IH [of st1] show ?case by fastforce
qed simp

text \<open>What is played leaves the keys of the queues alone.\<close>

definition media_keeps_keys :: "login_env \<Rightarrow> bool" where
  "media_keeps_keys env \<longleftrightarrow>
     (\<forall>t p st. q_set (snd (md_play (lx_media env) t p st)) = q_set st \<and> q_str (snd (md_play (lx_media env) t p st)) = q_str st)"

definition same_keys :: "queue_store \<Rightarrow> queue_store \<Rightarrow> bool" where
  "same_keys st st' \<longleftrightarrow> q_set st' = q_set st \<and> q_str st' = q_str st"

interpretation key_order: store_order same_keys
  by unfold_locales (simp_all add: same_keys_def)

lemma hold_and_sound_keep:
  assumes "media_keeps_keys env"
  shows "guarantees same_keys (tryCatch (startOperatorHoldAudio env s) (\<lambda>_. Ret ()))"
    and "guarantees same_keys (play_login_success env config s)"
proof -
  have moh: "guarantees same_keys (moh_request env r)" for r
    unfolding moh_request_def by (rule guarantees_attempt) (simp add: same_keys_def)
  have sound: "guarantees same_keys (play_sound env s path)" for path
    unfolding play_sound_def by (rule guarantees_attempt) (use assms in \<open>simp add: same_keys_def media_keeps_keys_def\<close>)
  have "guarantees same_keys (attempt (\<lambda>st. (lx_file env a st, st)))" for a
    by (rule guarantees_attempt) (simp add: same_keys_def)
  then have "guarantees same_keys (play_file env s a)" for a
    unfolding play_file_def by (intro guarantees_andThen) (auto simp: sound)
  then show "guarantees same_keys (play_login_success env config s)"
    by (auto simp: play_login_success_def Let_def intro!: guarantees_tryCatch)
  show "guarantees same_keys (tryCatch (startOperatorHoldAudio env s) (\<lambda>_. Ret ()))"
    unfolding startOperatorHoldAudio_def by (intro guarantees_tryCatch) (auto simp: moh split: option.split)
qed

lemma authenticated_pending:
  assumes "run (authenticated env config s qs i) st = (Inr None, st')" and "media_keeps_keys env" and "q \<in> set qs"
  shows "logged_in (num_to_string (num_of_int i)) (s_channelId s) (num_to_string q) st'
         \<and> \<not> list_ex (ends_login (s_channelId s)) (lx_after env)"
proof -
  let ?op = "num_of_int i"
  obtain st1 where l: "run (for_queues (\<lambda>q. loginOperator (login_base env) q ?op (s_channelId s)) qs) st = (Inr (), st1)"
    "logged_in (num_to_string ?op) (s_channelId s) (num_to_string q) st1"
    using run_logins [of "login_base env" ?op "s_channelId s" qs st] assms(3) by auto
  obtain r2 st2 where h: "run (tryCatch (startOperatorHoldAudio env s) (\<lambda>_. Ret ())) st1 = (r2, st2)" by (metis prod.exhaust)
  obtain r3 st3 where p: "run (play_login_success env config s) st2 = (r3, st3)" by (metis prod.exhaust)
  have "same_keys st1 st2" "same_keys st2 st3"
    using key_order.run_guarantee [OF hold_and_sound_keep(1) [OF assms(2)], of st1 s]
      key_order.run_guarantee [OF hold_and_sound_keep(2) [OF assms(2)], of st2 config s] h p by simp_all
  then have keys: "logged_in (num_to_string ?op) (s_channelId s) (num_to_string q) st3"
    using l(2) by (simp add: logged_in_def same_keys_def)
  have "\<not> list_ex (ends_login (s_channelId s)) (lx_after env) \<and> st' = st3"
    using assms(1) l(1) h p
    by (auto simp: authenticated_def Let_def run_logouts simp del: run_tryCatch split: sum.splits if_splits prod.splits)
  with keys show ?thesis by simp
qed

lemma authenticated_done:
  assumes "run (authenticated env config s qs i) st = (Inr (Some r), st')" and "q \<in> set qs"
  shows "num_to_string (num_of_int i) \<notin> q_set st' (Operators (num_to_string q)) \<union> q_set st' (Busy (num_to_string q))
         \<and> q_str st' (OperatorQueue (num_to_string (num_of_int i))) = None \<and> q_str st' (OperatorChannel (num_to_string (num_of_int i))) = None"
  using assms by (auto simp: authenticated_def Let_def run_logouts split: sum.splits if_splits prod.splits)

lemma executeQueueLogin_attempts:
  assumes "run (executeQueueLogin env node s) st = (Inr r, st')" and "r = None \<or> r = Some ''authenticated''"
    and "lx_db env = (\<lambda>st. Inr db)"
  obtains ids st1 where "integers (selectedQueueIds (n_config node)) = Some ids"
    "run (login_attempts env node s (selectedQueueIds (n_config node)) (operator_rows ids db)
        (nat (max_login_attempts (queue_rows ids db))) 0) st1 = (Inr r, st')"
  using assms by (auto simp: executeQueueLogin_def Let_def split: option.splits if_splits sum.splits prod.splits)

section \<open>The properties\<close>

text \<open>C39: An operator is let in only with a PIN of one to six keys, none of them \<open>#\<close>, that matches the hash of an
  operator of one of the queues, entered at an attempt below the least limit of the queues after attempts
  that all failed.\<close>

theorem login_needs_pin:
  assumes "run (executeQueueLogin env node s) st = (Inr (Some ''authenticated''), st')"
    and "lx_db env = (\<lambda>st. Inr db)" and "list_all one_key (concat (map (lx_input env) [0..<nat (max_login_attempts (queue_rows ids db))]))"
    and "integers (selectedQueueIds (n_config node)) = Some ids"
  shows "\<exists>j input i hash. j < nat (max_login_attempts (queue_rows ids db))
           \<and> waitForDtmfDigits (s_channelId s) 6 (lx_input env j) = Some (Some input)
           \<and> (i, hash) \<in> set (operator_rows ids db) \<and> lx_compare env input hash = Inr True
           \<and> input \<noteq> [] \<and> length input \<le> 6 \<and> CHR ''#'' \<notin> set input
           \<and> {0..<j} \<subseteq> {m. pin_refused env (s_channelId s) (operator_rows ids db) m}"
proof -
  let ?n = "nat (max_login_attempts (queue_rows ids db))"
  obtain st1 where r: "run (login_attempts env node s (selectedQueueIds (n_config node)) (operator_rows ids db) ?n 0) st1
      = (Inr (Some ''authenticated''), st')"
    using executeQueueLogin_attempts [OF assms(1) _ assms(2)] assms(4) by (metis option.inject)
  from login_attempts_correct [OF r] obtain j i where j: "j < ?n" "pin_entered env (s_channelId s) (operator_rows ids db) j i"
    "\<forall>m < j. pin_refused env (s_channelId s) (operator_rows ids db) m" by auto
  have keys: "list_all one_key (lx_input env j)" using assms(3) j(1) by (auto simp: list_all_iff)
  obtain input hash where w: "waitForDtmfDigits (s_channelId s) 6 (lx_input env j) = Some (Some input)"
    "(i, hash) \<in> set (operator_rows ids db)" "lx_compare env input hash = Inr True" using j(2) by (auto simp: pin_entered_def)
  from pin_input [OF w(1) keys] have "input \<noteq> [] \<and> CHR ''#'' \<notin> set input \<and> length input \<le> 6" by simp
  with j(1,3) w show ?thesis by (intro exI [of _ j] exI [of _ input] exI [of _ i] exI [of _ hash]) auto
qed

text \<open>When the executor answers \<open>authenticated\<close> and no other operation interfered, the operator it let in is
  logged out again: free and busy in none of the queues of the node, without a queue and without a channel.\<close>

theorem login_logs_out:
  assumes "run (executeQueueLogin env node s) st = (Inr (Some ''authenticated''), st')"
    and "lx_db env = (\<lambda>st. Inr db)" and "integers (selectedQueueIds (n_config node)) = Some ids"
  shows "\<exists>i. i \<in> fst ` set (operator_rows ids db)
           \<and> q_str st' (OperatorQueue (num_to_string (num_of_int i))) = None \<and> q_str st' (OperatorChannel (num_to_string (num_of_int i))) = None
           \<and> set (selectedQueueIds (n_config node))
               \<subseteq> {q. num_to_string (num_of_int i) \<notin> q_set st' (Operators (num_to_string q)) \<union> q_set st' (Busy (num_to_string q))}"
proof -
  let ?qs = "selectedQueueIds (n_config node)"
  obtain st1 where r: "run (login_attempts env node s ?qs (operator_rows ids db) (nat (max_login_attempts (queue_rows ids db))) 0) st1
      = (Inr (Some ''authenticated''), st')"
    using executeQueueLogin_attempts [OF assms(1) _ assms(2)] assms(3) by (metis option.inject)
  from login_attempts_correct [OF r] obtain j i st2 where i: "pin_entered env (s_channelId s) (operator_rows ids db) j i"
    "run (authenticated env (n_config node) s ?qs i) st2 = (Inr (Some ''authenticated''), st')" by auto
  have "i \<in> fst ` set (operator_rows ids db)" using i(1) by (force simp: pin_entered_def)
  moreover have "?qs \<noteq> []"
  proof
    assume "?qs = []"
    then have "run (route_back env node s) st = (Inr (Some ''authenticated''), st')" using assms(1) by (simp add: executeQueueLogin_def)
    then show False by simp
  qed
  then have "q_str st' (OperatorQueue (num_to_string (num_of_int i))) = None \<and> q_str st' (OperatorChannel (num_to_string (num_of_int i))) = None"
    using authenticated_done [OF i(2), of "hd ?qs"] by simp
  ultimately show ?thesis using authenticated_done [OF i(2)] by (intro exI [of _ i]) auto
qed

text \<open>The listeners of the logout are registered after the logins and the announcements: when every wait for
  digits has settled and the executor is still pending, the operator is logged in to every queue of the
  node with its channel, and no event the listeners have seen ends the login.  So it stays when the call
  ended before.\<close>

theorem early_hangup_stays:
  assumes "run (executeQueueLogin env node s) st = (Inr None, st')"
    and "lx_db env = (\<lambda>st. Inr db)" and "integers (selectedQueueIds (n_config node)) = Some ids" and "media_keeps_keys env"
    and "None \<notin> (\<lambda>j. waitForDtmfDigits (s_channelId s) 6 (lx_input env j)) ` {0..<nat (max_login_attempts (queue_rows ids db))}"
  shows "\<exists>i. i \<in> fst ` set (operator_rows ids db)
           \<and> set (selectedQueueIds (n_config node)) \<subseteq> {q. logged_in (num_to_string (num_of_int i)) (s_channelId s) (num_to_string q) st'}
           \<and> \<not> list_ex (ends_login (s_channelId s)) (lx_after env)"
proof -
  let ?qs = "selectedQueueIds (n_config node)" and ?n = "nat (max_login_attempts (queue_rows ids db))"
  obtain st1 where r: "run (login_attempts env node s ?qs (operator_rows ids db) ?n 0) st1 = (Inr None, st')"
    using executeQueueLogin_attempts [OF assms(1) _ assms(2)] assms(3) by (metis option.inject)
  have settled: "waitForDtmfDigits (s_channelId s) 6 (lx_input env j) \<noteq> None" if "j < ?n" for j using assms(5) that by force
  have "\<not> (\<exists>j. 0 \<le> j \<and> j < 0 + ?n \<and> waitForDtmfDigits (s_channelId s) 6 (lx_input env j) = None)" using settled by auto
  with login_attempts_correct [OF r] obtain j i st2 where i: "pin_entered env (s_channelId s) (operator_rows ids db) j i"
    "run (authenticated env (n_config node) s ?qs i) st2 = (Inr None, st')" by blast
  have "i \<in> fst ` set (operator_rows ids db)" using i(1) by (force simp: pin_entered_def)
  moreover have "?qs \<noteq> []"
  proof
    assume "?qs = []"
    then have "run (route_back env node s) st = (Inr None, st')" using assms(1) by (simp add: executeQueueLogin_def)
    then show False by simp
  qed
  then have "\<not> list_ex (ends_login (s_channelId s)) (lx_after env)"
    using authenticated_pending [OF i(2) assms(4), of "hd ?qs"] by simp
  ultimately show ?thesis using authenticated_pending [OF i(2) assms(4)] by (intro exI [of _ i]) auto
qed

lemma show_int_number: "0 \<le> i \<Longrightarrow> i < 10 ^ 21 \<Longrightarrow> num_to_string (num_of_int i) = show_int i"
  using num_to_string_nat [of "nat i"] by (simp add: show_int_def nat_less_iff)

text \<open>C40: An operator who logs in to two queues while a customer waits in the first is busy in the first and free
  in the second, is shown as available, and stays busy in the first queue when the operators service
  deletes the operator.\<close>

theorem two_queues_double_book:
  assumes "num_to_string q1 \<noteq> num_to_string q2" and "q_list st (Waiting (num_to_string q1)) = c # cs" "c \<noteq> []"
    and "q_list st (Waiting (num_to_string q2)) = []" and "0 \<le> i" "i < 10 ^ 21" and "show_int i \<notin> q_set st (Busy (num_to_string q2))"
    and "st' = snd (run (for_queues (\<lambda>q. loginOperator env q (num_of_int i) ch) [q1, q2]) st)"
  shows "show_int i \<in> q_set st' (Busy (num_to_string q1)) \<and> show_int i \<in> q_set st' (Operators (num_to_string q2))
         \<and> getOperatorStatus i st' = Available
         \<and> show_int i \<in> q_set (cleanupRedis i st') (Busy (num_to_string q1))"
proof -
  note op = show_int_number [OF assms(5,6)]
  obtain calls where "run (loginOperator env q1 (num_of_int i) ch) st = (Inr (), st\<lparr>
      q_str := (q_str st)(OperatorQueue (show_int i) := Some (num_to_string q1), OperatorChannel (show_int i) := Some ch,
        CustomerChannel (num_to_string q1) c := Some ch),
      q_list := (q_list st)(Waiting (num_to_string q1) := cs),
      q_set := (q_set st)(Busy (num_to_string q1) := insert (show_int i) (q_set st (Busy (num_to_string q1)))),
      q_ari := q_ari st @ calls\<rparr>)"
    using login_connects_first [OF assms(2,3), of env "num_of_int i" ch] unfolding op by blast
  then show ?thesis using assms
    by (simp add: op loginOperator_def [of env q2] redis_defs Let_def getOperatorStatus_def cleanupRedis_def)
qed

section \<open>An example\<close>

text \<open>The operator of \<^const>\<open>example_admin\<close> calls, mistypes the PIN once, enters it and presses \<open>#\<close> twice.\<close>

definition press :: "char \<Rightarrow> nat \<Rightarrow> login_event" where
  "press d i = LoginDtmf (Some ''agent'') (Some [d]) (1000 + 200 * i) i"

definition typed :: "string \<Rightarrow> login_event list" where
  "typed keys = map (\<lambda>(i, d). press d i) (enumerate 1 keys)"

definition phone :: "login_event list \<Rightarrow> login_env" where
  "phone after = \<lparr>qe_pick = (\<lambda>m. []), qe_bridge = (\<lambda>st. Inr ''bridge''), qe_add = (\<lambda>b ch st. Inr ()),
     lx_db = (\<lambda>st. Inr (as_db example_admin)), lx_compare = (\<lambda>input hash. Inr (''hash'' @ input = hash)),
     lx_media = \<lparr>md_audio = (\<lambda>w i. Inr None), md_play = (\<lambda>t p w. (Inr (), w)), md_events = (\<lambda>n w. (([], []), w))\<rparr>,
     lx_file = (\<lambda>a st. Inl ''column file_path does not exist''), lx_redis = (\<lambda>st. Inr ()), lx_moh = (\<lambda>r st. True),
     lx_input = (\<lambda>k. if k = 0 then typed ''99#'' else typed ''1234#''), lx_after = after\<rparr>"

definition login_node :: rt_node where
  "login_node = \<lparr>n_key = ''login'', n_type = ''queue_login'', n_label = [], n_config = [(''queue_ids'', JArr [JNum (Dec 1 0)])]\<rparr>"

definition agent_call :: session where
  "agent_call = createSession 0 ''agent'' ''200'' \<lparr>f_id = 1, f_name = ''Main'', f_versionId = 1, f_nodes = [login_node], f_edges = []\<rparr> ''login''"

lemma phone_facts:
  "lx_db (phone after) = (\<lambda>st. Inr (as_db example_admin))" "integers (selectedQueueIds (n_config login_node)) = Some [1]"
  "media_keeps_keys (phone after)" "selectedQueueIds (n_config login_node) = [Dec 1 0]"
  "nat (max_login_attempts (queue_rows [1] (as_db example_admin))) = 3" "operator_rows [1] (as_db example_admin) = [(1, ''hash1234'')]"
  by (simp add: phone_def, code_simp, simp add: phone_def media_keeps_keys_def, code_simp+)

lemma phone_waits:
  "waitForDtmfDigits ''agent'' 6 (typed ''99#'') = Some (Some ''99'')" "waitForDtmfDigits ''agent'' 6 (typed ''1234#'') = Some (Some ''1234'')"
  by code_simp+

lemma agent_channel: "s_channelId agent_call = ''agent''"
  by (simp add: agent_call_def createSession_def)

lemma phone_login:
  "fst (run (executeQueueLogin (phone [LoginGone (Some ''agent'')]) login_node agent_call) empty_queues) = Inr (Some ''authenticated'')"
  "fst (run (executeQueueLogin (phone []) login_node agent_call) empty_queues) = Inr None"
  by code_simp+

theorem login_needs_pin_witness:
  "\<exists>j input i hash. j < 3 \<and> (i, hash) \<in> {(1, ''hash1234'')}
     \<and> waitForDtmfDigits ''agent'' 6 (lx_input (phone [LoginGone (Some ''agent'')]) j) = Some (Some input)
     \<and> lx_compare (phone [LoginGone (Some ''agent'')]) input hash = Inr True"
proof -
  let ?env = "phone [LoginGone (Some ''agent'')]"
  have r: "run (executeQueueLogin ?env login_node agent_call) empty_queues
      = (Inr (Some ''authenticated''), snd (run (executeQueueLogin ?env login_node agent_call) empty_queues))"
    using phone_login(1) by (simp add: prod_eq_iff)
  have keys: "list_all one_key (concat (map (lx_input ?env) [0..<nat (max_login_attempts (queue_rows [1] (as_db example_admin)))]))"
    unfolding phone_facts by code_simp
  from login_needs_pin [OF r phone_facts(1) keys phone_facts(2)] show ?thesis
    unfolding phone_facts(5,6) agent_channel list.set by blast
qed

theorem login_logs_out_witness:
  "q_str (snd (run (executeQueueLogin (phone [LoginGone (Some ''agent'')]) login_node agent_call) empty_queues)) (OperatorChannel ''1'') = None
   \<and> ''1'' \<notin> q_set (snd (run (executeQueueLogin (phone [LoginGone (Some ''agent'')]) login_node agent_call) empty_queues)) (Operators ''1'')"
proof -
  let ?env = "phone [LoginGone (Some ''agent'')]"
  have r: "run (executeQueueLogin ?env login_node agent_call) empty_queues
      = (Inr (Some ''authenticated''), snd (run (executeQueueLogin ?env login_node agent_call) empty_queues))"
    using phone_login(1) by (simp add: prod_eq_iff)
  have one: "num_to_string (num_of_int 1) = ''1''" "num_to_string (Dec 1 0) = ''1''" by code_simp+
  from login_logs_out [OF r phone_facts(1,2)] show ?thesis
    unfolding phone_facts(4,6) by (auto simp: one simp del: num_to_string.simps)
qed

theorem early_hangup_stays_witness:
  "logged_in ''1'' ''agent'' ''1'' (snd (run (executeQueueLogin (phone []) login_node agent_call) empty_queues))"
proof -
  let ?env = "phone []"
  have r: "run (executeQueueLogin ?env login_node agent_call) empty_queues
      = (Inr None, snd (run (executeQueueLogin ?env login_node agent_call) empty_queues))"
    using phone_login(2) by (simp add: prod_eq_iff)
  have w: "None \<notin> (\<lambda>j. waitForDtmfDigits (s_channelId agent_call) 6 (lx_input ?env j))
      ` {0..<nat (max_login_attempts (queue_rows [1] (as_db example_admin)))}"
  proof -
    have "waitForDtmfDigits (s_channelId agent_call) 6 (lx_input ?env j) \<noteq> None" for j
      by (cases "j = 0") (simp_all add: agent_channel phone_def phone_waits)
    then show ?thesis by (metis imageE)
  qed
  have one: "num_to_string (num_of_int 1) = ''1''" "num_to_string (Dec 1 0) = ''1''" by code_simp+
  from early_hangup_stays [OF r phone_facts(1,2,3) w] show ?thesis
    unfolding phone_facts(4,6) by (auto simp: one agent_channel simp del: num_to_string.simps)
qed

theorem two_queues_double_book_witness:
  "\<exists>st'. ''7'' \<in> q_set st' (Busy ''1'') \<and> ''7'' \<in> q_set st' (Operators ''2'') \<and> getOperatorStatus 7 st' = Available
     \<and> ''7'' \<in> q_set (cleanupRedis 7 st') (Busy ''1'')"
proof -
  let ?st = "empty_queues\<lparr>q_list := (\<lambda>k. if k = Waiting ''1'' then [''c''] else [])\<rparr>"
  have n: "num_to_string (Dec 1 0) = ''1''" "num_to_string (Dec 2 0) = ''2''" "show_int 7 = ''7''" by code_simp+
  have "num_to_string (Dec 1 0) \<noteq> num_to_string (Dec 2 0)" "q_list ?st (Waiting (num_to_string (Dec 1 0))) = ''c'' # []"
    "q_list ?st (Waiting (num_to_string (Dec 2 0))) = []" "show_int 7 \<notin> q_set ?st (Busy (num_to_string (Dec 2 0)))"
    unfolding n by (simp_all add: empty_queues_def)
  from two_queues_double_book [OF this(1,2) _ this(3) _ _ this(4) refl, of "login_base (phone [])" "''agent''"]
  show ?thesis unfolding n by (intro exI) simp
qed

end
