(* ===== verification/CallbackService.thy ===== *)
theory CallbackService
  imports AsyncPrograms CampaignService
begin

text \<open>
  \<open>callbacks/callbacks.service.ts\<close> and its controller: the calls back that flows have recorded, their
  execution and cancellation on request, and the status the call engine reports.  Each query is one atomic
  action, so that requests and messages interleave between them.  Instants are in milliseconds.
\<close>

section \<open>Tables and messages\<close>

record callback_row =
  kb_id :: int
  kb_flowId :: "int option"
  kb_trunkId :: "int option"
  kb_customerNumber :: string
  kb_operatorId :: "int option"
  kb_destinationType :: "string option"
  kb_destinationValue :: "string option"
  kb_destinationTrunkId :: "int option"
  kb_status :: string
  kb_failReason :: "string option"
  kb_callLogId :: "int option"
  kb_createdAt :: int
  kb_executedAt :: "int option"
  kb_completedAt :: "int option"

text \<open>The message \<open>callback:created\<close> of the call engine; its numbers are JSON numbers or \<open>null\<close>.\<close>

record created_payload =
  ct_flowId :: "number option"
  ct_trunkId :: "number option"
  ct_customerNumber :: "string option"
  ct_operatorId :: "number option"
  ct_destinationType :: "string option"
  ct_destinationValue :: "string option"
  ct_destinationTrunkId :: "number option"
  ct_callLogId :: "number option"
  ct_failReason :: "string option"

record status_payload =
  su_callbackId :: int
  su_status :: string
  su_failReason :: "string option"

text \<open>The message \<open>callback:execute\<close>.\<close>

record execute_payload =
  xp_callbackId :: int
  xp_customerNumber :: string
  xp_customerTrunkId :: "int option"
  xp_customerDialString :: string
  xp_operatorDialString :: string
  xp_callerIdNumber :: string

text \<open>The store: the table, the rows of other services that are read, and the commands sent to the engine.\<close>

record callback_db =
  kd_callbacks :: "callback_row list"
  kd_next :: int
  kd_now :: int
  kd_trunks :: "(int \<times> string option) list"
  kd_operators :: "(int \<times> string) list"
  kd_extensions :: "(int \<times> string \<times> string option) list"
  kd_sent :: "execute_payload list"

text \<open>
  \<open>kv_insert\<close> tells whether the references and the lengths of a new row are accepted, \<open>kv_publish\<close> whether a
  message can be published.
\<close>

record callback_service_env =
  kv_phones :: phone_lib
  kv_defaultCountry :: "string option"
  kv_insert :: "callback_row \<Rightarrow> callback_db \<Rightarrow> bool"
  kv_publish :: "callback_db \<Rightarrow> string option"

type_synonym 'a callback_op = "(callback_db, 'a) prog"

definition find_callback :: "int \<Rightarrow> callback_db \<Rightarrow> callback_row option" where
  "find_callback i db = List.find (\<lambda>c. kb_id c = i) (kd_callbacks db)"

text \<open>\<open>UPDATE callbacks SET ... WHERE id = ...\<close>.\<close>

definition set_callback :: "int \<Rightarrow> (callback_row \<Rightarrow> callback_row) \<Rightarrow> callback_db \<Rightarrow> callback_db" where
  "set_callback i f db = db\<lparr>kd_callbacks := map (\<lambda>c. if kb_id c = i then f c else c) (kd_callbacks db)\<rparr>"

section \<open>Recording a callback\<close>

text \<open>\<open>/^\d\{2,20\}\$/\<close>.\<close>

definition internal_number :: "string \<Rightarrow> bool" where
  "internal_number s \<longleftrightarrow> 2 \<le> length s \<and> length s \<le> 20 \<and> list_all is_digit s"

definition normalizeCustomerNumber :: "callback_service_env \<Rightarrow> string option \<Rightarrow> string option" where
  "normalizeCustomerNumber env value =
     (let raw = trim (text_or_empty value) in
      if raw = [] then None
      else if internal_number raw then Some raw
      else let country = text_or_empty (kv_defaultCountry env);
               region = (if starts_with ''+'' raw then None else Some (map to_upper (if country = [] then ''LK'' else country))) in
        if \<not> ph_valid (kv_phones env) raw region then None
        else case ph_parse (kv_phones env) raw region of
          None \<Rightarrow> None
        | Some (valid, e164) \<Rightarrow> if valid then Some e164 else None)"

text \<open>A parameter of an integer column: a number that is no integer is rejected.\<close>

definition integer_param :: "number option \<Rightarrow> (string + int option)" where
  "integer_param v = (case v of
     None \<Rightarrow> Inr None
   | Some n \<Rightarrow> (case num_int n of None \<Rightarrow> Inl ''invalid input syntax for type integer'' | Some i \<Rightarrow> Inr (Some i)))"

definition nonempty_text :: "string option \<Rightarrow> string option" where
  "nonempty_text v = (if text_or_empty v = [] then None else v)"

definition insert_callback :: "callback_service_env \<Rightarrow> created_payload \<Rightarrow> string \<Rightarrow> string \<Rightarrow> string option \<Rightarrow> unit callback_op" where
  "insert_callback env p customerNumber status failReason =
     attempt (\<lambda>db.
       case (integer_param (ct_flowId p), integer_param (ct_trunkId p), integer_param (ct_operatorId p),
             integer_param (case ct_destinationTrunkId p of None \<Rightarrow> None | Some n \<Rightarrow> if num_truthy n then Some n else None),
             integer_param (ct_callLogId p)) of
         (Inr flowId, Inr trunkId, Inr operatorId, Inr destinationTrunkId, Inr callLogId) \<Rightarrow>
           (let row = \<lparr>kb_id = kd_next db, kb_flowId = flowId, kb_trunkId = trunkId, kb_customerNumber = customerNumber,
                  kb_operatorId = operatorId, kb_destinationType = nonempty_text (ct_destinationType p),
                  kb_destinationValue = nonempty_text (ct_destinationValue p), kb_destinationTrunkId = destinationTrunkId,
                  kb_status = status, kb_failReason = failReason, kb_callLogId = callLogId, kb_createdAt = kd_now db,
                  kb_executedAt = None, kb_completedAt = None\<rparr>;
                db1 = db\<lparr>kd_next := kd_next db + 1\<rparr> in
            if kv_insert env row db then (Inr (), db1\<lparr>kd_callbacks := kd_callbacks db @ [row]\<rparr>)
            else (Inl ''constraint'', db1))
       | _ \<Rightarrow> (Inl ''invalid input syntax for type integer'', db))"

definition handleCallbackCreated :: "callback_service_env \<Rightarrow> created_payload \<Rightarrow> unit callback_op" where
  "handleCallbackCreated env p =
     (let normalizedCustomerNumber = normalizeCustomerNumber env (ct_customerNumber p);
          failReason = trim (text_or_empty (ct_failReason p)) in
      if failReason \<noteq> [] \<or> text_or_empty normalizedCustomerNumber = []
      then insert_callback env p (text_or_empty normalizedCustomerNumber) ''failed''
             (Some (if failReason \<noteq> [] then failReason else ''invalid_customer_number''))
      else insert_callback env p (text_or_empty normalizedCustomerNumber) ''pending'' None)"

section \<open>Executing and cancelling\<close>

text \<open>The errors of requests, as the messages of their exceptions.\<close>

definition refuse :: "string \<Rightarrow> 'a callback_op" where
  "refuse m = Fail m"

definition operator_dial_string :: "callback_row \<Rightarrow> string option" where
  "operator_dial_string c =
     (let destinationType = trim (text_or_empty (kb_destinationType c));
          destinationValue = trim (text_or_empty (kb_destinationValue c)) in
      if destinationType = [] \<or> destinationValue = [] then None
      else if destinationType = ''extension'' then Some (''PJSIP/'' @ destinationValue)
      else if destinationType = ''pstn'' then
        (case kb_destinationTrunkId c of
           None \<Rightarrow> None
         | Some t \<Rightarrow> if t = 0 then None else Some (''PJSIP/'' @ destinationValue @ ''@trunk-'' @ show_int t))
      else None)"

text \<open>The customer's endpoint and the caller id, or the message of the exception.\<close>

definition customer_target :: "callback_row \<Rightarrow> (string \<times> string) callback_op" where
  "customer_target c =
     (if kb_trunkId c \<noteq> None \<and> kb_trunkId c \<noteq> Some 0
      then (let t = the (kb_trunkId c) in
        andThen (atomic (\<lambda>db. (map_of (kd_trunks db) t, db))) (\<lambda>row.
          let callerIdNumber = trim (text_or_empty (case row of None \<Rightarrow> None | Some fromUser \<Rightarrow> fromUser)) in
          if callerIdNumber = [] then refuse (''Trunk '' @ show_int t @ '' is missing from_user caller id'')
          else Ret (''PJSIP/'' @ kb_customerNumber c @ ''@trunk-'' @ show_int t, callerIdNumber)))
      else if internal_number (trim (kb_customerNumber c))
      then Ret (''PJSIP/'' @ kb_customerNumber c, trim (kb_customerNumber c))
      else refuse ''Callback has no routable customer target'')"

definition read_callback :: "int \<Rightarrow> callback_row callback_op" where
  "read_callback i =
     andThen (atomic (\<lambda>db. (find_callback i db, db))) (\<lambda>found. case found of
       None \<Rightarrow> refuse (''Callback '' @ show_int i @ '' not found'')
     | Some c \<Rightarrow> Ret c)"

definition send_execute :: "callback_service_env \<Rightarrow> execute_payload \<Rightarrow> unit callback_op" where
  "send_execute env p =
     attempt (\<lambda>db. case kv_publish env db of Some m \<Rightarrow> (Inl m, db) | None \<Rightarrow> (Inr (), db\<lparr>kd_sent := kd_sent db @ [p]\<rparr>))"

text \<open>What a request does with the row it has read.\<close>

definition execute_found :: "callback_service_env \<Rightarrow> int \<Rightarrow> callback_row \<Rightarrow> unit callback_op" where
  "execute_found env i c =
     (if kb_status c \<noteq> ''pending'' then refuse ''Callback is not pending''
     else if kb_customerNumber c = [] then refuse ''Callback has no customer number''
     else case operator_dial_string c of
       None \<Rightarrow> refuse ''no_destination_configured''
     | Some operatorDialString \<Rightarrow>
       andThen (customer_target c) (\<lambda>(customerDialString, callerIdNumber).
       andThen (atomic (\<lambda>db. ((), set_callback i (\<lambda>c. c\<lparr>kb_status := ''dialing_operator'', kb_failReason := None,
           kb_executedAt := Some (kd_now db)\<rparr>) db))) (\<lambda>_.
       send_execute env \<lparr>xp_callbackId = i, xp_customerNumber = kb_customerNumber c, xp_customerTrunkId = kb_trunkId c,
         xp_customerDialString = customerDialString, xp_operatorDialString = operatorDialString,
         xp_callerIdNumber = callerIdNumber\<rparr>)))"

definition executeCallback :: "callback_service_env \<Rightarrow> int \<Rightarrow> unit callback_op" where
  "executeCallback env i = andThen (read_callback i) (execute_found env i)"

definition cancel_found :: "int \<Rightarrow> callback_row \<Rightarrow> unit callback_op" where
  "cancel_found i c =
     (if kb_status c \<noteq> ''pending'' then refuse ''Only pending callbacks can be cancelled''
     else atomic (\<lambda>db. ((), set_callback i (\<lambda>c. c\<lparr>kb_status := ''cancelled'', kb_completedAt := Some (kd_now db)\<rparr>) db)))"

definition cancelCallback :: "int \<Rightarrow> unit callback_op" where
  "cancelCallback i = andThen (read_callback i) (cancel_found i)"

section \<open>Status reports\<close>

definition reported :: "callback_db \<Rightarrow> status_payload \<Rightarrow> callback_row \<Rightarrow> callback_row" where
  "reported db p c =
     (let c1 = c\<lparr>kb_status := su_status p,
            kb_failReason := (if text_or_empty (su_failReason p) = [] then kb_failReason c else su_failReason p)\<rparr> in
      if su_status p \<in> {''completed'', ''failed'', ''cancelled''} then c1\<lparr>kb_completedAt := Some (kd_now db)\<rparr>
      else if su_status p \<in> {''dialing_operator'', ''dialing_customer'', ''bridged''}
      then c1\<lparr>kb_executedAt := (case kb_executedAt c of None \<Rightarrow> Some (kd_now db) | Some t \<Rightarrow> Some t)\<rparr>
      else c1)"

definition handleStatusUpdate :: "status_payload \<Rightarrow> unit callback_op" where
  "handleStatusUpdate p =
     (if su_callbackId p = 0 \<or> su_status p = [] then Ret ()
      else atomic (\<lambda>db. ((), set_callback (su_callbackId p) (reported db p) db)))"

section \<open>Queries\<close>

text \<open>The operator's name: that of the operator, else that of the extension by username, else by id.\<close>

definition extension_name :: "string \<times> string option \<Rightarrow> string" where
  "extension_name e = (case e of (username, displayName) \<Rightarrow>
     if text_or_empty displayName = [] then username else username @ '' '' @ text_or_empty displayName)"

definition operatorName :: "callback_db \<Rightarrow> callback_row \<Rightarrow> string option" where
  "operatorName db c =
     (case Option.bind (kb_operatorId c) (map_of (kd_operators db)) of
        Some n \<Rightarrow> Some n
      | None \<Rightarrow>
        if kb_destinationType c \<noteq> Some ''extension'' \<or> kb_destinationValue c = None then None
        else let v = the (kb_destinationValue c); ranked = sort_key fst (kd_extensions db) in
          (case List.find (\<lambda>(i, username, d). username = v) ranked of
             Some (i, e) \<Rightarrow> Some (extension_name e)
           | None \<Rightarrow> (case List.find (\<lambda>(i, e). show_int i = v) ranked of
               Some (i, e) \<Rightarrow> Some (extension_name e) | None \<Rightarrow> None)))"

definition DIALING :: "string list" where
  "DIALING = [''dialing_operator'', ''dialing_customer'', ''bridged'']"

definition status_matches :: "string \<Rightarrow> callback_row \<Rightarrow> bool" where
  "status_matches status c \<longleftrightarrow>
     (if status = [] then True else if status = ''dialing'' then kb_status c \<in> set DIALING else kb_status c = status)"

definition mapRow :: "callback_db \<Rightarrow> callback_row \<Rightarrow> callback_row \<times> string option" where
  "mapRow db c =
     (c\<lparr>kb_destinationType := nonempty_text (kb_destinationType c), kb_destinationValue := nonempty_text (kb_destinationValue c),
        kb_failReason := nonempty_text (kb_failReason c)\<rparr>, nonempty_text (operatorName db c))"

definition listCallbacks :: "int \<Rightarrow> int \<Rightarrow> string option \<Rightarrow> callback_db \<Rightarrow> (callback_row \<times> string option) list \<times> nat \<times> int \<times> int" where
  "listCallbacks pageNumber limit status db =
     (let safePage = max 1 (if pageNumber = 0 then 1 else pageNumber); safeLimit = max 1 (if limit = 0 then 20 else limit);
          offset = (safePage - 1) * safeLimit;
          rows = filter (status_matches (trim (text_or_empty status)))
                   (sort_key (\<lambda>c. - kb_createdAt c) (sort_key (\<lambda>c. - kb_id c) (kd_callbacks db))) in
      (map (mapRow db) (take (nat safeLimit) (drop (nat offset) rows)), length rows, safePage, safeLimit))"

definition getCallback :: "int \<Rightarrow> callback_db \<Rightarrow> (callback_row \<times> string option) result" where
  "getCallback i db =
     (case find_callback i db of
        None \<Rightarrow> throw (NotFound (''Callback '' @ show_int i @ '' not found''))
      | Some c \<Rightarrow> ok (mapRow db c))"

end
