(* ===== verification/CallbackEngine.thy ===== *)
theory CallbackEngine
  imports CallbackService Waiters DigitCollection Executors
begin

text \<open>
  The calls back in the call engine: \<open>nodes/callback.executor.ts\<close>, which records one for a caller,
  \<open>callback-execute.ts\<close>, which dials the operator and then the customer and joins them, and the part of
  \<open>index.ts\<close> that dispatches the command and the answered legs.  Every request to Redis, to the database and
  to Asterisk is one atomic action; the events of each wait are a list.
\<close>

section \<open>The store\<close>

datatype callback_message = CallbackCreated created_payload | StatusUpdate status_payload

datatype callback_request =
    Originate string string string
  | HoldStart string
  | HoldStop string
  | HangUp string
  | BridgeCreate string
  | BridgeAdd string string
  | BridgeDestroy string

record callback_store =
  bs_waiters :: "string callback_waiters"
  bs_sent :: "callback_message list"
  bs_requests :: "callback_request list"

definition no_callbacks :: callback_store where
  "no_callbacks = \<lparr>bs_waiters = no_waiters, bs_sent = [], bs_requests = []\<rparr>"

text \<open>A leg enters the application, or the timer of the wait fires.\<close>

datatype leg_event = LegEntered int leg string | LegTimer

text \<open>
  \<open>be_reject\<close> tells which requests Asterisk rejects, \<open>be_publish\<close> whether a message can be published,
  \<open>be_trunk\<close> is the dial format of a trunk; \<open>be_operator\<close>, \<open>be_customer\<close> are the events while the legs are
  awaited and \<open>be_ends\<close> the channels that end once both are joined.
\<close>

record callback_env =
  be_reject :: "callback_request \<Rightarrow> callback_store \<Rightarrow> string option"
  be_bridge :: "callback_store \<Rightarrow> string + string"
  be_publish :: "callback_message \<Rightarrow> callback_store \<Rightarrow> string option"
  be_trunk :: "number \<Rightarrow> string option"
  be_operator :: "leg_event list"
  be_customer :: "leg_event list"
  be_ends :: "string list"

type_synonym 'a engine_op = "(callback_store, 'a) prog"

definition leg_request :: "callback_env \<Rightarrow> callback_request \<Rightarrow> unit engine_op" where
  "leg_request env r =
     attempt (\<lambda>s. case be_reject env r s of Some m \<Rightarrow> (Inl m, s) | None \<Rightarrow> (Inr (), s\<lparr>bs_requests := bs_requests s @ [r]\<rparr>))"

definition best_effort :: "callback_env \<Rightarrow> callback_request \<Rightarrow> unit engine_op" where
  "best_effort env r = tryCatch (leg_request env r) (\<lambda>_. Ret ())"

definition create_bridge :: "callback_env \<Rightarrow> string engine_op" where
  "create_bridge env = attempt (\<lambda>s. case be_bridge env s of
     Inl m \<Rightarrow> (Inl m, s)
   | Inr b \<Rightarrow> (Inr b, s\<lparr>bs_requests := bs_requests s @ [BridgeCreate b]\<rparr>))"

definition publish_message :: "callback_env \<Rightarrow> callback_message \<Rightarrow> unit engine_op" where
  "publish_message env m =
     attempt (\<lambda>s. case be_publish env m s of Some e \<Rightarrow> (Inl e, s) | None \<Rightarrow> (Inr (), s\<lparr>bs_sent := bs_sent s @ [m]\<rparr>))"

definition publishStatus :: "callback_env \<Rightarrow> int \<Rightarrow> string \<Rightarrow> string option \<Rightarrow> unit engine_op" where
  "publishStatus env callbackId status failReason =
     publish_message env (StatusUpdate \<lparr>su_callbackId = callbackId, su_status = status, su_failReason = nonempty_text failReason\<rparr>)"

section \<open>Answered legs\<close>

text \<open>The handler of \<open>StasisStart\<close> for the two legs: a leg nobody waits for is hung up.\<close>

definition leg_entered :: "int \<Rightarrow> leg \<Rightarrow> string \<Rightarrow> callback_store \<Rightarrow> callback_store" where
  "leg_entered callbackId l channelId s =
     (if callbackId = 0 \<or> \<not> hasCallbackWaiter callbackId l (bs_waiters s)
      then s\<lparr>bs_requests := bs_requests s @ [HangUp channelId]\<rparr>
      else s\<lparr>bs_waiters := resolveCallbackWaiter (callbackId, l) channelId (bs_waiters s)\<rparr>)"

fun leg_listener :: "int \<Rightarrow> leg \<Rightarrow> nat \<Rightarrow> leg_event \<Rightarrow> callback_store \<Rightarrow> callback_store" where
  "leg_listener callbackId l p (LegEntered i l' ch) s = leg_entered i l' ch s"
| "leg_listener callbackId l p LegTimer s =
     (if outcome (bs_waiters s) p = None
      then s\<lparr>bs_waiters := rejectCallbackWaiter (callbackId, l) CallbackTimeout (bs_waiters s)\<rparr> else s)"

text \<open>The promise after the events, \<open>None\<close> while it is pending.\<close>

definition waitForAnsweredLeg :: "int \<Rightarrow> leg \<Rightarrow> leg_event list \<Rightarrow> (string, callback_reason) dial_result option engine_op" where
  "waitForAnsweredLeg callbackId l events =
     atomic (\<lambda>s. case registerCallbackWaiter (callbackId, l) (bs_waiters s) of
       (p, w) \<Rightarrow> (let s' = fold (leg_listener callbackId l p) events (s\<lparr>bs_waiters := w\<rparr>) in (outcome (bs_waiters s') p, s')))"

text \<open>\<open>waitForChannelEnd\<close>: the first of the two channels that ends.\<close>

definition waitForChannelEnd :: "string list \<Rightarrow> string list \<Rightarrow> string option" where
  "waitForChannelEnd channelIds ends = List.find (\<lambda>c. c \<noteq> [] \<and> c \<in> set channelIds) (map trim ends)"

section \<open>Executing a callback\<close>

text \<open>\<open>/^PJSIP\/([^@]+)@trunk-(\d+)\$/i\<close>.\<close>

definition parseCustomerTrunkEndpoint :: "string \<Rightarrow> (string \<times> number) option" where
  "parseCustomerTrunkEndpoint endpoint =
     (let trimmed = trim endpoint; rest = drop 6 trimmed;
          number = takeWhile (\<lambda>c. c \<noteq> CHR ''@'') rest; tail = dropWhile (\<lambda>c. c \<noteq> CHR ''@'') rest;
          digits = drop 7 tail in
      if map to_lower (take 6 trimmed) = ''pjsip/'' \<and> number \<noteq> [] \<and> map to_lower (take 7 tail) = ''@trunk-''
        \<and> digits \<noteq> [] \<and> list_all is_digit digits
      then Some (trim number, string_to_number digits) else None)"

definition dial_string :: "callback_env \<Rightarrow> string \<Rightarrow> number \<Rightarrow> string option" where
  "dial_string env number trunkId =
     (case formatDialNumber number (fetchTrunkDialFormat (be_trunk env) trunkId) of
        None \<Rightarrow> None
      | Some f \<Rightarrow> if f = [] then None else Some (''PJSIP/'' @ f @ ''@trunk-'' @ num_to_string trunkId))"

text \<open>The customer's endpoint: a failure reason, nothing (a field is missing), or the endpoint.\<close>

definition customer_endpoint :: "callback_env \<Rightarrow> execute_payload \<Rightarrow> string + string" where
  "customer_endpoint env p =
     (let raw = trim (xp_customerDialString p) in
      if raw \<noteq> [] then
        (case parseCustomerTrunkEndpoint raw of
           None \<Rightarrow> Inl ''invalid_customer_dial_string''
         | Some (number, trunkId) \<Rightarrow>
           (case dial_string env number trunkId of None \<Rightarrow> Inl ''invalid_number_format'' | Some e \<Rightarrow> Inr e))
      else if xp_customerNumber p \<noteq> [] \<and> xp_customerTrunkId p \<noteq> None \<and> xp_customerTrunkId p \<noteq> Some 0 then
        (case dial_string env (xp_customerNumber p) (num_of_int (the (xp_customerTrunkId p))) of
           None \<Rightarrow> Inl ''invalid_number_format'' | Some e \<Rightarrow> Inr e)
      else Inr [])"

text \<open>
  A part of the \<open>try\<close> block with what its \<open>catch\<close> does when this part fails: stop the music if it plays, and
  report the failure.  A rejected report leaves the function.  \<open>None\<close>: the part ended the function.
\<close>

definition guarded :: "callback_env \<Rightarrow> int \<Rightarrow> string option \<Rightarrow> 'a option engine_op \<Rightarrow> 'a option engine_op" where
  "guarded env callbackId hold part =
     tryCatch part (\<lambda>_.
       andThen (case hold of None \<Rightarrow> Ret () | Some ch \<Rightarrow> best_effort env (HoldStop ch)) (\<lambda>_.
       andThen (publishStatus env callbackId ''failed'' (Some ''originate_failed'')) (\<lambda>_. Ret None)))"

text \<open>A part that a promise may leave pending returns \<open>Some None\<close> then.\<close>

definition dial_leg :: "callback_env \<Rightarrow> int \<Rightarrow> leg \<Rightarrow> string \<Rightarrow> string \<Rightarrow> leg_event list \<Rightarrow> (string, callback_reason) dial_result option engine_op" where
  "dial_leg env callbackId l endpoint callerId events =
     andThen (leg_request env (Originate endpoint (''callback-'' @ leg_name l @ '','' @ show_int callbackId) callerId)) (\<lambda>_.
     waitForAnsweredLeg callbackId l events)"

datatype 'a call_progress = StillWaiting | Ended | Reached 'a

text \<open>To the operator's answer.\<close>

definition call_operator :: "callback_env \<Rightarrow> execute_payload \<Rightarrow> string call_progress option engine_op" where
  "call_operator env p =
     guarded env (xp_callbackId p) None
       (andThen (dial_leg env (xp_callbackId p) OperatorLeg (xp_operatorDialString p) (xp_callerIdNumber p) (be_operator env)) (\<lambda>r.
        case r of
          None \<Rightarrow> Ret (Some StillWaiting)
        | Some (Unanswered _) \<Rightarrow>
            andThen (publishStatus env (xp_callbackId p) ''failed'' (Some ''operator_no_answer'')) (\<lambda>_. Ret (Some Ended))
        | Some (Answered ch) \<Rightarrow> Ret (Some (Reached ch))))"

text \<open>The music starts; its failure is noted only.\<close>

definition hold_operator :: "callback_env \<Rightarrow> string \<Rightarrow> bool engine_op" where
  "hold_operator env ch =
     tryCatch (andThen (leg_request env (HoldStart ch)) (\<lambda>_. Ret True)) (\<lambda>_. Ret False)"

definition stop_hold :: "callback_env \<Rightarrow> bool \<Rightarrow> string \<Rightarrow> unit engine_op" where
  "stop_hold env started ch = (if started then best_effort env (HoldStop ch) else Ret ())"

text \<open>From the operator's answer to the customer's, while the music plays.\<close>

definition call_customer :: "callback_env \<Rightarrow> execute_payload \<Rightarrow> string \<Rightarrow> string \<Rightarrow> bool \<Rightarrow> string call_progress option engine_op" where
  "call_customer env p customerDialString ch started =
     guarded env (xp_callbackId p) (if started then Some ch else None)
       (andThen (publishStatus env (xp_callbackId p) ''dialing_customer'' None) (\<lambda>_.
        andThen (dial_leg env (xp_callbackId p) CustomerLeg customerDialString (xp_callerIdNumber p) (be_customer env)) (\<lambda>r.
        case r of
          None \<Rightarrow> Ret (Some StillWaiting)
        | Some (Unanswered _) \<Rightarrow> Ret (Some Ended)
        | Some (Answered c) \<Rightarrow> Ret (Some (Reached c)))))"

text \<open>The customer did not answer: the music has stopped, so that a failure here does not stop it again.\<close>

definition customer_unanswered :: "callback_env \<Rightarrow> execute_payload \<Rightarrow> string \<Rightarrow> bool \<Rightarrow> unit option engine_op" where
  "customer_unanswered env p ch started =
     andThen (stop_hold env started ch) (\<lambda>_.
     guarded env (xp_callbackId p) None
       (andThen (best_effort env (HangUp ch)) (\<lambda>_.
        andThen (publishStatus env (xp_callbackId p) ''failed'' (Some ''customer_no_answer'')) (\<lambda>_. Ret (Some ())))))"

text \<open>Both answered: bridge them, wait for the end of one, release the other.  \<open>Some None\<close>: still talking.\<close>

definition join_legs :: "callback_env \<Rightarrow> execute_payload \<Rightarrow> string \<Rightarrow> string \<Rightarrow> unit option option engine_op" where
  "join_legs env p operatorChannel customerChannel =
     guarded env (xp_callbackId p) None
       (andThen (publishStatus env (xp_callbackId p) ''bridged'' None) (\<lambda>_.
        andThen (create_bridge env) (\<lambda>bridge.
        andThen (leg_request env (BridgeAdd bridge operatorChannel)) (\<lambda>_.
        andThen (leg_request env (BridgeAdd bridge customerChannel)) (\<lambda>_.
        case waitForChannelEnd [operatorChannel, customerChannel] (be_ends env) of
          None \<Rightarrow> Ret (Some None)
        | Some ended \<Rightarrow>
          andThen (best_effort env (HangUp (if ended = operatorChannel then customerChannel else operatorChannel))) (\<lambda>_.
          andThen (best_effort env (BridgeDestroy bridge)) (\<lambda>_.
          andThen (publishStatus env (xp_callbackId p) ''completed'' None) (\<lambda>_. Ret (Some (Some ()))))))))))"

text \<open>\<open>Ret None\<close>: a promise is still pending when its events end.\<close>

definition executeCallbackCall :: "callback_env \<Rightarrow> execute_payload \<Rightarrow> unit option engine_op" where
  "executeCallbackCall env p =
     (case customer_endpoint env p of
        Inl reason \<Rightarrow> andThen (publishStatus env (xp_callbackId p) ''failed'' (Some reason)) (\<lambda>_. Ret (Some ()))
      | Inr customerDialString \<Rightarrow>
        if xp_callbackId p = 0 \<or> xp_operatorDialString p = [] \<or> customerDialString = [] \<or> xp_callerIdNumber p = []
        then Ret (Some ())
        else andThen (call_operator env p) (\<lambda>r. case r of
            Some (Reached ch) \<Rightarrow>
              andThen (hold_operator env ch) (\<lambda>started.
              andThen (call_customer env p customerDialString ch started) (\<lambda>r'. case r' of
                Some (Reached c) \<Rightarrow>
                  andThen (stop_hold env started ch) (\<lambda>_.
                  andThen (join_legs env p ch c) (\<lambda>r''. case r'' of
                    Some None \<Rightarrow> Ret None | _ \<Rightarrow> Ret (Some ())))
              | Some StillWaiting \<Rightarrow> Ret None
              | Some Ended \<Rightarrow> andThen (customer_unanswered env p ch started) (\<lambda>_. Ret (Some ()))
              | None \<Rightarrow> Ret (Some ())))
          | Some StillWaiting \<Rightarrow> Ret None
          | _ \<Rightarrow> Ret (Some ())))"

text \<open>The subscription to \<open>callback:execute\<close>.\<close>

definition on_execute :: "callback_env \<Rightarrow> execute_payload \<Rightarrow> unit option engine_op" where
  "on_execute env p =
     (let hasCustomerDialString = (trim (xp_customerDialString p) \<noteq> []);
          hasCustomerNumberAndTrunk = (xp_customerNumber p \<noteq> [] \<and> xp_customerTrunkId p \<noteq> None \<and> xp_customerTrunkId p \<noteq> Some 0) in
      if xp_callbackId p = 0 \<or> xp_operatorDialString p = [] \<or> xp_callerIdNumber p = []
        \<or> (\<not> hasCustomerDialString \<and> \<not> hasCustomerNumberAndTrunk)
      then Ret (Some ()) else executeCallbackCall env p)"

end
