(* ===== verification/CallbackNode.thy ===== *)
theory CallbackNode
  imports CallbackService OperatorAdmin Executors
begin

text \<open>
  \<open>nodes/callback.executor.ts\<close>: the node that records a call back for the caller.  It takes the number of the
  caller or collects one by digits, publishes \<open>callback:created\<close>, plays a confirmation and hangs up.  The
  session, the messages and the sounds are the store, so that what was done before an exception remains.
\<close>

section \<open>Digits\<close>

datatype digits_reason = DigitsEntered | DigitsTimeout | DigitsHangup

text \<open>The variables of \<open>collectDtmfDigits\<close>; the listeners of a settled promise are removed.\<close>

record digit_wait =
  dg_digits :: string
  dg_result :: "(string option \<times> digits_reason) option"

definition new_digit_wait :: digit_wait where
  "new_digit_wait = \<lparr>dg_digits = [], dg_result = None\<rparr>"

fun digit_listener :: "string \<Rightarrow> nat \<Rightarrow> collect_event \<Rightarrow> digit_wait \<Rightarrow> digit_wait" where
  "digit_listener ch maxDigits (Dtmf evc d) w =
     (if dg_result w \<noteq> None \<or> other_channel ch evc then w
      else let digit = trim (text_or_empty d) in
        if digit = [] then w
        else let w1 = w\<lparr>dg_digits := dg_digits w @ digit\<rparr> in
          if maxDigits \<le> length (dg_digits w1)
          then w1\<lparr>dg_result := Some (Some (take maxDigits (dg_digits w1)), DigitsEntered)\<rparr> else w1)"
| "digit_listener ch maxDigits (ChannelGone evc) w =
     (if dg_result w \<noteq> None \<or> evc \<noteq> Some ch then w else w\<lparr>dg_result := Some (None, DigitsHangup)\<rparr>)"
| "digit_listener ch maxDigits TimerFires w =
     (if dg_result w \<noteq> None then w
      else w\<lparr>dg_result := Some (if dg_digits w = [] then None else Some (dg_digits w), DigitsTimeout)\<rparr>)"
| "digit_listener ch maxDigits PromptFinished w = w"
| "digit_listener ch maxDigits InterDigitFires w = w"

definition collectDtmfDigits :: "string \<Rightarrow> nat \<Rightarrow> collect_event list \<Rightarrow> (string option \<times> digits_reason) option" where
  "collectDtmfDigits ch maxDigits events = dg_result (fold (digit_listener ch maxDigits) events new_digit_wait)"

section \<open>The store and the environment\<close>

record node_store =
  no_session :: session
  no_created :: "created_payload list"
  no_played :: "string list"
  no_hangups :: nat

text \<open>
  \<open>nv_db\<close> are the tables read, \<open>nv_callLogs\<close> the ids of the call's logs, the last one first, \<open>nv_audio\<close> the
  path of an audio file, each rejected with a message; \<open>nv_play\<close> whether a sound is accepted and
  \<open>nv_published\<close> whether a message is.  \<open>nv_digits\<close> are the events while digits are awaited,
  \<open>nv_playback\<close> those after the confirmation starts, with the id of the playback.
\<close>

record callback_node_env =
  nv_callerNumber :: "string option"
  nv_db :: "node_store \<Rightarrow> string + admin_db"
  nv_callLogs :: "string \<Rightarrow> node_store \<Rightarrow> string + int list"
  nv_audio :: "node_store \<Rightarrow> number \<Rightarrow> string + string option"
  nv_play :: "string \<Rightarrow> node_store \<Rightarrow> string option"
  nv_published :: "created_payload \<Rightarrow> node_store \<Rightarrow> string option"
  nv_digits :: "collect_event list"
  nv_playback :: "string \<times> playback_event list"

type_synonym 'a node_op = "(node_store, 'a) prog"

definition node_play :: "callback_node_env \<Rightarrow> string \<Rightarrow> unit node_op" where
  "node_play env media =
     attempt (\<lambda>s. case nv_play env media s of Some m \<Rightarrow> (Inl m, s) | None \<Rightarrow> (Inr (), s\<lparr>no_played := no_played s @ [media]\<rparr>))"

definition node_media :: "callback_node_env \<Rightarrow> node_store media_env" where
  "node_media env = \<lparr>md_audio = nv_audio env, md_play = (\<lambda>t p s. (Inr (), s)), md_events = (\<lambda>n s. (([], []), s))\<rparr>"

definition node_audio :: "callback_node_env \<Rightarrow> config \<Rightarrow> string \<Rightarrow> string \<Rightarrow> string option node_op" where
  "node_audio env config idField pathField =
     attempt (\<lambda>s. (resolveAudioMediaPath (node_media env) s config idField pathField, s))"

definition node_hangup :: "unit node_op" where
  "node_hangup = atomic (\<lambda>s. ((), s\<lparr>no_hangups := no_hangups s + 1\<rparr>))"

definition publishCreated :: "callback_node_env \<Rightarrow> created_payload \<Rightarrow> unit node_op" where
  "publishCreated env p =
     attempt (\<lambda>s. case nv_published env p s of Some m \<Rightarrow> (Inl m, s) | None \<Rightarrow> (Inr (), s\<lparr>no_created := no_created s @ [p]\<rparr>))"

section \<open>Reading the configuration and the tables\<close>

definition storeCallbackOutcome :: "string option \<Rightarrow> string \<Rightarrow> bool \<Rightarrow> session \<Rightarrow> session" where
  "storeCallbackOutcome callbackNumber source persist s =
     (let normalizedNumber = trim (text_or_empty callbackNumber) in
      if normalizedNumber = [] then s
      else let s1 = (if persist then set_var ''callback_number'' normalizedNumber s else s) in
        s1\<lparr>s_webhookPayload := (s_webhookPayload s1)\<lparr>
             wp_callback := Some (JObj [(''number'', JStr normalizedNumber), (''source'', JStr source)]),
             wp_outcome := Some (JObj [(''status'', JStr ''completed'')])\<rparr>\<rparr>)"

text \<open>The operators whose extension has the name or the id, those by name first, then by id.\<close>

definition operators_of_extension :: "string \<Rightarrow> admin_db \<Rightarrow> int list" where
  "operators_of_extension lookup db =
     (let matching = (\<lambda>P. map op_id (filter (\<lambda>p. list_ex (\<lambda>e. Some (ex_id e) = op_extensionId p \<and> P e) (ad_extensions db)) (ad_operators db))) in
      sort_key id (matching (\<lambda>e. ex_username e = lookup))
      @ sort_key id (matching (\<lambda>e. ex_username e \<noteq> lookup \<and> show_int (ex_id e) = lookup)))"

definition positive_head :: "int list \<Rightarrow> number option" where
  "positive_head ids = (case ids of [] \<Rightarrow> None | i # _ \<Rightarrow> if 0 < i then Some (num_of_int i) else None)"

definition resolveOperatorIdFromExtension :: "callback_node_env \<Rightarrow> string \<Rightarrow> number option node_op" where
  "resolveOperatorIdFromExtension env extension =
     (let lookup = trim extension in
      if lookup = [] then Ret None
      else attempt (\<lambda>s. (map_sum id (\<lambda>db. positive_head (operators_of_extension lookup db)) (nv_db env s), s)))"

definition resolveOperatorIdFromDestination :: "callback_node_env \<Rightarrow> bool \<Rightarrow> string \<Rightarrow> number option \<Rightarrow> number option node_op" where
  "resolveOperatorIdFromDestination env pstn destinationValue configOperatorId =
     (case configOperatorId of
        Some n \<Rightarrow> if (case num_int n of None \<Rightarrow> False | Some i \<Rightarrow> 0 < i) then Ret (Some n)
          else if pstn then Ret None else resolveOperatorIdFromExtension env destinationValue
      | None \<Rightarrow> if pstn then Ret None else resolveOperatorIdFromExtension env destinationValue)"

definition resolveCallLogId :: "callback_node_env \<Rightarrow> number option node_op" where
  "resolveCallLogId env = attempt (\<lambda>s. (map_sum id positive_head (nv_callLogs env (s_callUuid (no_session s)) s), s))"

text \<open>\<open>JSON.stringify\<close> writes numbers that are not finite as \<open>null\<close>.\<close>

definition json_number :: "number option \<Rightarrow> number option" where
  "json_number v = (case v of Some n \<Rightarrow> if num_finite n then Some n else None | None \<Rightarrow> None)"

definition optional_number :: "json option \<Rightarrow> number option" where
  "optional_number v = (if truthy v then Some (js_number v) else None)"

definition max_digits :: "config \<Rightarrow> nat" where
  "max_digits config =
     (case num_int (js_parse_int (js_string (js_coalesce (obj_get config ''dtmf_max_digits'') (Some (JNum (Dec 11 0)))))) of
        None \<Rightarrow> 11 | Some i \<Rightarrow> if 0 < i then nat i else 11)"

section \<open>The executor\<close>

definition wants_digits :: "config \<Rightarrow> bool" where
  "wants_digits config \<longleftrightarrow> obj_get config ''number_source'' = Some (JStr ''dtmf'')"

definition pstn_destination :: "config \<Rightarrow> bool" where
  "pstn_destination config \<longleftrightarrow> obj_get config ''destination_type'' \<in> {Some (JStr ''pstn''), Some (JStr ''caller'')}"

definition destination_value :: "config \<Rightarrow> string" where
  "destination_value config = str_trim (obj_get config ''destination_value'')"

text \<open>The fields of a message that do not change while the node runs.\<close>

definition created_message ::
  "config \<Rightarrow> session \<Rightarrow> number option \<Rightarrow> number option \<Rightarrow> number option \<Rightarrow> string option \<Rightarrow> string option \<Rightarrow> created_payload" where
  "created_message config s operatorId callLogId trunkId customerNumber failReason =
     \<lparr>ct_flowId = (if f_id (s_flow s) = 0 then None else Some (num_of_int (f_id (s_flow s)))),
      ct_trunkId = json_number trunkId, ct_customerNumber = customerNumber, ct_operatorId = operatorId,
      ct_destinationType = Some (if pstn_destination config then ''pstn'' else ''extension''),
      ct_destinationValue = (if destination_value config = [] then None else Some (destination_value config)),
      ct_destinationTrunkId = json_number (optional_number (obj_get config ''destination_trunk_id'')),
      ct_callLogId = callLogId, ct_failReason = failReason\<rparr>"

text \<open>The number: of the caller, or by digits.  \<open>None\<close>: the promise is pending; \<open>Some None\<close>: no digit in time.\<close>

definition caller_ani :: "callback_node_env \<Rightarrow> session \<Rightarrow> string" where
  "caller_ani env s =
     (let raw = trim (text_or_empty (nv_callerNumber env)) in if raw \<noteq> [] then raw else trim (s_callerNumber s))"

definition set_outcome :: "string option \<Rightarrow> string \<Rightarrow> bool \<Rightarrow> unit node_op" where
  "set_outcome number source persist =
     atomic (\<lambda>s. ((), s\<lparr>no_session := storeCallbackOutcome number source persist (no_session s)\<rparr>))"

definition number_by_ani :: "callback_node_env \<Rightarrow> session \<Rightarrow> string option option option node_op" where
  "number_by_ani env s =
     (let ani = caller_ani env s; customerNumber = (if ani = [] then None else Some ani) in
      andThen (set_outcome customerNumber ''ani'' False) (\<lambda>_. Ret (Some (Some customerNumber))))"

definition number_by_digits :: "callback_node_env \<Rightarrow> rt_node \<Rightarrow> session \<Rightarrow> string option option option node_op" where
  "number_by_digits env node s =
     andThen (node_audio env (n_config node) ''dtmf_prompt_audio_id'' ''dtmf_prompt_audio_path'') (\<lambda>prompt.
     andThen (case prompt of None \<Rightarrow> Ret () | Some p \<Rightarrow> if p = [] then Ret () else node_play env (''sound:'' @ p)) (\<lambda>_.
     case collectDtmfDigits (s_channelId s) (max_digits (n_config node)) (nv_digits env) of
       None \<Rightarrow> Ret None
     | Some (number, reason) \<Rightarrow>
       if reason = DigitsHangup then Fail ''caller_hangup''
       else if reason = DigitsTimeout \<and> text_or_empty number = [] then Ret (Some None)
       else andThen (set_outcome number ''dtmf'' True) (\<lambda>_. Ret (Some (Some number)))))"

definition known_trunk :: "config \<Rightarrow> number option" where
  "known_trunk config = (if pstn_destination config then optional_number (obj_get config ''destination_trunk_id'') else None)"

text \<open>The message of a number: a PSTN destination stands in for a missing one and gives the trunk.\<close>

definition number_message :: "config \<Rightarrow> session \<Rightarrow> number option \<Rightarrow> number option \<Rightarrow> string option \<Rightarrow> created_payload" where
  "number_message config s operatorId callLogId customerNumber =
     created_message config s operatorId callLogId
       (known_trunk config)
       (if text_or_empty customerNumber = [] \<and> pstn_destination config \<and> destination_value config \<noteq> []
        then Some (destination_value config) else customerNumber) None"

text \<open>\<open>playAudioIfPresent\<close>: \<open>None\<close> while the playback lasts.\<close>

definition playAudioIfPresent :: "callback_node_env \<Rightarrow> config \<Rightarrow> string \<Rightarrow> string \<Rightarrow> string \<Rightarrow> bool option node_op" where
  "playAudioIfPresent env config idField pathField ch =
     andThen (node_audio env config idField pathField) (\<lambda>path.
     case path of
       None \<Rightarrow> Ret (Some False)
     | Some p \<Rightarrow>
       if p = [] then Ret (Some False)
       else andThen (node_play env (''sound:'' @ p)) (\<lambda>_.
         case fold (waitForPlaybackFinished (fst (nv_playback env)) ch) (snd (nv_playback env)) None of
           None \<Rightarrow> Ret None
         | Some (Inl m) \<Rightarrow> Fail m
         | Some (Inr _) \<Rightarrow> Ret (Some True)))"

definition play_confirmation :: "callback_node_env \<Rightarrow> config \<Rightarrow> string \<Rightarrow> bool option node_op" where
  "play_confirmation env config ch =
     andThen (playAudioIfPresent env config ''confirmation_audio_id'' ''confirmation_audio_path'' ch) (\<lambda>played.
     if played = Some False then playAudioIfPresent env config ''confirmation_audio_file_id'' ''confirmation_audio_file_path'' ch
     else Ret played)"

definition created_fail_reason :: "bool \<Rightarrow> string \<Rightarrow> string" where
  "created_fail_reason digits message =
     (if message = ''caller_hangup'' \<or> message = ''hangup'' then ''caller_hangup''
      else if digits \<and> message = ''dtmf_timeout'' then ''dtmf_timeout'' else ''executor_error'')"

text \<open>
  A part of the \<open>try\<close> block before \<open>published = true\<close> with what its \<open>catch\<close> does when this part fails: record
  the failure, with the trunk known by then.  \<open>None\<close>: the part failed, and the failure is recorded.
\<close>

definition or_record :: "callback_node_env \<Rightarrow> bool \<Rightarrow> (string option \<Rightarrow> created_payload) \<Rightarrow> 'a node_op \<Rightarrow> 'a option node_op" where
  "or_record env digits failed part =
     tryCatch (andThen part (\<lambda>r. Ret (Some r)))
       (\<lambda>m. andThen (publishCreated env (failed (Some (created_fail_reason digits m)))) (\<lambda>_. Ret None))"

text \<open>The number and its message, up to \<open>published = true\<close>; \<open>True\<close> when it was reached without an exception.\<close>

definition record_callback :: "callback_node_env \<Rightarrow> rt_node \<Rightarrow> session \<Rightarrow> number option \<Rightarrow> number option \<Rightarrow> bool option node_op" where
  "record_callback env node s operatorId callLogId =
     (let config = n_config node; digits = wants_digits config;
          failed = (\<lambda>trunk. created_message config s operatorId callLogId trunk None) in
      andThen (or_record env digits (failed None) (if digits then number_by_digits env node s else number_by_ani env s)) (\<lambda>r.
      case r of
        None \<Rightarrow> Ret (Some False)
      | Some None \<Rightarrow> Ret None
      | Some (Some None) \<Rightarrow>
          andThen (or_record env digits (failed None) (publishCreated env (failed None (Some ''dtmf_timeout'')))) (\<lambda>r. Ret (Some (r \<noteq> None)))
      | Some (Some (Some customerNumber)) \<Rightarrow>
          andThen (or_record env digits (failed (known_trunk config))
              (publishCreated env (number_message config s operatorId callLogId customerNumber))) (\<lambda>r. Ret (Some (r \<noteq> None)))))"

text \<open>
  The \<open>catch\<close> after \<open>published = true\<close> records nothing; both ways the call is hung up.  \<open>Ret None\<close>: a promise
  is still pending when its events end.
\<close>

definition executeCallbackNode :: "callback_node_env \<Rightarrow> rt_node \<Rightarrow> session \<Rightarrow> string option node_op" where
  "executeCallbackNode env node s =
     (let config = n_config node; hang = andThen node_hangup (\<lambda>_. Ret (Some ''done'')) in
      andThen (resolveOperatorIdFromDestination env (pstn_destination config) (destination_value config)
                 (optional_number (obj_get config ''operator_id''))) (\<lambda>operatorId.
      andThen (resolveCallLogId env) (\<lambda>callLogId.
      andThen (record_callback env node s operatorId callLogId) (\<lambda>recorded.
      case recorded of
        None \<Rightarrow> Ret None
      | Some False \<Rightarrow> hang
      | Some True \<Rightarrow>
          andThen (tryCatch (play_confirmation env config (s_channelId s)) (\<lambda>_. Ret (Some True))) (\<lambda>played.
          if played = None then Ret None else hang)))))"

end
