(* ===== verification/CallbackProperties.thy ===== *)
theory CallbackProperties
  imports CallbackEngine CallbackNode
begin

text \<open>
  What the calls back guarantee, from the node that records one to the status the engine reports.  A node
  records exactly one message, a dialled callback ends in one final status.  And what they do not: a callback
  of a node with an extension can never be dialled, concurrent requests dial twice, a lost command blocks its
  callback, and a bridge that cannot be completed leaves both parties in it.
\<close>

section \<open>Examples\<close>

text \<open>A node whose destination is an extension, a caller at an internal number, and tables without callbacks.\<close>

definition callback_node :: rt_node where
  "callback_node = \<lparr>n_key = ''cb'', n_type = ''callback'', n_label = [],
     n_config = [(''destination_type'', JStr ''extension''), (''destination_value'', JStr ''101'')]\<rparr>"

definition extension_node_env :: callback_node_env where
  "extension_node_env = \<lparr>nv_callerNumber = Some ''202'',
     nv_db = (\<lambda>_. Inr \<lparr>ad_queues = [], ad_operators = [], ad_links = [], ad_extensions = [], ad_contacts = [], ad_trunks = [],
       ad_audio = [], ad_nextQueue = 1, ad_nextOperator = 1, ad_pinColumn = False\<rparr>),
     nv_callLogs = (\<lambda>_ _. Inr [9]), nv_audio = (\<lambda>_ _. Inr None), nv_play = (\<lambda>_ _. None), nv_published = (\<lambda>_ _. None),
     nv_digits = [], nv_playback = (''p'', [])\<rparr>"

definition callback_session :: session where
  "callback_session = createSession 0 ''c1'' ''202'' \<lparr>f_id = 4, f_name = ''support'', f_versionId = 1, f_nodes = [callback_node], f_edges = []\<rparr> ''cb''"

definition callback_call :: node_store where
  "callback_call = \<lparr>no_session = callback_session, no_created = [], no_played = [], no_hangups = 0\<rparr>"

definition callback_service :: callback_service_env where
  "callback_service = \<lparr>kv_phones = \<lparr>ph_valid = (\<lambda>_ _. False), ph_parse = (\<lambda>_ _. None)\<rparr>, kv_defaultCountry = None,
     kv_insert = (\<lambda>_ _. True), kv_publish = (\<lambda>_. None)\<rparr>"

definition callback_tables :: callback_db where
  "callback_tables = \<lparr>kd_callbacks = [], kd_next = 1, kd_now = 1000, kd_trunks = [(3, Some ''94112223344'')], kd_operators = [],
     kd_extensions = [], kd_sent = []\<rparr>"

text \<open>A callback to a customer behind a trunk, in the tables and as a command.\<close>

definition callback_pending :: callback_row where
  "callback_pending = \<lparr>kb_id = 7, kb_flowId = Some 4, kb_trunkId = Some 3, kb_customerNumber = ''+94771234567'', kb_operatorId = None,
     kb_destinationType = Some ''extension'', kb_destinationValue = Some ''101'', kb_destinationTrunkId = None, kb_status = ''pending'',
     kb_failReason = None, kb_callLogId = None, kb_createdAt = 0, kb_executedAt = None, kb_completedAt = None\<rparr>"

definition callback_command :: execute_payload where
  "callback_command = \<lparr>xp_callbackId = 7, xp_customerNumber = ''+94771234567'', xp_customerTrunkId = Some 3,
     xp_customerDialString = ''PJSIP/+94771234567@trunk-3'', xp_operatorDialString = ''PJSIP/101'', xp_callerIdNumber = ''94112223344''\<rparr>"

text \<open>Asterisk accepts every request but those given; both parties answer and the customer hangs up.\<close>

definition callback_engine :: "(callback_request \<Rightarrow> string option) \<Rightarrow> callback_env" where
  "callback_engine reject = \<lparr>be_reject = (\<lambda>q _. reject q), be_bridge = (\<lambda>_. Inr ''b1''), be_publish = (\<lambda>_ _. None), be_trunk = (\<lambda>_. None),
     be_operator = [LegEntered 7 OperatorLeg ''o1''], be_customer = [LegEntered 7 CustomerLeg ''c1''], be_ends = [''c1'']\<rparr>"

section \<open>The node\<close>

text \<open>How the messages grow, and whether the call is hung up.\<close>

definition grows :: "nat \<Rightarrow> nat \<Rightarrow> node_store \<Rightarrow> node_store \<Rightarrow> bool" where
  "grows n h s s' \<longleftrightarrow> (\<exists>ps. length ps = n \<and> no_created s' = no_created s @ ps) \<and> no_hangups s' = no_hangups s + h"

lemma grows_refl [simp]: "grows 0 0 s s"
  by (simp add: grows_def)

lemma grows_trans: "grows m h s t \<Longrightarrow> grows n k t u \<Longrightarrow> grows (m + n) (h + k) s u"
  unfolding grows_def by fastforce

interpretation untouched: store_order "grows 0 0"
  by unfold_locales (auto dest: grows_trans)

lemma quiet [simp]:
  "guarantees (grows 0 0) (node_audio env c a b)" "guarantees (grows 0 0) (node_play env m)"
  "guarantees (grows 0 0) (set_outcome n src persist)" "guarantees (grows 0 0) (resolveCallLogId env)"
  by (auto simp: node_audio_def node_play_def set_outcome_def resolveCallLogId_def grows_def
        intro!: guarantees_attempt guarantees_atomic split: option.split)

lemma quiet_destination [simp]: "guarantees (grows 0 0) (resolveOperatorIdFromDestination env a b c)"
  by (auto simp: resolveOperatorIdFromDestination_def resolveOperatorIdFromExtension_def Let_def
        intro!: guarantees_attempt split: option.split)

lemma quiet_number [simp]:
  "guarantees (grows 0 0) (number_by_digits env node s)" "guarantees (grows 0 0) (number_by_ani env s)"
  by (auto simp: number_by_digits_def number_by_ani_def Let_def intro!: guarantees_andThen split: option.split)

lemma quiet_confirmation [simp]: "guarantees (grows 0 0) (play_confirmation env c ch)"
  by (auto simp: play_confirmation_def playAudioIfPresent_def intro!: guarantees_andThen split: option.split sum.split)

lemma quiet_run: "run p s = (r, s') \<Longrightarrow> guarantees (grows 0 0) p \<Longrightarrow> grows 0 0 s s'"
  using untouched.run_guarantee [of p s] by simp

lemma published_message: "run (publishCreated env p) s = (r, s') \<Longrightarrow> grows (case r of Inl _ \<Rightarrow> 0 | Inr _ \<Rightarrow> 1) 0 s s'"
  by (auto simp: publishCreated_def grows_def split: option.splits)

text \<open>A message is recorded when the part fails.\<close>

lemma or_record_grows:
  assumes "run (or_record env d f part) s = (r, s')" and "\<And>a s1. run part s = (a, s1) \<Longrightarrow> grows (case a of Inl _ \<Rightarrow> 0 | Inr _ \<Rightarrow> n) 0 s s1"
  shows "grows (case r of Inl _ \<Rightarrow> 0 | Inr None \<Rightarrow> 1 | Inr (Some _) \<Rightarrow> n) 0 s s'"
proof -
  obtain a s1 where a: "run part s = (a, s1)" by (metis prod.exhaust)
  show ?thesis
  proof (cases a)
    case (Inr x)
    then show ?thesis using assms(1) assms(2) [OF a] a by (auto simp: or_record_def)
  next
    case (Inl m)
    let ?p = "f (Some (created_fail_reason d m))"
    obtain b s2 where b: "run (publishCreated env ?p) s1 = (b, s2)" by (metis prod.exhaust)
    have g: "grows 0 0 s s1" using assms(2) [OF a] Inl by simp
    have r: "(r, s') = (case b of Inl m \<Rightarrow> (Inl m, s2) | Inr _ \<Rightarrow> (Inr None, s2))"
      using assms(1) a b Inl by (cases b) (simp_all add: or_record_def)
    show ?thesis using r grows_trans [OF g published_message [OF b]] by (auto split: sum.splits)
  qed
qed

lemma or_record_quiet:
  assumes "run (or_record env d f part) s = (r, s')" and "guarantees (grows 0 0) part"
  shows "grows (if r = Inr None then 1 else 0) 0 s s'"
proof -
  have "grows (case a of Inl _ \<Rightarrow> 0 | Inr _ \<Rightarrow> 0) 0 s s1" if "run part s = (a, s1)" for a s1
    using quiet_run [OF that assms(2)] by (simp split: sum.split)
  from or_record_grows [OF assms(1), of 0, OF this] show ?thesis by (auto split: sum.splits option.splits)
qed

lemma or_record_publish:
  "run (or_record env d f (publishCreated env p)) s = (r, s') \<Longrightarrow> grows (case r of Inl _ \<Rightarrow> 0 | Inr _ \<Rightarrow> 1) 0 s s'"
  using or_record_grows [of env d f "publishCreated env p" s r s' 1] published_message by (auto split: sum.splits option.splits)

lemma record_callback_once:
  assumes "run (record_callback env node s oid lid) st = (r, st')"
  shows "grows (case r of Inr (Some _) \<Rightarrow> 1 | _ \<Rightarrow> 0) 0 st st'"
proof -
  let ?d = "wants_digits (n_config node)"
  let ?failed = "\<lambda>t. created_message (n_config node) s oid lid t None"
  have publish: "grows (case r of Inr (Some _) \<Rightarrow> 1 | _ \<Rightarrow> 0) 0 st1 st'"
    if "run (andThen (or_record env ?d f (publishCreated env p)) (\<lambda>r. Ret (Some (r \<noteq> None)))) st1 = (r, st')" for f p st1
  proof -
    obtain r1 st2 where o1: "run (or_record env ?d f (publishCreated env p)) st1 = (r1, st2)" by (metis prod.exhaust)
    show ?thesis using that or_record_publish [OF o1] by (cases r1) (auto simp: o1)
  qed
  obtain r1 st1 where n: "run (or_record env ?d (?failed None) (if ?d then number_by_digits env node s else number_by_ani env s)) st = (r1, st1)"
    by (metis prod.exhaust)
  have g: "grows (if r1 = Inr None then 1 else 0) 0 st st1" by (rule or_record_quiet [OF n]) simp
  note facts = assms [unfolded record_callback_def Let_def run_andThen n]
  consider m where "r1 = Inl m" | "r1 = Inr None" | "r1 = Inr (Some None)" | "r1 = Inr (Some (Some None))"
    | c where "r1 = Inr (Some (Some (Some c)))" by (metis not_None_eq sum.exhaust)
  then show ?thesis
  proof cases
    case 4
    then show ?thesis using grows_trans [OF g publish] facts by (simp del: run_andThen)
  next
    case 5
    then show ?thesis using grows_trans [OF g publish] facts by (simp del: run_andThen)
  qed (use facts g in auto)
qed

text \<open>C29: When the node returns, it has published exactly one message and hung up once; while a
  promise is pending it has published at most one; a rejected node has published none.\<close>

theorem node_records_once:
  "case run (executeCallbackNode env node s) st of
     (Inr (Some r), st') \<Rightarrow> r = ''done'' \<and> (\<exists>p. no_created st' = no_created st @ [p]) \<and> no_hangups st' = no_hangups st + 1
   | (Inr None, st') \<Rightarrow> (\<exists>ps. length ps \<le> 1 \<and> no_created st' = no_created st @ ps) \<and> no_hangups st' = no_hangups st
   | (Inl m, st') \<Rightarrow> no_created st' = no_created st \<and> no_hangups st' = no_hangups st"
proof -
  let ?dest = "resolveOperatorIdFromDestination env (pstn_destination (n_config node)) (destination_value (n_config node))
                 (optional_number (obj_get (n_config node) ''operator_id''))"
  obtain r1 st1 where d: "run ?dest st = (r1, st1)" by (metis prod.exhaust)
  obtain r2 st2 where l: "run (resolveCallLogId env) st1 = (r2, st2)" by (metis prod.exhaust)
  obtain r3 st3 where c: "run (record_callback env node s (projr r1) (projr r2)) st2 = (r3, st3)" by (metis prod.exhaust)
  obtain r4 st4 where f: "run (play_confirmation env (n_config node) (s_channelId s)) st3 = (r4, st4)" by (metis prod.exhaust)
  have g: "grows 0 0 st st1" "grows 0 0 st1 st2" "grows (case r3 of Inr (Some _) \<Rightarrow> 1 | _ \<Rightarrow> 0) 0 st2 st3" "grows 0 0 st3 st4"
    using quiet_run [OF d] quiet_run [OF l] record_callback_once [OF c] quiet_run [OF f] by simp_all
  have g13: "grows (case r3 of Inr (Some _) \<Rightarrow> 1 | _ \<Rightarrow> 0) 0 st st3" using grows_trans [OF grows_trans [OF g(1,2)] g(3)] by simp
  have g14: "grows (case r3 of Inr (Some _) \<Rightarrow> 1 | _ \<Rightarrow> 0) 0 st st4" using grows_trans [OF g13 g(4)] by simp
  note rules = executeCallbackNode_def Let_def run_andThen d l c f node_hangup_def grows_def length_Suc_conv
  show ?thesis
  proof (cases r1)
    case (Inl m)
    then show ?thesis using g(1) by (simp add: rules)
  next
    case r1: (Inr a)
    show ?thesis
    proof (cases r2)
      case (Inl m)
      then show ?thesis using r1 grows_trans [OF g(1,2)] by (simp add: rules)
    next
      case (Inr b)
      then show ?thesis using r1 c f g13 g14
        by (auto simp: rules split: sum.splits option.splits bool.splits)
    qed
  qed
qed

section \<open>A callback without a trunk\<close>

definition adds_untrunked :: "node_store \<Rightarrow> node_store \<Rightarrow> bool" where
  "adds_untrunked s s' \<longleftrightarrow> (\<exists>ps. no_created s' = no_created s @ ps \<and> (\<forall>p \<in> set ps. ct_trunkId p = None))"

interpretation untrunked: store_order adds_untrunked
proof
  show "adds_untrunked s s" for s by (simp add: adds_untrunked_def)
  show "adds_untrunked s u" if "adds_untrunked s t" "adds_untrunked t u" for s t u
    using that unfolding adds_untrunked_def by force
qed

lemma guarantees_mono: "guarantees G p \<Longrightarrow> (\<And>s t. G s t \<Longrightarrow> H s t) \<Longrightarrow> guarantees H p"
  by (induction rule: guarantees.induct) (auto intro!: guarantees_Act)

lemma quiet_untrunked [simp]: "guarantees (grows 0 0) p \<Longrightarrow> guarantees adds_untrunked p"
  by (erule guarantees_mono) (auto simp: grows_def adds_untrunked_def)

lemma publish_untrunked: "ct_trunkId p = None \<Longrightarrow> guarantees adds_untrunked (publishCreated env p)"
  by (auto simp: publishCreated_def adds_untrunked_def intro!: guarantees_attempt split: option.split)

lemma or_record_untrunked:
  "guarantees adds_untrunked part \<Longrightarrow> (\<And>w. ct_trunkId (f w) = None) \<Longrightarrow> guarantees adds_untrunked (or_record env d f part)"
  unfolding or_record_def by (intro guarantees_tryCatch guarantees_andThen publish_untrunked) auto

lemma extension_untrunked:
  assumes "\<not> pstn_destination (n_config node)"
  shows "guarantees adds_untrunked (executeCallbackNode env node s)"
proof -
  have hang: "guarantees adds_untrunked (andThen node_hangup (\<lambda>_. Ret (Some r)))" for r :: string
    by (auto simp: node_hangup_def adds_untrunked_def intro!: guarantees_andThen guarantees_atomic)
  have "known_trunk (n_config node) = None" using assms by (simp add: known_trunk_def)
  then have recorded: "guarantees adds_untrunked (record_callback env node s oid lid)" for oid lid
    unfolding record_callback_def Let_def
    by (auto simp: created_message_def number_message_def json_number_def
          intro!: guarantees_andThen or_record_untrunked publish_untrunked split: option.split)
  show ?thesis
    unfolding executeCallbackNode_def Let_def
    by (auto intro!: guarantees_andThen guarantees_tryCatch recorded hang split: option.split bool.split)
qed

lemma created_untrunked:
  assumes "run (handleCallbackCreated env p) db = (Inr (), db')" and "ct_trunkId p = None" and "find_callback (kd_next db) db = None"
  shows "\<exists>c. find_callback (kd_next db) db' = Some c \<and> kb_trunkId c = None" and "kd_sent db' = kd_sent db"
proof -
  have "\<exists>c. kd_callbacks db' = kd_callbacks db @ [c] \<and> kb_id c = kd_next db \<and> kb_trunkId c = None \<and> kd_sent db' = kd_sent db"
    using assms(1,2) by (auto simp: handleCallbackCreated_def insert_callback_def integer_param_def Let_def split: if_splits sum.splits)
  then show "\<exists>c. find_callback (kd_next db) db' = Some c \<and> kb_trunkId c = None" "kd_sent db' = kd_sent db"
    using assms(3) by (auto simp: find_callback_def find_append)
qed

lemma execute_untrunked:
  assumes "run (executeCallback env i) db = (r, db')" and "find_callback i db = Some c" "kb_trunkId c = None"
  shows "kd_sent db' = kd_sent db \<or>
    (\<exists>x. kd_sent db' = kd_sent db @ [x] \<and> xp_callbackId x = i \<and> xp_customerDialString x = ''PJSIP/'' @ kb_customerNumber c
       \<and> xp_customerTrunkId x = None \<and> internal_number (trim (kb_customerNumber c)))"
  using assms
  by (auto simp: executeCallback_def execute_found_def read_callback_def refuse_def customer_target_def send_execute_def set_callback_def
      split: if_splits option.splits sum.splits prod.splits)

lemma set_dropWhile_subset: "set s \<subseteq> set (dropWhile P s) \<union> {c. P c}"
  by (induction s) auto

lemma set_trim_subset: "set s \<subseteq> set (trim s) \<union> {c. is_space c}"
  using set_dropWhile_subset [of s is_space] set_dropWhile_subset [of "rev (dropWhile is_space s)" is_space]
  by (auto simp: trim_def)

lemma set_trim: "set (trim s) \<subseteq> set s"
  by (auto simp: trim_def dest!: set_dropWhileD)

lemma trim_cons: "\<not> is_space c \<Longrightarrow> trim (c # s) \<noteq> []"
  by (auto simp: trim_def dropWhile_eq_Nil_conv dest: spec [of _ c])

lemma no_trunk_endpoint:
  assumes "internal_number (trim n)"
  shows "trim (''PJSIP/'' @ n) \<noteq> []" and "parseCustomerTrunkEndpoint (trim (''PJSIP/'' @ n)) = None"
proof -
  show "trim (''PJSIP/'' @ n) \<noteq> []" using trim_cons [of "CHR ''P''"] by (simp add: is_space_def)
  have "CHR ''@'' \<notin> set (trim n)" using assms by (auto simp: internal_number_def list_all_iff is_digit_def)
  then have "CHR ''@'' \<notin> set n" using set_trim_subset [of n] by (auto simp: is_space_def)
  then have "CHR ''@'' \<notin> set (trim (''PJSIP/'' @ n))" using set_trim [of "''PJSIP/'' @ n"] by auto
  then have "dropWhile (\<lambda>c. c \<noteq> CHR ''@'') (drop 6 (trim (''PJSIP/'' @ n))) = []"
    by (auto simp: dropWhile_eq_Nil_conv dest: in_set_dropD)
  then show "parseCustomerTrunkEndpoint (trim (''PJSIP/'' @ n)) = None"
    by (simp only: parseCustomerTrunkEndpoint_def Let_def trim_trim) simp
qed

text \<open>C30: A callback recorded by a node whose destination is an extension is never dialled: its execution is
  refused, or the engine answers the command with \<open>invalid_customer_dial_string\<close> and asks nothing of
  Asterisk.\<close>

theorem extension_callback_never_dials:
  assumes "\<not> pstn_destination (n_config node)"
    and "run (executeCallbackNode nenv node s) st = (r, st')" and "no_created st = []" and "p \<in> set (no_created st')"
    and "run (handleCallbackCreated senv p) db = (Inr (), db1)" and "find_callback (kd_next db) db = None"
    and "run (executeCallback senv (kd_next db)) db1 = (r', db2)"
  shows "kd_sent db2 = kd_sent db \<or>
    (\<exists>x. kd_sent db2 = kd_sent db @ [x] \<and> xp_callbackId x = kd_next db
       \<and> bs_requests (snd (run (on_execute env x) es)) = bs_requests es
       \<and> bs_sent (snd (run (on_execute env x) es))
           \<in> {bs_sent es, bs_sent es @ [StatusUpdate \<lparr>su_callbackId = kd_next db, su_status = ''failed'',
                                          su_failReason = Some ''invalid_customer_dial_string''\<rparr>]})"
proof -
  have "adds_untrunked st st'"
    using untrunked.run_guarantee [OF extension_untrunked [OF assms(1)], of st nenv s] assms(2) by simp
  then have "ct_trunkId p = None" using assms(3,4) by (auto simp: adds_untrunked_def)
  from created_untrunked [OF assms(5) this assms(6)]
  obtain c where c: "find_callback (kd_next db) db1 = Some c" "kb_trunkId c = None" "kd_sent db1 = kd_sent db" by blast
  show ?thesis
  proof (cases "kd_sent db2 = kd_sent db")
    case False
    then obtain x where x: "kd_sent db2 = kd_sent db @ [x]" "xp_callbackId x = kd_next db"
      "xp_customerDialString x = ''PJSIP/'' @ kb_customerNumber c" "internal_number (trim (kb_customerNumber c))"
      using execute_untrunked [OF assms(7) c(1,2)] c(3) by auto
    have "customer_endpoint env x = Inl ''invalid_customer_dial_string''"
      using no_trunk_endpoint [OF x(4)] x(3) by (simp add: customer_endpoint_def Let_def)
    then show ?thesis using x(1,2)
      by (auto simp: on_execute_def executeCallbackCall_def publishStatus_def publish_message_def nonempty_text_def Let_def
          split: option.split)
  qed simp
qed

theorem extension_callback_never_dials_witness:
  "\<exists>x. kd_sent (snd (run (executeCallback callback_service 1) (snd (run (handleCallbackCreated callback_service
       (hd (no_created (snd (run (executeCallbackNode extension_node_env callback_node callback_session) callback_call))))) callback_tables)))) = [x]
     \<and> bs_requests (snd (run (on_execute (callback_engine (\<lambda>_. None)) x) no_callbacks)) = []"
proof -
  let ?call = "run (executeCallbackNode extension_node_env callback_node callback_session) callback_call"
  let ?p = "hd (no_created (snd ?call))"
  let ?created = "run (handleCallbackCreated callback_service ?p) callback_tables"
  let ?executed = "run (executeCallback callback_service 1) (snd ?created)"
  have facts: "\<not> pstn_destination (n_config callback_node)" "no_created callback_call = []" "no_created (snd ?call) \<noteq> []"
    "fst ?created = Inr ()" "kd_next callback_tables = 1" "find_callback 1 callback_tables = None" "kd_sent callback_tables = []"
    "kd_sent (snd ?executed) \<noteq> []" "bs_requests no_callbacks = []"
    by code_simp+
  have "run (handleCallbackCreated callback_service ?p) callback_tables = (Inr (), snd ?created)"
    using facts(4) by (metis prod.collapse)
  from extension_callback_never_dials [OF facts(1) _ facts(2) _ this, of extension_node_env callback_session "fst ?call" "snd ?call"
      "fst ?executed" "snd ?executed" "callback_engine (\<lambda>_. None)" no_callbacks] facts
  show ?thesis by auto
qed

section \<open>The reports of the engine\<close>

text \<open>The statuses a part of an execution has published, all for one callback.\<close>

definition published :: "int \<Rightarrow> (string \<times> string option) list \<Rightarrow> callback_store \<Rightarrow> callback_store \<Rightarrow> bool" where
  "published i ss s s' \<longleftrightarrow> bs_sent s' = bs_sent s @ map (\<lambda>(st, f). StatusUpdate \<lparr>su_callbackId = i, su_status = st, su_failReason = f\<rparr>) ss"

lemma published_refl [simp]: "published i [] s s"
  by (simp add: published_def)

lemma published_trans: "published i a s t \<Longrightarrow> published i b t u \<Longrightarrow> published i (a @ b) s u"
  by (simp add: published_def)

interpretation silent: store_order "published i []" for i
  by unfold_locales (simp_all add: published_def)

lemma leg_listener_sent [simp]: "bs_sent (leg_listener i l p e s) = bs_sent s"
  by (cases e) (simp_all add: leg_entered_def)

lemma leg_events_sent [simp]: "bs_sent (fold (leg_listener i l p) es s) = bs_sent s"
  by (induction es arbitrary: s) simp_all

lemma silent_parts [simp]:
  "guarantees (published i []) (leg_request env q)" "guarantees (published i []) (create_bridge env)"
  "guarantees (published i []) (waitForAnsweredLeg j l es)"
  by (auto simp: leg_request_def create_bridge_def waitForAnsweredLeg_def published_def Let_def
        intro!: guarantees_attempt guarantees_atomic split: option.split sum.split prod.split)

lemma silent_more [simp]:
  "guarantees (published i []) (best_effort env q)" "guarantees (published i []) (dial_leg env j l e c es)"
  "guarantees (published i []) (hold_operator env ch)" "guarantees (published i []) (stop_hold env b ch)"
  by (auto simp: best_effort_def dial_leg_def hold_operator_def stop_hold_def intro!: guarantees_andThen guarantees_tryCatch)

lemma silent_run: "run q s = (r, s') \<Longrightarrow> guarantees (published i []) q \<Longrightarrow> published i [] s s'"
  using silent.run_guarantee [of i q s] by simp

lemma publishStatus_run:
  assumes "run (publishStatus env i st f) s = (r, s')"
  shows "published i (case r of Inl _ \<Rightarrow> [] | Inr _ \<Rightarrow> [(st, nonempty_text f)]) s s'"
  using assms by (auto simp: publishStatus_def publish_message_def published_def split: option.splits)

text \<open>
  What a part may have published when it ends with a result, \<open>OK\<close>, and when it is rejected, \<open>Rejected\<close>.
\<close>

definition reports :: "int \<Rightarrow> ('a \<Rightarrow> (string \<times> string option) list \<Rightarrow> bool) \<Rightarrow> ((string \<times> string option) list \<Rightarrow> bool) \<Rightarrow> 'a engine_op \<Rightarrow> bool" where
  "reports i OK Rejected q \<longleftrightarrow>
     (\<forall>s r s'. run q s = (r, s') \<longrightarrow> (\<exists>ss. published i ss s s' \<and> (case r of Inr a \<Rightarrow> OK a ss | Inl _ \<Rightarrow> Rejected ss)))"

lemma reports_silent: "guarantees (published i []) q \<Longrightarrow> reports i (\<lambda>a ss. ss = []) (\<lambda>ss. ss = []) q"
  unfolding reports_def using silent_run by (fastforce split: sum.split)

lemma reports_status:
  "reports i (\<lambda>a ss. ss = [(st, nonempty_text f)]) (\<lambda>ss. ss = []) (publishStatus env i st f)"
  unfolding reports_def using publishStatus_run by (fastforce split: sum.split)

lemma reports_Ret: "OK a [] \<Longrightarrow> reports i OK R (Ret a)"
  by (auto simp: reports_def intro!: exI [of _ "[]"])

lemma reports_andThen:
  assumes "reports i OK R q" and "\<And>a ss. OK a ss \<Longrightarrow> reports i (\<lambda>b ts. OK' b (ss @ ts)) (\<lambda>ts. R' (ss @ ts)) (k a)" and "\<And>ss. R ss \<Longrightarrow> R' ss"
  shows "reports i OK' R' (andThen q k)"
  unfolding reports_def
proof (intro allI impI)
  fix s r s'
  assume run: "run (andThen q k) s = (r, s')"
  obtain r1 s1 where q: "run q s = (r1, s1)" by (metis prod.exhaust)
  obtain ss where ss: "published i ss s s1" "case r1 of Inr a \<Rightarrow> OK a ss | Inl _ \<Rightarrow> R ss" using assms(1) q unfolding reports_def by blast
  show "\<exists>ss. published i ss s s' \<and> (case r of Inr a \<Rightarrow> OK' a ss | Inl _ \<Rightarrow> R' ss)"
  proof (cases r1)
    case (Inl m)
    then show ?thesis using run q ss assms(3) by auto
  next
    case (Inr a)
    then have "run (k a) s1 = (r, s')" "OK a ss" using run q ss(2) by auto
    with assms(2) obtain ts where "published i ts s1 s'" "case r of Inr b \<Rightarrow> OK' b (ss @ ts) | Inl _ \<Rightarrow> R' (ss @ ts)"
      unfolding reports_def by blast
    then show ?thesis using published_trans [OF ss(1)] by blast
  qed
qed

lemma reports_tryCatch:
  assumes "reports i OK R q" and "\<And>m ss. R ss \<Longrightarrow> reports i (\<lambda>b ts. OK b (ss @ ts)) (\<lambda>ts. R' (ss @ ts)) (h m)"
  shows "reports i OK R' (tryCatch q h)"
  unfolding reports_def
proof (intro allI impI)
  fix s r s'
  assume run: "run (tryCatch q h) s = (r, s')"
  obtain r1 s1 where q: "run q s = (r1, s1)" by (metis prod.exhaust)
  obtain ss where ss: "published i ss s s1" "case r1 of Inr a \<Rightarrow> OK a ss | Inl _ \<Rightarrow> R ss" using assms(1) q unfolding reports_def by blast
  show "\<exists>ss. published i ss s s' \<and> (case r of Inr a \<Rightarrow> OK a ss | Inl _ \<Rightarrow> R' ss)"
  proof (cases r1)
    case (Inr a)
    then show ?thesis using run q ss by auto
  next
    case (Inl m)
    then have "run (h m) s1 = (r, s')" "R ss" using run q ss(2) by auto
    with assms(2) obtain ts where "published i ts s1 s'" "case r of Inr b \<Rightarrow> OK b (ss @ ts) | Inl _ \<Rightarrow> R' (ss @ ts)"
      unfolding reports_def by blast
    then show ?thesis using published_trans [OF ss(1)] by blast
  qed
qed

lemma reports_mono:
  assumes "reports i OK R q" and "\<And>a ss. OK a ss \<Longrightarrow> OK' a ss" and "\<And>ss. R ss \<Longrightarrow> R' ss"
  shows "reports i OK' R' q"
  unfolding reports_def
proof (intro allI impI)
  fix s r s'
  assume "run q s = (r, s')"
  with assms(1) obtain ss where "published i ss s s'" "case r of Inr a \<Rightarrow> OK a ss | Inl _ \<Rightarrow> R ss" unfolding reports_def by blast
  then show "\<exists>ss. published i ss s s' \<and> (case r of Inr a \<Rightarrow> OK' a ss | Inl _ \<Rightarrow> R' ss)"
    using assms(2,3) by (intro exI [of _ ss]) (auto split: sum.splits)
qed

text \<open>A failed part of the execution reports the failure, and nothing when even that is rejected.\<close>

lemma reports_guarded:
  assumes "reports i OK R part" and "\<And>ss. R ss \<Longrightarrow> OK None (ss @ [(''failed'', Some ''originate_failed'')])"
  shows "reports i OK R (guarded env i hold part)"
  unfolding guarded_def
proof (rule reports_tryCatch [OF assms(1)])
  fix m ss
  assume ss: "R ss"
  have quiet: "reports i (\<lambda>a ss. ss = []) (\<lambda>ss. ss = []) (case hold of None \<Rightarrow> Ret () | Some ch \<Rightarrow> best_effort env (HoldStop ch))"
    by (rule reports_silent) (simp split: option.split)
  show "reports i (\<lambda>b ts. OK b (ss @ ts)) (\<lambda>ts. R (ss @ ts))
    (andThen (case hold of None \<Rightarrow> Ret () | Some ch \<Rightarrow> best_effort env (HoldStop ch))
      (\<lambda>_. andThen (publishStatus env i ''failed'' (Some ''originate_failed'')) (\<lambda>_. Ret None)))"
    using ss assms(2) [OF ss]
    by (auto intro!: reports_andThen [OF quiet] reports_andThen [OF reports_status] reports_Ret simp: nonempty_text_def)
qed

lemma reports_silent_then:
  "guarantees (published i []) q \<Longrightarrow> (\<And>a. reports i OK R (k a)) \<Longrightarrow> R [] \<Longrightarrow> reports i OK R (andThen q k)"
  by (rule reports_andThen [OF reports_silent]) auto

lemma reports_status_then:
  assumes "reports i (\<lambda>b ts. OK b ((st, nonempty_text f) # ts)) (\<lambda>ts. R ((st, nonempty_text f) # ts)) k" and "R []"
  shows "reports i OK R (andThen (publishStatus env i st f) (\<lambda>_. k))"
  by (rule reports_andThen [OF reports_status]) (use assms in simp_all)

abbreviation failed_as :: "string \<Rightarrow> string \<times> string option" where
  "failed_as reason \<equiv> (''failed'', Some reason)"

lemma call_operator_reports:
  "reports (xp_callbackId p)
     (\<lambda>r ss. case r of None \<Rightarrow> ss = [failed_as ''originate_failed''] | Some Ended \<Rightarrow> ss = [failed_as ''operator_no_answer''] | _ \<Rightarrow> ss = [])
     (\<lambda>ss. ss = []) (call_operator env p)"
  unfolding call_operator_def
  by (intro reports_guarded reports_silent_then)
    (auto intro!: reports_Ret reports_status_then simp: nonempty_text_def split: option.split dial_result.split)

lemma call_customer_reports:
  "reports (xp_callbackId p)
     (\<lambda>r ss. case r of None \<Rightarrow> ss \<in> {[failed_as ''originate_failed''], [(''dialing_customer'', None), failed_as ''originate_failed'']}
        | _ \<Rightarrow> ss = [(''dialing_customer'', None)])
     (\<lambda>ss. ss \<in> {[], [(''dialing_customer'', None)]}) (call_customer env p c ch started)"
  unfolding call_customer_def
  by (intro reports_guarded reports_status_then reports_silent_then)
    (auto intro!: reports_Ret simp: nonempty_text_def split: option.split dial_result.split)

lemma customer_unanswered_reports:
  "reports (xp_callbackId p) (\<lambda>r ss. ss \<in> {[failed_as ''customer_no_answer''], [failed_as ''originate_failed'']})
     (\<lambda>ss. ss = []) (customer_unanswered env p ch started)"
  unfolding customer_unanswered_def
  by (rule reports_silent_then, simp, rule reports_guarded, rule reports_silent_then, simp, rule reports_status_then,
      rule reports_Ret) (simp_all add: nonempty_text_def)

lemma join_legs_reports:
  "reports (xp_callbackId p)
     (\<lambda>r ss. case r of None \<Rightarrow> ss \<in> {[failed_as ''originate_failed''], [(''bridged'', None), failed_as ''originate_failed'']}
        | Some None \<Rightarrow> ss = [(''bridged'', None)]
        | Some (Some _) \<Rightarrow> ss = [(''bridged'', None), (''completed'', None)])
     (\<lambda>ss. ss \<in> {[], [(''bridged'', None)]}) (join_legs env p o1 c)"
  unfolding join_legs_def
proof (rule reports_guarded, rule reports_status_then)
  show "reports (xp_callbackId p)
     (\<lambda>b ts. case b of None \<Rightarrow> (''bridged'', nonempty_text None) # ts \<in> {[failed_as ''originate_failed''], [(''bridged'', None), failed_as ''originate_failed'']}
        | Some None \<Rightarrow> (''bridged'', nonempty_text None) # ts = [(''bridged'', None)]
        | Some (Some _) \<Rightarrow> (''bridged'', nonempty_text None) # ts = [(''bridged'', None), (''completed'', None)])
     (\<lambda>ts. (''bridged'', nonempty_text None) # ts \<in> {[], [(''bridged'', None)]})
     (andThen (create_bridge env) (\<lambda>bridge. andThen (leg_request env (BridgeAdd bridge o1)) (\<lambda>_.
        andThen (leg_request env (BridgeAdd bridge c)) (\<lambda>_.
        case waitForChannelEnd [o1, c] (be_ends env) of
          None \<Rightarrow> Ret (Some None)
        | Some ended \<Rightarrow> andThen (best_effort env (HangUp (if ended = o1 then c else o1))) (\<lambda>_.
            andThen (best_effort env (BridgeDestroy bridge)) (\<lambda>_.
            andThen (publishStatus env (xp_callbackId p) ''completed'' None) (\<lambda>_. Ret (Some (Some ())))))))))"
    apply (rule reports_silent_then, simp, rule reports_silent_then, simp, rule reports_silent_then, simp)
    apply (cases "waitForChannelEnd [o1, c] (be_ends env)")
    apply (simp_all only: option.case)
    apply (rule reports_Ret, simp add: nonempty_text_def)
    apply (rule reports_silent_then, simp, rule reports_silent_then, simp, rule reports_status_then, rule reports_Ret)
    apply (simp_all add: nonempty_text_def)
    done
qed (auto simp: nonempty_text_def)

text \<open>The statuses of an execution that has returned.\<close>

definition final_history :: "(string \<times> string option) list \<Rightarrow> bool" where
  "final_history ss \<longleftrightarrow>
     ss = [(''dialing_customer'', None), (''bridged'', None), (''completed'', None)]
     \<or> (\<exists>before reason. ss = before @ [failed_as reason]
          \<and> before \<in> {[], [(''dialing_customer'', None)], [(''dialing_customer'', None), (''bridged'', None)]}
          \<and> reason \<in> {''operator_no_answer'', ''customer_no_answer'', ''originate_failed''})"

lemma after_customer_reports:
  "reports (xp_callbackId p) (\<lambda>r ss. r = Some () \<longrightarrow> final_history ((''dialing_customer'', None) # ss)) (\<lambda>_. True)
     (case r' of
        Reached c \<Rightarrow> andThen (stop_hold env started ch) (\<lambda>_. andThen (join_legs env p ch c) (\<lambda>r''. case r'' of Some None \<Rightarrow> Ret None | _ \<Rightarrow> Ret (Some ())))
      | StillWaiting \<Rightarrow> Ret None
      | Ended \<Rightarrow> andThen (customer_unanswered env p ch started) (\<lambda>_. Ret (Some ())))"
proof (cases r')
  case (Reached c)
  show ?thesis unfolding Reached call_progress.case
    by (rule reports_silent_then, simp, rule reports_andThen [OF join_legs_reports])
      (auto intro!: reports_Ret simp: final_history_def split: option.splits)
next
  case Ended
  show ?thesis unfolding Ended call_progress.case
    by (rule reports_andThen [OF customer_unanswered_reports]) (auto intro!: reports_Ret simp: final_history_def)
qed (auto intro: reports_Ret)

lemma execution_reports:
  assumes "customer_endpoint env p = Inr e" and "e \<noteq> []" "xp_callbackId p \<noteq> 0" "xp_operatorDialString p \<noteq> []" "xp_callerIdNumber p \<noteq> []"
  shows "reports (xp_callbackId p) (\<lambda>r ss. r = Some () \<longrightarrow> final_history ss) (\<lambda>_. True) (executeCallbackCall env p)"
  unfolding executeCallbackCall_def assms(1) sum.case
  apply (simp add: assms(2-))
  apply (rule reports_andThen [OF call_operator_reports])
  subgoal for r ss
    apply (cases r)
    apply (simp, rule reports_Ret, simp add: final_history_def)
    subgoal for x
      apply (cases x)
      apply (simp, rule reports_Ret, simp)
      apply (simp, rule reports_Ret, simp add: final_history_def)
      apply simp
      apply (rule reports_silent_then, simp)
      apply (rule reports_andThen [OF call_customer_reports])
      subgoal for _ _ r' ts
        apply (cases r')
        apply (simp, rule reports_Ret, force simp: final_history_def)
        using after_customer_reports [of p] by (auto simp: reports_Ret split: call_progress.splits)
      by simp_all
    done
  apply simp
  done

section \<open>The reports in the table\<close>

text \<open>The backend handles the messages of the engine in the order they were published.\<close>

definition deliver :: "callback_message list \<Rightarrow> callback_db \<Rightarrow> callback_db" where
  "deliver ms db = fold (\<lambda>m db. case m of StatusUpdate u \<Rightarrow> snd (run (handleStatusUpdate u) db) | CallbackCreated _ \<Rightarrow> db) ms db"

lemma find_set_callback:
  assumes "\<And>c. kb_id (f c) = kb_id c"
  shows "find_callback i (set_callback j f db) = (if i = j then map_option f (find_callback i db) else find_callback i db)"
proof -
  have "List.find (\<lambda>c. kb_id c = i) (map (\<lambda>c. if kb_id c = j then f c else c) cs)
      = (if i = j then map_option f (List.find (\<lambda>c. kb_id c = i) cs) else List.find (\<lambda>c. kb_id c = i) cs)" for cs
    by (induction cs) (auto simp: assms)
  then show ?thesis by (simp add: find_callback_def set_callback_def)
qed

lemma reported_id [simp]: "kb_id (reported db u c) = kb_id c"
  by (simp add: reported_def Let_def split: option.split)

lemma set_callback_now [simp]: "kd_now (set_callback i f db) = kd_now db"
  by (simp add: set_callback_def)

lemma deliver_status:
  assumes "i \<noteq> 0" "st \<noteq> []"
  shows "deliver (StatusUpdate \<lparr>su_callbackId = i, su_status = st, su_failReason = f\<rparr> # ms) db
    = deliver ms (set_callback i (reported db \<lparr>su_callbackId = i, su_status = st, su_failReason = f\<rparr>) db)"
  using assms by (simp add: deliver_def handleStatusUpdate_def)

lemma deliver_Nil [simp]: "deliver [] db = db"
  by (simp add: deliver_def)

lemma deliver_append: "deliver (ms @ ns) db = deliver ns (deliver ms db)"
  by (simp add: deliver_def)

abbreviation report_of :: "int \<Rightarrow> string \<times> string option \<Rightarrow> callback_message" where
  "report_of i \<equiv> \<lambda>(st, f). StatusUpdate \<lparr>su_callbackId = i, su_status = st, su_failReason = f\<rparr>"

lemma progress_row:
  assumes "\<forall>x \<in> set ss. fst x \<noteq> [] \<and> snd x = None" and "i \<noteq> 0" "find_callback i db = Some c"
  shows "\<exists>c'. find_callback i (deliver (map (report_of i) ss) db) = Some c' \<and> kb_failReason c' = kb_failReason c
    \<and> kd_now (deliver (map (report_of i) ss) db) = kd_now db"
  using assms
proof (induction ss arbitrary: db c)
  case (Cons x ss)
  obtain st f where x: "x = (st, f)" by (cases x)
  let ?u = "\<lparr>su_callbackId = i, su_status = st, su_failReason = f\<rparr>"
  have f: "f = None" "st \<noteq> []" using Cons.prems(1) x by auto
  have "kb_failReason (reported db ?u c) = kb_failReason c" by (simp add: reported_def f Let_def split: option.split)
  moreover have "find_callback i (set_callback i (reported db ?u) db) = Some (reported db ?u c)"
    using Cons.prems(3) by (simp add: find_set_callback)
  ultimately show ?case using Cons.IH [of "set_callback i (reported db ?u) db" "reported db ?u c"] Cons.prems x f(2)
    by (simp add: deliver_status)
qed simp

lemma last_row:
  assumes "i \<noteq> 0" "find_callback i db = Some c" "st \<in> {''completed'', ''failed''}"
  shows "\<exists>c'. find_callback i (deliver [report_of i (st, f)] db) = Some c' \<and> kb_completedAt c' = Some (kd_now db)
    \<and> kb_status c' = st \<and> kb_failReason c' = (if text_or_empty f = [] then kb_failReason c else f)"
proof -
  have "st \<noteq> []" using assms(3) by auto
  then show ?thesis using assms by (auto simp: deliver_status find_set_callback reported_def Let_def)
qed

text \<open>What a finished execution leaves of a row.\<close>

definition final_row :: "callback_db \<Rightarrow> callback_row \<Rightarrow> callback_row \<Rightarrow> bool" where
  "final_row db c c' \<longleftrightarrow> kb_completedAt c' = Some (kd_now db)
     \<and> (kb_status c' = ''completed'' \<and> kb_failReason c' = kb_failReason c
        \<or> kb_status c' = ''failed'' \<and> kb_failReason c' \<in> Some ` {''operator_no_answer'', ''customer_no_answer'', ''originate_failed''})"

lemma history_row:
  assumes "final_history ss" and "i \<noteq> 0" "find_callback i db = Some c"
  shows "\<exists>c'. find_callback i (deliver (map (report_of i) ss) db) = Some c'
    \<and> final_row db c c'"
proof -
  obtain before st f where ss: "ss = before @ [(st, f)]" "\<forall>x \<in> set before. fst x \<noteq> [] \<and> snd x = None"
    and last: "st = ''completed'' \<and> f = None \<or> st = ''failed'' \<and> f \<in> Some ` {''operator_no_answer'', ''customer_no_answer'', ''originate_failed''}"
    using assms(1) unfolding final_history_def
  proof (elim disjE exE conjE)
    assume "ss = [(''dialing_customer'', None), (''bridged'', None), (''completed'', None)]"
    then show thesis by (intro that [of "[(''dialing_customer'', None), (''bridged'', None)]" "''completed''" None]) simp_all
  next
    fix before reason
    assume "ss = before @ [failed_as reason]" "reason \<in> {''operator_no_answer'', ''customer_no_answer'', ''originate_failed''}"
      "before \<in> {[], [(''dialing_customer'', None)], [(''dialing_customer'', None), (''bridged'', None)]}"
    then show thesis by (intro that [of before "''failed''" "Some reason"]) auto
  qed
  obtain c1 where c1: "find_callback i (deliver (map (report_of i) before) db) = Some c1" "kb_failReason c1 = kb_failReason c"
    "kd_now (deliver (map (report_of i) before) db) = kd_now db"
    using progress_row [OF ss(2) assms(2,3)] by blast
  have "st \<in> {''completed'', ''failed''}" using last by auto
  from last_row [OF assms(2) c1(1) this, of f] obtain c' where
    c': "find_callback i (deliver (map (report_of i) ss) db) = Some c'" "kb_completedAt c' = Some (kd_now db)"
    "kb_status c' = st" "kb_failReason c' = (if text_or_empty f = [] then kb_failReason c else f)"
    using c1(2,3) by (auto simp only: ss(1) deliver_append map_append list.map)
  from last show ?thesis
  proof
    assume "st = ''completed'' \<and> f = None"
    with c' show ?thesis by (intro exI [of _ c']) (simp add: final_row_def)
  next
    assume l: "st = ''failed'' \<and> f \<in> Some ` {''operator_no_answer'', ''customer_no_answer'', ''originate_failed''}"
    then have "kb_failReason c' = f" using c'(4) by auto
    with l c' show ?thesis unfolding final_row_def by (intro exI [of _ c'] conjI disjI2) (simp_all only:)
  qed
qed

text \<open>C28: An execution with a dialable customer that returns, whatever Asterisk and Redis reject on the way,
  leaves the row of the callback completed or failed for one of three reasons, with its time of completion.\<close>

theorem execution_ends_final:
  assumes "run (executeCallbackCall env p) st = (Inr (Some ()), st')" and "bs_sent st' = bs_sent st @ ms"
    and "customer_endpoint env p = Inr e" "e \<noteq> []" "xp_callbackId p \<noteq> 0" "xp_operatorDialString p \<noteq> []" "xp_callerIdNumber p \<noteq> []"
    and "find_callback (xp_callbackId p) db = Some c"
  shows "\<exists>c'. find_callback (xp_callbackId p) (deliver ms db) = Some c' \<and> final_row db c c'"
proof -
  obtain ss where ss: "published (xp_callbackId p) ss st st'" "final_history ss"
    using execution_reports [OF assms(3-7)] assms(1) unfolding reports_def by fastforce
  have "ms = map (report_of (xp_callbackId p)) ss"
    using ss(1) assms(2) by (simp add: published_def)
  with history_row [OF ss(2) assms(5,8)] show ?thesis by simp
qed

theorem execution_ends_final_witness:
  "\<exists>c'. find_callback 7 (deliver (bs_sent (snd (run (executeCallbackCall (callback_engine (\<lambda>_. None)) callback_command) no_callbacks)))
      (callback_tables\<lparr>kd_callbacks := [callback_pending]\<rparr>)) = Some c'
    \<and> final_row (callback_tables\<lparr>kd_callbacks := [callback_pending]\<rparr>) callback_pending c'"
proof -
  let ?run = "run (executeCallbackCall (callback_engine (\<lambda>_. None)) callback_command) no_callbacks"
  have facts: "fst ?run = Inr (Some ())" "bs_sent no_callbacks = []"
    "customer_endpoint (callback_engine (\<lambda>_. None)) callback_command = Inr ''PJSIP/94771234567@trunk-3''"
    "xp_callbackId callback_command = 7" "xp_operatorDialString callback_command \<noteq> []" "xp_callerIdNumber callback_command \<noteq> []"
    "find_callback 7 (callback_tables\<lparr>kd_callbacks := [callback_pending]\<rparr>) = Some callback_pending"
    by code_simp+
  have run: "?run = (Inr (Some ()), snd ?run)" using facts(1) by (metis prod.collapse)
  from execution_ends_final [OF run _ facts(3), of "bs_sent (snd ?run)"] facts show ?thesis by simp
qed

section \<open>Requests that overlap\<close>

definition ended :: "string + 'a \<Rightarrow> ('s, 'a) prog" where
  "ended r = (case r of Inl m \<Rightarrow> Fail m | Inr a \<Rightarrow> Ret a)"

lemma act_at_Act: "f s = (q, s') \<Longrightarrow> act_at (length ps) (ps @ Act f # qs, s) = (ps @ q # qs, s')"
  by (simp add: act_at_def)

lemma run_by_schedule:
  assumes "run q s = (r, s')"
  shows "\<exists>n. fold act_at (replicate n (length ps)) (ps @ q # qs, s) = (ps @ ended r # qs, s')"
  using assms
proof (induction q arbitrary: s)
  case (Act f)
  obtain q1 s1 where x: "f s = (q1, s1)" by (metis prod.exhaust)
  have "f s \<in> range f" "q1 \<in> Basic_BNFs.fsts (f s)" by (rule rangeI) (simp add: x fsts.intros)
  from Act.IH [OF this, of s1] Act.prems x obtain n where
    n: "fold act_at (replicate n (length ps)) (ps @ q1 # qs, s1) = (ps @ ended r # qs, s')" by auto
  then have "fold act_at (replicate (Suc n) (length ps)) (ps @ Act f # qs, s) = (ps @ ended r # qs, s')"
    using act_at_Act [of f s q1 s1 ps qs] x by (simp only: replicate_Suc fold_simps o_apply)
  then show ?case by blast
qed (auto simp: ended_def intro: exI [of _ 0])

text \<open>Two operations of which each performs one action before they run to their ends.\<close>

lemma both_first:
  assumes "f s = (p1, s1)" "g s1 = (q1, s2)" "run p1 s2 = (r, s3)" "run q1 s3 = (r', s4)"
  shows "pool_runs {Act f, Act g} ([], s) ([ended r, ended r'], s4)"
proof -
  obtain m where m: "fold act_at (replicate m (length [])) ([] @ p1 # [q1], s2) = ([] @ ended r # [q1], s3)"
    using run_by_schedule [OF assms(3), of "[]" "[q1]"] by auto
  obtain n where n: "fold act_at (replicate n (length [ended r])) ([ended r] @ q1 # [], s3) = ([ended r] @ ended r' # [], s4)"
    using run_by_schedule [OF assms(4), of "[ended r]" "[]"] by auto
  have "act_at 0 ([Act f, Act g], s) = ([p1, Act g], s1)" "act_at 1 ([p1, Act g], s1) = ([p1, q1], s2)"
    using act_at_Act [of f s p1 s1 "[]" "[Act g]"] act_at_Act [of g s1 q1 s2 "[p1]" "[]"] assms(1,2) by simp_all
  then have "fold act_at ([0, 1] @ replicate m 0 @ replicate n 1) ([Act f, Act g], s) = ([ended r, ended r'], s4)"
    using m n by simp
  with schedule_runs [of "{Act f, Act g}" "([Act f, Act g], s)" "[0, 1] @ replicate m 0 @ replicate n 1"]
  have "pool_runs {Act f, Act g} ([Act f, Act g], s) ([ended r, ended r'], s4)" by simp
  then show ?thesis using pool_runs_start [of "[Act f, Act g]" "{Act f, Act g}" "[]" s] by simp
qed

text \<open>A request reads the row and goes on with it.\<close>

lemma read_Act:
  "\<exists>h. andThen (read_callback i) k = Act h \<and> (\<forall>db c. find_callback i db = Some c \<longrightarrow> h db = (k c, db))"
  unfolding read_callback_def atomic_def andThen.simps
  by (intro exI conjI, rule refl, intro allI impI) (simp add: comp_def map_prod_def)

text \<open>The customer's endpoint depends on the trunks only.\<close>

lemma customer_target_run: "\<exists>t. \<forall>db'. kd_trunks db' = kd_trunks db \<longrightarrow> run (customer_target c) db' = (t, db')"
proof (cases "kb_trunkId c \<noteq> None \<and> kb_trunkId c \<noteq> Some 0")
  case True
  let ?id = "trim (text_or_empty (case map_of (kd_trunks db) (the (kb_trunkId c)) of None \<Rightarrow> None | Some f \<Rightarrow> f))"
  show ?thesis
  proof (cases "?id = []")
    case True
    with \<open>kb_trunkId c \<noteq> None \<and> kb_trunkId c \<noteq> Some 0\<close> show ?thesis
      by (intro exI [of _ "Inl (''Trunk '' @ show_int (the (kb_trunkId c)) @ '' is missing from_user caller id'')"] allI impI)
        (simp add: customer_target_def Let_def refuse_def)
  next
    case False
    with \<open>kb_trunkId c \<noteq> None \<and> kb_trunkId c \<noteq> Some 0\<close> show ?thesis
      by (intro exI [of _ "Inr (''PJSIP/'' @ kb_customerNumber c @ ''@trunk-'' @ show_int (the (kb_trunkId c)), ?id)"] allI impI)
        (simp add: customer_target_def Let_def)
  qed
next
  case False
  then have "\<not> (kb_trunkId c \<noteq> None \<and> kb_trunkId c \<noteq> Some 0)" .
  then show ?thesis unfolding customer_target_def refuse_def by (simp only: if_False) (auto split: if_split)
qed

definition dialing :: "callback_db \<Rightarrow> callback_row \<Rightarrow> callback_row" where
  "dialing db c = c\<lparr>kb_status := ''dialing_operator'', kb_failReason := None, kb_executedAt := Some (kd_now db)\<rparr>"

definition cancelled :: "callback_db \<Rightarrow> callback_row \<Rightarrow> callback_row" where
  "cancelled db c = c\<lparr>kb_status := ''cancelled'', kb_completedAt := Some (kd_now db)\<rparr>"

text \<open>A request that gets as far as the update: what it writes, and the command it sends when that is possible.\<close>

lemma execute_found_run:
  "(\<exists>m. \<forall>db'. kd_trunks db' = kd_trunks db \<longrightarrow> run (execute_found env i c) db' = (Inl m, db'))
   \<or> kb_status c = ''pending'' \<and> (\<exists>x. \<forall>db'. kd_trunks db' = kd_trunks db \<longrightarrow> run (execute_found env i c) db'
        = (let db1 = set_callback i (dialing db') db' in
           case kv_publish env db1 of Some m \<Rightarrow> (Inl m, db1) | None \<Rightarrow> (Inr (), db1\<lparr>kd_sent := kd_sent db' @ [x]\<rparr>)))"
proof -
  obtain t where t: "kd_trunks db' = kd_trunks db \<Longrightarrow> run (customer_target c) db' = (t, db')" for db'
    using customer_target_run by blast
  have sent: "kd_sent (set_callback i f d) = kd_sent d" for f d by (simp add: set_callback_def)
  show ?thesis
  proof (cases "kb_status c = ''pending'' \<and> kb_customerNumber c \<noteq> []")
    case True
    note pending = True
    show ?thesis
    proof (cases "operator_dial_string c")
      case None
      with pending show ?thesis
        by (intro disjI1 exI [of _ "''no_destination_configured''"]) (simp add: execute_found_def refuse_def)
    next
      case (Some d)
      show ?thesis
      proof (cases t)
        case (Inl m)
        with t Some pending show ?thesis by (intro disjI1 exI [of _ m]) (simp add: execute_found_def)
      next
        case (Inr e)
        let ?x = "\<lparr>xp_callbackId = i, xp_customerNumber = kb_customerNumber c, xp_customerTrunkId = kb_trunkId c,
         xp_customerDialString = fst e, xp_operatorDialString = d, xp_callerIdNumber = snd e\<rparr>"
        from t Some pending Inr show ?thesis
          by (intro disjI2 conjI exI [of _ ?x] allI impI)
            (simp_all add: execute_found_def send_execute_def sent dialing_def [abs_def] Let_def case_prod_beta split: option.split)
      qed
    qed
  next
    case False
    then show ?thesis
      by (intro disjI1 exI [of _ "if kb_status c \<noteq> ''pending'' then ''Callback is not pending'' else ''Callback has no customer number''"])
        (auto simp: execute_found_def refuse_def)
  qed
qed

lemma find_sent [simp]: "find_callback i (db\<lparr>kd_sent := xs\<rparr>) = find_callback i db"
  by (simp add: find_callback_def)

lemma set_callback_fields [simp]:
  "kd_sent (set_callback i f db) = kd_sent db" "kd_trunks (set_callback i f db) = kd_trunks db"
  by (simp_all add: set_callback_def)

lemma dialing_fields [simp]: "kb_id (dialing db c) = kb_id c" "kb_status (dialing db c) = ''dialing_operator''"
  by (simp_all add: dialing_def)

lemma cancelled_fields [simp]: "kb_id (cancelled db c) = kb_id c" "kb_status (cancelled db c) = ''cancelled''"
  by (simp_all add: cancelled_def)

lemma run_request:
  "run (executeCallback env i) db = (case find_callback i db of
     None \<Rightarrow> (Inl (''Callback '' @ show_int i @ '' not found''), db) | Some c \<Rightarrow> run (execute_found env i c) db)"
  "run (cancelCallback i) db = (case find_callback i db of
     None \<Rightarrow> (Inl (''Callback '' @ show_int i @ '' not found''), db) | Some c \<Rightarrow> run (cancel_found i c) db)"
  by (simp_all add: executeCallback_def cancelCallback_def read_callback_def refuse_def split: option.split)

lemma not_pending:
  "kb_status c \<noteq> ''pending'' \<Longrightarrow> run (execute_found env i c) db = (Inl ''Callback is not pending'', db)"
  "kb_status c \<noteq> ''pending'' \<Longrightarrow> run (cancel_found i c) db = (Inl ''Only pending callbacks can be cancelled'', db)"
  by (simp_all add: execute_found_def cancel_found_def refuse_def)

text \<open>C31: Executed one after the other, two requests for a callback send one command.  Overlapping, both
  succeed and the command is sent twice, and a cancellation that overlaps an execution succeeds although the
  command is sent.\<close>

theorem overlapping_requests:
  assumes "run (executeCallback env i) db = (Inr (), db1)" and "\<And>d. kv_publish env d = None"
  shows "\<exists>x. kd_sent db1 = kd_sent db @ [x] \<and> run (executeCallback env i) db1 = (Inl ''Callback is not pending'', db1)
    \<and> (\<exists>db2. pool_runs {executeCallback env i} ([], db) ([Ret (), Ret ()], db2) \<and> kd_sent db2 = kd_sent db @ [x, x])
    \<and> (\<exists>db3. pool_runs {executeCallback env i, cancelCallback i} ([], db) ([Ret (), Ret ()], db3)
         \<and> kd_sent db3 = kd_sent db @ [x] \<and> map_option kb_status (find_callback i db3) = Some ''cancelled'')"
proof -
  obtain c where c: "find_callback i db = Some c" "run (execute_found env i c) db = (Inr (), db1)"
    using assms(1) by (auto simp: run_request split: option.splits)
  obtain x where pending: "kb_status c = ''pending''" and
    x: "kd_trunks d = kd_trunks db \<Longrightarrow> run (execute_found env i c) d
          = (Inr (), (set_callback i (dialing d) d)\<lparr>kd_sent := kd_sent d @ [x]\<rparr>)" for d
    using execute_found_run [of db env i c] c(2) assms(2) by (auto simp: Let_def)
  have db1: "db1 = (set_callback i (dialing db) db)\<lparr>kd_sent := kd_sent db @ [x]\<rparr>" using x [of db] c(2) by simp
  then have again: "run (executeCallback env i) db1 = (Inl ''Callback is not pending'', db1)"
    using c(1) by (simp add: run_request find_set_callback not_pending)
  obtain f where f: "executeCallback env i = Act f" "f db = (execute_found env i c, db)"
    using read_Act [of i "execute_found env i"] c(1) unfolding executeCallback_def by blast
  obtain g where g: "cancelCallback i = Act g" "g db = (cancel_found i c, db)"
    using read_Act [of i "cancel_found i"] c(1) unfolding cancelCallback_def by blast
  have trunks: "kd_trunks db1 = kd_trunks db" using db1 by simp
  obtain db2 where db2: "run (execute_found env i c) db1 = (Inr (), db2)" "kd_sent db2 = kd_sent db @ [x, x]"
    using x [OF trunks] db1 by simp
  have twice: "pool_runs {executeCallback env i} ([], db) ([Ret (), Ret ()], db2)"
    using both_first [of f db _ db f _ db "Inr ()" db1 "Inr ()" db2] f c(2) db2(1) by (simp add: ended_def)
  let ?db3 = "set_callback i (cancelled db1) db1"
  have "run (cancel_found i c) db1 = (Inr (), ?db3)" using pending by (simp add: cancel_found_def cancelled_def [abs_def])
  then have both: "pool_runs {executeCallback env i, cancelCallback i} ([], db) ([Ret (), Ret ()], ?db3)"
    using both_first [of f db _ db g _ db "Inr ()" db1 "Inr ()" ?db3] f g c(2) by (simp add: ended_def)
  have "kd_sent ?db3 = kd_sent db @ [x]" "map_option kb_status (find_callback i ?db3) = Some ''cancelled''"
    using c(1) db1 by (simp_all add: find_set_callback)
  with db1 again twice db2(2) both show ?thesis by (intro exI [of _ x] conjI exI [of _ db2] exI [of _ ?db3]) simp_all
qed

theorem overlapping_requests_witness:
  "\<exists>x db2. pool_runs {executeCallback callback_service 7} ([], callback_tables\<lparr>kd_callbacks := [callback_pending]\<rparr>) ([Ret (), Ret ()], db2)
     \<and> kd_sent db2 = [x, x]"
proof -
  let ?db = "callback_tables\<lparr>kd_callbacks := [callback_pending]\<rparr>"
  let ?run = "run (executeCallback callback_service 7) ?db"
  have "fst ?run = Inr ()" "kd_sent ?db = []" by code_simp+
  then have "?run = (Inr (), snd ?run)" by (metis prod.collapse)
  from overlapping_requests [OF this] \<open>kd_sent ?db = []\<close> show ?thesis by (auto simp: callback_service_def)
qed

text \<open>When the command of an execution cannot be published, the callback stays in the state of being
  dialled: every later request to execute or to cancel it is refused and changes nothing.\<close>

theorem lost_command_blocks:
  assumes "run (executeCallback env i) db = (Inl m, db1)" and "db1 \<noteq> db"
  shows "kd_sent db1 = kd_sent db \<and> map_option kb_status (find_callback i db1) = Some ''dialing_operator''
    \<and> run (executeCallback env' i) db1 = (Inl ''Callback is not pending'', db1)
    \<and> run (cancelCallback i) db1 = (Inl ''Only pending callbacks can be cancelled'', db1)"
proof -
  obtain c where c: "find_callback i db = Some c" "run (execute_found env i c) db = (Inl m, db1)"
    using assms by (auto simp: run_request split: option.splits)
  have "db1 = set_callback i (dialing db) db"
    using execute_found_run [of db env i c] c(2) assms(2) by (auto simp: Let_def split: option.splits)
  then show ?thesis using c(1) by (simp add: run_request find_set_callback not_pending)
qed

theorem lost_command_blocks_witness:
  "run (cancelCallback 7) (snd (run (executeCallback (callback_service\<lparr>kv_publish := (\<lambda>_. Some ''redis'')\<rparr>) 7)
       (callback_tables\<lparr>kd_callbacks := [callback_pending]\<rparr>)))
     = (Inl ''Only pending callbacks can be cancelled'', snd (run (executeCallback (callback_service\<lparr>kv_publish := (\<lambda>_. Some ''redis'')\<rparr>) 7)
       (callback_tables\<lparr>kd_callbacks := [callback_pending]\<rparr>)))"
proof -
  let ?db = "callback_tables\<lparr>kd_callbacks := [callback_pending]\<rparr>"
  let ?run = "run (executeCallback (callback_service\<lparr>kv_publish := (\<lambda>_. Some ''redis'')\<rparr>) 7) ?db"
  have "fst ?run = Inl ''redis''" "snd ?run \<noteq> ?db" by code_simp+
  moreover have "?run = (fst ?run, snd ?run)" by simp
  ultimately show ?thesis using lost_command_blocks [of _ 7 ?db "''redis''" "snd ?run"] by simp
qed

section \<open>Joining the parties\<close>

text \<open>When a party cannot be added to the bridge, the engine reports a failure but hangs up
  neither party and leaves the bridge behind.\<close>

theorem failed_bridge_left_behind:
  assumes "run (join_legs env p o1 c1) st = (Inr None, st')"
    and "\<And>q s. q \<noteq> BridgeAdd b o1 \<Longrightarrow> q \<noteq> BridgeAdd b c1 \<Longrightarrow> be_reject env q s = None" "\<And>s. be_bridge env s = Inr b"
    and "\<And>m s. be_publish env m s = None"
  shows "\<exists>qs. bs_requests st' = bs_requests st @ BridgeCreate b # qs \<and> set qs \<subseteq> {BridgeAdd b o1}
    \<and> bs_sent st' = bs_sent st @ [report_of (xp_callbackId p) (''bridged'', None),
                                  report_of (xp_callbackId p) (failed_as ''originate_failed'')]"
  using assms(1)
  by (auto simp: join_legs_def guarded_def publishStatus_def publish_message_def create_bridge_def leg_request_def best_effort_def
      assms(2-4) nonempty_text_def split: option.splits)

theorem failed_bridge_left_behind_witness:
  "bs_sent (snd (run (join_legs (callback_engine (\<lambda>q. if q = BridgeAdd ''b1'' ''c1'' then Some ''gone'' else None)) callback_command ''o1'' ''c1'') no_callbacks))
     = [report_of 7 (''bridged'', None), report_of 7 (failed_as ''originate_failed'')]"
proof -
  let ?env = "callback_engine (\<lambda>q. if q = BridgeAdd ''b1'' ''c1'' then Some ''gone'' else None)"
  let ?run = "run (join_legs ?env callback_command ''o1'' ''c1'') no_callbacks"
  have facts: "fst ?run = Inr None" "bs_sent no_callbacks = []" "xp_callbackId callback_command = 7" by code_simp+
  have run: "?run = (Inr None, snd ?run)" using facts(1) by (metis prod.collapse)
  from failed_bridge_left_behind [OF run, of "''b1''"] facts(2,3) show ?thesis by (auto simp: callback_engine_def)
qed

end
