(* ===== verification/HuntDial.thy ===== *)
theory HuntDial
  imports Waiters DigitCollection CampaignService Executors Recordings
begin

text \<open>
  The destinations of a hunt node and one wait for a dialled leg: the first half of \<open>nodes/hunt.executor.ts\<close>
  with \<open>huntManager.ts\<close> and the handlers of \<open>index.ts\<close> that settle its waiters.  Instants are in
  milliseconds.  Events come as a list with the time that passes before each; they reach the executor while
  it waits.
\<close>

section \<open>Destinations\<close>

record hunt_destination =
  hd_pstn :: bool
  hd_value :: string
  hd_trunk :: "number option"
  hd_order :: "int option"

text \<open>\<open>Math.trunc\<close> of a finite number.\<close>

fun num_trunc :: "number \<Rightarrow> int option" where
  "num_trunc (Dec m e) = Some (if 0 \<le> e then m * 10 ^ nat e else sgn m * (\<bar>m\<bar> div 10 ^ nat (- e)))"
| "num_trunc _ = None"

definition normalize_destination :: "json \<Rightarrow> hunt_destination option" where
  "normalize_destination item =
     (case item of
        JObj _ \<Rightarrow>
          (let targetType = entry_get item ''target_type''; targetValue = str_trim (entry_get item ''target_value'');
               trunk = entry_get item ''trunk_id'' in
           if targetType \<notin> {Some (JStr ''pstn''), Some (JStr ''extension'')} \<or> targetValue = [] then None
           else Some \<lparr>hd_pstn = (targetType = Some (JStr ''pstn'')), hd_value = targetValue,
                  hd_trunk = (if truthy trunk then Some (js_number trunk) else None),
                  hd_order = num_trunc (js_number (entry_get item ''order''))\<rparr>)
      | _ \<Rightarrow> None)"

definition normalizeDestinations :: "config \<Rightarrow> hunt_destination list" where
  "normalizeDestinations config =
     (case obj_get config ''destinations'' of Some (JArr xs) \<Rightarrow> List.map_filter normalize_destination xs | _ \<Rightarrow> [])"

definition noAnswerResult :: "config \<Rightarrow> string" where
  "noAnswerResult config =
     (let nodeKey = str_trim (obj_get config ''on_no_answer'') in if nodeKey = [] then ''hangup'' else ''route:'' @ nodeKey)"

section \<open>Store and environment\<close>

record hunt_channel =
  hc_id :: string
  hc_state :: string

datatype hunt_hold = NoHold | LoopHold string | MohHold

datatype hunt_request =
    HuntDialed string string string number string
  | HuntHangup string
  | HuntMohStart "string option"
  | HuntMohStop
  | HuntLoopStart string
  | HuntLoopStop string
  | HuntPlay string
  | HuntBridged string

text \<open>\<open>hs_draws\<close>, \<open>hs_waits\<close> and \<open>hs_plays\<close> count the random numbers, waits and playbacks so far.\<close>

record hunt_store =
  hs_now :: nat
  hs_session :: session
  hs_waiters :: "hunt_channel hunt_waiters"
  hs_requests :: "hunt_request list"
  hs_http :: "http_request list"
  hs_hold :: hunt_hold
  hs_pending :: "hunt_channel list"
  hs_inboundEnded :: bool
  hs_draws :: nat
  hs_waits :: nat
  hs_plays :: nat

datatype hunt_event = HuntEntered string hunt_channel | HuntGone string | HuntTimer nat
datatype group_event = GroupState string string | GroupGone string | GroupTimer

text \<open>
  What the executor asks of Asterisk, the backend and the library for phone numbers.  \<open>hv_contact\<close> is a contact by
  id and \<open>hv_contacts\<close> the first page of contacts, \<open>None\<close> when the request fails; \<open>hv_reject\<close> tells which
  requests Asterisk rejects; \<open>hv_legs k\<close> are the events during the k-th wait for legs, \<open>hv_group\<close> those while a
  group is awaited, \<open>hv_ends\<close> the channels that end during the call and \<open>hv_busy k\<close> the id and the events
  of the k-th playback.
\<close>

record hunt_env =
  hv_trunk :: "number \<Rightarrow> string option"
  hv_phones :: phone_lib
  hv_contact :: "number \<Rightarrow> (string option \<times> number option) option"
  hv_contacts :: "(string option \<times> number option) list option"
  hv_audio :: "hunt_store \<Rightarrow> number \<Rightarrow> string + string option"
  hv_reject :: "hunt_request \<Rightarrow> hunt_store \<Rightarrow> string option"
  hv_recorder :: recorder
  hv_backendUrl :: string
  hv_toISO :: "nat \<Rightarrow> string"
  hv_random :: "nat \<Rightarrow> nat"
  hv_suffix :: "nat \<Rightarrow> string"
  hv_legs :: "nat \<Rightarrow> (nat \<times> hunt_event) list"
  hv_group :: "(nat \<times> group_event) list"
  hv_ends :: "(nat \<times> string) list"
  hv_busy :: "nat \<Rightarrow> string \<times> (nat \<times> playback_event) list"

definition send_hunt :: "hunt_request \<Rightarrow> hunt_store \<Rightarrow> hunt_store" where
  "send_hunt r st = st\<lparr>hs_requests := hs_requests st @ [r]\<rparr>"

section \<open>Dial strings\<close>

text \<open>\<open>parsePhoneNumber\<close> without a country, then with the fallback; \<open>None\<close> when it throws.\<close>

definition normalizeDialNumber :: "hunt_env \<Rightarrow> string \<Rightarrow> string" where
  "normalizeDialNumber env rawNumber =
     (let dialNumber = trim rawNumber;
          parsed = (case ph_parse (hv_phones env) dialNumber None of
            None \<Rightarrow> ph_parse (hv_phones env) dialNumber (Some ''LK'') | Some p \<Rightarrow> Some p) in
      case parsed of Some (True, e164) \<Rightarrow> e164 | _ \<Rightarrow> dialNumber)"

text \<open>\<open>/^\+?[0-9]\{4,20\}\$/\<close>.\<close>

definition PSTN_TARGET_PATTERN :: "string \<Rightarrow> bool" where
  "PSTN_TARGET_PATTERN s \<longleftrightarrow>
     (let digits = (if s \<noteq> [] \<and> hd s = CHR ''+'' then tl s else s) in
      4 \<le> length digits \<and> length digits \<le> 20 \<and> list_all is_digit digits)"

definition trunk_dial :: "hunt_env \<Rightarrow> number \<Rightarrow> string \<Rightarrow> string" where
  "trunk_dial env trunkId number =
     (case formatDialNumber (normalizeDialNumber env number) (fetchTrunkDialFormat (hv_trunk env) trunkId) of
        None \<Rightarrow> []
      | Some formatted \<Rightarrow> if formatted = [] then [] else ''PJSIP/'' @ formatted @ ''@trunk-'' @ num_to_string trunkId)"

definition hunt_contact :: "(string option \<times> number option) \<Rightarrow> string \<times> number option" where
  "hunt_contact c = (trim (text_or_empty (fst c)), snd c)"

definition fetchContactNumber :: "hunt_env \<Rightarrow> number \<Rightarrow> (string \<times> number option) option" where
  "fetchContactNumber env contactId = map_option hunt_contact (hv_contact env contactId)"

definition fetchContactNumberByPhone :: "hunt_env \<Rightarrow> string \<Rightarrow> (string \<times> number option) option" where
  "fetchContactNumberByPhone env phoneNumber =
     Option.bind (hv_contacts env) (\<lambda>cs. map_option hunt_contact (List.find (\<lambda>c. trim (text_or_empty (fst c)) = phoneNumber) cs))"

definition contact_dial :: "hunt_env \<Rightarrow> (string \<times> number option) option \<Rightarrow> string" where
  "contact_dial env contact =
     (case contact of
        Some (number, Some trunkId) \<Rightarrow> if num_truthy trunkId then trunk_dial env trunkId number else []
      | _ \<Rightarrow> [])"

definition first_text :: "string \<Rightarrow> string \<Rightarrow> string" where
  "first_text a b = (if a = [] then b else a)"

text \<open>The trunk of the destination, a contact with the number, a contact with the id.\<close>

definition resolveHuntDialString :: "hunt_env \<Rightarrow> hunt_destination \<Rightarrow> string" where
  "resolveHuntDialString env d =
     (if \<not> hd_pstn d then ''PJSIP/'' @ hd_value d
      else let dialable = PSTN_TARGET_PATTERN (hd_value d); contactId = js_parse_int (hd_value d) in
        first_text (case hd_trunk d of
            Some t \<Rightarrow> if num_truthy t \<and> dialable then trunk_dial env t (hd_value d) else [] | None \<Rightarrow> [])
        (first_text (if dialable then contact_dial env (fetchContactNumberByPhone env (hd_value d)) else [])
        (if contactId = NaN then [] else contact_dial env (fetchContactNumber env contactId))))"

definition resolveDestinations :: "hunt_env \<Rightarrow> hunt_destination list \<Rightarrow> (hunt_destination \<times> string) list" where
  "resolveDestinations env ds = filter (\<lambda>p. snd p \<noteq> []) (map (\<lambda>d. (d, resolveHuntDialString env d)) ds)"

section \<open>Dialling a leg\<close>

datatype attempt_status = AttemptAnswered | AttemptTimeout | AttemptFailed | AttemptHangup

text \<open>The variables of one call of \<open>captureOriginatedChannel\<close>; \<open>ha_result\<close> is its promise.\<close>

record hunt_attempt =
  ha_token :: string
  ha_channelId :: string
  ha_promise :: nat
  ha_timedOut :: bool
  ha_inboundTerminated :: bool
  ha_result :: "(attempt_status \<times> hunt_channel option) option"

definition dial_seconds :: "number \<Rightarrow> number" where
  "dial_seconds timeoutMs =
     (case timeoutMs of Dec m e \<Rightarrow> num_of_int (max 1 (num_ceiling (Dec m (e - 3)))) | n \<Rightarrow> n)"

text \<open>Up to the end of \<open>originate\<close>; a rejected one settles the attempt.\<close>

definition originate_leg :: "hunt_env \<Rightarrow> string \<Rightarrow> number \<Rightarrow> string \<Rightarrow> hunt_store \<Rightarrow> hunt_attempt \<times> hunt_store" where
  "originate_leg env inbound timeoutMs endpoint st =
     (let now = show_nat (hs_now st);
          token = inbound @ ''-'' @ now @ ''-'' @ hv_suffix env (hs_draws st);
          attemptChannelId = ''hunt-leg-'' @ token @ ''-'' @ now;
          (p, w) = registerHuntWaiter token (hs_waiters st);
          st1 = st\<lparr>hs_waiters := w, hs_draws := hs_draws st + 1\<rparr>;
          dial = HuntDialed endpoint (''hunt-outbound,'' @ token) (s_callerNumber (hs_session st)) (dial_seconds timeoutMs) attemptChannelId;
          attempt = \<lparr>ha_token = token, ha_channelId = attemptChannelId, ha_promise = p, ha_timedOut = False,
            ha_inboundTerminated = False, ha_result = None\<rparr> in
      case hv_reject env dial st1 of
        Some m \<Rightarrow> (attempt\<lparr>ha_result := Some (AttemptFailed, None)\<rparr>, st1\<lparr>hs_waiters := rejectHuntWaiter token HuntFailed w\<rparr>)
      | None \<Rightarrow> (attempt, send_hunt dial st1))"

fun originate_legs :: "hunt_env \<Rightarrow> string \<Rightarrow> number \<Rightarrow> string list \<Rightarrow> hunt_store \<Rightarrow> hunt_attempt list \<times> hunt_store" where
  "originate_legs env inbound timeoutMs [] st = ([], st)"
| "originate_legs env inbound timeoutMs (e # es) st =
     (case originate_leg env inbound timeoutMs e st of (a, st1) \<Rightarrow>
        case originate_legs env inbound timeoutMs es st1 of (as, st2) \<Rightarrow> (a # as, st2))"

text \<open>\<open>await waiter\<close> and what follows it, once the promise is settled.\<close>

definition settle_attempt :: "hunt_channel hunt_waiters \<Rightarrow> hunt_attempt \<Rightarrow> hunt_attempt" where
  "settle_attempt w a =
     (if ha_result a \<noteq> None then a
      else case outcome w (ha_promise a) of
        None \<Rightarrow> a
      | Some r \<Rightarrow> a\<lparr>ha_result := Some (
          if ha_inboundTerminated a then (AttemptHangup, None)
          else case r of
            Answered c \<Rightarrow> (AttemptAnswered, Some c)
          | Unanswered _ \<Rightarrow> (if ha_timedOut a then AttemptTimeout else AttemptFailed, None))\<rparr>)"

text \<open>The listener of an attempt for the end of the calling channel; it is removed with the settled attempt.\<close>

definition inbound_gone :: "hunt_attempt \<Rightarrow> hunt_channel hunt_waiters \<Rightarrow> hunt_channel hunt_waiters" where
  "inbound_gone a w = (if ha_result a = None then rejectHuntWaiter (ha_token a) HuntDestroyed w else w)"

fun hunt_leg_event :: "string \<Rightarrow> hunt_event \<Rightarrow> hunt_attempt list \<times> hunt_store \<Rightarrow> hunt_attempt list \<times> hunt_store" where
  "hunt_leg_event inbound (HuntEntered token c) (as, st) =
     (if hasHuntWaiter token (hs_waiters st)
      then (as, st\<lparr>hs_waiters := resolveHuntWaiter token c (hs_waiters st)\<rparr>)
      else (as, send_hunt (HuntHangup (hc_id c)) st))"
| "hunt_leg_event inbound (HuntGone i) (as, st) =
     (let st1 = st\<lparr>hs_waiters := rejectHuntWaiter i HuntDestroyed (hs_waiters st)\<rparr> in
      if i \<noteq> inbound then (as, st1)
      else (map (\<lambda>a. if ha_result a = None then a\<lparr>ha_inboundTerminated := True\<rparr> else a) as,
            st1\<lparr>hs_waiters := fold inbound_gone as (hs_waiters st1), hs_inboundEnded := True\<rparr>))"
| "hunt_leg_event inbound (HuntTimer k) (as, st) =
     (if k < length as \<and> ha_result (as ! k) = None
      then (as[k := (as ! k)\<lparr>ha_timedOut := True\<rparr>],
            st\<lparr>hs_waiters := rejectHuntWaiter (ha_token (as ! k)) HuntFailed (hs_waiters st)\<rparr>)
      else (as, st))"

definition all_settled :: "hunt_attempt list \<Rightarrow> bool" where
  "all_settled as \<longleftrightarrow> list_all (\<lambda>a. ha_result a \<noteq> None) as"

definition leg_step :: "string \<Rightarrow> nat \<times> hunt_event \<Rightarrow> hunt_attempt list \<times> hunt_store \<Rightarrow> hunt_attempt list \<times> hunt_store" where
  "leg_step inbound e c =
     (if all_settled (fst c) then c
      else case hunt_leg_event inbound (snd e) (fst c, (snd c)\<lparr>hs_now := hs_now (snd c) + fst e\<rparr>) of
        (as, st) \<Rightarrow> (map (settle_attempt (hs_waiters st)) as, st))"

text \<open>\<open>Promise.allSettled\<close> of the attempts, or the single one; \<open>None\<close> while one is pending.\<close>

definition capture_legs :: "hunt_env \<Rightarrow> string \<Rightarrow> number \<Rightarrow> string list \<Rightarrow> hunt_store \<Rightarrow> (hunt_attempt list \<times> hunt_store) option" where
  "capture_legs env inbound timeoutMs endpoints st =
     (case originate_legs env inbound timeoutMs endpoints st of (as, st1) \<Rightarrow>
        let c = fold (leg_step inbound) (hv_legs env (hs_waits st1)) (as, st1\<lparr>hs_waits := hs_waits st1 + 1\<rparr>) in
        if all_settled (fst c) then Some c else None)"

end
