(* ===== verification/Hunt.thy ===== *)
theory Hunt
  imports HuntDial
begin

text \<open>
  \<open>executeHunt\<close> of \<open>nodes/hunt.executor.ts\<close>: dial the destinations one after the other, in turn or at random, or
  all of them as a group, and connect the caller with a leg that answers.  Sounds that repeat are modelled by
  their start and their end.
\<close>

section \<open>Music and sounds\<close>

definition startHold :: "hunt_env \<Rightarrow> string option \<Rightarrow> hunt_store \<Rightarrow> hunt_store" where
  "startHold env holdMedia st =
     (if hs_hold st \<noteq> NoHold then st
      else case holdMedia of
        Some m \<Rightarrow> send_hunt (HuntLoopStart m) (st\<lparr>hs_hold := LoopHold m\<rparr>)
      | None \<Rightarrow>
        if hv_reject env (HuntMohStart None) st = None then send_hunt (HuntMohStart None) (st\<lparr>hs_hold := MohHold\<rparr>)
        else if hv_reject env (HuntMohStart (Some ''default'')) st = None
        then send_hunt (HuntMohStart (Some ''default'')) (st\<lparr>hs_hold := MohHold\<rparr>)
        else st)"

definition stopHold :: "hunt_store \<Rightarrow> hunt_store" where
  "stopHold st =
     (case hs_hold st of
        NoHold \<Rightarrow> st
      | LoopHold m \<Rightarrow> send_hunt (HuntLoopStop m) (st\<lparr>hs_hold := NoHold\<rparr>)
      | MohHold \<Rightarrow> send_hunt HuntMohStop (st\<lparr>hs_hold := NoHold\<rparr>))"

definition hangupChannels :: "hunt_channel list \<Rightarrow> string option \<Rightarrow> hunt_store \<Rightarrow> hunt_store" where
  "hangupChannels channels keep st =
     fold (\<lambda>c. send_hunt (HuntHangup (hc_id c))) (filter (\<lambda>c. Some (hc_id c) \<noteq> keep) channels) st"

definition drop_pending :: "hunt_store \<Rightarrow> hunt_store" where
  "drop_pending st = (hangupChannels (hs_pending st) None st)\<lparr>hs_pending := []\<rparr>"

text \<open>The events of a wait up to the one that ends it; those of the caller set \<open>inboundEnded\<close>.\<close>

fun play_events :: "string \<Rightarrow> string \<Rightarrow> (nat \<times> playback_event) list \<Rightarrow> hunt_store \<Rightarrow> ((string + unit) \<times> hunt_store) option" where
  "play_events playbackId inbound [] st = None"
| "play_events playbackId inbound ((d, e) # es) st =
     (let st1 = st\<lparr>hs_now := hs_now st + d, hs_inboundEnded := (hs_inboundEnded st \<or> e = PlaybackGone (Some inbound))\<rparr> in
      case waitForPlaybackFinished playbackId inbound e None of
        Some r \<Rightarrow> Some (r, st1)
      | None \<Rightarrow> play_events playbackId inbound es st1)"

definition playOnceOnBridge :: "hunt_env \<Rightarrow> string \<Rightarrow> string \<Rightarrow> hunt_store \<Rightarrow> ((string + unit) \<times> hunt_store) option" where
  "playOnceOnBridge env inbound media st =
     (let st1 = st\<lparr>hs_plays := hs_plays st + 1\<rparr> in
      case hv_reject env (HuntPlay media) st of
        Some m \<Rightarrow> Some (Inl m, st1)
      | None \<Rightarrow> play_events (fst (hv_busy env (hs_plays st))) inbound (snd (hv_busy env (hs_plays st))) (send_hunt (HuntPlay media) st1))"

definition resolveOptionalBridgeMedia :: "hunt_env \<Rightarrow> config \<Rightarrow> string \<Rightarrow> string \<Rightarrow> hunt_store \<Rightarrow> string + string option" where
  "resolveOptionalBridgeMedia env config idField pathField st =
     map_sum id (\<lambda>p. if text_or_empty p = [] then None else Some (''sound:'' @ text_or_empty p))
       (resolveAudioMediaPath \<lparr>md_audio = hv_audio env, md_play = (\<lambda>t p s. (Inr (), s)), md_events = (\<lambda>n s. (([], []), s))\<rparr>
          st config idField pathField)"

section \<open>Connecting\<close>

fun await_end :: "string list \<Rightarrow> string \<Rightarrow> (nat \<times> string) list \<Rightarrow> hunt_store \<Rightarrow> (string \<times> hunt_store) option" where
  "await_end channelIds inbound [] st = None"
| "await_end channelIds inbound ((d, i) # es) st =
     (let st1 = st\<lparr>hs_now := hs_now st + d, hs_inboundEnded := (hs_inboundEnded st \<or> i = inbound)\<rparr> in
      if i \<in> set channelIds then Some (i, st1) else await_end channelIds inbound es st1)"

text \<open>The recorder works on the requests it has sent and the session.\<close>

definition recorded :: "(((string + 'a) \<times> session) recording_op) \<Rightarrow> hunt_store \<Rightarrow> (string + 'a) \<times> hunt_store" where
  "recorded q st =
     (case run q (hs_http st) of
        (Inl m, sent) \<Rightarrow> (Inl m, st\<lparr>hs_http := sent\<rparr>)
      | (Inr (r, s), sent) \<Rightarrow> (r, st\<lparr>hs_http := sent, hs_session := s\<rparr>))"

definition recordingDownloadUrl :: "hunt_env \<Rightarrow> number \<Rightarrow> string" where
  "recordingDownloadUrl env i = hv_backendUrl env @ ''/recordings/'' @ num_to_string i @ ''/download''"

definition change_payload :: "(webhook_payload \<Rightarrow> webhook_payload) \<Rightarrow> hunt_store \<Rightarrow> hunt_store" where
  "change_payload f st = st\<lparr>hs_session := (hs_session st)\<lparr>s_webhookPayload := f (s_webhookPayload (hs_session st))\<rparr>\<rparr>"

definition persist_hunt :: "hunt_env \<Rightarrow> config \<Rightarrow> hunt_store \<Rightarrow> (string + unit) \<times> hunt_store" where
  "persist_hunt env config st =
     (if \<not> truthy (obj_get config ''record_call'') \<or> \<not> truthy (obj_get config ''send_to_webhook'') then (Inr (), st)
      else case recorded (persistSessionRecording (hv_recorder env) (hs_session st)) st of
        (Inl m, st1) \<Rightarrow> (Inl m, st1)
      | (Inr None, st1) \<Rightarrow> (Inr (), st1)
      | (Inr (Some (i, seconds)), st1) \<Rightarrow>
          (Inr (), change_payload (\<lambda>w. w\<lparr>wp_recording := Some (JObj [(''url'', JStr (recordingDownloadUrl env i)),
             (''duration_seconds'', JNum (num_of_int seconds))])\<rparr>) st1))"

definition connected_payload :: "hunt_env \<Rightarrow> string \<Rightarrow> nat \<Rightarrow> nat \<Rightarrow> webhook_payload \<Rightarrow> webhook_payload" where
  "connected_payload env answered connectedAt disconnectedAt w =
     w\<lparr>wp_bridge := Some (JObj [(''connected_extension'', JStr answered), (''connected_at'', JStr (hv_toISO env connectedAt)),
         (''disconnected_at'', JStr (hv_toISO env disconnectedAt)),
         (''talk_duration_seconds'', JNum (num_of_int ((int disconnectedAt - int connectedAt + 500) div 1000)))]),
       wp_outcome := Some (JObj [(''status'', JStr ''completed'')])\<rparr>"

definition begin_hunt :: "hunt_env \<Rightarrow> config \<Rightarrow> string \<Rightarrow> hunt_store \<Rightarrow> (string + unit) \<times> hunt_store" where
  "begin_hunt env config bridgeId st =
     (if \<not> truthy (obj_get config ''record_call'') then (Inr (), st)
      else recorded (beginNodeRecording (hv_recorder env) (hs_session st) bridgeId
             (s_callUuid (hs_session st) @ ''-hunt-'' @ show_nat (hs_now st))) st)"

definition finalizeAnswer :: "hunt_env \<Rightarrow> config \<Rightarrow> string \<Rightarrow> string \<Rightarrow> hunt_channel \<Rightarrow> hunt_store \<Rightarrow> ((string + string) \<times> hunt_store) option" where
  "finalizeAnswer env config bridgeId inbound answered st =
     (let st1 = stopHold st;
          st2 = (hangupChannels (hs_pending st1) (Some (hc_id answered)) st1)\<lparr>hs_pending := [answered]\<rparr> in
      case hv_reject env (HuntBridged (hc_id answered)) st2 of
        Some m \<Rightarrow> Some (Inl m, st2)
      | None \<Rightarrow>
        (let st3 = send_hunt (HuntBridged (hc_id answered)) st2; connectedAt = hs_now st3 in
         case begin_hunt env config bridgeId st3 of
           (Inl m, st4) \<Rightarrow> Some (Inl m, st4)
         | (Inr _, st4) \<Rightarrow>
           map_option (\<lambda>(ended, st5).
             let st6 = send_hunt (HuntHangup (if ended = inbound then hc_id answered else inbound)) st5 in
             case persist_hunt env config st6 of
               (Inl m, st7) \<Rightarrow> (Inl m, st7)
             | (Inr _, st7) \<Rightarrow> (Inr ''done'', change_payload (connected_payload env (hc_id answered) connectedAt (hs_now st5)) st7))
             (await_end [inbound, hc_id answered] inbound (hv_ends env) st4)))"

section \<open>A group\<close>

datatype group_result = GroupAnswered string | GroupFailed | GroupTimedOut | GroupHangup

definition group_listener :: "string \<Rightarrow> string list \<Rightarrow> group_event \<Rightarrow> group_result option \<times> string list" where
  "group_listener inbound remaining e =
     (case e of
        GroupState c s \<Rightarrow> (if c \<in> set remaining \<and> s = ''Up'' then Some (GroupAnswered c) else None, remaining)
      | GroupGone c \<Rightarrow>
          if c = inbound then (Some GroupHangup, remaining)
          else if c \<notin> set remaining then (None, remaining)
          else (if removeAll c remaining = [] then Some GroupFailed else None, removeAll c remaining)
      | GroupTimer \<Rightarrow> (Some GroupTimedOut, remaining))"

fun waitForFirstAnswerOrAllDone :: "string \<Rightarrow> string list \<Rightarrow> (nat \<times> group_event) list \<Rightarrow> hunt_store \<Rightarrow> (group_result \<times> hunt_store) option" where
  "waitForFirstAnswerOrAllDone inbound remaining [] st = None"
| "waitForFirstAnswerOrAllDone inbound remaining ((d, e) # es) st =
     (let st1 = st\<lparr>hs_now := hs_now st + d, hs_inboundEnded := (hs_inboundEnded st \<or> e = GroupGone inbound)\<rparr> in
      case group_listener inbound remaining e of
        (Some r, _) \<Rightarrow> Some (r, st1)
      | (None, rest) \<Rightarrow> waitForFirstAnswerOrAllDone inbound rest es st1)"

definition answered_channels :: "hunt_attempt list \<Rightarrow> hunt_channel list" where
  "answered_channels as = List.map_filter (\<lambda>a. Option.bind (ha_result a) snd) as"

definition hunt_group ::
  "hunt_env \<Rightarrow> config \<Rightarrow> string \<Rightarrow> string \<Rightarrow> string option \<Rightarrow> number \<Rightarrow> string list \<Rightarrow> hunt_store \<Rightarrow> ((string + string) \<times> hunt_store) option" where
  "hunt_group env config bridgeId inbound holdMedia totalTimeoutMs dials st =
     Option.bind (capture_legs env inbound totalTimeoutMs dials (startHold env holdMedia st)) (\<lambda>(as, st1).
     let st2 = st1\<lparr>hs_pending := answered_channels as\<rparr> in
     if hs_pending st2 = [] then Some (Inr (noAnswerResult config), stopHold st2)
     else case List.find (\<lambda>c. map to_lower (hc_state c) = ''up'') (hs_pending st2) of
       Some c \<Rightarrow> finalizeAnswer env config bridgeId inbound c st2
     | None \<Rightarrow>
       Option.bind (waitForFirstAnswerOrAllDone inbound (map hc_id (hs_pending st2)) (hv_group env) st2) (\<lambda>(r, st3).
       if r = GroupHangup \<or> hs_inboundEnded st3 then Some (Inr ''hangup'', drop_pending (stopHold st3))
       else case r of
         GroupAnswered i \<Rightarrow>
           (case List.find (\<lambda>c. hc_id c = i) (hs_pending st3) of
              Some c \<Rightarrow> finalizeAnswer env config bridgeId inbound c st3
            | None \<Rightarrow> Some (Inr (noAnswerResult config), drop_pending (stopHold st3)))
       | _ \<Rightarrow> Some (Inr (noAnswerResult config), drop_pending (stopHold st3))))"

section \<open>One after the other\<close>

definition same_target :: "hunt_destination \<Rightarrow> hunt_destination \<Rightarrow> bool" where
  "same_target a b \<longleftrightarrow> hd_pstn a = hd_pstn b \<and> hd_value a = hd_value b"

text \<open>The list is not empty; \<open>k\<close> stands for the random number.\<close>

definition nextRandomDestination :: "nat \<Rightarrow> hunt_destination list \<Rightarrow> hunt_destination option \<Rightarrow> hunt_destination" where
  "nextRandomDestination k ds prev =
     (if length ds \<le> 1 then hd ds
      else let options = filter (\<lambda>d. case prev of None \<Rightarrow> True | Some l \<Rightarrow> \<not> same_target d l) ds in
        if options = [] then hd ds else options ! (k mod length options))"

definition elapsed :: "nat \<Rightarrow> hunt_store \<Rightarrow> int" where
  "elapsed startTime st = int (hs_now st) - int startTime"

definition time_left :: "nat \<Rightarrow> number \<Rightarrow> hunt_store \<Rightarrow> bool" where
  "time_left startTime totalTimeoutMs st \<longleftrightarrow> \<not> num_le totalTimeoutMs (num_of_int (elapsed startTime st))"

definition num_min :: "number \<Rightarrow> number \<Rightarrow> number" where
  "num_min a b = (if num_le a b then a else b)"

text \<open>What does not change while the destinations are dialled.\<close>

record hunt_plan =
  hp_config :: config
  hp_bridge :: string
  hp_inbound :: string
  hp_random :: bool
  hp_destinations :: "hunt_destination list"
  hp_dials :: "(hunt_destination \<times> string) list"
  hp_hold :: "string option"
  hp_busy :: "string option"
  hp_attempt :: number
  hp_total :: number
  hp_start :: nat

definition destination_entry :: "hunt_env \<Rightarrow> hunt_plan \<Rightarrow> nat \<Rightarrow> hunt_destination option \<Rightarrow> hunt_store \<Rightarrow> hunt_destination" where
  "destination_entry env hp k prev st =
     (if hp_random hp then nextRandomDestination (hv_random env (hs_draws st)) (hp_destinations hp) prev
      else hp_destinations hp ! (k mod length (hp_destinations hp)))"

definition dial_of :: "hunt_plan \<Rightarrow> hunt_destination \<Rightarrow> string" where
  "dial_of hp d = (case List.find (\<lambda>p. same_target (fst p) d) (hp_dials hp) of None \<Rightarrow> [] | Some p \<Rightarrow> snd p)"

datatype hunt_step = HuntAgain "hunt_destination option" hunt_store | HuntDone "string + string" hunt_store | HuntExhausted hunt_store

text \<open>After an attempt without an answer.\<close>

definition after_attempt :: "hunt_env \<Rightarrow> hunt_plan \<Rightarrow> hunt_destination \<Rightarrow> attempt_status \<Rightarrow> hunt_store \<Rightarrow> hunt_step option" where
  "after_attempt env hp d status st =
     (if status = AttemptHangup \<or> hs_inboundEnded st then Some (HuntDone (Inr ''hangup'') st)
      else if \<not> time_left (hp_start hp) (hp_total hp) st then Some (HuntExhausted st)
      else case hp_busy hp of
        None \<Rightarrow> Some (HuntAgain (Some d) st)
      | Some media \<Rightarrow> map_option (\<lambda>(r, st1). case r of Inl m \<Rightarrow> HuntDone (Inl m) st1 | Inr _ \<Rightarrow> HuntAgain (Some d) st1)
          (playOnceOnBridge env (hp_inbound hp) media st))"

definition dial_round :: "hunt_env \<Rightarrow> hunt_plan \<Rightarrow> hunt_destination \<Rightarrow> string \<Rightarrow> hunt_store \<Rightarrow> hunt_step option" where
  "dial_round env hp d dial st =
     (let remainingMs = num_add (hp_total hp) (num_of_int (- elapsed (hp_start hp) st));
          dialTimeoutMs = num_min (hp_attempt hp) remainingMs in
      Option.bind (capture_legs env (hp_inbound hp) dialTimeoutMs [dial] (startHold env (hp_hold hp) st)) (\<lambda>(as, st1).
        let a = hd as in
        case ha_result a of
          Some (AttemptAnswered, Some c) \<Rightarrow>
            map_option (\<lambda>(r, st2). HuntDone r st2)
              (finalizeAnswer env (hp_config hp) (hp_bridge hp) (hp_inbound hp) c (st1\<lparr>hs_pending := [c]\<rparr>))
        | r \<Rightarrow> after_attempt env hp d (case r of None \<Rightarrow> AttemptFailed | Some p \<Rightarrow> fst p)
            (send_hunt (HuntHangup (ha_channelId a)) (stopHold st1))))"

text \<open>The body of the loop with the index \<open>k\<close>; a destination that cannot be dialled is passed over.\<close>

definition hunt_round :: "hunt_env \<Rightarrow> hunt_plan \<Rightarrow> nat \<Rightarrow> hunt_destination option \<Rightarrow> hunt_store \<Rightarrow> hunt_step option" where
  "hunt_round env hp k prev st =
     (if \<not> time_left (hp_start hp) (hp_total hp) st then Some (HuntExhausted st)
      else if hs_inboundEnded st then Some (HuntDone (Inr ''hangup'') st)
      else let d = destination_entry env hp k prev st; st1 = st\<lparr>hs_draws := hs_draws st + 1\<rparr> in
        if dial_of hp d = [] then Some (HuntAgain (Some d) st1) else dial_round env hp d (dial_of hp d) st1)"

partial_function (option) hunt_loop ::
  "hunt_env \<Rightarrow> hunt_plan \<Rightarrow> nat \<Rightarrow> hunt_destination option \<Rightarrow> hunt_store \<Rightarrow> ((string + string) \<times> hunt_store) option" where
  "hunt_loop env hp k prev st =
     Option.bind (hunt_round env hp k prev st) (\<lambda>step. case step of
        HuntAgain prev' st' \<Rightarrow> hunt_loop env hp (Suc k) prev' st'
      | HuntDone r st' \<Rightarrow> Some (r, st')
      | HuntExhausted st' \<Rightarrow> Some (Inr (noAnswerResult (hp_config hp)), drop_pending (stopHold st')))"

section \<open>The executor\<close>

definition hunt_failure :: "config \<Rightarrow> (string + string) \<times> hunt_store \<Rightarrow> (string + string) \<times> hunt_store" where
  "hunt_failure config p =
     (case p of
        (Inr r, st) \<Rightarrow> (Inr r, st)
      | (Inl m, st) \<Rightarrow>
          (let st1 = drop_pending (stopHold st) in
           (Inr (if hs_inboundEnded st1 \<or> m = ''hangup'' then ''hangup'' else noAnswerResult config), st1)))"

definition hunt_timeout :: "config \<Rightarrow> string \<Rightarrow> number \<Rightarrow> number" where
  "hunt_timeout config field fallback = num_max (Dec 1 0) (num_or (js_number (obj_get config field)) fallback)"

definition hunt_strategy :: "config \<Rightarrow> string" where
  "hunt_strategy config =
     (let s = obj_get config ''strategy'' in map to_lower (trim (js_string (if truthy s then s else Some (JStr ''sequential'')))))"

definition ordered_destinations :: "config \<Rightarrow> hunt_destination list" where
  "ordered_destinations config =
     (if hunt_strategy config = ''order''
      then sort_key (\<lambda>d. case hd_order d of None \<Rightarrow> 0 | Some i \<Rightarrow> i) (normalizeDestinations config)
      else normalizeDestinations config)"

text \<open>Rejected sounds are no part of the \<open>try\<close> block.  \<open>None\<close>: a wait or the loop never ends.\<close>

definition executeHunt :: "hunt_env \<Rightarrow> rt_node \<Rightarrow> hunt_store \<Rightarrow> ((string + string) \<times> hunt_store) option" where
  "executeHunt env node st =
     (let config = n_config node; inbound = s_channelId (hs_session st);
          ordered = ordered_destinations config; dials = resolveDestinations env ordered;
          total = hunt_timeout config ''total_timeout_ms'' (Dec 6 4) in
      case s_inboundBridge (hs_session st) of
        None \<Rightarrow> Some (Inr (noAnswerResult config), st)
      | Some bridgeId \<Rightarrow>
        if bridgeId = [] \<or> dials = [] then Some (Inr (noAnswerResult config), st)
        else case (resolveOptionalBridgeMedia env config ''hold_audio_file_id'' ''hold_audio_file_path'' st,
                   resolveOptionalBridgeMedia env config ''busy_audio_file_id'' ''busy_audio_file_path'' st) of
          (Inl m, _) \<Rightarrow> Some (Inl m, st)
        | (_, Inl m) \<Rightarrow> Some (Inl m, st)
        | (Inr holdMedia, Inr busyMedia) \<Rightarrow>
          map_option (hunt_failure config)
            (if hunt_strategy config = ''group''
             then hunt_group env config bridgeId inbound holdMedia total (map snd dials) st
             else hunt_loop env \<lparr>hp_config = config, hp_bridge = bridgeId, hp_inbound = inbound,
                 hp_random = (hunt_strategy config = ''random''), hp_destinations = ordered, hp_dials = dials,
                 hp_hold = holdMedia, hp_busy = busyMedia,
                 hp_attempt = hunt_timeout config ''attempt_timeout_ms'' (Dec 2 4), hp_total = total,
                 hp_start = hs_now st\<rparr> 0 None st))"

end
