(* ===== verification/HuntProperties.thy ===== *)
theory HuntProperties
  imports Hunt
begin

text \<open>
  What a hunt node guarantees.  Each leg is settled by the first event that concerns it, whatever the others
  do (\<open>capture_by_first_event\<close>), and with a finite total time the destinations are dialled a bounded number of
  times.  And what it does not: a leg that is declined waits for its timer, a group is connected only when its
  last leg is settled, and a caller who leaves a ringing group is routed on.
\<close>

section \<open>Waiters of the legs\<close>

text \<open>What an event tells a leg with a token at an index.\<close>

fun leg_result :: "string \<Rightarrow> hunt_event \<Rightarrow> nat \<Rightarrow> string \<Rightarrow> (attempt_status \<times> hunt_channel option) option" where
  "leg_result inbound (HuntEntered t c) k token = (if t = token then Some (AttemptAnswered, Some c) else None)"
| "leg_result inbound (HuntGone i) k token =
     (if i = inbound then Some (AttemptHangup, None) else if i = token then Some (AttemptFailed, None) else None)"
| "leg_result inbound (HuntTimer j) k token = (if j = k then Some (AttemptTimeout, None) else None)"

definition legs_ok :: "hunt_attempt list \<Rightarrow> hunt_store \<Rightarrow> bool" where
  "legs_ok as st \<longleftrightarrow> waiters_ok (hs_waiters st) \<and> distinct (map ha_token as)
     \<and> (\<forall>a \<in> set as. ha_result a = None \<longrightarrow>
          pending id (hs_waiters st) (ha_token a) = Some (ha_promise a) \<and> \<not> ha_timedOut a \<and> \<not> ha_inboundTerminated a)"

lemma legs_ok_waits: "legs_ok as (st\<lparr>hs_waits := n\<rparr>) \<longleftrightarrow> legs_ok as st"
  by (simp add: legs_ok_def)

text \<open>The calls of the manager an event causes.\<close>

definition event_calls :: "string \<Rightarrow> hunt_event \<Rightarrow> hunt_attempt list \<Rightarrow> (string, (hunt_channel, hunt_reason) dial_result) waiter_call list" where
  "event_calls inbound e as =
     (case e of
        HuntEntered t c \<Rightarrow> [Settle t (Answered c)]
      | HuntGone i \<Rightarrow> Settle i (Unanswered HuntDestroyed) # (if i = inbound
          then map (\<lambda>a. Settle (ha_token a) (Unanswered HuntDestroyed)) (filter (\<lambda>a. ha_result a = None) as) else [])
      | HuntTimer k \<Rightarrow> if k < length as \<and> ha_result (as ! k) = None then [Settle (ha_token (as ! k)) (Unanswered HuntFailed)] else [])"

lemma call_settle: "hunts.call (Settle t (Answered c)) w = resolveHuntWaiter t c w"
  "hunts.call (Settle t (Unanswered why)) w = rejectHuntWaiter t why w"
  by (simp_all add: settleHuntWaiter_def)

lemma inbound_gone_calls:
  "fold inbound_gone as w = fold hunts.call (map (\<lambda>a. Settle (ha_token a) (Unanswered HuntDestroyed)) (filter (\<lambda>a. ha_result a = None) as)) w"
  by (induction as arbitrary: w) (simp_all add: inbound_gone_def settleHuntWaiter_def)

lemma no_waiter_resolve: "\<not> hasHuntWaiter t w \<Longrightarrow> resolveHuntWaiter t c w = w"
  by (simp add: hasHuntWaiter_def resolveHuntWaiter_def settle_waiter_def)

lemma event_waiters:
  "hs_waiters (snd (hunt_leg_event inbound e (as, st))) = fold hunts.call (event_calls inbound e as) (hs_waiters st)"
  by (cases e) (auto simp: event_calls_def settleHuntWaiter_def inbound_gone_calls no_waiter_resolve send_hunt_def Let_def)

lemma settled_by:
  assumes "waiters_ok w" and "pending id w k = Some p" and "\<forall>c \<in> set cs. \<exists>j r. c = Settle j r"
  shows "outcome (fold hunts.call cs w) p = map_option (\<lambda>c. case c of Settle j r \<Rightarrow> r) (List.find (\<lambda>c. hunts.names c = k) cs)"
    and "k \<notin> hunts.names ` set cs \<Longrightarrow> pending id (fold hunts.call cs w) k = Some p"
proof -
  show "k \<notin> hunts.names ` set cs \<Longrightarrow> pending id (fold hunts.call cs w) k = Some p"
    using hunts.still_pending [OF assms(1,2)] by blast
  show "outcome (fold hunts.call cs w) p = map_option (\<lambda>c. case c of Settle j r \<Rightarrow> r) (List.find (\<lambda>c. hunts.names c = k) cs)"
    using assms
  proof (induction cs arbitrary: w)
    case Nil
    have "outcome w p = None" using hunts.pending_open [OF Nil(1,2)] by blast
    then show ?case by simp
  next
    case (Cons c cs)
    obtain j r where c: "c = Settle j r" using Cons.prems(3) by auto
    show ?case
    proof (cases "j = k")
      case True
      then have "outcome (hunts.call c w) p = Some r" "waiters_ok (hunts.call c w)"
        using hunts.settle_some [OF Cons.prems(1,2), of r] c by simp_all
      then show ?thesis using hunts.settled_once c True by simp
    next
      case False
      then have "pending id (hunts.call c w) k = Some p"
        using hunts.still_pending [OF Cons.prems(1,2), of "[c]"] c by simp
      from Cons.IH [OF hunts.call_ok [OF Cons.prems(1)] this] show ?thesis using Cons.prems(3) c False by simp
    qed
  qed
qed

text \<open>What the events of one instant do to the list of attempts.\<close>

lemma map_timed_out:
  assumes "\<And>a. f (a\<lparr>ha_timedOut := True\<rparr>) = f a"
  shows "map f (as[k := (as ! k)\<lparr>ha_timedOut := True\<rparr>]) = map f as"
  using assms by (cases "k < length as") (simp_all add: map_update list_update_same_conv not_less list_update_beyond)

lemma event_attempts:
  assumes "\<And>a. f (a\<lparr>ha_timedOut := True\<rparr>) = f a" and "\<And>a. f (a\<lparr>ha_inboundTerminated := True\<rparr>) = f a"
  shows "map f (fst (hunt_leg_event inbound e (as, st))) = map f as"
  using map_timed_out [of f, OF assms(1)] assms(2) by (cases e) (simp_all add: Let_def comp_def)

lemma event_flags:
  assumes "k < length as" and "ha_result (as ! k) = None" "\<not> ha_timedOut (as ! k)" "\<not> ha_inboundTerminated (as ! k)"
  shows "ha_inboundTerminated (fst (hunt_leg_event inbound e (as, st)) ! k) \<longleftrightarrow> e = HuntGone inbound"
    and "ha_timedOut (fst (hunt_leg_event inbound e (as, st)) ! k) \<longleftrightarrow> e = HuntTimer k"
  using assms by (cases e; auto simp: Let_def nth_list_update)+

lemma find_call:
  assumes "k < length as" "ha_result (as ! k) = None" "distinct (map ha_token as)"
  shows "map_option (\<lambda>c. case c of Settle j r \<Rightarrow> r) (List.find (\<lambda>c. hunts.names c = ha_token (as ! k)) (event_calls inbound e as))
    = (case e of
        HuntEntered t c \<Rightarrow> if t = ha_token (as ! k) then Some (Answered c) else None
      | HuntGone i \<Rightarrow> if i = inbound \<or> i = ha_token (as ! k) then Some (Unanswered HuntDestroyed) else None
      | HuntTimer j \<Rightarrow> if j = k then Some (Unanswered HuntFailed) else None)"
proof (cases e)
  case (HuntGone i)
  let ?cs = "map (\<lambda>a. Settle (ha_token a) (Unanswered HuntDestroyed)) (filter (\<lambda>a. ha_result a = None) as)
    :: (string, (hunt_channel, hunt_reason) dial_result) waiter_call list"
  have "\<exists>c \<in> set ?cs. hunts.names c = ha_token (as ! k)" 
    using assms(1,2) nth_mem [OF assms(1)] by (intro bexI [of _ "Settle (ha_token (as ! k)) (Unanswered HuntDestroyed)"]) auto
  then obtain c where c: "List.find (\<lambda>c. hunts.names c = ha_token (as ! k)) ?cs = Some c" "c \<in> set ?cs"
    by (metis (mono_tags, lifting) find_None_iff find_Some_iff nth_mem not_None_eq)
  then obtain t where "c = Settle t (Unanswered HuntDestroyed)" by auto
  with c(1) HuntGone show ?thesis by (simp add: event_calls_def)
next
  case (HuntTimer j)
  then show ?thesis using assms nth_eq_iff_index_eq [OF assms(3), of j k] by (auto simp: event_calls_def)
qed (simp add: event_calls_def)

text \<open>One event settles exactly the legs it concerns, with what it tells them.\<close>

lemma leg_step_effect:
  assumes "legs_ok as st" and "\<not> all_settled as" and "leg_step inbound (d, e) (as, st) = (as', st')"
  shows "legs_ok as' st'" and "map ha_token as' = map ha_token as" and "hs_now st' = hs_now st + d"
    and "k < length as \<Longrightarrow> ha_result (as' ! k)
      = (case ha_result (as ! k) of None \<Rightarrow> leg_result inbound e k (ha_token (as ! k)) | Some r \<Rightarrow> Some r)"
proof -
  let ?st = "st\<lparr>hs_now := hs_now st + d\<rparr>"
  obtain bs st1 where ev: "hunt_leg_event inbound e (as, ?st) = (bs, st1)" by (metis prod.exhaust)
  have eq: "as' = map (settle_attempt (hs_waiters st1)) bs" "st' = st1"
    using assms(2,3) ev by (auto simp: leg_step_def)
  have maps: "map ha_token bs = map ha_token as" "map ha_promise bs = map ha_promise as" "map ha_result bs = map ha_result as"
    using event_attempts [of ha_token inbound e as ?st] event_attempts [of ha_promise inbound e as ?st]
      event_attempts [of ha_result inbound e as ?st] ev by simp_all
  then have len: "length bs = length as" by (metis length_map)
  have nth: "ha_token (bs ! k) = ha_token (as ! k)" "ha_promise (bs ! k) = ha_promise (as ! k)" "ha_result (bs ! k) = ha_result (as ! k)"
    if "k < length as" for k using maps that len by (metis nth_map)+
  have w: "hs_waiters st1 = fold hunts.call (event_calls inbound e as) (hs_waiters st)"
    using event_waiters [of inbound e as ?st] ev by simp
  have ok: "waiters_ok (hs_waiters st)" using assms(1) by (simp add: legs_ok_def)
  then have ok1: "waiters_ok (hs_waiters st1)" using w hunts.calls_ok by simp
  have settles: "\<forall>c \<in> set (event_calls inbound e as). \<exists>j r. c = Settle j r" by (cases e) (auto simp: event_calls_def)
  have open_leg: "pending id (hs_waiters st) (ha_token (as ! k)) = Some (ha_promise (as ! k))" "\<not> ha_timedOut (as ! k)" "\<not> ha_inboundTerminated (as ! k)"
    if "k < length as" "ha_result (as ! k) = None" for k
    using assms(1) that nth_mem by (auto simp: legs_ok_def)
  have distinct: "distinct (map ha_token as)" using assms(1) by (simp add: legs_ok_def)
  have out: "outcome (hs_waiters st1) (ha_promise (as ! k)) = (case e of
        HuntEntered t c \<Rightarrow> if t = ha_token (as ! k) then Some (Answered c) else None
      | HuntGone i \<Rightarrow> if i = inbound \<or> i = ha_token (as ! k) then Some (Unanswered HuntDestroyed) else None
      | HuntTimer j \<Rightarrow> if j = k then Some (Unanswered HuntFailed) else None)"
    if "k < length as" "ha_result (as ! k) = None" for k
    unfolding w settled_by(1) [OF ok open_leg(1) [OF that] settles] find_call [OF that distinct] ..
  have flags: "ha_inboundTerminated (bs ! k) \<longleftrightarrow> e = HuntGone inbound" "ha_timedOut (bs ! k) \<longleftrightarrow> e = HuntTimer k"
    if "k < length as" "ha_result (as ! k) = None" for k
    using event_flags [OF that open_leg(2,3) [OF that], of inbound e ?st] ev by simp_all
  have result: "ha_result (as' ! k)
      = (case ha_result (as ! k) of None \<Rightarrow> leg_result inbound e k (ha_token (as ! k)) | Some r \<Rightarrow> Some r)"
    if k: "k < length as" for k
  proof (cases "ha_result (as ! k)")
    case None
    have "as' ! k = settle_attempt (hs_waiters st1) (bs ! k)" using k len eq(1) by simp
    moreover have "ha_result (bs ! k) = None" "ha_promise (bs ! k) = ha_promise (as ! k)" using nth [OF k] None by simp_all
    ultimately show ?thesis using None out [OF k None] flags [OF k None]
      by (cases e) (auto simp: settle_attempt_def split: if_splits)
  next
    case (Some r)
    then show ?thesis using k len eq(1) nth [OF k] by (simp add: settle_attempt_def)
  qed
  show "k < length as \<Longrightarrow> ha_result (as' ! k)
      = (case ha_result (as ! k) of None \<Rightarrow> leg_result inbound e k (ha_token (as ! k)) | Some r \<Rightarrow> Some r)" by (rule result)
  have tok: "ha_token (settle_attempt v a) = ha_token a" "ha_promise (settle_attempt v a) = ha_promise a"
    "ha_timedOut (settle_attempt v a) = ha_timedOut a" "ha_inboundTerminated (settle_attempt v a) = ha_inboundTerminated a" for v a
    by (simp_all add: settle_attempt_def split: option.split)
  show tokens: "map ha_token as' = map ha_token as" using maps(1) by (simp add: eq(1) comp_def tok)
  show "hs_now st' = hs_now st + d" using ev eq(2) by (cases e) (auto simp: send_hunt_def Let_def split: if_splits)
  have "pending id (hs_waiters st') (ha_token a) = Some (ha_promise a) \<and> \<not> ha_timedOut a \<and> \<not> ha_inboundTerminated a"
    if "a \<in> set as'" "ha_result a = None" for a
  proof -
    obtain k where k: "k < length as'" "a = as' ! k" using \<open>a \<in> set as'\<close> by (metis in_set_conv_nth)
    then have k': "k < length as" using len eq(1) by simp
    have none: "ha_result (as ! k) = None" "leg_result inbound e k (ha_token (as ! k)) = None"
      using result [OF k'] that(2) k(2) by (auto split: option.splits)
    have a: "ha_token a = ha_token (as ! k)" "ha_promise a = ha_promise (as ! k)"
      "ha_timedOut a = ha_timedOut (bs ! k)" "ha_inboundTerminated a = ha_inboundTerminated (bs ! k)"
      using k k' len eq(1) nth [OF k'] by (simp_all add: tok)
    have "outcome (hs_waiters st1) (ha_promise (as ! k)) = None"
      using out [OF k' none(1)] none(2) by (cases e) (auto split: if_splits)
    then have "List.find (\<lambda>c. hunts.names c = ha_token (as ! k)) (event_calls inbound e as) = None"
      using settled_by(1) [OF ok open_leg(1) [OF k' none(1)] settles] w by simp
    then have "ha_token (as ! k) \<notin> hunts.names ` set (event_calls inbound e as)" by (auto simp: find_None_iff)
    from settled_by(2) [OF ok open_leg(1) [OF k' none(1)] settles this]
    have "pending id (hs_waiters st1) (ha_token (as ! k)) = Some (ha_promise (as ! k))" using w by simp
    moreover have "\<not> ha_timedOut (bs ! k)" "\<not> ha_inboundTerminated (bs ! k)"
      using flags [OF k' none(1)] none(2) by auto
    ultimately show ?thesis using a eq(2) by simp
  qed
  then show "legs_ok as' st'" using ok1 distinct tokens eq(2) by (simp add: legs_ok_def)
qed

section \<open>A wait for legs\<close>

text \<open>The first event that concerns a leg: the time until it and what it tells the leg.\<close>

fun leg_outcome :: "string \<Rightarrow> (nat \<times> hunt_event) list \<Rightarrow> nat \<Rightarrow> string \<Rightarrow> (nat \<times> attempt_status \<times> hunt_channel option) option" where
  "leg_outcome inbound [] k token = None"
| "leg_outcome inbound ((d, e) # es) k token =
     (case leg_result inbound e k token of
        Some r \<Rightarrow> Some (d, r)
      | None \<Rightarrow> map_option (\<lambda>(t, r). (d + t, r)) (leg_outcome inbound es k token))"

lemma later_result [simp]: "map_option snd (map_option (\<lambda>(t, r). (d + t, r)) x) = map_option snd x"
  by (cases x) auto

lemma all_settled_nth: "all_settled as \<longleftrightarrow> (\<forall>k < length as. ha_result (as ! k) \<noteq> None)"
  by (simp add: all_settled_def list_all_length)

lemma settled_stays: "all_settled as \<Longrightarrow> fold (leg_step inbound) evs (as, st) = (as, st)"
  by (induction evs) (simp_all add: leg_step_def)

lemma legs_results:
  assumes "legs_ok as st" and "fold (leg_step inbound) evs (as, st) = (as', st')"
  shows "legs_ok as' st' \<and> map ha_token as' = map ha_token as
    \<and> (\<forall>k < length as. ha_result (as' ! k) = (case ha_result (as ! k) of
         None \<Rightarrow> map_option snd (leg_outcome inbound evs k (ha_token (as ! k))) | Some r \<Rightarrow> Some r))"
  using assms
proof (induction evs arbitrary: as st)
  case Nil
  then show ?case by (auto split: option.split)
next
  case (Cons x evs)
  obtain d e where x: "x = (d, e)" by (cases x)
  show ?case
  proof (cases "all_settled as")
    case True
    then have "as' = as" "st' = st" using settled_stays [OF True, of inbound "x # evs" st] Cons.prems(2) by simp_all
    then show ?thesis using True Cons.prems(1) by (auto simp: all_settled_nth)
  next
    case False
    obtain bs st1 where s: "leg_step inbound (d, e) (as, st) = (bs, st1)" by (metis prod.exhaust)
    note effect = leg_step_effect [OF Cons.prems(1) False s]
    have len: "length bs = length as" using effect(2) by (metis length_map)
    have tok: "ha_token (bs ! k) = ha_token (as ! k)" if "k < length as" for k using effect(2) that len by (metis nth_map)
    have "fold (leg_step inbound) evs (bs, st1) = (as', st')" using Cons.prems(2) x s by simp
    from Cons.IH [OF effect(1) this] show ?thesis
      using effect(2,4) len tok by (auto simp: x split: option.splits)
  qed
qed

lemma legs_time:
  assumes "legs_ok as st" and "fold (leg_step inbound) evs (as, st) = (as', st')" and "all_settled as'"
  shows "(all_settled as \<and> hs_now st' = hs_now st \<or>
      (\<exists>k < length as. \<exists>r. ha_result (as ! k) = None \<and> leg_outcome inbound evs k (ha_token (as ! k)) = Some (hs_now st' - hs_now st, r)))
    \<and> hs_now st \<le> hs_now st'
    \<and> (\<forall>k < length as. \<forall>t r. ha_result (as ! k) = None \<longrightarrow> leg_outcome inbound evs k (ha_token (as ! k)) = Some (t, r) \<longrightarrow> hs_now st + t \<le> hs_now st')"
  using assms
proof (induction evs arbitrary: as st)
  case Nil
  then show ?case by (auto simp: all_settled_nth)
next
  case (Cons x evs)
  obtain d e where x: "x = (d, e)" by (cases x)
  show ?case
  proof (cases "all_settled as")
    case True
    then have "as' = as" "st' = st" using settled_stays [OF True, of inbound "x # evs" st] Cons.prems(2) by simp_all
    then show ?thesis using True by (auto simp: all_settled_nth)
  next
    case False
    obtain bs st1 where s: "leg_step inbound (d, e) (as, st) = (bs, st1)" by (metis prod.exhaust)
    note effect = leg_step_effect [OF Cons.prems(1) False s]
    have len: "length bs = length as" using effect(2) by (metis length_map)
    have tok: "ha_token (bs ! k) = ha_token (as ! k)" if "k < length as" for k using effect(2) that len by (metis nth_map)
    have rest: "fold (leg_step inbound) evs (bs, st1) = (as', st')" using Cons.prems(2) x s by simp
    note IH = Cons.IH [OF effect(1) rest Cons.prems(3)]
    have bound: "hs_now st + t \<le> hs_now st'"
      if k: "k < length as" "ha_result (as ! k) = None" "leg_outcome inbound (x # evs) k (ha_token (as ! k)) = Some (t, r)" for k t r
    proof (cases "leg_result inbound e k (ha_token (as ! k))")
      case None
      then obtain t' where t': "leg_outcome inbound evs k (ha_token (as ! k)) = Some (t', r)" "t = d + t'" using k(3) x by auto
      have "ha_result (bs ! k) = None" using effect(4) [OF k(1)] k(2) None by simp
      then have "hs_now st1 + t' \<le> hs_now st'" using IH k(1) len tok [OF k(1)] t'(1) by auto
      then show ?thesis using effect(3) t'(2) by simp
    next
      case (Some r')
      then show ?thesis using IH effect(3) k(3) x by auto
    qed
    have attained: "\<exists>k < length as. \<exists>r. ha_result (as ! k) = None
        \<and> leg_outcome inbound (x # evs) k (ha_token (as ! k)) = Some (hs_now st' - hs_now st, r)"
    proof (cases "all_settled bs")
      case True
      then have now: "hs_now st' = hs_now st + d" using settled_stays [OF True, of inbound evs st1] rest effect(3) by simp
      obtain k where k: "k < length as" "ha_result (as ! k) = None" using False unfolding all_settled_nth by blast
      have "ha_result (bs ! k) \<noteq> None" using True k(1) len unfolding all_settled_nth by simp
      then obtain r where "leg_result inbound e k (ha_token (as ! k)) = Some r"
        using effect(4) [OF k(1)] k(2) by auto
      then show ?thesis using k now x by (intro exI [of _ k] conjI exI [of _ r]) simp_all
    next
      case False
      then obtain k r where k: "k < length bs" "ha_result (bs ! k) = None"
        "leg_outcome inbound evs k (ha_token (bs ! k)) = Some (hs_now st' - hs_now st1, r)" using IH by auto
      then have "ha_result (as ! k) = None" "leg_result inbound e k (ha_token (as ! k)) = None"
        using effect(4) [of k] len by (auto split: option.splits)
      moreover have "d + (hs_now st' - hs_now st1) = hs_now st' - hs_now st" using effect(3) IH by simp
      ultimately show ?thesis using k len tok x by auto
    qed
    have "hs_now st \<le> hs_now st'" using IH effect(3) by simp
    with bound attained show ?thesis by blast
  qed
qed

section \<open>Dialling the legs\<close>

definition accepts_dials :: "hunt_env \<Rightarrow> bool" where
  "accepts_dials env \<longleftrightarrow> (\<forall>e a c t i st. hv_reject env (HuntDialed e a c t i) st = None)"

definition leg_token :: "hunt_env \<Rightarrow> string \<Rightarrow> nat \<Rightarrow> nat \<Rightarrow> string" where
  "leg_token env inbound now draw = inbound @ ''-'' @ show_nat now @ ''-'' @ hv_suffix env draw"

lemma originate_legs_ok:
  assumes "originate_legs env inbound timeoutMs es st = (as, st1)" and "waiters_ok (hs_waiters st)" and "accepts_dials env" and "inj (hv_suffix env)"
  shows "legs_ok as st1 \<and> map ha_token as = map (leg_token env inbound (hs_now st)) [hs_draws st..<hs_draws st + length es]
    \<and> (\<forall>a \<in> set as. ha_result a = None \<and> ha_channelId a = ''hunt-leg-'' @ ha_token a @ ''-'' @ show_nat (hs_now st))
    \<and> (\<forall>k p. k \<notin> set (map ha_token as) \<longrightarrow> pending id (hs_waiters st) k = Some p \<longrightarrow> pending id (hs_waiters st1) k = Some p)
    \<and> hs_now st1 = hs_now st \<and> hs_waits st1 = hs_waits st"
  using assms(1,2)
proof (induction es arbitrary: st as)
  case Nil
  then show ?case by (auto simp: legs_ok_def)
next
  case (Cons e es)
  let ?token = "leg_token env inbound (hs_now st) (hs_draws st)"
  obtain p w where reg: "registerHuntWaiter ?token (hs_waiters st) = (p, w)" by (metis prod.exhaust)
  let ?a = "\<lparr>ha_token = ?token, ha_channelId = ''hunt-leg-'' @ ?token @ ''-'' @ show_nat (hs_now st), ha_promise = p,
    ha_timedOut = False, ha_inboundTerminated = False, ha_result = None\<rparr>"
  obtain st2 where leg: "originate_leg env inbound timeoutMs e st = (?a, st2)" "hs_waiters st2 = w" "hs_now st2 = hs_now st"
    "hs_draws st2 = hs_draws st + 1" "hs_waits st2 = hs_waits st"
    using reg assms(3) by (auto simp: originate_leg_def leg_token_def accepts_dials_def send_hunt_def Let_def)
  obtain bs where bs: "originate_legs env inbound timeoutMs es st2 = (bs, st1)" "as = ?a # bs"
    using Cons.prems(1) leg(1) by (auto split: prod.splits)
  note new = hunts.reg_new [OF Cons.prems(2) reg]
  have ok2: "waiters_ok (hs_waiters st2)" using new leg(2) by simp
  have IH: "legs_ok bs st1" "map ha_token bs = map (leg_token env inbound (hs_now st)) [hs_draws st + 1..<hs_draws st + 1 + length es]"
    "\<forall>a \<in> set bs. ha_result a = None \<and> ha_channelId a = ''hunt-leg-'' @ ha_token a @ ''-'' @ show_nat (hs_now st)"
    "\<forall>k p. k \<notin> set (map ha_token bs) \<longrightarrow> pending id w k = Some p \<longrightarrow> pending id (hs_waiters st1) k = Some p"
    "hs_now st1 = hs_now st" "hs_waits st1 = hs_waits st"
    using Cons.IH [OF bs(1) ok2] unfolding leg(2-5) by blast+
  have fresh: "?token \<notin> set (map ha_token bs)"
    using assms(4) unfolding IH(2) by (auto simp: leg_token_def dest: injD)
  have "pending id (hs_waiters st1) ?token = Some p" using IH(4) fresh new by simp
  then have ok: "legs_ok as st1" using IH(1) fresh bs(2) by (simp add: legs_ok_def)
  have older: "pending id (hs_waiters st1) k = Some q"
    if "k \<notin> set (map ha_token as)" "pending id (hs_waiters st) k = Some q" for k q
  proof -
    have "pending id w k = Some q" using that bs(2) new by simp
    then show ?thesis using IH(4) that(1) bs(2) by simp
  qed
  have tokens: "map ha_token as = map (leg_token env inbound (hs_now st)) [hs_draws st..<hs_draws st + length (e # es)]"
    using IH(2) bs(2) by (simp add: upt_conv_Cons del: upt_Suc)
  have each: "\<forall>a \<in> set as. ha_result a = None \<and> ha_channelId a = ''hunt-leg-'' @ ha_token a @ ''-'' @ show_nat (hs_now st)"
    using IH(3) bs(2) by simp
  show ?case by (intro conjI allI impI ok tokens each older IH(5,6))
qed

lemma leg_step_ids: "map ha_channelId (fst (leg_step inbound x c)) = map ha_channelId (fst c)"
proof (cases "all_settled (fst c)")
  case False
  obtain as st where ev: "hunt_leg_event inbound (snd x) (fst c, (snd c)\<lparr>hs_now := hs_now (snd c) + fst x\<rparr>) = (as, st)" by (metis prod.exhaust)
  have "map ha_channelId as = map ha_channelId (fst c)"
    using event_attempts [of ha_channelId inbound "snd x" "fst c" "(snd c)\<lparr>hs_now := hs_now (snd c) + fst x\<rparr>"] ev by simp
  moreover have "ha_channelId (settle_attempt w a) = ha_channelId a" for w a by (simp add: settle_attempt_def split: option.split)
  ultimately show ?thesis using False ev by (simp add: leg_step_def comp_def)
qed (simp add: leg_step_def)

lemma legs_ids: "map ha_channelId (fst (fold (leg_step inbound) evs c)) = map ha_channelId (fst c)"
  by (induction evs arbitrary: c) (simp_all add: leg_step_ids)

text \<open>The legs of a wait that is not given up.\<close>

lemma capture_run:
  assumes "waiters_ok (hs_waiters st)" and "accepts_dials env" and "inj (hv_suffix env)"
  obtains as st' where "capture_legs env inbound timeoutMs dials st = (if all_settled as then Some (as, st') else None)"
    "length as = length dials" "waiters_ok (hs_waiters st')"
    "\<And>k. k < length dials \<Longrightarrow> ha_result (as ! k)
       = map_option snd (leg_outcome inbound (hv_legs env (hs_waits st)) k (leg_token env inbound (hs_now st) (hs_draws st + k)))"
    "\<And>k. k < length dials \<Longrightarrow> ha_channelId (as ! k)
       = ''hunt-leg-'' @ leg_token env inbound (hs_now st) (hs_draws st + k) @ ''-'' @ show_nat (hs_now st)"
    "all_settled as \<Longrightarrow> hs_now st \<le> hs_now st'"
    "all_settled as \<Longrightarrow> dials = [] \<and> hs_now st' = hs_now st \<or> (\<exists>k < length dials. \<exists>r.
       leg_outcome inbound (hv_legs env (hs_waits st)) k (leg_token env inbound (hs_now st) (hs_draws st + k)) = Some (hs_now st' - hs_now st, r))"
    "\<And>k t r. all_settled as \<Longrightarrow> k < length dials \<Longrightarrow> leg_outcome inbound (hv_legs env (hs_waits st)) k (leg_token env inbound (hs_now st) (hs_draws st + k)) = Some (t, r)
       \<Longrightarrow> hs_now st + t \<le> hs_now st'"
proof -
  obtain as1 st1 where o1: "originate_legs env inbound timeoutMs dials st = (as1, st1)" by (metis prod.exhaust)
  note start = originate_legs_ok [OF o1 assms]
  obtain as st' where f: "fold (leg_step inbound) (hv_legs env (hs_waits st)) (as1, st1\<lparr>hs_waits := hs_waits st1 + 1\<rparr>) = (as, st')"
    by (metis prod.exhaust)
  have ok: "legs_ok as1 (st1\<lparr>hs_waits := hs_waits st1 + 1\<rparr>)"
    using start by (metis legs_ok_waits)
  have maps: "map ha_token as1 = map (leg_token env inbound (hs_now st)) [hs_draws st..<hs_draws st + length dials]" using start by blast
  then have len1: "length as1 = length dials" by (metis length_map length_upt add_diff_cancel_left')
  have tok: "ha_token (as1 ! k) = leg_token env inbound (hs_now st) (hs_draws st + k)" if "k < length dials" for k
    using arg_cong [OF maps, of "\<lambda>xs. xs ! k"] that len1 by simp
  have none: "ha_result (as1 ! k) = None" "ha_channelId (as1 ! k) = ''hunt-leg-'' @ ha_token (as1 ! k) @ ''-'' @ show_nat (hs_now st)"
    if "k < length dials" for k using start that len1 nth_mem by metis+
  note res = legs_results [OF ok f]
  have len: "length as = length dials" using res len1 by (metis length_map)
  have ids: "ha_channelId (as ! k) = ha_channelId (as1 ! k)" if "k < length dials" for k
  proof -
    have "map ha_channelId as = map ha_channelId as1" using legs_ids [of inbound "hv_legs env (hs_waits st)" "(as1, st1\<lparr>hs_waits := hs_waits st1 + 1\<rparr>)"] f by simp
    then show ?thesis using that len len1 by (metis nth_map)
  qed
  note time = legs_time [OF ok f]
  have now: "hs_now (st1\<lparr>hs_waits := hs_waits st1 + 1\<rparr>) = hs_now st" using start by simp
  show thesis
  proof (rule that [of as st'])
    show "capture_legs env inbound timeoutMs dials st = (if all_settled as then Some (as, st') else None)"
      using o1 f start by (simp add: capture_legs_def)
    show "length as = length dials" by (rule len)
    show "waiters_ok (hs_waiters st')" using res by (simp add: legs_ok_def)
    show "ha_result (as ! k) = map_option snd (leg_outcome inbound (hv_legs env (hs_waits st)) k (leg_token env inbound (hs_now st) (hs_draws st + k)))"
      if "k < length dials" for k using res that len1 none(1) [OF that] tok [OF that] by auto
    show "ha_channelId (as ! k) = ''hunt-leg-'' @ leg_token env inbound (hs_now st) (hs_draws st + k) @ ''-'' @ show_nat (hs_now st)"
      if "k < length dials" for k using ids [OF that] none(2) [OF that] tok [OF that] by simp
    show "hs_now st \<le> hs_now st'" if "all_settled as" using time [OF that] now by simp
    show "dials = [] \<and> hs_now st' = hs_now st \<or> (\<exists>k < length dials. \<exists>r.
       leg_outcome inbound (hv_legs env (hs_waits st)) k (leg_token env inbound (hs_now st) (hs_draws st + k)) = Some (hs_now st' - hs_now st, r))"
      if all: "all_settled as"
    proof (cases "dials = []")
      case True
      then show ?thesis using time [OF all] now len1 by auto
    next
      case False
      then have "\<not> all_settled as1" using none(1) [of 0] len1 by (auto simp: all_settled_nth)
      then obtain k r where "k < length dials" "leg_outcome inbound (hv_legs env (hs_waits st)) k (ha_token (as1 ! k)) = Some (hs_now st' - hs_now st, r)"
        using time [OF all] len1 unfolding now by auto
      then show ?thesis using tok by auto
    qed
    show "hs_now st + t \<le> hs_now st'"
      if "all_settled as" "k < length dials"
        "leg_outcome inbound (hv_legs env (hs_waits st)) k (leg_token env inbound (hs_now st) (hs_draws st + k)) = Some (t, r)" for k t r
      using time [OF that(1)] that(2,3) none(1) [OF that(2)] tok [OF that(2)] len1 unfolding now by auto
  qed
qed

text \<open>C32: A wait for the legs of a group lasts until the last leg is settled; each leg is settled by the first
  event that concerns it, whatever happens to the other legs.\<close>

theorem capture_by_first_event:
  assumes "capture_legs env inbound timeoutMs dials st = Some (as, st')" and "dials \<noteq> []"
    and "waiters_ok (hs_waiters st)" and "accepts_dials env" and "inj (hv_suffix env)"
  shows "length as = length dials
    \<and> (\<forall>k < length dials. \<exists>t r. leg_outcome inbound (hv_legs env (hs_waits st)) k (leg_token env inbound (hs_now st) (hs_draws st + k)) = Some (t, r)
         \<and> ha_result (as ! k) = Some r \<and> hs_now st + t \<le> hs_now st')
    \<and> (\<exists>k < length dials. \<exists>r. leg_outcome inbound (hv_legs env (hs_waits st)) k (leg_token env inbound (hs_now st) (hs_draws st + k))
         = Some (hs_now st' - hs_now st, r))"
proof (rule capture_run [OF assms(3-5), of inbound timeoutMs dials], goal_cases)
  case (1 bs su)
  have settled: "all_settled bs" "bs = as" "su = st'" using 1(1) assms(1) by (auto split: if_splits)
  have "\<exists>t r. leg_outcome inbound (hv_legs env (hs_waits st)) k (leg_token env inbound (hs_now st) (hs_draws st + k)) = Some (t, r)
         \<and> ha_result (as ! k) = Some r \<and> hs_now st + t \<le> hs_now st'" if k: "k < length dials" for k
  proof -
    have "ha_result (as ! k) \<noteq> None" using settled 1(2) k by (auto simp: all_settled_nth)
    then obtain t r where "leg_outcome inbound (hv_legs env (hs_waits st)) k (leg_token env inbound (hs_now st) (hs_draws st + k)) = Some (t, r)"
      "ha_result (as ! k) = Some r" using 1(4) [OF k] settled by (cases "leg_outcome inbound (hv_legs env (hs_waits st)) k (leg_token env inbound (hs_now st) (hs_draws st + k))") auto
    then show ?thesis using 1(8) [OF settled(1) k] settled by auto
  qed
  then show ?case using 1(2) 1(7) [OF settled(1)] settled assms(2) by auto
qed

section \<open>Legs that are declined\<close>

lemma declined_outcome:
  assumes "own \<noteq> inbound" "own \<noteq> token"
  shows "leg_outcome inbound (map (\<lambda>t. (t, HuntGone own)) ts @ (d, HuntTimer k) # rest) k token = Some (sum_list ts + d, AttemptTimeout, None)"
  using assms by (induction ts) simp_all

text \<open>C34: The end of a leg that was declined or is busy does not settle its attempt, because waiters are
  registered by token and rejected by channel: the attempt ends when its timer fires.\<close>

theorem declined_leg_waits:
  assumes "waiters_ok (hs_waiters st)" and "accepts_dials env" and "inj (hv_suffix env)"
    and "own = ''hunt-leg-'' @ leg_token env inbound (hs_now st) (hs_draws st) @ ''-'' @ show_nat (hs_now st)"
    and "hv_legs env (hs_waits st) = map (\<lambda>t. (t, HuntGone own)) ts @ (d, HuntTimer 0) # rest"
  shows "\<exists>a st'. capture_legs env inbound timeoutMs [dial] st = Some ([a], st') \<and> ha_channelId a = own
    \<and> ha_result a = Some (AttemptTimeout, None) \<and> hs_now st' = hs_now st + sum_list ts + d"
proof (rule capture_run [OF assms(1-3), of inbound timeoutMs "[dial]"], goal_cases)
  case (1 as st')
  let ?token = "leg_token env inbound (hs_now st) (hs_draws st)"
  have "length inbound < length own" "length ?token < length own" by (simp_all add: assms(4) leg_token_def)
  then have o1: "leg_outcome inbound (hv_legs env (hs_waits st)) 0 ?token = Some (sum_list ts + d, AttemptTimeout, None)"
    unfolding assms(5) by (intro declined_outcome) auto
  have r: "ha_result (as ! 0) = Some (AttemptTimeout, None)" "ha_channelId (as ! 0) = own"
    using 1(4,5) [of 0] o1 assms(4) by simp_all
  obtain a where a: "as = [a]" using 1(2) by (auto simp: length_Suc_conv)
  then have settled: "all_settled as" using r by (simp add: all_settled_def)
  have "hs_now st' - hs_now st = sum_list ts + d" using 1(7) [OF settled] o1 by auto
  then have "hs_now st' = hs_now st + sum_list ts + d" using 1(6) [OF settled] by simp
  then show ?case using 1(1) settled r a by auto
qed

section \<open>A group the caller leaves\<close>

lemma hold_keeps [simp]:
  "hs_waiters (startHold env m st) = hs_waiters st" "hs_now (startHold env m st) = hs_now st"
  "hs_waits (startHold env m st) = hs_waits st" "hs_draws (startHold env m st) = hs_draws st"
  "hs_inboundEnded (startHold env m st) = hs_inboundEnded st" "hs_session (startHold env m st) = hs_session st"
  "hs_waiters (stopHold st) = hs_waiters st" "hs_now (stopHold st) = hs_now st" "hs_inboundEnded (stopHold st) = hs_inboundEnded st"
  by (simp_all add: startHold_def stopHold_def send_hunt_def split: option.split hunt_hold.split)

lemma gone_first:
  assumes "capture_legs env inbound timeoutMs dials st = Some (as, st')" and "hv_legs env (hs_waits st) = (d, HuntGone inbound) # rest"
    and "dials \<noteq> []" "waiters_ok (hs_waiters st)" "accepts_dials env" "inj (hv_suffix env)"
  shows "hs_inboundEnded st'"
proof -
  obtain as1 st1 where o1: "originate_legs env inbound timeoutMs dials st = (as1, st1)" by (metis prod.exhaust)
  note start = originate_legs_ok [OF o1 assms(4-6)]
  then have "length as1 = length dials" by (metis length_map length_upt add_diff_cancel_left')
  then obtain a where a: "a \<in> set as1" "ha_result a = None" using start assms(3) by (cases as1) auto
  then have unsettled: "\<not> all_settled as1" unfolding all_settled_def list_all_iff by blast
  let ?st1 = "st1\<lparr>hs_waits := hs_waits st1 + 1\<rparr>"
  obtain bs st2 where s: "leg_step inbound (d, HuntGone inbound) (as1, ?st1) = (bs, st2)" by (metis prod.exhaust)
  have ok: "legs_ok as1 ?st1" using start by (metis legs_ok_waits)
  note effect = leg_step_effect [OF ok unsettled s]
  have "all_settled bs" unfolding all_settled_nth
  proof (intro allI impI)
    fix k assume "k < length bs"
    then have "k < length as1" using effect(2) by (metis length_map)
    from effect(4) [OF this] show "ha_result (bs ! k) \<noteq> None" by (auto split: option.splits)
  qed
  then have "(as, st') = (bs, st2)"
    using assms(1,2) o1 s start settled_stays [of bs inbound rest st2] by (auto simp: capture_legs_def)
  then show ?thesis using s unsettled by (auto simp: leg_step_def Let_def)
qed

text \<open>When the caller hangs up while the legs of a group ring, the node does not return \<open>hangup\<close>: it
  routes the call to the node for unanswered calls.\<close>

theorem left_group_routed:
  assumes "hunt_strategy (n_config node) = ''group''" and "s_inboundBridge (hs_session st) = Some bridge" "bridge \<noteq> []"
    and "resolveDestinations env (ordered_destinations (n_config node)) \<noteq> []"
    and "resolveOptionalBridgeMedia env (n_config node) ''hold_audio_file_id'' ''hold_audio_file_path'' st = Inr hold"
    and "resolveOptionalBridgeMedia env (n_config node) ''busy_audio_file_id'' ''busy_audio_file_path'' st = Inr busy"
    and "hv_legs env (hs_waits st) = (d, HuntGone (s_channelId (hs_session st))) # rest"
    and "waiters_ok (hs_waiters st)" "accepts_dials env" "inj (hv_suffix env)"
  shows "\<exists>st'. executeHunt env node st = Some (Inr (noAnswerResult (n_config node)), st') \<and> hs_inboundEnded st'"
proof -
  let ?inbound = "s_channelId (hs_session st)"
  let ?dials = "map snd (resolveDestinations env (ordered_destinations (n_config node)))"
  let ?total = "hunt_timeout (n_config node) ''total_timeout_ms'' (Dec 6 4)"
  have w: "waiters_ok (hs_waiters (startHold env hold st))" using assms(8) by simp
  show ?thesis
  proof (rule capture_run [OF w assms(9,10), of ?inbound ?total ?dials], goal_cases)
    case (1 as st1)
    have gone: "ha_result (as ! k) = Some (AttemptHangup, None)" if "k < length ?dials" for k
      using 1(4) [OF that] assms(7) by simp
    then have settled: "all_settled as" using 1(2) by (simp add: all_settled_nth)
    have none: "answered_channels as = []"
      using gone 1(2) by (auto simp: answered_channels_def List.map_filter_def filter_empty_conv in_set_conv_nth)
    have cap: "capture_legs env ?inbound ?total ?dials (startHold env hold st) = Some (as, st1)" using 1(1) settled by simp
    have "hs_inboundEnded st1"
      by (rule gone_first [OF cap _ _ w assms(9,10)]) (use assms(4,7) in simp_all)
    then show ?case using assms(1-6) cap none by (simp add: executeHunt_def Let_def hunt_group_def hunt_failure_def)
  qed
qed

section \<open>The end of the hunt\<close>

text \<open>
  Every wait for legs lasts at least a millisecond and until its timer at the latest; a playback and a call
  come to an end.
\<close>

definition waits_end :: "hunt_env \<Rightarrow> string \<Rightarrow> bool" where
  "waits_end env inbound \<longleftrightarrow>
     accepts_dials env \<and> inj (hv_suffix env)
     \<and> (\<forall>k. HuntTimer 0 \<in> snd ` set (hv_legs env k) \<and> (\<forall>x \<in> set (hv_legs env k). 0 < fst x))
     \<and> inbound \<in> snd ` set (hv_ends env)
     \<and> (\<forall>k. PlaybackDone (Some (fst (hv_busy env k))) \<in> snd ` set (snd (hv_busy env k)))"

fun is_dialled :: "hunt_request \<Rightarrow> bool" where
  "is_dialled (HuntDialed e a c t i) = True"
| "is_dialled _ = False"

definition dials_sent :: "hunt_store \<Rightarrow> nat" where
  "dials_sent st = length (filter is_dialled (hs_requests st))"

definition same_dials :: "hunt_store \<Rightarrow> hunt_store \<Rightarrow> bool" where
  "same_dials st st' \<longleftrightarrow> dials_sent st' = dials_sent st \<and> hs_now st \<le> hs_now st' \<and> hs_waiters st' = hs_waiters st"

lemma same_dials_refl [simp]: "same_dials st st"
  by (simp add: same_dials_def)

lemma same_dials_trans: "same_dials a b \<Longrightarrow> same_dials b c \<Longrightarrow> same_dials a c"
  by (simp add: same_dials_def)

lemma dials_request [simp]: "dials_sent (send_hunt r st) = dials_sent st + (if is_dialled r then 1 else 0)"
  by (simp add: dials_sent_def send_hunt_def)

lemma dials_fields [simp]:
  "dials_sent (st\<lparr>hs_now := a\<rparr>) = dials_sent st" "dials_sent (st\<lparr>hs_session := b\<rparr>) = dials_sent st" "dials_sent (st\<lparr>hs_waiters := c\<rparr>) = dials_sent st"
  "dials_sent (st\<lparr>hs_http := d\<rparr>) = dials_sent st" "dials_sent (st\<lparr>hs_hold := e\<rparr>) = dials_sent st" "dials_sent (st\<lparr>hs_pending := f\<rparr>) = dials_sent st"
  "dials_sent (st\<lparr>hs_inboundEnded := g\<rparr>) = dials_sent st" "dials_sent (st\<lparr>hs_draws := h\<rparr>) = dials_sent st"
  "dials_sent (st\<lparr>hs_waits := i\<rparr>) = dials_sent st" "dials_sent (st\<lparr>hs_plays := j\<rparr>) = dials_sent st"
  by (simp_all add: dials_sent_def)

lemma request_fields [simp]: "hs_now (send_hunt r st) = hs_now st" "hs_waiters (send_hunt r st) = hs_waiters st"
  by (simp_all add: send_hunt_def)

lemma hold_dials [simp]: "dials_sent (startHold env m st) = dials_sent st" "dials_sent (stopHold st) = dials_sent st"
  by (simp_all add: startHold_def stopHold_def split: option.split hunt_hold.split)

lemma hangups_same: "same_dials st (hangupChannels cs keep st)"
proof -
  have "same_dials st (fold (\<lambda>c. send_hunt (HuntHangup (hc_id c))) xs st)" for xs
  proof (induction xs arbitrary: st)
    case (Cons x xs)
    have "same_dials st (send_hunt (HuntHangup (hc_id x)) st)" by (simp add: same_dials_def)
    from same_dials_trans [OF this Cons.IH] show ?case by simp
  qed simp
  then show ?thesis by (simp add: hangupChannels_def)
qed

lemma drop_pending_same: "same_dials st (drop_pending (stopHold st))"
  using hangups_same [of "stopHold st" "hs_pending (stopHold st)" None] by (simp add: drop_pending_def same_dials_def)

lemma play_returns:
  "PlaybackDone (Some p) \<in> snd ` set es \<Longrightarrow> \<exists>r st'. play_events p inbound es st = Some (r, st') \<and> same_dials st st'"
proof (induction es arbitrary: st)
  case (Cons x es)
  obtain d e where x: "x = (d, e)" by (cases x)
  let ?st = "st\<lparr>hs_now := hs_now st + d, hs_inboundEnded := (hs_inboundEnded st \<or> e = PlaybackGone (Some inbound))\<rparr>"
  have s: "same_dials st ?st" by (simp add: same_dials_def)
  show ?case
  proof (cases "waitForPlaybackFinished p inbound e None")
    case None
    then have "PlaybackDone (Some p) \<in> snd ` set es" using Cons.prems x by (auto simp: waitForPlaybackFinished_def)
    from Cons.IH [OF this, of ?st] None x same_dials_trans [OF s] show ?thesis by (auto simp: Let_def)
  next
    case (Some r)
    then show ?thesis using x s by (auto simp: Let_def)
  qed
qed simp

lemma end_returns: "inbound \<in> snd ` set es \<Longrightarrow> inbound \<in> set chs \<Longrightarrow> \<exists>i st'. await_end chs inbound es st = Some (i, st') \<and> same_dials st st'"
proof (induction es arbitrary: st)
  case (Cons x es)
  obtain d i where x: "x = (d, i)" by (cases x)
  let ?st = "st\<lparr>hs_now := hs_now st + d, hs_inboundEnded := (hs_inboundEnded st \<or> i = inbound)\<rparr>"
  have s: "same_dials st ?st" by (simp add: same_dials_def)
  show ?case
  proof (cases "i \<in> set chs")
    case True
    then show ?thesis using x s by (auto simp: Let_def)
  next
    case False
    then have "inbound \<in> snd ` set es" using Cons.prems x by auto
    from Cons.IH [OF this Cons.prems(2), of ?st] False x same_dials_trans [OF s] show ?thesis by (auto simp: Let_def)
  qed
qed simp

lemma recorded_same: "recorded q st = (r, st') \<Longrightarrow> same_dials st st'"
  by (auto simp: recorded_def same_dials_def split: prod.splits sum.splits)

lemma begin_same: "begin_hunt env config b st = (r, st') \<Longrightarrow> same_dials st st'"
  by (auto simp: begin_hunt_def dest: recorded_same split: if_splits)

lemma persist_same: "persist_hunt env config st = (r, st') \<Longrightarrow> same_dials st st'"
  by (auto simp: persist_hunt_def change_payload_def same_dials_def dest!: recorded_same split: if_splits prod.splits sum.splits option.splits)

lemma finalize_returns:
  assumes "waits_end env inbound"
  shows "\<exists>r st'. finalizeAnswer env config b inbound c st = Some (r, st') \<and> same_dials st st'"
proof -
  let ?st2 = "(hangupChannels (hs_pending (stopHold st)) (Some (hc_id c)) (stopHold st))\<lparr>hs_pending := [c]\<rparr>"
  have s2: "same_dials st ?st2"
    using hangups_same [of "stopHold st" "hs_pending (stopHold st)" "Some (hc_id c)"] by (simp add: same_dials_def)
  show ?thesis
  proof (cases "hv_reject env (HuntBridged (hc_id c)) ?st2")
    case None
    let ?st3 = "send_hunt (HuntBridged (hc_id c)) ?st2"
    have s3: "same_dials st ?st3" using s2 by (simp add: same_dials_def)
    obtain r4 st4 where b: "begin_hunt env config b ?st3 = (r4, st4)" by (metis prod.exhaust)
    have s4: "same_dials st st4" using same_dials_trans [OF s3 begin_same [OF b]] .
    show ?thesis
    proof (cases r4)
      case (Inl m)
      then show ?thesis using None b s4 by (auto simp: finalizeAnswer_def Let_def)
    next
      case (Inr u)
      obtain i st5 where e: "await_end [inbound, hc_id c] inbound (hv_ends env) st4 = Some (i, st5)" "same_dials st4 st5"
        using end_returns [of inbound "hv_ends env" "[inbound, hc_id c]" st4] assms by (auto simp: waits_end_def)
      let ?st6 = "send_hunt (HuntHangup (if i = inbound then hc_id c else inbound)) st5"
      obtain r7 st7 where p: "persist_hunt env config ?st6 = (r7, st7)" by (metis prod.exhaust)
      have "same_dials st ?st6" using same_dials_trans [OF s4 e(2)] by (simp add: same_dials_def)
      from same_dials_trans [OF this persist_same [OF p]] have s7: "same_dials st st7" .
      then have "same_dials st (change_payload f st7)" for f by (simp add: same_dials_def change_payload_def)
      then show ?thesis using None b Inr e(1) p s7 by (cases r7) (auto simp: finalizeAnswer_def Let_def)
    qed
  qed (use s2 in \<open>auto simp: finalizeAnswer_def Let_def\<close>)
qed

lemma leg_event_dials: "dials_sent (snd (hunt_leg_event inbound e c)) = dials_sent (snd c)"
  by (cases e; cases c) (simp_all add: Let_def)

lemma leg_step_dials: "dials_sent (snd (leg_step inbound x c)) = dials_sent (snd c)"
  using leg_event_dials [of inbound "snd x" "(fst c, (snd c)\<lparr>hs_now := hs_now (snd c) + fst x\<rparr>)"]
  by (auto simp: leg_step_def split: prod.split)

lemma legs_dials: "dials_sent (snd (fold (leg_step inbound) evs c)) = dials_sent (snd c)"
  by (induction evs arbitrary: c) (simp_all add: leg_step_dials)

lemma timer_outcome:
  assumes "HuntTimer 0 \<in> snd ` set evs" and "\<forall>x \<in> set evs. 0 < fst x"
  shows "\<exists>t r. leg_outcome inbound evs 0 token = Some (t, r) \<and> 0 < t"
  using assms
proof (induction evs)
  case (Cons x evs)
  obtain d e where x: "x = (d, e)" by (cases x)
  show ?case
  proof (cases "leg_result inbound e 0 token")
    case None
    then have "HuntTimer 0 \<in> snd ` set evs" using Cons.prems(1) x by auto
    with Cons.IH Cons.prems(2) None x show ?thesis by auto
  next
    case (Some r)
    then show ?thesis using Cons.prems(2) x by (cases r) auto
  qed
qed simp

lemma single_leg:
  assumes "waits_end env inbound" and "waiters_ok (hs_waiters st)"
  shows "\<exists>a st'. capture_legs env inbound timeoutMs [dial] st = Some ([a], st') \<and> ha_result a \<noteq> None
    \<and> hs_now st < hs_now st' \<and> waiters_ok (hs_waiters st') \<and> dials_sent st' = dials_sent st + 1"
proof -
  have env: "accepts_dials env" "inj (hv_suffix env)" using assms(1) by (simp_all add: waits_end_def)
  show ?thesis
  proof (rule capture_run [OF assms(2) env, of inbound timeoutMs "[dial]"], goal_cases)
    case (1 as st')
    obtain t r where o1: "leg_outcome inbound (hv_legs env (hs_waits st)) 0 (leg_token env inbound (hs_now st) (hs_draws st)) = Some (t, r)" "0 < t"
      using timer_outcome assms(1) unfolding waits_end_def by metis
    have r: "ha_result (as ! 0) \<noteq> None" using 1(4) [of 0] o1 by simp
    obtain a where a: "as = [a]" using 1(2) by (auto simp: length_Suc_conv)
    then have settled: "all_settled as" using r by (simp add: all_settled_def)
    have now: "hs_now st < hs_now st'" using 1(8) [OF settled, of 0 t r] o1 by simp
    obtain b st1 where leg: "originate_leg env inbound timeoutMs dial st = (b, st1)" by (metis prod.exhaust)
    have "dials_sent st1 = dials_sent st + 1"
      using leg env(1) by (auto simp: originate_leg_def accepts_dials_def Let_def split: prod.splits)
    moreover have "fold (leg_step inbound) (hv_legs env (hs_waits st1)) ([b], st1\<lparr>hs_waits := hs_waits st1 + 1\<rparr>) = (as, st')"
      using 1(1) settled leg by (auto simp: capture_legs_def Let_def split: if_splits)
    ultimately have "dials_sent st' = dials_sent st + 1"
      using legs_dials [of inbound "hv_legs env (hs_waits st1)" "([b], st1\<lparr>hs_waits := hs_waits st1 + 1\<rparr>)"] by simp
    then show ?case using 1(1,3) settled a r now by simp
  qed
qed

text \<open>The milliseconds left.\<close>

definition left :: "hunt_plan \<Rightarrow> hunt_store \<Rightarrow> nat" where
  "left hp st = nat (num_ceiling (hp_total hp) - elapsed (hp_start hp) st)"

lemma time_left_iff: "num_finite (hp_total hp) \<Longrightarrow> time_left (hp_start hp) (hp_total hp) st \<longleftrightarrow> 0 < left hp st"
  by (auto simp: time_left_def left_def num_le_ceiling)

lemma left_less: "hs_now st < hs_now st' \<Longrightarrow> 0 < left hp st \<Longrightarrow> left hp st' < left hp st"
  by (simp add: left_def elapsed_def)

lemma left_mono: "hs_now st \<le> hs_now st' \<Longrightarrow> left hp st' \<le> left hp st"
  by (simp add: left_def elapsed_def nat_mono)

text \<open>A round with a destination that can be dialled.\<close>

lemma dial_round_returns:
  assumes "waits_end env (hp_inbound hp)" and "waiters_ok (hs_waiters st)"
  shows "\<exists>step. dial_round env hp d dial st = Some step \<and> (case step of
      HuntAgain p st' \<Rightarrow> hs_now st < hs_now st' \<and> waiters_ok (hs_waiters st') \<and> dials_sent st' = dials_sent st + 1
    | HuntDone r st' \<Rightarrow> dials_sent st' = dials_sent st + 1
    | HuntExhausted st' \<Rightarrow> dials_sent st' = dials_sent st + 1)"
proof -
  let ?t = "num_min (hp_attempt hp) (num_add (hp_total hp) (num_of_int (- elapsed (hp_start hp) st)))"
  obtain a st1 where cap: "capture_legs env (hp_inbound hp) ?t [dial] (startHold env (hp_hold hp) st) = Some ([a], st1)"
    and st1: "hs_now st < hs_now st1" "waiters_ok (hs_waiters st1)" "dials_sent st1 = dials_sent st + 1"
    using single_leg [OF assms(1), of "startHold env (hp_hold hp) st" ?t dial] assms(2) by auto
  show ?thesis
  proof (cases "\<exists>c. ha_result a = Some (AttemptAnswered, Some c)")
    case True
    then obtain c where c: "ha_result a = Some (AttemptAnswered, Some c)" by blast
    obtain r st2 where "finalizeAnswer env (hp_config hp) (hp_bridge hp) (hp_inbound hp) c (st1\<lparr>hs_pending := [c]\<rparr>) = Some (r, st2)"
      "same_dials (st1\<lparr>hs_pending := [c]\<rparr>) st2" using finalize_returns [OF assms(1)] by blast
    then show ?thesis using cap c st1 by (auto simp: dial_round_def Let_def same_dials_def)
  next
    case False
    let ?st2 = "send_hunt (HuntHangup (ha_channelId a)) (stopHold st1)"
    define status where "status = (case ha_result a of None \<Rightarrow> AttemptFailed | Some p \<Rightarrow> fst p)"
    have eq: "dial_round env hp d dial st = after_attempt env hp d status ?st2"
    proof (cases "ha_result a")
      case (Some p)
      obtain s c where p: "p = (s, c)" by (cases p)
      show ?thesis using cap False Some p by (cases s; cases c) (simp_all add: dial_round_def status_def Let_def)
    qed (use cap in \<open>simp add: dial_round_def status_def Let_def\<close>)
    have st2: "hs_now st < hs_now ?st2" "waiters_ok (hs_waiters ?st2)" "dials_sent ?st2 = dials_sent st + 1" using st1 by simp_all
    show ?thesis
    proof (cases "hp_busy hp")
      case None
      then show ?thesis using eq st2 by (simp add: after_attempt_def)
    next
      case (Some media)
      let ?st3 = "?st2\<lparr>hs_plays := hs_plays ?st2 + 1\<rparr>"
      obtain r st4 where p: "playOnceOnBridge env (hp_inbound hp) media ?st2 = Some (r, st4)" "same_dials ?st2 st4"
      proof (cases "hv_reject env (HuntPlay media) ?st2")
        case None
        have "PlaybackDone (Some (fst (hv_busy env (hs_plays ?st2)))) \<in> snd ` set (snd (hv_busy env (hs_plays ?st2)))"
          using assms(1) by (simp add: waits_end_def)
        from play_returns [OF this, of "hp_inbound hp" "send_hunt (HuntPlay media) ?st3"] obtain r st4 where
          "play_events (fst (hv_busy env (hs_plays ?st2))) (hp_inbound hp) (snd (hv_busy env (hs_plays ?st2))) (send_hunt (HuntPlay media) ?st3) = Some (r, st4)"
          "same_dials (send_hunt (HuntPlay media) ?st3) st4" by blast
        then show thesis using None by (intro that [of r st4]) (auto simp: playOnceOnBridge_def Let_def same_dials_def)
      qed (auto simp: playOnceOnBridge_def Let_def same_dials_def)
      show ?thesis using eq st2 Some p by (cases r) (auto simp: after_attempt_def same_dials_def)
    qed
  qed
qed

definition dialable :: "hunt_plan \<Rightarrow> nat \<Rightarrow> bool" where
  "dialable hp k \<longleftrightarrow> dial_of hp (hp_destinations hp ! (k mod length (hp_destinations hp))) \<noteq> []"

lemma dialable_soon:
  assumes "hp_dials hp = resolveDestinations env (hp_destinations hp)" and "hp_dials hp \<noteq> []"
  shows "\<exists>j. dialable hp (k + j)"
proof -
  let ?ds = "hp_destinations hp"
  obtain d s where d: "(d, s) \<in> set (hp_dials hp)" using assms(2) by (cases "hp_dials hp") auto
  then obtain i where i: "i < length ?ds" "?ds ! i = d" unfolding assms(1) by (auto simp: resolveDestinations_def in_set_conv_nth)
  obtain p where p: "List.find (\<lambda>p. same_target (fst p) d) (hp_dials hp) = Some p"
    using d find_None_iff [of "\<lambda>p. same_target (fst p) d" "hp_dials hp"] by (fastforce simp: same_target_def)
  then have "p \<in> set (hp_dials hp)" by (auto simp: find_Some_iff)
  then have "snd p \<noteq> []" unfolding assms(1) by (auto simp: resolveDestinations_def)
  then have dial: "dial_of hp d \<noteq> []" using p by (simp add: dial_of_def)
  have "(k + (i + (length ?ds * k - k))) mod length ?ds = i"
  proof -
    have "k \<le> length ?ds * k" using i(1) by (cases "length ?ds") auto
    then have "k + (i + (length ?ds * k - k)) = i + length ?ds * k" by arith
    then show ?thesis using i(1) by simp
  qed
  then show ?thesis using dial i(2) unfolding dialable_def by metis
qed

text \<open>A round with time left and a destination that can be dialled, when the later rounds end.\<close>

lemma dialled_round_ends:
  assumes "waits_end env (hp_inbound hp)" and "num_finite (hp_total hp)"
    and rest: "\<And>m k prev st. m < n \<Longrightarrow> waiters_ok (hs_waiters st) \<Longrightarrow> left hp st \<le> m \<Longrightarrow>
      \<exists>r st'. hunt_loop env hp k prev st = Some (r, st') \<and> dials_sent st' \<le> dials_sent st + m"
    and "waiters_ok (hs_waiters st)" "left hp st \<le> n" "time_left (hp_start hp) (hp_total hp) st" "\<not> hs_inboundEnded st"
    and "dial_of hp (destination_entry env hp k prev st) \<noteq> []"
  shows "\<exists>r st'. hunt_loop env hp k prev st = Some (r, st') \<and> dials_sent st' \<le> dials_sent st + n"
proof -
  let ?d = "destination_entry env hp k prev st" and ?st1 = "st\<lparr>hs_draws := hs_draws st + 1\<rparr>"
  have round: "hunt_round env hp k prev st = dial_round env hp ?d (dial_of hp ?d) ?st1"
    using assms(6-8) by (simp add: hunt_round_def Let_def)
  have pos: "0 < left hp st" using assms(2,6) time_left_iff by blast
  obtain step where s: "dial_round env hp ?d (dial_of hp ?d) ?st1 = Some step" "case step of
      HuntAgain p st' \<Rightarrow> hs_now ?st1 < hs_now st' \<and> waiters_ok (hs_waiters st') \<and> dials_sent st' = dials_sent ?st1 + 1
    | HuntDone r st' \<Rightarrow> dials_sent st' = dials_sent ?st1 + 1
    | HuntExhausted st' \<Rightarrow> dials_sent st' = dials_sent ?st1 + 1"
    using dial_round_returns [OF assms(1), of ?st1] assms(4) by auto
  show ?thesis
  proof (cases step)
    case (HuntAgain p st')
    then have less: "left hp st' < n" using left_less [of st st' hp] s(2) pos assms(5) by simp
    then obtain r su where "hunt_loop env hp (Suc k) p st' = Some (r, su)" "dials_sent su \<le> dials_sent st' + left hp st'"
      using rest [of "left hp st'" st'] s(2) HuntAgain by fastforce
    then show ?thesis using less round s HuntAgain by (simp add: hunt_loop.simps [of env hp k])
  next
    case (HuntDone r st')
    then show ?thesis using round s pos assms(5) by (simp add: hunt_loop.simps [of env hp k])
  next
    case (HuntExhausted st')
    then have "dials_sent (drop_pending (stopHold st')) \<le> dials_sent st + n"
      using drop_pending_same [of st'] s(2) pos assms(5) by (simp add: same_dials_def)
    then show ?thesis using round s HuntExhausted by (simp add: hunt_loop.simps [of env hp k])
  qed
qed

lemma stopped_round_ends:
  "\<not> time_left (hp_start hp) (hp_total hp) st \<or> hs_inboundEnded st \<Longrightarrow>
    \<exists>r st'. hunt_loop env hp k prev st = Some (r, st') \<and> dials_sent st' \<le> dials_sent st + n"
  using drop_pending_same [of st] by (auto simp: hunt_loop.simps [of env hp k] hunt_round_def same_dials_def)

lemma hunt_loop_ends:
  assumes "waits_end env (hp_inbound hp)" and "\<not> hp_random hp" "num_finite (hp_total hp)"
    and "hp_dials hp = resolveDestinations env (hp_destinations hp)" "hp_dials hp \<noteq> []"
  shows "waiters_ok (hs_waiters st) \<Longrightarrow> left hp st \<le> n \<Longrightarrow>
    \<exists>r st'. hunt_loop env hp k prev st = Some (r, st') \<and> dials_sent st' \<le> dials_sent st + n"
proof (induction n arbitrary: k prev st rule: less_induct)
  case (less n)
  note dialled = dialled_round_ends [OF assms(1,3) less.IH]
  obtain j where "dialable hp (k + j)" using dialable_soon assms(4,5) by blast
  then show ?case using less.prems
  proof (induction j arbitrary: k prev st)
    case (0 k prev st)
    then have "dial_of hp (destination_entry env hp k prev st) \<noteq> []" using assms(2) by (simp add: dialable_def destination_entry_def)
    then show ?case using dialled 0 stopped_round_ends by metis
  next
    case (Suc j k prev st)
    let ?d = "destination_entry env hp k prev st" and ?st1 = "st\<lparr>hs_draws := hs_draws st + 1\<rparr>"
    show ?case
    proof (cases "time_left (hp_start hp) (hp_total hp) st \<and> \<not> hs_inboundEnded st \<and> dial_of hp ?d = []")
      case True
      have "left hp ?st1 \<le> n" using Suc.prems(3) by (simp add: left_def elapsed_def)
      then obtain r st' where "hunt_loop env hp (Suc k) (Some ?d) ?st1 = Some (r, st')" "dials_sent st' \<le> dials_sent ?st1 + n"
        using Suc.IH [of "Suc k" ?st1 "Some ?d"] Suc.prems by auto
      then show ?thesis using True by (simp add: hunt_loop.simps [of env hp k] hunt_round_def Let_def)
    next
      case False
      then show ?thesis using dialled Suc.prems(2,3) stopped_round_ends by metis
    qed
  qed
qed

text \<open>C33: When every wait for a leg ends at its timer after at least a millisecond, a hunt that dials its
  destinations in turn returns a result, after at most as many attempts as its total time has milliseconds.\<close>

theorem hunt_ends:
  assumes "hunt_strategy (n_config node) \<notin> {''group'', ''random''}"
    and "num_finite (hunt_timeout (n_config node) ''total_timeout_ms'' (Dec 6 4))"
    and "waits_end env (s_channelId (hs_session st))" "waiters_ok (hs_waiters st)"
  shows "\<exists>r st'. executeHunt env node st = Some (r, st')
    \<and> dials_sent st' \<le> dials_sent st + nat (num_ceiling (hunt_timeout (n_config node) ''total_timeout_ms'' (Dec 6 4)))"
proof -
  let ?config = "n_config node" and ?dials = "resolveDestinations env (ordered_destinations (n_config node))"
  let ?total = "hunt_timeout ?config ''total_timeout_ms'' (Dec 6 4)"
  show ?thesis
  proof (cases "s_inboundBridge (hs_session st) = None \<or> s_inboundBridge (hs_session st) = Some [] \<or> ?dials = []
      \<or> (\<exists>m. resolveOptionalBridgeMedia env ?config ''hold_audio_file_id'' ''hold_audio_file_path'' st = Inl m)
      \<or> (\<exists>m. resolveOptionalBridgeMedia env ?config ''busy_audio_file_id'' ''busy_audio_file_path'' st = Inl m)")
    case True
    then show ?thesis by (auto simp: executeHunt_def Let_def split: option.split sum.split)
  next
    case False
    then obtain b hold busy where ready: "s_inboundBridge (hs_session st) = Some b" "b \<noteq> []" "?dials \<noteq> []"
      "resolveOptionalBridgeMedia env ?config ''hold_audio_file_id'' ''hold_audio_file_path'' st = Inr hold"
      "resolveOptionalBridgeMedia env ?config ''busy_audio_file_id'' ''busy_audio_file_path'' st = Inr busy"
      by (metis not_None_eq sum.exhaust)
    let ?hp = "\<lparr>hp_config = ?config, hp_bridge = b, hp_inbound = s_channelId (hs_session st), hp_random = False,
      hp_destinations = ordered_destinations ?config, hp_dials = ?dials, hp_hold = hold, hp_busy = busy,
      hp_attempt = hunt_timeout ?config ''attempt_timeout_ms'' (Dec 2 4), hp_total = ?total, hp_start = hs_now st\<rparr>"
    have left: "left ?hp st \<le> nat (num_ceiling ?total)" by (simp add: left_def elapsed_def)
    obtain r st' where loop: "hunt_loop env ?hp 0 None st = Some (r, st')" "dials_sent st' \<le> dials_sent st + nat (num_ceiling ?total)"
      using hunt_loop_ends [of env ?hp st, OF _ _ _ _ _ assms(4) left, of 0 None] assms(2,3) ready(3) by auto
    have "executeHunt env node st = Some (hunt_failure ?config (r, st'))"
      using ready loop(1) assms(1) by (auto simp: executeHunt_def Let_def)
    moreover have "dials_sent (snd (hunt_failure ?config (r, st'))) = dials_sent st'"
      using drop_pending_same [of st'] by (cases r) (simp_all add: hunt_failure_def same_dials_def Let_def)
    ultimately show ?thesis using loop(2) by (metis prod.collapse)
  qed
qed

section \<open>Examples\<close>

text \<open>A hunt over two extensions; the legs are awaited with the events given.\<close>

definition hunt_node :: "string \<Rightarrow> rt_node" where
  "hunt_node strategy = \<lparr>n_key = ''h'', n_type = ''hunt'', n_label = [],
     n_config = [(''strategy'', JStr strategy), (''total_timeout_ms'', JNum (Dec 3 3)), (''on_no_answer'', JStr ''voicemail''),
       (''destinations'', JArr [JObj [(''target_type'', JStr ''extension''), (''target_value'', JStr ''101'')],
                                JObj [(''target_type'', JStr ''extension''), (''target_value'', JStr ''102'')]])]\<rparr>"

definition hunt_example :: "(nat \<times> hunt_event) list \<Rightarrow> hunt_env" where
  "hunt_example events = \<lparr>hv_trunk = (\<lambda>_. None), hv_phones = \<lparr>ph_valid = (\<lambda>_ _. False), ph_parse = (\<lambda>_ _. None)\<rparr>,
     hv_contact = (\<lambda>_. None), hv_contacts = None, hv_audio = (\<lambda>_ _. Inr None), hv_reject = (\<lambda>_ _. None),
     hv_recorder = \<lparr>rd_fetch = (\<lambda>_ _. Inl ''down''), rd_now = (\<lambda>_. 0)\<rparr>, hv_backendUrl = [], hv_toISO = show_nat,
     hv_random = (\<lambda>k. k), hv_suffix = (\<lambda>k. replicate k (CHR ''x'')), hv_legs = (\<lambda>_. events), hv_group = [],
     hv_ends = [(1, ''c1'')], hv_busy = (\<lambda>_. (''p'', [(1, PlaybackDone (Some ''p''))]))\<rparr>"

definition hunt_call :: hunt_store where
  "hunt_call = \<lparr>hs_now = 100,
     hs_session = (createSession 0 ''c1'' ''202'' \<lparr>f_id = 4, f_name = ''support'', f_versionId = 1, f_nodes = [], f_edges = []\<rparr> ''h'')
       \<lparr>s_inboundBridge := Some ''b''\<rparr>,
     hs_waiters = no_waiters, hs_requests = [], hs_http = [], hs_hold = NoHold, hs_pending = [], hs_inboundEnded = False,
     hs_draws = 0, hs_waits = 0, hs_plays = 0\<rparr>"

lemma hunt_example_ok:
  "accepts_dials (hunt_example events)" "inj (hv_suffix (hunt_example events))" "waiters_ok (hs_waiters hunt_call)"
proof -
  show "accepts_dials (hunt_example events)" by (simp add: accepts_dials_def hunt_example_def)
  show "inj (hv_suffix (hunt_example events))" by (rule injI) (metis hunt_example_def hunt_env.select_convs(11) length_replicate)
  show "waiters_ok (hs_waiters hunt_call)" by (simp add: hunt_call_def no_waiters_ok)
qed

theorem declined_leg_waits_witness:
  "\<exists>a st'. capture_legs (hunt_example [(300, HuntGone ''hunt-leg-c1-100--100''), (19700, HuntTimer 0)]) ''c1'' (Dec 2 4) [''PJSIP/101''] hunt_call = Some ([a], st')
    \<and> ha_result a = Some (AttemptTimeout, None) \<and> hs_now st' = 20100"
proof -
  let ?env = "hunt_example [(300, HuntGone ''hunt-leg-c1-100--100''), (19700, HuntTimer 0)]"
  have facts: "''hunt-leg-c1-100--100'' = ''hunt-leg-'' @ leg_token ?env ''c1'' (hs_now hunt_call) (hs_draws hunt_call) @ ''-'' @ show_nat (hs_now hunt_call)"
    "hs_now hunt_call = 100" by code_simp+
  have events: "hv_legs ?env (hs_waits hunt_call) = map (\<lambda>t. (t, HuntGone ''hunt-leg-c1-100--100'')) [300] @ (19700, HuntTimer 0) # []"
    by (simp add: hunt_example_def)
  from declined_leg_waits [OF hunt_example_ok(3,1,2) facts(1) events, of "Dec 2 4" "''PJSIP/101''"] facts(2) show ?thesis by auto
qed

theorem capture_by_first_event_witness:
  "\<exists>as st'. capture_legs (hunt_example [(300, HuntEntered ''c1-100-'' \<lparr>hc_id = ''l1'', hc_state = ''Up''\<rparr>), (2700, HuntTimer 1)]) ''c1'' (Dec 3 3)
      [''PJSIP/101'', ''PJSIP/102''] hunt_call = Some (as, st') \<and> hs_now st' = 3100 \<and> length as = 2"
proof -
  let ?env = "hunt_example [(300, HuntEntered ''c1-100-'' \<lparr>hc_id = ''l1'', hc_state = ''Up''\<rparr>), (2700, HuntTimer 1)]"
  let ?c = "capture_legs ?env ''c1'' (Dec 3 3) [''PJSIP/101'', ''PJSIP/102''] hunt_call"
  have facts: "map_option (\<lambda>(as, st). hs_now st) ?c = Some 3100" by code_simp
  then obtain as st' where c: "?c = Some (as, st')" "hs_now st' = 3100" by auto
  from capture_by_first_event [OF c(1) _ hunt_example_ok(3,1,2)] have "length as = 2" by simp
  with c show ?thesis by blast
qed

theorem left_group_routed_witness:
  "\<exists>st'. executeHunt (hunt_example [(300, HuntGone ''c1'')]) (hunt_node ''group'') hunt_call = Some (Inr ''route:voicemail'', st') \<and> hs_inboundEnded st'"
proof -
  let ?env = "hunt_example [(300, HuntGone ''c1'')]" and ?config = "n_config (hunt_node ''group'')"
  have facts: "hunt_strategy ?config = ''group''" "s_inboundBridge (hs_session hunt_call) = Some ''b''" "''b'' \<noteq> []"
    "resolveDestinations ?env (ordered_destinations ?config) \<noteq> []"
    "resolveOptionalBridgeMedia ?env ?config ''hold_audio_file_id'' ''hold_audio_file_path'' hunt_call = Inr None"
    "resolveOptionalBridgeMedia ?env ?config ''busy_audio_file_id'' ''busy_audio_file_path'' hunt_call = Inr None"
    "noAnswerResult ?config = ''route:voicemail''" by code_simp+
  have events: "hv_legs ?env (hs_waits hunt_call) = (300, HuntGone (s_channelId (hs_session hunt_call))) # []"
    by (simp add: hunt_example_def hunt_call_def createSession_def)
  from left_group_routed [OF facts(1-6) events hunt_example_ok(3,1,2)] facts(7) show ?thesis by simp
qed

theorem hunt_ends_witness:
  "\<exists>r st'. executeHunt (hunt_example [(1000, HuntTimer 0)]) (hunt_node ''sequential'') hunt_call = Some (r, st') \<and> dials_sent st' \<le> 3000"
proof -
  let ?env = "hunt_example [(1000, HuntTimer 0)]" and ?config = "n_config (hunt_node ''sequential'')"
  have facts: "hunt_strategy ?config = ''sequential''" "hunt_timeout ?config ''total_timeout_ms'' (Dec 6 4) = Dec 3 3"
    "s_channelId (hs_session hunt_call) = ''c1''" "dials_sent hunt_call = 0" "num_ceiling (Dec 3 3) = 3000" by code_simp+
  have "waits_end ?env ''c1''"
    using hunt_example_ok(1,2) by (simp add: waits_end_def) (simp add: hunt_example_def)
  with hunt_ends [of "hunt_node ''sequential''" ?env hunt_call, OF _ _ _ hunt_example_ok(3)] facts show ?thesis by simp
qed

end
