(* ===== verification/Spec2Isabelle.thy ===== *)
theory Spec2Isabelle
  imports Examples ExecutorLaws QueueProperties CampaignProperties WebhookProperties QueueLoginProperties OperatorProperties
    CallbackProperties HuntProperties
begin

text \<open>
  \<^bold>\<open>Callytics: a verification library.\<close>  Callytics lets users draw call flows in an editor and runs them on
  the calls that reach an Asterisk exchange.  Its backend (\<^verbatim>\<open>src/backend\<close>) stores the flows, its call engine
  (\<^verbatim>\<open>src/stasis\<close>) loads a flow for each call and interprets it node by node, and both share a database.
  This library models the path of a flow from the editor's request to the running call, the executors of the
  nodes, the call queues and their operators, hunts, callbacks, webhooks, the registries and recordings the engine
  keeps and outbound campaigns, and proves what makes them correct.

  \<^bold>\<open>Foundations.\<close>
  \<^item> \<^verbatim>\<open>Prelude\<close>: results with the backend's exceptions (\<open>'a result\<close>), lists, strings, decimal printing.
  \<^item> \<^verbatim>\<open>JsValues\<close>, \<^verbatim>\<open>JsArith\<close>: JSON values, JavaScript's numbers as decimals within the range of a double,
    truthiness, \<open>Number\<close>, \<open>String\<close>, and the locale \<open>keyed_store\<close> of objects used as maps.
  \<^item> \<^verbatim>\<open>AsyncPrograms\<close>: \<open>async\<close> operations as sequences of atomic actions, their interleaving (\<open>pool_step\<close>), and
    guarantees and invariants of every interleaving (locale \<open>store_order\<close>, \<open>ensures\<close>).

  \<^bold>\<open>The flow editor\<close> (\<^verbatim>\<open>backend/src/flows/flows.service.ts\<close>, its entities and DTOs; \<^verbatim>\<open>templates.service.ts\<close>).
  \<^item> \<^verbatim>\<open>FlowModel\<close>, \<^verbatim>\<open>FlowStore\<close>: the tables as lists of rows with their sequences, the queries and writes of the
    repositories, and the table invariant \<open>db_inv\<close>.
  \<^item> \<^verbatim>\<open>FlowValidation\<close>: validation and sanitizing of nodes and edges; \<^verbatim>\<open>FlowSnapshots\<close>: snapshots, their comparison
    and the writing of versions; \<^verbatim>\<open>FlowTree\<close>: parents, roots, breadcrumbs, subtrees and tree snapshots.
  \<^item> \<^verbatim>\<open>FlowService\<close>: the requests (\<open>create\<close>, \<open>update\<close>, \<open>createVersion\<close>, \<open>restoreVersion\<close>, \<open>remove\<close>, ...), one definition
    per method; \<^verbatim>\<open>Templates\<close>: listing and importing templates.
  \<^item> \<^verbatim>\<open>FlowServiceLaws\<close>, \<^verbatim>\<open>FlowVersions\<close>, \<^verbatim>\<open>FlowForest\<close>: what each request does to the tables, that publishing is
    idempotent, and that every reachable state satisfies the invariant and has a forest of parents.

  \<^bold>\<open>The call engine\<close> (\<^verbatim>\<open>stasis/src\<close>).
  \<^item> \<^verbatim>\<open>CallModel\<close>: \<open>flowLoader.ts\<close>, \<open>callSession.ts\<close>, \<open>timeoutResolver.ts\<close>, \<open>edgeResolver.ts\<close>, \<open>webhookPayload.ts\<close>.
  \<^item> \<^verbatim>\<open>Runtime\<close>, \<^verbatim>\<open>RuntimeLaws\<close>: \<open>runtime.ts\<close>.  One round of the loop of \<open>runFlow\<close> is \<open>step\<close>, the loop a partial
    function whose value \<open>None\<close> is a call that never ends; a relation \<open>runs\<close> gives rule induction over its rounds.
  \<^item> \<^verbatim>\<open>DigitCollection\<close>, \<^verbatim>\<open>DigitLaws\<close>: \<open>executeGetDigits\<close> and \<open>menu.executor.ts\<close>; the closure of a promise is a record,
    the events that reach its listeners a list (locale \<open>one_shot\<close>).
  \<^item> \<^verbatim>\<open>Executors\<close>, \<^verbatim>\<open>ExecutorLaws\<close>: \<open>executeNode\<close> with the simple executors and \<open>business_hours.executor.ts\<close>.
  \<^item> \<^verbatim>\<open>QueueManager\<close>, \<^verbatim>\<open>QueueExecutor\<close>, \<^verbatim>\<open>QueueLaws\<close>: \<open>engine/queueManager.ts\<close> and \<open>queue.executor.ts\<close> over the Redis keys
    they share.  \<^verbatim>\<open>Waiters\<close>: the four registries of dialled calls (locale \<open>waiter_registry\<close>).  \<^verbatim>\<open>Recordings\<close>:
    \<open>bridgeRecording.ts\<close>.
  \<^item> \<^verbatim>\<open>HuntDial\<close>, \<^verbatim>\<open>Hunt\<close>: \<open>nodes/hunt.executor.ts\<close>, from the configured destinations to the recording of an answered
    call.  The events that reach the listeners of a wait are a list with their delays; the loop over the attempts is
    a partial function.  \<^verbatim>\<open>HuntProperties\<close>: what settles a leg, and that a hunt ends.
  \<^item> \<^verbatim>\<open>QueueLogin\<close>, \<^verbatim>\<open>QueueLoginProperties\<close>: \<open>executors/queue_login.executor.ts\<close>, the login of an operator by telephone.

  \<^bold>\<open>Callbacks\<close>, which a caller asks for at a node, the backend stores and the engine dials on request.
  \<^item> \<^verbatim>\<open>CallbackNode\<close>: \<open>nodes/callback.executor.ts\<close>; \<^verbatim>\<open>CallbackService\<close>: \<open>backend/src/callbacks/callbacks.service.ts\<close>;
    \<^verbatim>\<open>CallbackEngine\<close>: \<open>callback-execute.ts\<close> and its handlers in \<open>index.ts\<close>.  \<^verbatim>\<open>CallbackProperties\<close> joins the three.

  \<^bold>\<open>Webhooks, queues and operators of the backend.\<close>
  \<^item> \<^verbatim>\<open>WebhookDelivery\<close>, \<^verbatim>\<open>WebhookProperties\<close>: \<open>webhooks.service.ts\<close> and \<open>webhooks.listener.ts\<close>: the log of deliveries, the
    timers of retries and the requests under way.
  \<^item> \<^verbatim>\<open>OperatorAdmin\<close>, \<^verbatim>\<open>OperatorProperties\<close>: \<open>queues.service.ts\<close>, \<open>operators.service.ts\<close> and what a restart does to the PINs.
    \<^verbatim>\<open>Slugs\<close>: the search for a free slug, shared with the templates.

  \<^bold>\<open>Campaigns\<close> (\<^verbatim>\<open>backend/src/campaigns\<close> and \<^verbatim>\<open>stasis/src/campaign-executor.ts\<close>), which exchange messages over Redis.
  \<^item> \<^verbatim>\<open>CsvImport\<close>: \<open>parseCsv\<close>.  \<^verbatim>\<open>CampaignService\<close>: \<open>campaigns.service.ts\<close> and its controller over the tables of campaigns,
    contacts and attempts; each request, the fallback timer of \<open>stop\<close>, the scheduler and each message of the engine
    is one definition and runs without interruption.
  \<^item> \<^verbatim>\<open>CampaignLaws\<close>: these as a step relation \<open>campaign_step\<close>, the invariant of the tables, and the states of a campaign.
  \<^item> \<^verbatim>\<open>CampaignEngine\<close>, \<^verbatim>\<open>CampaignEngineLaws\<close>: the engine's side as programs over the objects of \<open>CampaignExecutor\<close>, which are
    shared by reference with retry timers and running handlers; what holds in every interleaving of them
    (\<open>ensures\<close>) and what each does alone (\<open>run\<close>).

  \<^bold>\<open>Properties.\<close>  \<^verbatim>\<open>EndToEnd\<close> joins editor and engine: a created flow is loaded with exactly the accepted nodes and
  edges.  \<^verbatim>\<open>Examples\<close> holds concrete requests, tables and calls.  This theory and the theories called properties
  state: the table invariant and the forest (C1), creating, updating, deleting and publishing, the connection
  grammar of the validator, closed node logs, one event per call, ends of runs and menus, failing executors and
  business hours; for queues, that nobody overtakes in any interleaving and that no operator idles while operations
  do not overlap; for campaigns, the tables, that a campaign starts at most once, the bounds on attempts and
  concurrent calls, and the import of contacts; for callbacks, that a node records one and that an execution ends
  in a final state; for hunts, what settles a leg and that the node returns; for webhooks, the order and number of
  attempts; for operators, the tables and that only a matching PIN lets in.  Some properties state defects of the
  code: a breadcrumb that never returns, a missed connection between a login and an arriving customer, a campaign
  completed before its last retry, callbacks that can never be dialled or are dialled twice, declined legs that
  are waited for, PINs a restart forgets, an operator offered to two queues at once.  Theorems without a claim
  number are proved in the same way and state further behaviour.

  \<^bold>\<open>Parameters and bounds.\<close>  Asterisk, the clock, the URL parser, the locale's collation, Redis' choice of a set member,
  \<open>libphonenumber-js\<close>, \<open>bcrypt\<close> and HTTP answers are parameters.  The only fuel is that of \<open>fillWindow\<close>, whose queue
  retries may refill: alone, any fuel above the length of the queue is enough (C24), and what holds in every
  interleaving holds for every fuel.  All other loops terminate by a measure or are partial functions.  Numbers are
  exact decimals up to the range of a double: rounding of fractions does not occur in the modelled code.  A Redis
  command of a queue or a backend statement that fails stops an operation in an interleaving; the commands of the
  campaign engine and of callbacks may be rejected one by one.

  \<^bold>\<open>Not modelled.\<close>  The executors of transfer, voicemail and conference are parameters of \<open>executeNode\<close>, and so are hunt,
  callback and login there, whose own theories model them over the state each of them needs.  The entry point
  \<open>index.ts\<close>, apart from callbacks, direct outbound calls, monitoring, telemetry and seeds are input and output around
  the modelled parts.  The backend's administration of trunks, extensions, recordings, VPN, firewall, backups and
  diagnostics runs system commands or edits rows, call logs and quality are reports, and the frontend is a view of
  the HTTP interface.
\<close>

section \<open>The flow editor's tables\<close>



text \<open>C2: a flow the backend has just created is the flow the call engine loads: its name, its first
  version, exactly the accepted nodes and edges, every edge leading to a node of the flow, and for a
  root flow a default timeout between one second and two minutes.\<close>

theorem created_flow_is_loaded:
  assumes "db_inv db" and "create lc up now dto db = Inr (d, db')"
  shows "\<exists>fl nodes. loadFlowById db' (fd_id d) = Some fl \<and> f_id fl = fd_id d \<and> f_name fl = d_name dto
    \<and> f_versionId fl = fd_versionId d
    \<and> accepted up (d_nodes dto) (d_edges dto) (nonzero (d_parentFlowId dto) \<noteq> None) nodes
    \<and> f_nodes fl = map rt_node_of_dto nodes \<and> f_edges fl = map rt_edge_of_dto (d_edges dto)
    \<and> closed_flow fl
    \<and> (d_parentFlowId dto = None \<longrightarrow> (\<exists>t. resolveFlowDefaultTimeoutMs fl = Some t \<and> 1000 \<le> t \<and> t \<le> 120000))"
proof (rule created_flow_loads [OF assms])
  fix fl nodes
  assume l: "loadFlowById db' (fd_id d) = Some fl" "f_id fl = fd_id d" "f_name fl = d_name dto" "f_versionId fl = fd_versionId d"
    and a: "accepted up (d_nodes dto) (d_edges dto) (nonzero (d_parentFlowId dto) \<noteq> None) nodes"
    and g: "graph_of nodes (d_edges dto) fl"
  have "d_parentFlowId dto = None \<Longrightarrow> \<exists>t. resolveFlowDefaultTimeoutMs fl = Some t \<and> 1000 \<le> t \<and> t \<le> 120000"
    using accepted_timeout [OF _ g] a by simp
  with l a g accepted_closed [OF a g] show ?thesis
    by (intro exI [of _ fl] exI [of _ nodes]) (simp add: graph_of_def)
qed

theorem created_flow_is_loaded_witness:
  "\<exists>(d :: flow_detail) fl nodes. loadFlowById main_db (fd_id d) = Some fl \<and> f_nodes fl = map rt_node_of_dto nodes \<and> closed_flow fl"
proof -
  obtain d where "create text_order demo_url 3 main_dto empty_db = Inr (d, main_db)" using main_created by blast
  from created_flow_is_loaded [OF empty_db_inv this]
  obtain fl nodes where "loadFlowById main_db (fd_id d) = Some fl" "f_nodes fl = map rt_node_of_dto nodes" "closed_flow fl"
    by (elim exE conjE) (rule that)
  then show ?thesis by (intro exI conjI)
qed





text \<open>C4: deleting a flow removes exactly the flows below it in the tree, their versions and the logs
  of their calls, and leaves every other row of these tables as it is.\<close>

theorem remove_deletes_subtree:
  assumes "flows_ok db" and "remove i db = Inr (j, db')"
  shows "j = i \<and> call_flows db' = filter (\<lambda>f. (i, cf_id f) \<notin> (child_rel db)\<^sup>*) (call_flows db)
    \<and> call_node_logs db' = filter (\<lambda>l. (i, nl_flowId l) \<notin> (child_rel db)\<^sup>*) (call_node_logs db)
    \<and> flow_versions db' = filter (\<lambda>v. fv_id v \<notin> fv_id ` {w \<in> set (flow_versions db).
         fv_flowId w \<in> Some ` {j. (i, j) \<in> (child_rel db)\<^sup>*}}) (flow_versions db)"
  using remove_effect [OF assms] by (simp add: subtree_def)

theorem remove_deletes_subtree_witness:
  "call_flows (new_db (remove 1 tree_db)) = filter (\<lambda>f. (1, cf_id f) \<notin> (child_rel tree_db)\<^sup>*) (call_flows tree_db)
    \<and> call_flows (new_db (remove 1 tree_db)) = []"
proof -
  have "\<exists>j. remove 1 tree_db = Inr (j, new_db (remove 1 tree_db))" by (rule result_ok) code_simp
  then obtain j where "remove 1 tree_db = Inr (j, new_db (remove 1 tree_db))" by blast
  moreover have "call_flows (new_db (remove 1 tree_db)) = []" by code_simp
  ultimately show ?thesis using remove_deletes_subtree [OF tree_db_inv(2)] by blast
qed

text \<open>C6: publishing is idempotent: publishing again, with whatever message, answers with the version
  just stored and changes nothing.\<close>

theorem publish_idempotent:
  assumes "db_inv db" and "createVersion lc now i msg db = Inr (sm, db')"
  shows "createVersion lc now' i msg' db' = Inr (sm, db')"
  by (rule createVersion_twice [OF assms])

theorem publish_idempotent_witness:
  "\<exists>sm. createVersion text_order 8 2 None (new_db (createVersion text_order 7 2 None tree_db))
     = Inr (sm, new_db (createVersion text_order 7 2 None tree_db))"
proof -
  have "\<exists>sm. createVersion text_order 7 2 None tree_db = Inr (sm, new_db (createVersion text_order 7 2 None tree_db))"
    by (rule result_ok) code_simp
  then show ?thesis using publish_idempotent [OF tree_db_inv(1)] by blast
qed

text \<open>C7: in a reachable state every flow has a root, and the snapshot taken when publishing it holds
  exactly the flows that have this root.\<close>

theorem published_tree_complete:
  assumes "reachable db" and "find_flow db i = Some f"
  shows "\<exists>r s. getRootFlowId db i = Inr r \<and> buildFullTreeSnapshot db r [] = Inr s \<and> ss_flowId s = Some r
    \<and> snapshot_ids s = {j. getRootFlowId db j = Inr r}"
proof -
  have inv: "flows_ok db" "forest db" using reachable_flow_inv [OF assms(1)] by (simp_all add: flow_inv_def db_inv_def)
  obtain r where r: "getRootFlowId db i = Inr r" using forest_root [OF inv(2) assms(2)] by blast
  with root_tree_snapshot [OF inv(1) r] show ?thesis by blast
qed

theorem published_tree_complete_witness:
  "\<exists>r s. getRootFlowId tree_db 2 = Inr r \<and> buildFullTreeSnapshot tree_db r [] = Inr s
    \<and> snapshot_ids s = {j. getRootFlowId tree_db j = Inr r}"
proof -
  have "find_flow tree_db 2 \<noteq> None" by code_simp
  then obtain f where "find_flow tree_db 2 = Some f" by blast
  from published_tree_complete [OF tree_reachable this] show ?thesis by blast
qed

text \<open>C13: \<open>getBreadcrumb\<close> returns exactly when \<open>getRootFlowId\<close> does not report a circular chain of
  parents; it has no guard of its own, so on such a chain it never returns.\<close>

theorem breadcrumb_returns_iff:
  assumes "flows_ok db"
  shows "getBreadcrumb db i \<noteq> None \<longleftrightarrow>
    getRootFlowId db i \<noteq> Inl (BadRequest (''Flow '' @ show_int i @ '' has a circular parent_flow_id chain''))"
  by (rule getBreadcrumb_returns_iff [OF assms])

theorem breadcrumb_returns_iff_witness: "getBreadcrumb tree_db 2 \<noteq> None"
proof -
  have "getRootFlowId tree_db 2 \<noteq> Inl (BadRequest (''Flow '' @ show_int 2 @ '' has a circular parent_flow_id chain''))"
    by code_simp
  then show ?thesis using breadcrumb_returns_iff [OF tree_db_inv(2), of 2] by blast
qed



section \<open>Validation\<close>


text \<open>The backend's and the call engine's timeout parsers accept the same values, and what they
  accept lies between one second and two minutes.\<close>

theorem timeout_parsers_agree:
  "parseValidTimeoutMs v = parseTimeoutMs v
   \<and> (case parseValidTimeoutMs v of None \<Rightarrow> True | Some t \<Rightarrow> MIN_TIMEOUT_MS \<le> t \<and> t \<le> MAX_TIMEOUT_MS)"
  using timeouts_agree parseValidTimeoutMs_bounds by (auto split: option.split)


section \<open>The call runtime\<close>

text \<open>C5: when writes of node logs succeed, every entry the finished run wrote is closed: no entry of the
  call is left open, whether \<open>runFlow\<close> returns or raises.\<close>

theorem run_closes_logs:
  assumes "logging_works env" and "exec_frame env"
    and "list_all (\<lambda>l. nl_callUuid l \<noteq> s_callUuid s \<or> \<not> nl_open l) logs" and "runFlow env s logs w = Some out"
  shows "list_all (\<lambda>l. nl_callUuid l \<noteq> s_callUuid s \<or> \<not> nl_open l)
    (r_logs (case out of Inl st \<Rightarrow> st | Inr res \<Rightarrow> rr_state res))"
proof (cases "findEntryNode (s_flow s)")
  case None
  then show ?thesis using assms(3,4) by (auto simp: runFlow_def initial_state_def)
next
  case (Some k)
  let ?st = "initial_state s k logs w"
  obtain o' where run: "run_loop env ?st = Some o'"
    and out: "(case out of Inl st \<Rightarrow> st | Inr res \<Rightarrow> rr_state res) = (case o' of Inl st \<Rightarrow> st | Inr st \<Rightarrow> st)"
    using assms(4) Some by (auto simp: runFlow_def split: sum.splits)
  have init: "logs_closed (s_callUuid s) ?st" using assms(3) by (auto simp: logs_closed_def initial_state_def list_all_iff)
  have "\<forall>st'. o' = Inr st' \<or> o' = Inl st' \<longrightarrow> logs_closed (s_callUuid s) st'"
    using runs_invariant [of env ?st o' "logs_closed (s_callUuid s)"] run [unfolded run_loop_iff] init step_logs_closed [OF assms(1,2)] by blast
  then show ?thesis unfolding out by (cases o') (auto simp: logs_closed_def list_all_iff)
qed

theorem run_closes_logs_witness:
  "\<exists>out. runFlow demo_env (demo_session demo_flow) [] () = Some out
    \<and> list_all (\<lambda>l. nl_callUuid l \<noteq> ''chan-1'' \<or> \<not> nl_open l) (r_logs (case out of Inl st \<Rightarrow> st | Inr res \<Rightarrow> rr_state res))"
proof -
  have fl: "s_flow (r_session (initial_state (demo_session demo_flow) ''start'' [] ())) = demo_flow"
    "r_stack (initial_state (demo_session demo_flow) ''start'' [] ()) = []"
    by (simp_all add: initial_state_def demo_session_def createSession_def)
  have entry: "findEntryNode (s_flow (demo_session demo_flow)) = Some ''start''"
    by (simp add: demo_session_def createSession_def findEntryNode_def demo_flow_def key_or_def text_or_empty_def)
  from ranked_runs [OF demo_env_facts(4,2,3) fl] obtain o'
    where "run_loop demo_env (initial_state (demo_session demo_flow) ''start'' [] ()) = Some o'" by (auto simp: run_loop_iff)
  then obtain out where out: "runFlow demo_env (demo_session demo_flow) [] () = Some out" using entry by (simp add: runFlow_def)
  moreover have "s_callUuid (demo_session demo_flow) = ''chan-1''" by (simp add: demo_session_def createSession_def)
  ultimately show ?thesis using run_closes_logs [OF demo_env_facts(1,2) _ out] by simp
qed





section \<open>Collecting digits\<close>

text \<open>C11: once its prompt is playing, \<open>executeGetDigits\<close> returns at the latest when its timer fires: a
  non-empty key, a timeout or a hangup; a numeric input is stored in the configured variable and no
  other part of the session changes.\<close>

theorem get_digits_returns:
  assumes "resolveAudioMediaPath md w (n_config node) ''prompt_audio_file_id'' ''prompt_path'' = Inr p"
    and "(case p of None \<Rightarrow> (Inr (), w) | Some q \<Rightarrow> md_play md (getPlaybackTarget s) (''sound:'' @ q) w) = (Inr u, w1)"
    and "md_events md node w1 = ((before, after), w2)" and "TimerFires \<in> set (before @ after)"
  shows "\<exists>v. v \<noteq> [] \<and> executeGetDigits md node s w = Some (Inr v, digits_session node v s, w2)"
  by (rule executeGetDigits_returns [OF assms])

definition digits_node :: rt_node where
  "digits_node = \<lparr>n_key = ''ask'', n_type = ''get_digits'', n_label = [], n_config = [(''variable_name'', JStr ''pin'')]\<rparr>"

theorem get_digits_returns_witness:
  "executeGetDigits (silent_media [Dtmf None (Some ''4''), TimerFires]) digits_node (demo_session demo_flow) ()
     = Some (Inr ''4'', set_var ''pin'' ''4'' (demo_session demo_flow), ())
   \<and> (\<exists>v. v \<noteq> [] \<and> executeGetDigits (silent_media [Dtmf None (Some ''4''), TimerFires]) digits_node (demo_session demo_flow) ()
        = Some (Inr v, digits_session digits_node v (demo_session demo_flow), ()))"
proof
  show "executeGetDigits (silent_media [Dtmf None (Some ''4''), TimerFires]) digits_node (demo_session demo_flow) ()
     = Some (Inr ''4'', set_var ''pin'' ''4'' (demo_session demo_flow), ())" by code_simp
  show "\<exists>v. v \<noteq> [] \<and> executeGetDigits (silent_media [Dtmf None (Some ''4''), TimerFires]) digits_node (demo_session demo_flow) ()
        = Some (Inr v, digits_session digits_node v (demo_session demo_flow), ())"
    by (rule get_digits_returns [where p = None and before = "[Dtmf None (Some ''4''), TimerFires]" and after = "[]" and ?w1.0 = "()" and u = "()"])
      (simp_all add: resolveAudioMediaPath_def digits_node_def silent_media_def obj_get_def num_or_zero_def)
qed

text \<open>C12: if every attempt settles, \<open>executeMenu\<close> returns: the retry counters it keeps in the session's
  variables as decimal strings reach the configured maximum, even when both kinds of failure alternate.\<close>

theorem menu_returns:
  assumes "attempts_settle md node"
    and "num_le (max_attempts node ''max_timeout_attempts'') (num_of_int (int kt))" "0 < kt" "kt < 10 ^ 21"
    and "num_le (max_attempts node ''max_invalid_attempts'') (num_of_int (int ki))" "0 < ki" "ki < 10 ^ 21"
    and "get_var s (getCounterKey s node ''timeout'') = None" "get_var s (getCounterKey s node ''invalid'') = None"
  shows "\<exists>r s' w'. executeMenu md node s w = Some (r, s', w')"
proof -
  have "counted s node ''timeout'' 0" "counted s node ''invalid'' 0" using assms(8,9) by (simp_all add: counted_def)
  from executeMenu_ends [OF assms(1,2,4,5,7) this(1) assms(3) this(2) assms(6)] show ?thesis by auto
qed

theorem menu_returns_witness:
  "\<exists>r s' w'. executeMenu (silent_media [Dtmf None (Some ''9'')]) menu_node (demo_session demo_flow) () = Some (r, s', w')"
proof -
  have "get_var (demo_session demo_flow) (getCounterKey (demo_session demo_flow) menu_node kind) = None" for kind
    by (simp add: get_var_def demo_session_def createSession_def)
  moreover have "num_le (max_attempts menu_node ''max_timeout_attempts'') (num_of_int (int 3))"
    "num_le (max_attempts menu_node ''max_invalid_attempts'') (num_of_int (int 3))" by code_simp+
  ultimately show ?thesis using menu_returns [OF menu_attempts_settle, of 3 3] by simp
qed

text \<open>A menu answers with a hangup or one of its configured branches, its counters are gone
  afterwards, and nothing else of the session has changed.\<close>

theorem menu_answers:
  assumes "executeMenu md node s w = Some (Inr v, s', w')"
  shows "(v = ''hangup'' \<or> v \<noteq> [] \<and> v \<in> set (configured_branches node))
    \<and> s'\<lparr>s_variables := []\<rparr> = s\<lparr>s_variables := []\<rparr>
    \<and> (\<forall>k. get_var s' k = (if k = getCounterKey s node ''timeout'' \<or> k = getCounterKey s node ''invalid'' then None else get_var s k))"
  using executeMenu_result [OF assms] by (auto simp: menu_result_def same_but_counters_def counter_key_def)

theorem menu_answers_witness:
  "executeMenu (silent_media [Dtmf None (Some ''1'')]) menu_node (demo_session demo_flow) ()
     = Some (Inr ''1'', clearCounters menu_node (demo_session demo_flow), ())
   \<and> ''1'' \<in> set (configured_branches menu_node)"
proof -
  have round: "menu_round (silent_media [Dtmf None (Some ''1'')]) menu_node (demo_session demo_flow) ()
      = Some (Return (Inr ''1'') (clearCounters menu_node (demo_session demo_flow)) ())"
    by code_simp
  have run: "executeMenu (silent_media [Dtmf None (Some ''1'')]) menu_node (demo_session demo_flow) ()
      = Some (Inr ''1'', clearCounters menu_node (demo_session demo_flow), ())"
    by (subst executeMenu.simps) (simp add: round)
  from menu_answers [OF run] run show ?thesis by simp
qed

section \<open>Executors\<close>

text \<open>When the engine runs its nodes with \<open>executeNode\<close>, a call only fails for a reason of routing: the
  flow has no entry node, or a node, subflow, menu target or edge is missing.  A failing executor
  never makes the call fail.\<close>

theorem failed_call_reason:
  assumes "runs_nodes ex env" and "runFlow env s logs w = Some (Inr res)" and "rr_status res = Failed"
  shows "rr_events res = [FailedEvent (s_channelId s) (s_callerNumber s) (f_id (s_flow s)) None ''No entry node found in flow'']
    \<or> (\<exists>ch c f k r. rr_events res = [FailedEvent ch c f (Some k) r] \<and> routing_failure r)"
  by (rule failed_run_reason [OF runs_nodes_rejects [OF assms(1)] assms(2,3)])

text \<open>An engine whose prompts are rejected by the database.\<close>

definition broken_media :: "unit media_env" where
  "broken_media = \<lparr>md_audio = (\<lambda>w i. Inl ''db down''), md_play = (\<lambda>t p w. (Inr (), w)), md_events = (\<lambda>n w. (([TimerFires], []), w))\<rparr>"

definition broken_executors :: "unit executors" where
  "broken_executors = \<lparr>ex_media = broken_media, ex_playback = (\<lambda>w. ((''p'', [PlaybackDone (Some ''p'')]), w)),
     ex_intl = (\<lambda>tz now. None), ex_now = (\<lambda>w. 0), ex_hangup = (\<lambda>w. w), ex_telemetry = (\<lambda>s n t w. w),
     ex_bridge = (\<lambda>t n s w. Some (Inr ''default'', s, w))\<rparr>"

definition broken_env :: "unit env" where
  "broken_env = demo_env\<lparr>env_exec := (\<lambda>n s w. case executeNode broken_executors n s w of
     None \<Rightarrow> (Inr ''hangup'', s, w) | Some (r, s', w') \<Rightarrow> (Inr r, s', w'))\<rparr>"

lemma broken_env_facts: "runs_nodes broken_executors broken_env" "logging_works broken_env" "bridges_keep_position broken_executors"
  by (auto simp: runs_nodes_def logging_works_def bridges_keep_position_def broken_env_def broken_executors_def demo_env_def
      split: option.split)

definition short_session :: session where
  "short_session = demo_session (demo_flow\<lparr>f_edges := []\<rparr>)"

lemma short_run: "\<exists>res. runFlow broken_env short_session [] () = Some (Inr res) \<and> rr_status res = Failed"
proof -
  have entry: "findEntryNode (s_flow short_session) = Some ''start''" by code_simp
  have "case step broken_env (initial_state short_session ''start'' [] ()) of Break st \<Rightarrow> r_status st = Failed | _ \<Rightarrow> False"
    by code_simp
  then obtain st where "step broken_env (initial_state short_session ''start'' [] ()) = Break st" "r_status st = Failed"
    by (auto split: outcome.splits)
  then have "run_loop broken_env (initial_state short_session ''start'' [] ()) = Some (Inr st) \<and> r_status st = Failed"
    by (simp add: run_loop.simps)
  then show ?thesis using entry by (auto simp: runFlow_def)
qed

theorem failed_call_reason_witness:
  "\<exists>res. runFlow broken_env short_session [] () = Some (Inr res) \<and>
    (rr_events res = [FailedEvent ''chan-1'' ''+4912345'' 1 None ''No entry node found in flow'']
     \<or> (\<exists>ch c f k r. rr_events res = [FailedEvent ch c f (Some k) r] \<and> routing_failure r))"
proof -
  obtain res where res: "runFlow broken_env short_session [] () = Some (Inr res)" "rr_status res = Failed" using short_run by blast
  have "s_channelId short_session = ''chan-1''" "s_callerNumber short_session = ''+4912345''" "f_id (s_flow short_session) = 1"
    by (simp_all add: short_session_def demo_session_def createSession_def demo_flow_def)
  with failed_call_reason [OF broken_env_facts(1) res] res(1) show ?thesis by auto
qed

text \<open>C18: an executor that fails ends the call outside of subflows: the channel is hung up, the node's log
  entry is closed with the trimmed message, and the status of the call stays what it was, completed.\<close>

theorem executor_error_ends_call:
  assumes "runs_nodes ex env" "logging_works env" "bridges_keep_position ex"
    and "current_node st = Some node" "r_stack st = []" and "\<forall>w. rejects ex node (r_session st) w m"
  shows "\<exists>st'. step env st = Break st' \<and> r_status st' = r_status st \<and> r_hangups st' = Suc (r_hangups st)
    \<and> r_logs st' = r_logs st @ [closed_entry (r_session st) node ''hangup'' (if trim m = [] then None else Some (trim m))]"
  by (rule rejected_step [OF assms(1-5)]) (use assms(6) in blast)

definition audio_node :: rt_node where
  "audio_node = \<lparr>n_key = ''hello'', n_type = ''play_audio'', n_label = [], n_config = [(''audio_file_id'', JNum (Dec 5 0))]\<rparr>"

definition audio_state :: "unit rt_state" where
  "audio_state = initial_state (demo_session (demo_flow\<lparr>f_nodes := [audio_node]\<rparr>)) ''hello'' [] ()"

theorem executor_error_ends_call_witness:
  "\<exists>st'. step broken_env audio_state = Break st' \<and> r_status st' = Completed
    \<and> r_logs st' = [closed_entry (r_session audio_state) audio_node ''hangup'' (Some ''db down'')]"
proof -
  have st: "current_node audio_state = Some audio_node" "r_stack audio_state = []" "r_status audio_state = Completed" "r_logs audio_state = []"
    by (simp_all add: audio_state_def current_node_def initial_state_def demo_session_def createSession_def find_node_def audio_node_def)
  have "rejects broken_executors audio_node s w ''db down''" for s w
    by (simp add: rejects_def executorMap_def executePlayAudio_def resolveAudioMediaPath_def broken_executors_def broken_media_def
        audio_node_def obj_get_def num_or_zero_def)
  moreover have "trim ''db down'' = ''db down''" by code_simp
  ultimately show ?thesis using executor_error_ends_call [OF broken_env_facts st(1,2), of "''db down''"] st(3,4) by auto
qed


text \<open>In the hour after midnight, which the formatter the code asks for writes as hour 24, every schedule
  is closed, even one that opens at 00:00.\<close>

theorem midnight_is_closed:
  assumes "intl (str_trim (obj_get config ''timezone'')) now = Some (wd, Some ''24'', Some m)" and "num_int (string_to_number m) = Some k" "0 \<le> k"
  shows "evaluateBusinessHours intl now config = ''closed''"
  by (rule hour_24_closed) (rule assms)+

definition all_day :: config where
  "all_day = [(''timezone'', JStr ''UTC''), (''schedule'', JObj [(''monday'', JObj [(''enabled'', JBool True), (''open'', JStr ''00:00''), (''close'', JStr ''23:59'')])])]"

definition clock :: "string \<Rightarrow> intl" where
  "clock h tz now = Some (Some ''Monday'', Some h, Some ''10'')"

theorem midnight_is_closed_witness:
  "evaluateBusinessHours (clock ''24'') 0 all_day = ''closed'' \<and> evaluateBusinessHours (clock ''23'') 0 all_day = ''open''"
proof
  have "num_int (string_to_number ''10'') = Some 10" by code_simp
  then show "evaluateBusinessHours (clock ''24'') 0 all_day = ''closed''"
    using midnight_is_closed [of "clock ''24''" all_day 0 "Some ''Monday''" "''10''" 10] by (simp add: clock_def)
  show "evaluateBusinessHours (clock ''23'') 0 all_day = ''open''" by code_simp
qed

section \<open>Templates\<close>

text \<open>Importing a template creates a flow whose current version has the nodes and edges the call engine
  would load from the template's current version; the flow is a draft, so the engine does not load it.\<close>

theorem imported_template:
  assumes "db_inv db" and "importTemplate now t db = Inr ((j, name), db')"
  shows "\<exists>tf v w g. List.find (\<lambda>f. cf_id f = t \<and> cf_isTemplate f) (call_flows db) = Some tf \<and> cf_currentVersionId tf = Some v
    \<and> find_flow db' j = Some g \<and> cf_name g = name \<and> cf_currentVersionId g = Some w
    \<and> map rt_node_of_row (version_nodes db' w) = map rt_node_of_row (version_nodes db v)
    \<and> map rt_edge_of_row (version_edges db' w) = map rt_edge_of_row (version_edges db v)
    \<and> loadFlowById db' j = None"
proof (rule importTemplate_effect [OF assms])
  fix tf v w g
  assume a: "List.find (\<lambda>f. cf_id f = t \<and> cf_isTemplate f) (call_flows db) = Some tf" "cf_currentVersionId tf = Some v"
    "find_flow db' j = Some g" "cf_status g = ''draft''" "cf_name g = name" "cf_currentVersionId g = Some w"
    "map rt_node_of_row (version_nodes db' w) = map rt_node_of_row (version_nodes db v)"
    "map rt_edge_of_row (version_edges db' w) = map rt_edge_of_row (version_edges db v)" "db_inv db'"
  have "flows_ok db'" using a(9) by (simp add: db_inv_def)
  moreover have "cf_status g \<noteq> ''published''" using a(4) by simp
  ultimately have "loadFlowById db' j = None" using draft_not_loaded a(3) by blast
  then show ?thesis using a by (intro exI conjI) (assumption | rule a)+
qed

definition template_db :: flow_db where
  "template_db = main_db\<lparr>call_flows := map (\<lambda>f. f\<lparr>cf_isTemplate := True\<rparr>) (call_flows main_db)\<rparr>"

lemma template_db_inv: "db_inv template_db"
  unfolding template_db_def by (rule db_inv_marked [OF tree_db_inv(3)])

theorem imported_template_witness:
  "\<exists>j name db'. importTemplate 9 1 template_db = Inr ((j, name), db') \<and> name = ''Main line (copy)'' \<and> loadFlowById db' j = None"
proof -
  have ans: "answer (importTemplate 9 1 template_db) = Some (2, ''Main line (copy)'')" by code_simp
  from result_parts [OF this] obtain db' where "importTemplate 9 1 template_db = Inr ((2, ''Main line (copy)''), db')" by blast
  moreover from imported_template [OF template_db_inv this] have "loadFlowById db' 2 = None" by blast
  ultimately show ?thesis by blast
qed

text \<open>The slug of an imported flow is the normalized base, or the base with the least free number from 2
  on when it is taken; no flow has it yet.\<close>

theorem template_slug:
  "ensureUniqueTemplateSlug db s = (if slug_taken db (normalizedBase s)
     then suffixed (normalizedBase s) (LEAST k. 2 \<le> k \<and> \<not> slug_taken db (suffixed (normalizedBase s) k)) else normalizedBase s)
   \<and> \<not> slug_taken db (ensureUniqueTemplateSlug db s)"
  unfolding ensureUniqueTemplateSlug_def
  using unique_slug_loop_least [of db "normalizedBase s" "normalizedBase s" 2] unique_slug_loop_free by blast

end
